(* ===== verification/Prelude.thy ===== *)
theory Prelude
  imports Complex_Main "HOL-Library.Multiset"
begin

text \<open>
  The vocabulary the component theories share: identifiers and timestamps, Python's exceptions as
  error values, JSON values, the SQL statements the stores of \<^verbatim>\<open>backend/\<close> issue as operations on
  lists of rows, and the run of a list of commands with the rule that lifts an invariant to it.

  Conventions.
  \<^item> A SQLite table is the list of its rows in insertion order. \<^verbatim>\<open>SELECT\<close> is \<open>filter\<close>,
    \<^verbatim>\<open>UPDATE\<close> is \<open>sql_update\<close>, \<^verbatim>\<open>DELETE\<close> is \<open>sql_delete\<close>, \<^verbatim>\<open>rowcount\<close> is
    \<open>sql_rowcount\<close>, \<^verbatim>\<open>ORDER BY\<close> a stable sort and \<^verbatim>\<open>fetchone\<close> the first selected row.
    One method call is one transaction, so an operation either returns the new table or an
    error with the table unchanged.
  \<^item> A timestamp is an integer (microseconds). The code stores ISO-8601 strings of one
    format per column and compares them as text, which orders them as the instants they denote.
  \<^item> What is random or external in a call (a fresh UUID, the clock) is an argument.
  \<^item> A column that holds JSON is modelled by \<open>json_text\<close>: the value its text denotes, or a text
    that does not parse.
\<close>

section \<open>Collections of facts\<close>

named_theorems sql_simps \<open>rewrite rules for the SQL table operations\<close>
named_theorems store_defs \<open>definitions of store operations, for unfolding\<close>

section \<open>Names for the basic types\<close>

type_synonym ident = string
type_synonym timestamp = int

text \<open>The exceptions the modelled code raises or lets through; texts are cut to their data. What code
  outside the repository raises is an \<open>ExternalError\<close>.\<close>

datatype py_error =
    ValueError string
  | TypeError string
  | KeyError string
  | AttributeError string
  | IntegrityError string
  | RecursionError
  | TimeoutError
  | LockConflictError ident ident
  | VersionConflictError int "int option"
  | ParseError string
  | RuntimeError string
  | SecurityError string
  | CancelledError
  | ExternalError string

type_synonym 'a result = "py_error + 'a"

fun is_ok :: "'a result \<Rightarrow> bool" where
  "is_ok (Inl _) = False"
| "is_ok (Inr _) = True"

text \<open>Loops whose body can raise: over a state, over a list of results, and \<^verbatim>\<open>all(...)\<close>, which stops
  at the first false value.\<close>

fun fold_result :: "('x \<Rightarrow> 's \<Rightarrow> 's result) \<Rightarrow> 'x list \<Rightarrow> 's \<Rightarrow> 's result" where
  "fold_result f [] s = Inr s"
| "fold_result f (x # xs) s = (case f x s of Inl e \<Rightarrow> Inl e | Inr s' \<Rightarrow> fold_result f xs s')"

fun sequence_results :: "'a result list \<Rightarrow> 'a list result" where
  "sequence_results [] = Inr []"
| "sequence_results (r # rs) =
     (case r of Inl e \<Rightarrow> Inl e
      | Inr x \<Rightarrow> (case sequence_results rs of Inl e \<Rightarrow> Inl e | Inr xs \<Rightarrow> Inr (x # xs)))"

fun all_results :: "bool result list \<Rightarrow> bool result" where
  "all_results [] = Inr True"
| "all_results (r # rs) =
     (case r of Inl e \<Rightarrow> Inl e | Inr b \<Rightarrow> if b then all_results rs else Inr False)"

lemma fold_result_cong [fundef_cong]:
  "xs = ys \<Longrightarrow> s = t \<Longrightarrow> (\<And>x u. x \<in> set ys \<Longrightarrow> f x u = g x u) \<Longrightarrow> fold_result f xs s = fold_result g ys t"
  by (induction ys arbitrary: xs s t) (auto split: sum.splits)

lemma sequence_results_map_Inr [simp]: "sequence_results (map Inr xs) = Inr xs"
  by (induction xs) simp_all

lemma sequence_results_InrD: "sequence_results rs = Inr xs \<Longrightarrow> rs = map Inr xs"
  by (induction rs arbitrary: xs) (auto split: sum.splits)

lemma all_results_True: "all_results rs = Inr True \<longleftrightarrow> (\<forall>r \<in> set rs. r = Inr True)"
  by (induction rs) (auto split: sum.splits)

lemma map_sum_Inr_iff: "map_sum id g r = Inr y \<longleftrightarrow> (\<exists>x. r = Inr x \<and> y = g x)"
  by (cases r) auto

lemma fold_result_inv:
  assumes "\<And>x s. x \<in> set xs \<Longrightarrow> I s \<Longrightarrow> \<exists>s'. f x s = Inr s' \<and> I s'" "I s"
  shows "\<exists>s'. fold_result f xs s = Inr s' \<and> I s'"
  using assms
proof (induction xs arbitrary: s)
  case Nil
  then show ?case by simp
next
  case (Cons x xs)
  from Cons.prems(1) [of x s] Cons.prems(2) obtain s' where "f x s = Inr s'" "I s'" by auto
  with Cons.IH [of s'] Cons.prems(1) show ?case by simp
qed

section \<open>JSON values\<close>

datatype json =
    JNull
  | JBool bool
  | JInt int
  | JReal real
  | JStr string
  | JList "json list"
  | JObj "(string \<times> json) list"

datatype json_text = Encoded json | Malformed string

text \<open>\<^verbatim>\<open>json.dumps\<close> and \<^verbatim>\<open>json.loads\<close> on that representation.\<close>

definition json_dumps :: "json \<Rightarrow> json_text" where
  "json_dumps v = Encoded v"

fun json_loads :: "json_text \<Rightarrow> json result" where
  "json_loads (Encoded v) = Inr v"
| "json_loads (Malformed s) = Inl (ValueError s)"

lemma json_loads_dumps [simp]: "json_loads (json_dumps v) = Inr v"
  by (simp add: json_dumps_def)

text \<open>\<^verbatim>\<open>dict.get\<close> on a JSON object: a key met twice keeps its last value.\<close>

definition obj_get :: "(string \<times> json) list \<Rightarrow> string \<Rightarrow> json option" where
  "obj_get kvs k = map_of (rev kvs) k"

text \<open>\<^verbatim>\<open>kvs.get(k, dflt)\<close>.\<close>

definition get_or :: "(string \<times> json) list \<Rightarrow> string \<Rightarrow> json \<Rightarrow> json" where
  "get_or kvs k dflt = (case obj_get kvs k of None \<Rightarrow> dflt | Some v \<Rightarrow> v)"

text \<open>Assignment to a dict: an old key keeps its place, a new one goes to the end.\<close>

definition dict_put :: "string \<Rightarrow> 'v \<Rightarrow> (string \<times> 'v) list \<Rightarrow> (string \<times> 'v) list" where
  "dict_put k v kvs =
     (if k \<in> fst ` set kvs then map (\<lambda>(k', v'). if k' = k then (k, v) else (k', v')) kvs
      else kvs @ [(k, v)])"

definition dict_del :: "string \<Rightarrow> (string \<times> 'v) list \<Rightarrow> (string \<times> 'v) list" where
  "dict_del k kvs = filter (\<lambda>(k', v'). k' \<noteq> k) kvs"

lemma map_of_dict_put: "map_of (dict_put k v kvs) j = (if j = k then Some v else map_of kvs j)"
proof (cases "k \<in> fst ` set kvs")
  case True
  have "map_of (map (\<lambda>(i, u). if i = k then (k, v) else (i, u)) kvs) j =
      (if j = k then map_option (\<lambda>_. v) (map_of kvs j) else map_of kvs j)"
    by (induction kvs) auto
  moreover have "\<exists>u. map_of kvs k = Some u" using True by (metis map_of_eq_None_iff not_None_eq)
  ultimately show ?thesis unfolding dict_put_def if_P [OF True] by auto
next
  case False
  then have "map_of kvs k = None" by (simp add: map_of_eq_None_iff)
  with False show ?thesis by (auto simp: dict_put_def map_add_def split: option.split)
qed

lemma distinct_dict_put:
  assumes "distinct (map fst kvs)"
  shows "distinct (map fst (dict_put k v kvs))"
proof (cases "k \<in> fst ` set kvs")
  case True
  have "map fst (map (\<lambda>(k', v'). if k' = k then (k, v) else (k', v')) kvs) = map fst kvs"
    unfolding map_map by (rule map_cong) (auto split: prod.split)
  with True assms show ?thesis by (simp only: dict_put_def if_True)
next
  case False
  with assms show ?thesis by (simp add: dict_put_def)
qed

lemma distinct_dict_del: "distinct (map fst kvs) \<Longrightarrow> distinct (map fst (dict_del k kvs))"
  by (simp add: dict_del_def distinct_map_filter)

text \<open>Python's truth value of a JSON value.\<close>

fun truthy :: "json \<Rightarrow> bool" where
  "truthy JNull = False"
| "truthy (JBool b) = b"
| "truthy (JInt i) = (i \<noteq> 0)"
| "truthy (JReal r) = (r \<noteq> 0)"
| "truthy (JStr s) = (s \<noteq> [])"
| "truthy (JList xs) = (xs \<noteq> [])"
| "truthy (JObj kvs) = (kvs \<noteq> [])"

section \<open>SQL on lists of rows\<close>

definition sql_update :: "('r \<Rightarrow> bool) \<Rightarrow> ('r \<Rightarrow> 'r) \<Rightarrow> 'r list \<Rightarrow> 'r list" where
  "sql_update P f t = map (\<lambda>r. if P r then f r else r) t"

definition sql_delete :: "('r \<Rightarrow> bool) \<Rightarrow> 'r list \<Rightarrow> 'r list" where
  "sql_delete P t = filter (\<lambda>r. \<not> P r) t"

definition sql_rowcount :: "('r \<Rightarrow> bool) \<Rightarrow> 'r list \<Rightarrow> nat" where
  "sql_rowcount P t = length (filter P t)"

definition fetchone :: "'r list \<Rightarrow> 'r option" where
  "fetchone rows = (case rows of [] \<Rightarrow> None | r # _ \<Rightarrow> Some r)"

definition order_by :: "('r \<Rightarrow> 'k::linorder) \<Rightarrow> 'r list \<Rightarrow> 'r list" where
  "order_by k rows = sort_key k rows"

definition order_by_desc :: "('r \<Rightarrow> int) \<Rightarrow> 'r list \<Rightarrow> 'r list" where
  "order_by_desc k rows = sort_key (\<lambda>r. - k r) rows"

text \<open>\<^verbatim>\<open>ORDER BY\<close> on a text column compares bytes: a stable insertion sort by \<open>text_le\<close>.\<close>

fun text_le :: "string \<Rightarrow> string \<Rightarrow> bool" where
  "text_le [] ys = True"
| "text_le (x # xs) [] = False"
| "text_le (x # xs) (y # ys) =
     ((of_char x :: nat) < of_char y \<or> of_char x = (of_char y :: nat) \<and> text_le xs ys)"

fun insert_by_text :: "('r \<Rightarrow> string) \<Rightarrow> 'r \<Rightarrow> 'r list \<Rightarrow> 'r list" where
  "insert_by_text k e [] = [e]"
| "insert_by_text k e (r # rs) =
     (if text_le (k e) (k r) then e # r # rs else r # insert_by_text k e rs)"

definition order_by_text :: "('r \<Rightarrow> string) \<Rightarrow> 'r list \<Rightarrow> 'r list" where
  "order_by_text k rows = foldr (insert_by_text k) rows []"

text \<open>\<^verbatim>\<open>LIMIT l OFFSET o\<close>: a negative limit is no limit, a negative offset is none.\<close>

definition sql_limit :: "int \<Rightarrow> int \<Rightarrow> 'r list \<Rightarrow> 'r list" where
  "sql_limit l off rows =
     (let rest = drop (nat off) rows in if l < 0 then rest else take (nat l) rest)"

lemma sql_update_Nil [sql_simps, simp]: "sql_update P f [] = []"
  by (simp add: sql_update_def)

lemma sql_update_Cons [sql_simps, simp]:
  "sql_update P f (r # t) = (if P r then f r else r) # sql_update P f t"
  by (simp add: sql_update_def)

lemma sql_update_append [sql_simps, simp]:
  "sql_update P f (t @ u) = sql_update P f t @ sql_update P f u"
  by (simp add: sql_update_def)

lemma length_sql_update [sql_simps, simp]: "length (sql_update P f t) = length t"
  by (simp add: sql_update_def)

lemma set_sql_update [sql_simps]: "set (sql_update P f t) = (\<lambda>r. if P r then f r else r) ` set t"
  by (simp add: sql_update_def)

lemma in_sql_update [sql_simps]:
  "r \<in> set (sql_update P f t) \<longleftrightarrow> (\<exists>q \<in> set t. r = (if P q then f q else q))"
  by (auto simp: sql_update_def)

lemma sql_update_id: "(\<And>r. r \<in> set t \<Longrightarrow> \<not> P r) \<Longrightarrow> sql_update P f t = t"
  by (induction t) auto

lemma map_sql_update: "(\<And>r. k (f r) = k r) \<Longrightarrow> map k (sql_update P f t) = map k t"
  by (induction t) auto

lemma filter_sql_update_disjoint:
  "(\<And>r. P r \<Longrightarrow> \<not> Q r) \<Longrightarrow> (\<And>r. P r \<Longrightarrow> \<not> Q (f r)) \<Longrightarrow>
     filter Q (sql_update P f t) = filter Q t"
  by (induction t) auto

lemma filter_sql_update_same:
  "(\<And>r. Q (f r) = Q r) \<Longrightarrow> filter Q (sql_update P f t) = sql_update P f (filter Q t)"
  by (induction t) auto

lemma set_sql_delete [sql_simps, simp]: "set (sql_delete P t) = {r \<in> set t. \<not> P r}"
  by (auto simp: sql_delete_def)

lemma filter_sql_delete [sql_simps]: "filter Q (sql_delete P t) = filter (\<lambda>r. Q r \<and> \<not> P r) t"
  by (auto simp: sql_delete_def intro: filter_cong)

lemma distinct_map_sql_delete [simp]: "distinct (map k t) \<Longrightarrow> distinct (map k (sql_delete P t))"
  by (simp add: sql_delete_def distinct_map_filter)

lemma sql_rowcount_0_iff [sql_simps]: "sql_rowcount P t = 0 \<longleftrightarrow> (\<forall>r \<in> set t. \<not> P r)"
  by (simp add: sql_rowcount_def filter_empty_conv)

lemma sql_rowcount_pos_iff [sql_simps]: "0 < sql_rowcount P t \<longleftrightarrow> (\<exists>r \<in> set t. P r)"
  by (metis bot_nat_0.not_eq_extremum sql_rowcount_0_iff)

lemma fetchone_Nil [simp]: "fetchone [] = None"
  by (simp add: fetchone_def)

lemma fetchone_Cons [simp]: "fetchone (r # rs) = Some r"
  by (simp add: fetchone_def)

lemma fetchone_None_iff [simp]: "fetchone rows = None \<longleftrightarrow> rows = []"
  by (cases rows) simp_all

lemma fetchone_filter_None: "fetchone (filter P t) = None \<longleftrightarrow> (\<forall>r \<in> set t. \<not> P r)"
  by (simp add: filter_empty_conv)

lemma fetchone_in_set: "fetchone rows = Some r \<Longrightarrow> r \<in> set rows"
  by (cases rows) auto

lemma fetchone_filterD: "fetchone (filter P t) = Some r \<Longrightarrow> r \<in> set t \<and> P r"
  by (auto dest!: fetchone_in_set)

lemma set_order_by [simp]: "set (order_by k rows) = set rows"
  by (simp add: order_by_def)

lemma mset_order_by [simp]: "mset (order_by k rows) = mset rows"
  by (simp add: order_by_def)

lemma sorted_order_by: "sorted (map k (order_by k rows))"
  by (simp add: order_by_def)

lemma order_by_Nil_iff [simp]: "order_by k rows = [] \<longleftrightarrow> rows = []"
  by (metis set_empty set_order_by)

lemma set_order_by_desc [simp]: "set (order_by_desc k rows) = set rows"
  by (simp add: order_by_desc_def)

lemma set_order_by_text [simp]: "set (order_by_text k rows) = set rows"
proof -
  have ins: "set (insert_by_text k e rs) = insert e (set rs)" for e rs by (induction rs) auto
  show ?thesis unfolding order_by_text_def by (induction rows) (simp_all add: ins)
qed

lemma set_sql_limit_subset: "set (sql_limit l off rows) \<subseteq> set rows"
  by (auto simp: sql_limit_def Let_def dest: in_set_takeD in_set_dropD)

lemma length_sql_limit: "0 \<le> l \<Longrightarrow> length (sql_limit l off rows) \<le> nat l"
  by (simp add: sql_limit_def Let_def)

text \<open>A row found through a unique key is the only one with that key.\<close>

lemma unique_key_eq:
  "distinct (map k t) \<Longrightarrow> r \<in> set t \<Longrightarrow> q \<in> set t \<Longrightarrow> k r = k q \<Longrightarrow> r = q"
  by (simp add: distinct_map inj_on_def)

lemma fetchone_key:
  "distinct (map k t) \<Longrightarrow> r \<in> set t \<Longrightarrow> fetchone (filter (\<lambda>q. k q = k r) t) = Some r"
proof (induction t)
  case Nil
  then show ?case by simp
next
  case (Cons q t)
  then show ?case by (auto simp: image_iff)
qed

lemma fetchone_new_key:
  "\<forall>q \<in> set t. k q \<noteq> k r \<Longrightarrow> fetchone (filter (\<lambda>q. k q = k r) (t @ [r])) = Some r"
  by (simp add: filter_empty_conv fetchone_def split: list.split)

lemma fetchone_snoc:
  assumes "k r = x" "x \<notin> k ` set t"
  shows "fetchone (filter (\<lambda>q. k q = x) (t @ [r])) = Some r"
proof -
  from assms(2) have "filter (\<lambda>q. k q = x) t = []" by (auto simp: filter_empty_conv)
  with assms(1) show ?thesis by simp
qed

section \<open>Searching and removing in lists\<close>

text \<open>The first index whose element satisfies \<open>P\<close>: \<^verbatim>\<open>for i, x in enumerate(xs): if P(x)\<close>.\<close>

fun find_idx :: "('a \<Rightarrow> bool) \<Rightarrow> 'a list \<Rightarrow> nat option" where
  "find_idx P [] = None"
| "find_idx P (x # xs) = (if P x then Some 0 else map_option Suc (find_idx P xs))"

lemma find_idx_None_iff [simp]: "find_idx P xs = None \<longleftrightarrow> (\<forall>x \<in> set xs. \<not> P x)"
  by (induction xs) auto

lemma find_idx_SomeD:
  "find_idx P xs = Some i \<Longrightarrow> i < length xs \<and> P (xs ! i) \<and> (\<forall>j < i. \<not> P (xs ! j))"
proof (induction xs arbitrary: i)
  case Nil
  then show ?case by simp
next
  case (Cons x xs)
  then show ?case by (auto split: if_splits simp: nth_Cons' less_Suc_eq_0_disj)
qed

text \<open>Overwriting position \<open>i\<close> with the last element and popping removes exactly one element.\<close>

lemma mset_swap_remove:
  assumes "i < length xs"
  shows "mset (butlast (xs[i := last xs])) = mset xs - {#xs ! i#}"
proof (cases "i = length xs - 1")
  case True
  with assms have "xs = butlast xs @ [xs ! i]"
    by (metis append_butlast_last_id last_conv_nth length_greater_0_conv less_zeroE list.size(3))
  then show ?thesis using True assms
    by (metis add_diff_cancel_right' butlast_list_update mset_append mset_single_iff mset.simps(1)
        mset.simps(2))
next
  case False
  with assms have i: "i < length (butlast xs)" and ne: "xs \<noteq> []" by auto
  from ne have xs: "xs = butlast xs @ [last xs]" by simp
  have "butlast (xs[i := last xs]) = (butlast xs)[i := last xs]"
    using False assms by (simp add: butlast_list_update)
  moreover have "mset ((butlast xs)[i := last xs]) =
      add_mset (last xs) (mset (butlast xs)) - {#xs ! i#}"
  proof -
    have "butlast xs ! i \<in># mset (butlast xs)" using i by (metis nth_mem_mset)
    then show ?thesis using i by (simp add: mset_update nth_butlast add_mset_diff_bothsides)
  qed
  moreover have "mset xs = add_mset (last xs) (mset (butlast xs))"
    by (subst xs) (simp add: union_commute)
  ultimately show ?thesis by simp
qed

section \<open>Strings\<close>

text \<open>\<^verbatim>\<open>str.strip()\<close> on code points below 256, and the decimal digits of a number.\<close>

definition py_isspace :: "char \<Rightarrow> bool" where
  "py_isspace c \<longleftrightarrow> (of_char c :: nat) \<in> {9, 10, 11, 12, 13, 28, 29, 30, 31, 32, 133, 160}"

definition py_strip :: "string \<Rightarrow> string" where
  "py_strip s = rev (dropWhile py_isspace (rev (dropWhile py_isspace s)))"

fun show_nat :: "nat \<Rightarrow> string" where
  "show_nat n = (if n < 10 then [char_of (48 + n)] else show_nat (n div 10) @ [char_of (48 + n mod 10)])"

declare show_nat.simps [simp del]

text \<open>\<^verbatim>\<open>s.startswith(p)\<close>, \<^verbatim>\<open>p in s\<close>, and \<^verbatim>\<open>str.lower()\<close> on code points below 256.\<close>

fun starts_with :: "string \<Rightarrow> string \<Rightarrow> bool" where
  "starts_with [] s = True"
| "starts_with (p # ps) [] = False"
| "starts_with (p # ps) (c # s) = (p = c \<and> starts_with ps s)"

fun contains :: "string \<Rightarrow> string \<Rightarrow> bool" where
  "contains p [] = (p = [])"
| "contains p (c # s) = (starts_with p (c # s) \<or> contains p s)"

definition lower_char :: "char \<Rightarrow> char" where
  "lower_char c =
     (let n = of_char c :: nat
      in if 65 \<le> n \<and> n \<le> 90 \<or> 192 \<le> n \<and> n \<le> 222 \<and> n \<noteq> 215 then char_of (n + 32) else c)"

definition py_lower :: "string \<Rightarrow> string" where
  "py_lower s = map lower_char s"

lemma starts_with_append [simp]: "starts_with p (p @ s)"
  by (induction p) simp_all

lemma starts_with_iff: "starts_with p s \<longleftrightarrow> (\<exists>t. s = p @ t)"
  by (induction p s rule: starts_with.induct) auto

lemma contains_iff: "contains p s \<longleftrightarrow> (\<exists>u t. s = u @ p @ t)"
proof (induction s)
  case Nil
  then show ?case by auto
next
  case (Cons c s)
  have "(\<exists>u t. c # s = u @ p @ t) \<longleftrightarrow> (\<exists>t. c # s = p @ t) \<or> (\<exists>u t. s = u @ p @ t)"
    by (metis append_Cons append_Nil neq_Nil_conv list.inject)
  with Cons show ?case by (simp add: starts_with_iff)
qed

section \<open>Runs of commands\<close>

text \<open>
  A store is used through a sequence of commands. The locale states the contract "every command
  keeps the invariant" once; each component's theory interprets it on its own step function.
\<close>

definition run_commands :: "('c \<Rightarrow> 's \<Rightarrow> 's) \<Rightarrow> 'c list \<Rightarrow> 's \<Rightarrow> 's" where
  "run_commands step cs s = fold step cs s"

lemma run_commands_Nil [simp]: "run_commands step [] s = s"
  by (simp add: run_commands_def)

lemma run_commands_Cons [simp]: "run_commands step (c # cs) s = run_commands step cs (step c s)"
  by (simp add: run_commands_def)

locale store_machine =
  fixes step :: "'c \<Rightarrow> 's \<Rightarrow> 's" and inv :: "'s \<Rightarrow> bool"
  assumes step_inv: "inv s \<Longrightarrow> inv (step c s)"
begin

lemma run_inv: "inv s \<Longrightarrow> inv (run_commands step cs s)"
  by (induction cs arbitrary: s) (auto intro: step_inv)

lemma run_inv_prefix: "inv s \<Longrightarrow> inv (run_commands step (take n cs) s)"
  by (rule run_inv)

end

end
