(* ===== verification/Py_Heapq.thy ===== *)
theory Py_Heapq
  imports Prelude
begin

text \<open>
  Python's \<^verbatim>\<open>heapq\<close>, as the swarm's task queue uses it: \<open>heappush\<close> and \<open>heapify\<close> with the two
  sift loops of the standard library, over any comparison \<open>lt\<close> (the item's \<^verbatim>\<open>__lt__\<close>). The locale
  \<open>heap_order\<close> is what the comparison must satisfy; inside it the loops are shown to permute the
  list and to restore the heap order, so that the first element is a least one.
\<close>

text \<open>The index of a parent: \<^verbatim>\<open>(pos - 1) >> 1\<close>.\<close>

definition par :: "nat \<Rightarrow> nat" where
  "par i = (i - 1) div 2"

lemma par_less: "0 < i \<Longrightarrow> par i < i"
  by (simp add: par_def)

lemma par_le: "par i \<le> i"
  by (simp add: par_def)

lemma par_child [simp]: "par (2 * i + 1) = i" "par (2 * i + 2) = i"
    "par (Suc (2 * i)) = i" "par (Suc (Suc (2 * i))) = i"
  by (simp_all add: par_def)

lemma par_eq_iff: "0 < c \<Longrightarrow> par c = i \<longleftrightarrow> c = 2 * i + 1 \<or> c = 2 * i + 2"
  by (auto simp: par_def)

function siftdown_loop :: "('a \<Rightarrow> 'a \<Rightarrow> bool) \<Rightarrow> 'a list \<Rightarrow> nat \<Rightarrow> nat \<Rightarrow> 'a \<Rightarrow> 'a list" where
  "siftdown_loop lt h start pos x =
     (if start < pos \<and> lt x (h ! par pos)
      then siftdown_loop lt (h[pos := h ! par pos]) start (par pos) x
      else h[pos := x])"
  by pat_completeness auto
termination
  by (relation "measure (\<lambda>(lt, h, start, pos, x). pos)") (auto simp: par_less)

declare siftdown_loop.simps [simp del]

definition siftdown :: "('a \<Rightarrow> 'a \<Rightarrow> bool) \<Rightarrow> 'a list \<Rightarrow> nat \<Rightarrow> nat \<Rightarrow> 'a list" where
  "siftdown lt h start pos = siftdown_loop lt h start pos (h ! pos)"

definition smaller_child :: "('a \<Rightarrow> 'a \<Rightarrow> bool) \<Rightarrow> 'a list \<Rightarrow> nat \<Rightarrow> nat" where
  "smaller_child lt h pos =
     (let c = 2 * pos + 1 in if c + 1 < length h \<and> \<not> lt (h ! c) (h ! (c + 1)) then c + 1 else c)"

lemma smaller_child_cases:
  "smaller_child lt h pos = 2 * pos + 1 \<or>
   smaller_child lt h pos = 2 * pos + 2 \<and> 2 * pos + 2 < length h"
  by (auto simp: smaller_child_def Let_def)

function siftup_loop :: "('a \<Rightarrow> 'a \<Rightarrow> bool) \<Rightarrow> 'a list \<Rightarrow> nat \<Rightarrow> 'a list \<times> nat" where
  "siftup_loop lt h pos =
     (if 2 * pos + 1 < length h
      then siftup_loop lt (h[pos := h ! smaller_child lt h pos]) (smaller_child lt h pos)
      else (h, pos))"
  by pat_completeness auto
termination
proof (relation "measure (\<lambda>(lt, h, pos). length h - pos)", goal_cases)
  case (2 lt h pos)
  then show ?case using smaller_child_cases [of lt h pos] by auto
qed simp

declare siftup_loop.simps [simp del]

definition siftup :: "('a \<Rightarrow> 'a \<Rightarrow> bool) \<Rightarrow> 'a list \<Rightarrow> nat \<Rightarrow> 'a list" where
  "siftup lt h pos =
     (case siftup_loop lt h pos of (h', p) \<Rightarrow> siftdown lt (h'[p := h ! pos]) pos p)"

definition heappush :: "('a \<Rightarrow> 'a \<Rightarrow> bool) \<Rightarrow> 'a list \<Rightarrow> 'a \<Rightarrow> 'a list" where
  "heappush lt h x = siftdown lt (h @ [x]) 0 (length h)"

definition heapify :: "('a \<Rightarrow> 'a \<Rightarrow> bool) \<Rightarrow> 'a list \<Rightarrow> 'a list" where
  "heapify lt h = fold (\<lambda>i g. siftup lt g i) (rev [0..<length h div 2]) h"

section \<open>The loops permute the list\<close>

lemma length_siftdown_loop [simp]: "length (siftdown_loop lt h s p x) = length h"
proof (induction lt h s p x rule: siftdown_loop.induct)
  case (1 lt h s p x)
  then show ?case by (subst siftdown_loop.simps) auto
qed

lemma mset_hole_swap:
  assumes "p < length h" "q < length h" "p \<noteq> q"
  shows "mset (h[p := h ! q, q := x]) = mset (h[p := x])"
proof -
  have "h[p := h ! q, q := x] = h[p := x, q := x, p := h ! q]"
    using assms by (simp add: list_update_swap [of p q])
  with mset_swap [of q "h[p := x]" p] assms show ?thesis by simp
qed

lemma mset_siftdown_loop: "p < length h \<Longrightarrow> mset (siftdown_loop lt h s p x) = mset (h[p := x])"
proof (induction lt h s p x rule: siftdown_loop.induct)
  case (1 lt h s p x)
  show ?case
  proof (cases "s < p \<and> lt x (h ! par p)")
    case True
    with "1.prems" par_less [of p] have "par p < length h" "p \<noteq> par p" by auto
    with True "1.IH" "1.prems" show ?thesis
      by (subst siftdown_loop.simps) (simp add: mset_hole_swap)
  next
    case False
    then show ?thesis by (auto simp: siftdown_loop.simps [of lt h s p x])
  qed
qed

lemma mset_siftdown: "p < length h \<Longrightarrow> mset (siftdown lt h s p) = mset h"
  by (simp add: siftdown_def mset_siftdown_loop)

lemma siftup_loop_props:
  "p < length h \<Longrightarrow> siftup_loop lt h p = (h', q) \<Longrightarrow>
     length h' = length h \<and> q < length h \<and> mset (h'[q := x]) = mset (h[p := x])"
proof (induction lt h p arbitrary: h' q rule: siftup_loop.induct)
  case (1 lt h p)
  let ?c = "smaller_child lt h p"
  show ?case
  proof (cases "2 * p + 1 < length h")
    case True
    with smaller_child_cases [of lt h p] have c: "?c < length h" "?c \<noteq> p" by auto
    from "1.prems" True have "siftup_loop lt (h[p := h ! ?c]) ?c = (h', q)"
      by (subst (asm) siftup_loop.simps) simp
    with "1.IH" [OF True] c have "length h' = length h \<and> q < length h \<and>
        mset (h'[q := x]) = mset (h[p := h ! ?c, ?c := x])" by simp
    with c "1.prems" show ?thesis by (simp add: mset_hole_swap)
  next
    case False
    with "1.prems" show ?thesis by (subst (asm) siftup_loop.simps) auto
  qed
qed

lemma siftup_perm:
  assumes "p < length h"
  shows "length (siftup lt h p) = length h" and "mset (siftup lt h p) = mset h"
proof -
  obtain h' q where hq: "siftup_loop lt h p = (h', q)" by fastforce
  from siftup_loop_props [OF assms hq, of "h ! p"] show "mset (siftup lt h p) = mset h"
    by (simp add: siftup_def hq mset_siftdown)
  then show "length (siftup lt h p) = length h" by (metis size_mset)
qed

lemma fold_siftup_perm:
  "\<forall>i \<in> set is. i < length h \<Longrightarrow>
     mset (fold (\<lambda>i g. siftup lt g i) is h) = mset h \<and>
     length (fold (\<lambda>i g. siftup lt g i) is h) = length h"
  by (induction "is" arbitrary: h) (auto simp: siftup_perm)

lemma mset_heapify [simp]: "mset (heapify lt h) = mset h"
  and length_heapify [simp]: "length (heapify lt h) = length h"
proof -
  have "\<forall>i \<in> set (rev [0..<length h div 2]). i < length h" by auto
  from fold_siftup_perm [OF this, of lt]
  show "mset (heapify lt h) = mset h" "length (heapify lt h) = length h"
    by (simp_all add: heapify_def)
qed

lemma mset_heappush [simp]: "mset (heappush lt h x) = add_mset x (mset h)"
  by (simp add: heappush_def mset_siftdown)

lemma length_heappush [simp]: "length (heappush lt h x) = Suc (length h)"
  by (simp add: heappush_def siftdown_def)

section \<open>The heap order\<close>

text \<open>
  \<open>heap_from lt s h\<close>: no element below a parent at or after position \<open>s\<close> is smaller than that
  parent. \<open>heap_from lt 0 h\<close> is the heap order of the whole list. While a loop runs, the position
  \<open>p\<close> it will write last is a hole, and \<open>hole_ok\<close> is the order of everything else, across it.
\<close>

definition heap_from :: "('a \<Rightarrow> 'a \<Rightarrow> bool) \<Rightarrow> nat \<Rightarrow> 'a list \<Rightarrow> bool" where
  "heap_from lt s h \<longleftrightarrow>
     (\<forall>i < length h. 0 < i \<longrightarrow> s \<le> par i \<longrightarrow> \<not> lt (h ! i) (h ! par i))"

definition hole_ok :: "('a \<Rightarrow> 'a \<Rightarrow> bool) \<Rightarrow> nat \<Rightarrow> 'a list \<Rightarrow> nat \<Rightarrow> bool" where
  "hole_ok lt s h p \<longleftrightarrow>
     (\<forall>i < length h. 0 < i \<longrightarrow> s \<le> par i \<longrightarrow> i \<noteq> p \<longrightarrow> par i \<noteq> p \<longrightarrow> \<not> lt (h ! i) (h ! par i)) \<and>
     (\<forall>c < length h. 0 < c \<longrightarrow> par c = p \<longrightarrow> 0 < p \<longrightarrow> s \<le> par p \<longrightarrow> \<not> lt (h ! c) (h ! par p))"

text \<open>\<open>anc s p\<close>: going up from \<open>p\<close> reaches \<open>s\<close>, so a loop from \<open>p\<close> never jumps over \<open>s\<close>.\<close>

definition anc :: "nat \<Rightarrow> nat \<Rightarrow> bool" where
  "anc s p \<longleftrightarrow> (\<exists>k. (par ^^ k) p = s)"

lemma anc_refl [simp]: "anc s s"
  by (metis anc_def funpow_0)

lemma anc_child: "anc s (par c) \<Longrightarrow> anc s c"
  by (metis anc_def funpow_simps_right(2) comp_apply)

lemma funpow_par_le: "(par ^^ k) p \<le> p"
  by (induction k) (auto intro: le_trans [OF par_le])

lemma anc_parent:
  assumes "anc s p" "s < p"
  shows "anc s (par p)" "s \<le> par p"
proof -
  from assms obtain k where k: "(par ^^ k) p = s" by (auto simp: anc_def)
  with assms obtain j where "k = Suc j" by (cases k) auto
  with k have "(par ^^ j) (par p) = s" by (simp add: funpow_swap1)
  then show "anc s (par p)" by (auto simp: anc_def)
  from funpow_par_le [of j "par p"] \<open>(par ^^ j) (par p) = s\<close> show "s \<le> par p" by simp
qed

lemma anc_0: "anc 0 p"
proof (induction p rule: less_induct)
  case (less p)
  then show ?case using par_less [of p] anc_child by (cases "p = 0") auto
qed

locale heap_order =
  fixes lt :: "'a \<Rightarrow> 'a \<Rightarrow> bool"
  assumes lt_asym: "lt a b \<Longrightarrow> \<not> lt b a"
    and lt_negtrans: "\<not> lt a b \<Longrightarrow> \<not> lt b c \<Longrightarrow> \<not> lt a c"
begin

lemma lt_down: "\<not> lt a b \<Longrightarrow> lt c b \<Longrightarrow> \<not> lt a c"
  using lt_asym lt_negtrans by blast

lemma hole_move_up:
  assumes p: "p < length h" "s < p" "s \<le> par p" and ok: "hole_ok lt s h p"
    and x: "lt x (h ! par p)"
  shows "hole_ok lt s (h[p := h ! par p]) (par p)"
    and "\<forall>c < length h. 0 < c \<longrightarrow> par c = par p \<longrightarrow> \<not> lt (h[p := h ! par p] ! c) x"
proof -
  have pp: "par p < p" using p par_less by auto
  have up: "\<not> lt (h ! i) (h ! par i)"
    if "i < length h" "0 < i" "s \<le> par i" "i \<noteq> p" "par i \<noteq> p" for i
    using ok that by (simp add: hole_ok_def)
  have over: "\<not> lt (h ! c) (h ! par p)" if "c < length h" "0 < c" "par c = p" for c
    using ok that p by (auto simp: hole_ok_def)
  have gpar: "par (par p) \<noteq> p" using pp par_le [of "par p"] by simp
  have below: "\<not> lt (h[p := h ! par p] ! c) (h ! par (par p))"
    if c: "c < length h" "0 < c" "par c = par p" "0 < par p" "s \<le> par (par p)" for c
  proof -
    have q: "\<not> lt (h ! par p) (h ! par (par p))" using up [of "par p"] c p pp gpar by auto
    moreover have "\<not> lt (h ! c) (h ! par p)" if "c \<noteq> p" using up [of c] c p pp that by auto
    ultimately show ?thesis using lt_negtrans p by (cases "c = p") auto
  qed
  show "hole_ok lt s (h[p := h ! par p]) (par p)"
    unfolding hole_ok_def
  proof (intro conjI allI impI, goal_cases)
    case (1 i)
    then have "i \<noteq> p" by auto
    with 1 show ?case using up [of i] over [of i] p pp by (cases "par i = p") auto
  next
    case (2 c)
    then show ?case using below [of c] gpar by simp
  qed
  show "\<forall>c < length h. 0 < c \<longrightarrow> par c = par p \<longrightarrow> \<not> lt (h[p := h ! par p] ! c) x"
  proof (intro allI impI)
    fix c assume c: "c < length h" "0 < c" "par c = par p"
    show "\<not> lt (h[p := h ! par p] ! c) x"
    proof (cases "c = p")
      case True
      then show ?thesis using p lt_asym x by simp
    next
      case False
      have "\<not> lt (h ! c) (h ! par c)" by (rule up) (use c p pp False in auto)
      with c(3) have "\<not> lt (h ! c) x" using lt_down [OF _ x] by metis
      with False show ?thesis by simp
    qed
  qed
qed

lemma siftdown_loop_heap:
  assumes "p < length h" "anc s p" "hole_ok lt s h p"
    and "\<forall>c < length h. 0 < c \<longrightarrow> par c = p \<longrightarrow> \<not> lt (h ! c) x"
  shows "heap_from lt s (siftdown_loop lt h s p x)"
  using assms
proof (induction p arbitrary: h rule: less_induct)
  case (less p)
  show ?case
  proof (cases "s < p \<and> lt x (h ! par p)")
    case True
    with less.prems anc_parent [of s p] have up: "anc s (par p)" "s \<le> par p" by auto
    from True par_less [of p] less.prems(1) have pp: "par p < p" "par p < length h" by auto
    from hole_move_up [of p h s x] less.prems True up
    have "hole_ok lt s (h[p := h ! par p]) (par p)"
      and "\<forall>c < length (h[p := h ! par p]). 0 < c \<longrightarrow> par c = par p \<longrightarrow>
             \<not> lt (h[p := h ! par p] ! c) x" by auto
    with less.IH [of "par p" "h[p := h ! par p]"] pp up True
    show ?thesis by (subst siftdown_loop.simps) simp
  next
    case False
    have "heap_from lt s (h[p := x])"
      unfolding heap_from_def
    proof (intro allI impI)
      fix i assume i: "i < length (h[p := x])" "0 < i" "s \<le> par i"
      consider "i = p" | "par i = p" "i \<noteq> p" | "i \<noteq> p" "par i \<noteq> p" by blast
      then show "\<not> lt (h[p := x] ! i) (h[p := x] ! par i)"
      proof cases
        case 1
        with i False par_less [of p] show ?thesis by auto
      next
        case 2
        with i less.prems show ?thesis by auto
      next
        case 3
        with i less.prems(3) show ?thesis by (simp add: hole_ok_def)
      qed
    qed
    with False show ?thesis by (subst siftdown_loop.simps) auto
  qed
qed

lemma hole_move_down:
  assumes p: "2 * p + 1 < length h" "s \<le> p" and ok: "hole_ok lt s h p"
  defines "c \<equiv> smaller_child lt h p"
  shows "hole_ok lt s (h[p := h ! c]) c"
proof -
  have c: "par c = p" "p < c" "c < length h" "0 < c"
    using smaller_child_cases [of lt h p] p by (auto simp: c_def)
  have sib: "\<not> lt (h ! d) (h ! c)" if "d < length h" "0 < d" "par d = p" "d \<noteq> c" for d
    using that lt_asym par_eq_iff [of d p]
    by (auto simp: c_def smaller_child_def Let_def split: if_splits)
  have up: "\<not> lt (h ! i) (h ! par i)"
    if "i < length h" "0 < i" "s \<le> par i" "i \<noteq> p" "par i \<noteq> p" for i
    using ok that by (simp add: hole_ok_def)
  show ?thesis
    unfolding hole_ok_def
  proof (intro conjI allI impI, goal_cases)
    case (1 i)
    consider "i = p" | "par i = p" "i \<noteq> p" | "i \<noteq> p" "par i \<noteq> p" by blast
    then show ?case
    proof cases
      case 1
      with \<open>0 < i\<close> par_less [of p] have "par p \<noteq> p" by auto
      with 1 ok c p \<open>0 < i\<close> \<open>s \<le> par i\<close> show ?thesis by (simp add: hole_ok_def)
    next
      case 2
      with 1 sib [of i] c show ?thesis by auto
    next
      case 3
      with 1 up show ?thesis by auto
    qed
  next
    case (2 d)
    with c p up [of d] par_less [of d] show ?case by auto
  qed
qed

lemma siftup_loop_hole:
  assumes "p < length h" "s \<le> p" "anc s p" "hole_ok lt s h p" "siftup_loop lt h p = (h', q)"
  shows "hole_ok lt s h' q \<and> anc s q \<and> length h' \<le> 2 * q + 1"
  using assms
proof (induction "length h - p" arbitrary: h p rule: less_induct)
  case less
  let ?c = "smaller_child lt h p"
  show ?case
  proof (cases "2 * p + 1 < length h")
    case True
    then have c: "par ?c = p" "p < ?c" "?c < length h"
      using smaller_child_cases [of lt h p] by auto
    moreover from less.prems True have "siftup_loop lt (h[p := h ! ?c]) ?c = (h', q)"
      by (subst (asm) siftup_loop.simps) simp
    moreover have "anc s ?c" using less.prems c anc_child by auto
    moreover have "hole_ok lt s (h[p := h ! ?c]) ?c"
      using hole_move_down True less.prems by blast
    ultimately show ?thesis using less.hyps [of "h[p := h ! ?c]" ?c] less.prems by simp
  next
    case False
    with less.prems show ?thesis by (subst (asm) siftup_loop.simps) auto
  qed
qed

lemma siftup_heap:
  assumes "p < length h" "heap_from lt (Suc p) h"
  shows "heap_from lt p (siftup lt h p)"
proof -
  obtain h' q where hq: "siftup_loop lt h p = (h', q)" by fastforce
  have "hole_ok lt p h p"
    using assms(2) par_less [of p] by (auto simp: hole_ok_def heap_from_def)
  from siftup_loop_hole [OF assms(1) _ _ this hq]
  have q: "hole_ok lt p h' q" "anc p q" "length h' \<le> 2 * q + 1" by auto
  from siftup_loop_props [OF assms(1) hq] have ql: "q < length h'" by simp
  have leaf: "par c \<noteq> q" if "c < length h'" "0 < c" for c
    using q(3) par_eq_iff [of c q] that by auto
  have "hole_ok lt p (h'[q := h ! p]) q" using q(1) by (auto simp: hole_ok_def dest!: leaf)
  then have "heap_from lt p (siftdown_loop lt (h'[q := h ! p]) p q (h ! p))"
    using siftdown_loop_heap [of q "h'[q := h ! p]" p "h ! p"] q(2) ql leaf by auto
  with ql show ?thesis by (simp add: siftup_def hq siftdown_def)
qed

lemma heappush_heap:
  assumes "heap_from lt 0 h"
  shows "heap_from lt 0 (heappush lt h x)"
proof -
  let ?h = "h @ [x]" and ?p = "length h"
  have up: "par i \<noteq> ?p" "par i < ?p" if "i < length ?h" "0 < i" for i
    using par_less [of i] that by auto
  have "hole_ok lt 0 ?h ?p"
    unfolding hole_ok_def
  proof (intro conjI allI impI, goal_cases)
    case (1 i)
    then have "i < ?p" by simp
    with 1 up [of i] assms show ?case by (simp add: heap_from_def nth_append)
  next
    case (2 c)
    with up [of c] show ?case by simp
  qed
  moreover have "\<forall>c < length ?h. 0 < c \<longrightarrow> par c = ?p \<longrightarrow> \<not> lt (?h ! c) x"
    using up by blast
  ultimately show ?thesis
    using siftdown_loop_heap [of ?p ?h 0 x] anc_0 by (simp add: heappush_def siftdown_def)
qed

lemma heapify_heap: "heap_from lt 0 (heapify lt h)"
proof -
  have step: "heap_from lt 0 (fold (\<lambda>i g. siftup lt g i) (rev [0..<n]) g)"
    if "heap_from lt n g" "n \<le> length g" for n g
    using that
  proof (induction n arbitrary: g)
    case 0
    then show ?case by simp
  next
    case (Suc n)
    then show ?case using siftup_heap [of n g] by (simp add: siftup_perm)
  qed
  have "heap_from lt (length h div 2) h"
    by (auto simp: heap_from_def par_def)
  then show ?thesis unfolding heapify_def by (rule step) simp
qed

lemma heap_root_least:
  assumes "heap_from lt 0 h" "i < length h"
  shows "\<not> lt (h ! i) (h ! 0)"
  using assms
proof (induction i rule: less_induct)
  case (less i)
  show ?case
  proof (cases "i = 0")
    case True
    then show ?thesis using lt_asym by blast
  next
    case False
    with less par_less [of i] have "\<not> lt (h ! par i) (h ! 0)" "\<not> lt (h ! i) (h ! par i)"
      by (auto simp: heap_from_def)
    then show ?thesis using lt_negtrans by blast
  qed
qed

end

end
