(* ===== verification/Swarm_Task_Queue.thy ===== *)
theory Swarm_Task_Queue
  imports Py_Heapq
begin

text \<open>
  \<^verbatim>\<open>backend/swarm/task_queue.py\<close>: the typed tasks of the swarm and its bounded priority queue.
  \<open>task_type\<close>, \<open>swarm_task\<close> and \<open>task_queue\<close> are the enum and the two classes; \<open>submit\<close>,
  \<open>submit_batch\<close> and the three \<open>pop\<close> operations are the methods, each returning its result and
  the new queue. The lemmas show that every operation keeps the array a heap, within its bound and
  with balanced counters, what a pop removes, and when it removes a most urgent task.
\<close>

datatype task_type =
    SCAN_FILES | SCAN_SMELLS | TEST_VALIDATE | TEST_SYNTAX | RESEARCH_WEB | RESEARCH_ACADEMIC
  | INDEX_RAG | INDEX_HASH | GIT_BRANCH | GIT_DIFF | LLM_REFLECT | LLM_EDIT | LLM_TARGET
  | DELEGATED_JOB

definition GPU_TASKS :: "task_type set" where
  "GPU_TASKS = {LLM_REFLECT, LLM_EDIT, LLM_TARGET}"

definition IO_TASKS :: "task_type set" where
  "IO_TASKS = {RESEARCH_WEB, RESEARCH_ACADEMIC}"

record swarm_task =
  st_type :: task_type
  st_payload :: json
  st_priority :: int
  st_id :: ident
  st_timeout :: real
  st_created_at :: real
  st_parent_id :: "ident option"
  st_tree_root_id :: "ident option"
  st_retries :: int
  st_max_retries :: int

definition requires_gpu :: "swarm_task \<Rightarrow> bool" where
  "requires_gpu t \<longleftrightarrow> st_type t \<in> GPU_TASKS"

definition is_io_bound :: "swarm_task \<Rightarrow> bool" where
  "is_io_bound t \<longleftrightarrow> st_type t \<in> IO_TASKS"

text \<open>\<^verbatim>\<open>__lt__\<close>: by priority number, then by age.\<close>

definition swarm_task_lt :: "swarm_task \<Rightarrow> swarm_task \<Rightarrow> bool" where
  "swarm_task_lt a b \<longleftrightarrow>
     (if st_priority a \<noteq> st_priority b then st_priority a < st_priority b
      else st_created_at a < st_created_at b)"

record task_queue =
  tq_heap :: "swarm_task list"
  tq_max_size :: int
  tq_total_submitted :: nat
  tq_total_completed :: nat

definition new_task_queue :: "int \<Rightarrow> task_queue" where
  "new_task_queue max_size =
     \<lparr>tq_heap = [], tq_max_size = max_size, tq_total_submitted = 0, tq_total_completed = 0\<rparr>"

definition submit :: "swarm_task \<Rightarrow> task_queue \<Rightarrow> bool \<times> task_queue" where
  "submit task q =
     (if int (length (tq_heap q)) \<ge> tq_max_size q then (False, q)
      else (True, q\<lparr>tq_heap := heappush swarm_task_lt (tq_heap q) task,
                    tq_total_submitted := tq_total_submitted q + 1\<rparr>))"

fun submit_batch :: "swarm_task list \<Rightarrow> task_queue \<Rightarrow> nat \<times> task_queue" where
  "submit_batch [] q = (0, q)"
| "submit_batch (t # ts) q =
     (let (ok, q1) = submit t q; (n, q2) = submit_batch ts q1
      in (if ok then n + 1 else n, q2))"

definition pop_matching ::
  "(swarm_task \<Rightarrow> bool) \<Rightarrow> task_queue \<Rightarrow> swarm_task option \<times> task_queue" where
  "pop_matching P q =
     (case find_idx P (tq_heap q) of
        None \<Rightarrow> (None, q)
      | Some i \<Rightarrow>
          (let task = tq_heap q ! i;
               rest = butlast ((tq_heap q)[i := last (tq_heap q)])
           in (Some task,
               q\<lparr>tq_heap := (if rest = [] then rest else heapify swarm_task_lt rest),
                 tq_total_completed := tq_total_completed q + 1\<rparr>)))"

definition pop_cpu :: "task_queue \<Rightarrow> swarm_task option \<times> task_queue" where
  "pop_cpu q = pop_matching (\<lambda>t. \<not> requires_gpu t \<and> \<not> is_io_bound t) q"

definition pop_gpu :: "task_queue \<Rightarrow> swarm_task option \<times> task_queue" where
  "pop_gpu q = pop_matching requires_gpu q"

definition pop_io :: "task_queue \<Rightarrow> swarm_task option \<times> task_queue" where
  "pop_io q = pop_matching is_io_bound q"

definition tq_depth :: "task_queue \<Rightarrow> nat" where
  "tq_depth q = length (tq_heap q)"

definition gpu_depth :: "task_queue \<Rightarrow> nat" where
  "gpu_depth q = length (filter requires_gpu (tq_heap q))"

definition cpu_depth :: "task_queue \<Rightarrow> nat" where
  "cpu_depth q = length (filter (\<lambda>t. \<not> requires_gpu t \<and> \<not> is_io_bound t) (tq_heap q))"

definition io_depth :: "task_queue \<Rightarrow> nat" where
  "io_depth q = length (filter is_io_bound (tq_heap q))"

record tq_stats =
  s_total_queued :: nat
  s_gpu_queued :: nat
  s_cpu_queued :: nat
  s_io_queued :: nat
  s_total_submitted :: nat
  s_total_completed :: nat

definition tq_get_stats :: "task_queue \<Rightarrow> tq_stats" where
  "tq_get_stats q =
     \<lparr>s_total_queued = tq_depth q, s_gpu_queued = gpu_depth q, s_cpu_queued = cpu_depth q,
      s_io_queued = io_depth q, s_total_submitted = tq_total_submitted q,
      s_total_completed = tq_total_completed q\<rparr>"

section \<open>The task order is a heap order\<close>

interpretation task_heap: heap_order swarm_task_lt
  by unfold_locales (auto simp: swarm_task_lt_def split: if_splits)

section \<open>Commands and the invariant\<close>

datatype tq_command = Submit swarm_task | Submit_batch "swarm_task list" | Pop_cpu | Pop_gpu | Pop_io

fun tq_step :: "tq_command \<Rightarrow> task_queue \<Rightarrow> task_queue" where
  "tq_step (Submit t) q = snd (submit t q)"
| "tq_step (Submit_batch ts) q = snd (submit_batch ts q)"
| "tq_step Pop_cpu q = snd (pop_cpu q)"
| "tq_step Pop_gpu q = snd (pop_gpu q)"
| "tq_step Pop_io q = snd (pop_io q)"

definition tq_inv :: "task_queue \<Rightarrow> bool" where
  "tq_inv q \<longleftrightarrow>
     heap_from swarm_task_lt 0 (tq_heap q) \<and>
     int (length (tq_heap q)) \<le> max 0 (tq_max_size q) \<and>
     tq_total_submitted q = tq_total_completed q + length (tq_heap q)"

lemma submit_inv: "tq_inv q \<Longrightarrow> tq_inv (snd (submit t q))"
  by (auto simp: tq_inv_def submit_def task_heap.heappush_heap)

lemma submit_batch_inv: "tq_inv q \<Longrightarrow> tq_inv (snd (submit_batch ts q))"
proof (induction ts arbitrary: q)
  case Nil
  then show ?case by simp
next
  case (Cons t ts)
  from Cons.prems have "tq_inv (snd (submit t q))" by (rule submit_inv)
  from Cons.IH [OF this] show ?case by (simp add: case_prod_unfold Let_def)
qed

lemma pop_matching_SomeD:
  assumes "pop_matching P q = (Some t, q')"
  shows "t \<in> set (tq_heap q)" "P t" "mset (tq_heap q) = add_mset t (mset (tq_heap q'))"
    "heap_from swarm_task_lt 0 (tq_heap q')"
    "tq_total_completed q' = tq_total_completed q + 1"
    "tq_total_submitted q' = tq_total_submitted q" "tq_max_size q' = tq_max_size q"
proof -
  from assms obtain i where i: "find_idx P (tq_heap q) = Some i"
    by (auto simp: pop_matching_def split: option.splits)
  from find_idx_SomeD [OF i] have il: "i < length (tq_heap q)" and P: "P (tq_heap q ! i)" by auto
  let ?rest = "butlast ((tq_heap q)[i := last (tq_heap q)])"
  from assms i have t: "t = tq_heap q ! i"
    and q': "q' = q\<lparr>tq_heap := (if ?rest = [] then ?rest else heapify swarm_task_lt ?rest),
                    tq_total_completed := tq_total_completed q + 1\<rparr>"
    by (auto simp: pop_matching_def Let_def)
  from t il P show "t \<in> set (tq_heap q)" "P t" by auto
  have "mset (tq_heap q') = mset ?rest" by (simp add: q')
  also have "\<dots> = mset (tq_heap q) - {#t#}" using mset_swap_remove [OF il] t by simp
  finally show "mset (tq_heap q) = add_mset t (mset (tq_heap q'))"
    using \<open>t \<in> set (tq_heap q)\<close> by simp
  show "heap_from swarm_task_lt 0 (tq_heap q')"
    using task_heap.heapify_heap by (auto simp: q' heap_from_def)
  show "tq_total_completed q' = tq_total_completed q + 1"
    "tq_total_submitted q' = tq_total_submitted q" "tq_max_size q' = tq_max_size q"
    by (simp_all add: q')
qed

lemma pop_matching_NoneD: "pop_matching P q = (None, q') \<Longrightarrow> q' = q \<and> (\<forall>t \<in> set (tq_heap q). \<not> P t)"
  by (auto simp: pop_matching_def Let_def split: option.splits)

lemma pop_matching_inv: "tq_inv q \<Longrightarrow> tq_inv (snd (pop_matching P q))"
proof (cases "pop_matching P q")
  case (Pair r q')
  assume inv: "tq_inv q"
  show ?thesis
  proof (cases r)
    case None
    with Pair inv show ?thesis by (auto dest: pop_matching_NoneD)
  next
    case (Some t)
    note D = pop_matching_SomeD [OF Pair [unfolded Some]]
    from D(3) have "length (tq_heap q) = Suc (length (tq_heap q'))"
      by (metis size_add_mset size_mset)
    with D inv Pair show ?thesis by (auto simp: tq_inv_def)
  qed
qed

interpretation task_queue_machine: store_machine tq_step tq_inv
proof
  fix c q assume "tq_inv q"
  then show "tq_inv (tq_step c q)"
    by (cases c)
      (simp_all add: submit_inv submit_batch_inv pop_matching_inv pop_cpu_def pop_gpu_def pop_io_def)
qed

lemma new_task_queue_inv: "tq_inv (new_task_queue n)"
  by (simp add: tq_inv_def new_task_queue_def heap_from_def)

lemma submit_batch_length:
  "tq_inv q \<Longrightarrow> tq_max_size (snd (submit_batch ts q)) = tq_max_size q \<and>
     int (fst (submit_batch ts q)) =
       min (int (length ts)) (max 0 (tq_max_size q - int (length (tq_heap q)))) \<and>
     mset (tq_heap (snd (submit_batch ts q))) =
       mset (tq_heap q) + mset (take (fst (submit_batch ts q)) ts)"
proof (induction ts arbitrary: q)
  case Nil
  then show ?case by simp
next
  case (Cons t ts)
  have full: "fst (submit_batch ts q) = 0 \<and> snd (submit_batch ts q) = q"
    if "int (length (tq_heap q)) \<ge> tq_max_size q" for q
    using that by (induction ts) (simp_all add: submit_def)
  show ?case
  proof (cases "int (length (tq_heap q)) \<ge> tq_max_size q")
    case True
    with full [of q] show ?thesis by (simp add: submit_def case_prod_unfold Let_def)
  next
    case False
    with Cons.IH [OF submit_inv [OF Cons.prems], of t] show ?thesis
      by (simp add: submit_def case_prod_unfold Let_def)
  qed
qed

section \<open>Urgency\<close>

definition most_urgent :: "(swarm_task \<Rightarrow> bool) \<Rightarrow> swarm_task list \<Rightarrow> swarm_task \<Rightarrow> bool" where
  "most_urgent P h t \<longleftrightarrow> t \<in> set h \<and> P t \<and> (\<forall>u \<in> set h. P u \<longrightarrow> \<not> swarm_task_lt u t)"

lemma pop_matching_root:
  assumes "tq_inv q" "tq_heap q \<noteq> []" "P (hd (tq_heap q))"
  shows "fst (pop_matching P q) = Some (hd (tq_heap q))" "most_urgent P (tq_heap q) (hd (tq_heap q))"
proof -
  obtain x xs where h: "tq_heap q = x # xs" using assms(2) by (cases "tq_heap q") auto
  with assms(3) show "fst (pop_matching P q) = Some (hd (tq_heap q))"
    by (simp add: pop_matching_def Let_def)
  have "\<not> swarm_task_lt u x" if "u \<in> set (tq_heap q)" for u
    using task_heap.heap_root_least [of "tq_heap q"] assms(1) that h
    by (metis in_set_conv_nth nth_Cons_0 tq_inv_def)
  with h assms(3) show "most_urgent P (tq_heap q) (hd (tq_heap q))" by (simp add: most_urgent_def)
qed

section \<open>Properties\<close>

definition example_task :: "task_type \<Rightarrow> int \<Rightarrow> ident \<Rightarrow> swarm_task" where
  "example_task ty prio i = \<lparr>st_type = ty, st_payload = JObj [], st_priority = prio, st_id = i,
     st_timeout = 300, st_created_at = 0, st_parent_id = None, st_tree_root_id = None,
     st_retries = 0, st_max_retries = 2\<rparr>"

text \<open>C17. On every run of submissions and pops the queue is a heap for the task order, holds at most
  its maximal size, and accounts for every task: submitted = completed + queued.\<close>

theorem task_queue_consistent:
  "let q = run_commands tq_step cs (new_task_queue n) in
     heap_from swarm_task_lt 0 (tq_heap q) \<and> int (tq_depth q) \<le> max 0 (tq_max_size q) \<and>
     tq_total_submitted q = tq_total_completed q + tq_depth q"
proof -
  have "tq_inv (run_commands tq_step cs (new_task_queue n))"
    by (rule task_queue_machine.run_inv [OF new_task_queue_inv])
  then show ?thesis by (simp add: Let_def tq_inv_def tq_depth_def)
qed

text \<open>A pop for a kind of task takes exactly one task of that kind out of the queue and leaves the
  rest as a heap, or returns nothing, and then there is none of that kind; when the most urgent
  task of the whole queue is of that kind, it is the one returned.\<close>

theorem pop_takes_one_matching:
  assumes "tq_inv q" "pop_matching P q = (r, q')"
  shows "case r of
      None \<Rightarrow> q' = q \<and> filter P (tq_heap q) = []
    | Some t \<Rightarrow> P t \<and> mset (tq_heap q) = add_mset t (mset (tq_heap q')) \<and>
        heap_from swarm_task_lt 0 (tq_heap q') \<and> tq_total_completed q' = tq_total_completed q + 1 \<and>
        (P (hd (tq_heap q)) \<longrightarrow> most_urgent (\<lambda>u. True) (tq_heap q) t)"
proof (cases r)
  case None
  with assms(2) pop_matching_NoneD show ?thesis by (fastforce simp: filter_empty_conv)
next
  case (Some t)
  note D = pop_matching_SomeD [OF assms(2) [unfolded Some]]
  from D(1) have ne: "tq_heap q \<noteq> []" by auto
  have "most_urgent (\<lambda>u. True) (tq_heap q) t" if "P (hd (tq_heap q))"
    using pop_matching_root(1) [OF assms(1) ne, of P] pop_matching_root(2) [OF assms(1) ne, of "\<lambda>u. True"]
      that assms(2) Some by simp
  with D Some show ?thesis by simp
qed

theorem pop_takes_one_matching_witness:
  "fst (pop_cpu (snd (submit (example_task SCAN_FILES 3 ''a'') (new_task_queue 8)))) =
     Some (example_task SCAN_FILES 3 ''a'') \<and>
   most_urgent (\<lambda>u. True) [example_task SCAN_FILES 3 ''a''] (example_task SCAN_FILES 3 ''a'')"
proof -
  let ?t = "example_task SCAN_FILES 3 ''a''" and ?P = "\<lambda>t. \<not> requires_gpu t \<and> \<not> is_io_bound t"
  obtain q where q: "q = snd (submit ?t (new_task_queue 8))" by blast
  have heap: "tq_heap q = [?t]" unfolding q by code_simp
  have P: "?P ?t" by code_simp
  obtain r q' where r: "pop_matching ?P q = (r, q')" by fastforce
  from P have "r = Some ?t" using r by (simp add: pop_matching_def heap Let_def)
  moreover have "tq_inv q" unfolding q by (rule submit_inv [OF new_task_queue_inv])
  ultimately show ?thesis using pop_takes_one_matching [OF _ r] heap r P q by (simp add: pop_cpu_def)
qed

text \<open>\<^verbatim>\<open>pop_cpu\<close> does not return the highest-priority CPU task: after three submissions the task of
  priority 5 comes out before the one of priority 3, since the scan follows the heap array.\<close>

theorem pop_cpu_misses_most_urgent:
  "\<exists>cs t. let q = run_commands tq_step cs (new_task_queue 8) in
     fst (pop_cpu q) = Some t \<and>
     \<not> most_urgent (\<lambda>u. \<not> requires_gpu u \<and> \<not> is_io_bound u) (tq_heap q) t"
proof -
  let ?g = "example_task LLM_EDIT 0 ''g''" and ?a = "example_task SCAN_FILES 5 ''a''"
    and ?b = "example_task SCAN_FILES 3 ''b''"
  obtain q where q: "q = run_commands tq_step [Submit ?g, Submit ?a, Submit ?b] (new_task_queue 8)"
    by blast
  have heap: "tq_heap q = [?g, ?a, ?b]" unfolding q by code_simp
  have "fst (pop_cpu q) = Some ?a"
    by (simp add: pop_cpu_def pop_matching_def heap Let_def requires_gpu_def is_io_bound_def
        GPU_TASKS_def IO_TASKS_def example_task_def)
  moreover have "\<not> most_urgent (\<lambda>u. \<not> requires_gpu u \<and> \<not> is_io_bound u) (tq_heap q) ?a"
    by (simp add: most_urgent_def heap requires_gpu_def is_io_bound_def GPU_TASKS_def IO_TASKS_def
        example_task_def swarm_task_lt_def)
  ultimately show ?thesis unfolding q Let_def by blast
qed

end
