(* ===== verification/Resource_Lock.thy ===== *)
theory Resource_Lock
  imports Prelude
begin

text \<open>
  \<^verbatim>\<open>backend/swarm/resource_lock.py\<close>: exclusive and shared locks on resource paths, kept in the table
  \<^verbatim>\<open>resource_locks\<close> of \<^verbatim>\<open>backend/core/schema.py\<close> with its two uniqueness constraints. Every method
  of \<^verbatim>\<open>ResourceLockManager\<close> is a function of the table and of the clock it reads. The lemmas
  show mutual exclusion in every state a run reaches, what releasing and expiry do, and what the
  constraint on (path, job) does to a second acquisition.
\<close>

record resource_lock =
  lk_id :: ident
  lk_resource_path :: string
  lk_lock_type :: string
  lk_held_by_job_id :: ident
  lk_held_by_node_id :: "ident option"
  lk_acquired_at :: timestamp
  lk_expires_at :: timestamp
  lk_released_at :: "timestamp option"

definition RESOURCE_LOCK_TTL_SEC :: int where
  "RESOURCE_LOCK_TTL_SEC = 300"

definition seconds :: "int \<Rightarrow> int" where
  "seconds n = n * 1000000"

text \<open>\<^verbatim>\<open>ResourceLock.is_expired\<close>: unreleased, and past its expiry.\<close>

definition is_expired :: "timestamp \<Rightarrow> resource_lock \<Rightarrow> bool" where
  "is_expired now l \<longleftrightarrow> lk_expires_at l < now \<and> lk_released_at l = None"

definition active_clause :: "timestamp \<Rightarrow> resource_lock \<Rightarrow> bool" where
  "active_clause now l \<longleftrightarrow> lk_released_at l = None \<and> lk_expires_at l > now"

text \<open>\<^verbatim>\<open>INSERT INTO resource_locks\<close>: the primary key and \<^verbatim>\<open>UNIQUE(resource_path, held_by_job_id)\<close>.\<close>

definition insert_lock :: "resource_lock \<Rightarrow> resource_lock list \<Rightarrow> resource_lock list result" where
  "insert_lock l t =
     (if \<exists>r \<in> set t. lk_id r = lk_id l then Inl (IntegrityError ''resource_locks.id'')
      else if \<exists>r \<in> set t. lk_resource_path r = lk_resource_path l \<and>
                         lk_held_by_job_id r = lk_held_by_job_id l
      then Inl (IntegrityError ''resource_locks.resource_path, held_by_job_id'')
      else Inr (t @ [l]))"

text \<open>
  \<^verbatim>\<open>acquire\<close>. The clock is read twice: \<open>now\<close> for the checks, \<open>now2\<close> for the expiry.
  The result is the lock row returned to the caller and the new table.
\<close>

definition acquire ::
  "string \<Rightarrow> ident \<Rightarrow> ident option \<Rightarrow> string \<Rightarrow> int option \<Rightarrow> timestamp \<Rightarrow> timestamp \<Rightarrow> ident \<Rightarrow>
   resource_lock list \<Rightarrow> (resource_lock \<times> resource_lock list) result" where
  "acquire path job node ltype ttl now now2 new_id t =
     (let ttl_sec = (case ttl of None \<Rightarrow> RESOURCE_LOCK_TTL_SEC | Some n \<Rightarrow> n);
          expires = now2 + seconds ttl_sec
      in case fetchone (filter (\<lambda>l. lk_resource_path l = path \<and> lk_held_by_job_id l = job \<and>
                                    active_clause now l) t) of
           Some existing \<Rightarrow> Inr (existing, t)
         | None \<Rightarrow>
             (case fetchone (filter (\<lambda>l. lk_resource_path l = path \<and> lk_lock_type l = ''exclusive'' \<and>
                                         lk_held_by_job_id l \<noteq> job \<and> active_clause now l) t) of
                Some l \<Rightarrow> Inl (LockConflictError path (lk_held_by_job_id l))
              | None \<Rightarrow>
                  (case (if ltype = ''exclusive''
                         then fetchone (filter (\<lambda>l. lk_resource_path l = path \<and>
                                lk_lock_type l = ''shared'' \<and>
                                lk_held_by_job_id l \<noteq> job \<and> active_clause now l) t)
                         else None) of
                     Some l \<Rightarrow> Inl (LockConflictError path (lk_held_by_job_id l))
                   | None \<Rightarrow>
                       (let l = \<lparr>lk_id = new_id, lk_resource_path = path, lk_lock_type = ltype,
                                 lk_held_by_job_id = job, lk_held_by_node_id = node,
                                 lk_acquired_at = now, lk_expires_at = expires,
                                 lk_released_at = None\<rparr>
                        in case insert_lock l t of Inl e \<Rightarrow> Inl e | Inr t' \<Rightarrow> Inr (l, t')))))"

definition release :: "ident \<Rightarrow> timestamp \<Rightarrow> resource_lock list \<Rightarrow> bool \<times> resource_lock list" where
  "release lock_id now t =
     (let P = (\<lambda>l. lk_id l = lock_id \<and> lk_released_at l = None)
      in (0 < sql_rowcount P t, sql_update P (\<lambda>l. l\<lparr>lk_released_at := Some now\<rparr>) t))"

definition release_all :: "ident \<Rightarrow> timestamp \<Rightarrow> resource_lock list \<Rightarrow> resource_lock list" where
  "release_all job now t =
     sql_update (\<lambda>l. lk_held_by_job_id l = job \<and> lk_released_at l = None)
       (\<lambda>l. l\<lparr>lk_released_at := Some now\<rparr>) t"

definition is_locked :: "string \<Rightarrow> timestamp \<Rightarrow> resource_lock list \<Rightarrow> bool" where
  "is_locked path now t \<longleftrightarrow>
     fetchone (sql_limit 1 0 (filter (\<lambda>l. lk_resource_path l = path \<and> active_clause now l) t)) \<noteq> None"

definition get_lock_holder :: "string \<Rightarrow> timestamp \<Rightarrow> resource_lock list \<Rightarrow> resource_lock option" where
  "get_lock_holder path now t =
     fetchone (filter (\<lambda>l. lk_resource_path l = path \<and> lk_lock_type l = ''exclusive'' \<and>
                           active_clause now l) t)"

definition get_locks_for_job :: "ident \<Rightarrow> timestamp \<Rightarrow> resource_lock list \<Rightarrow> resource_lock list" where
  "get_locks_for_job job now t = filter (\<lambda>l. lk_held_by_job_id l = job \<and> active_clause now l) t"

definition force_release :: "ident \<Rightarrow> timestamp \<Rightarrow> resource_lock list \<Rightarrow> bool \<times> resource_lock list" where
  "force_release lock_id now t =
     (let P = (\<lambda>l. lk_id l = lock_id \<and> lk_released_at l = None)
      in (0 < sql_rowcount P t, sql_update P (\<lambda>l. l\<lparr>lk_released_at := Some now\<rparr>) t))"

definition cleanup_expired :: "timestamp \<Rightarrow> resource_lock list \<Rightarrow> nat \<times> resource_lock list" where
  "cleanup_expired now t =
     (let P = (\<lambda>l. lk_released_at l = None \<and> lk_expires_at l \<le> now)
      in (sql_rowcount P t, sql_update P (\<lambda>l. l\<lparr>lk_released_at := Some now\<rparr>) t))"

definition list_active :: "timestamp \<Rightarrow> resource_lock list \<Rightarrow> resource_lock list" where
  "list_active now t = filter (active_clause now) t"

section \<open>Commands, conflicts and the invariant\<close>

text \<open>
  A run of the lock manager: commands of any jobs, each some time after the one before
  (\<open>dt\<close>), an acquisition reading the clock again \<open>dt2\<close> later. A refused acquisition leaves
  the table as it was.
\<close>

datatype lock_op =
    L_acquire string ident "ident option" string "int option" nat ident
  | L_release ident
  | L_release_all ident
  | L_force_release ident
  | L_cleanup

type_synonym lock_state = "timestamp \<times> resource_lock list"

fun lock_op_table :: "lock_op \<Rightarrow> timestamp \<Rightarrow> resource_lock list \<Rightarrow> resource_lock list" where
  "lock_op_table (L_acquire path job node ltype ttl dt2 new_id) now t =
     (case acquire path job node ltype ttl now (now + int dt2) new_id t of
        Inl _ \<Rightarrow> t | Inr (_, t') \<Rightarrow> t')"
| "lock_op_table (L_release i) now t = snd (release i now t)"
| "lock_op_table (L_release_all j) now t = release_all j now t"
| "lock_op_table (L_force_release i) now t = snd (force_release i now t)"
| "lock_op_table L_cleanup now t = snd (cleanup_expired now t)"

fun lock_step :: "nat \<times> lock_op \<Rightarrow> lock_state \<Rightarrow> lock_state" where
  "lock_step (dt, c) (now, t) = (now + int dt, lock_op_table c (now + int dt) t)"

text \<open>Two locks that must not be active together.\<close>

definition conflicting :: "resource_lock \<Rightarrow> resource_lock \<Rightarrow> bool" where
  "conflicting a b \<longleftrightarrow>
     lk_resource_path a = lk_resource_path b \<and> lk_held_by_job_id a \<noteq> lk_held_by_job_id b \<and>
     lk_lock_type a = ''exclusive'' \<and> lk_lock_type b \<in> {''exclusive'', ''shared''}"

definition no_conflict :: "timestamp \<Rightarrow> resource_lock list \<Rightarrow> bool" where
  "no_conflict now t \<longleftrightarrow>
     (\<forall>a \<in> set t. \<forall>b \<in> set t. active_clause now a \<longrightarrow> active_clause now b \<longrightarrow> \<not> conflicting a b)"

definition lock_keys_ok :: "resource_lock list \<Rightarrow> bool" where
  "lock_keys_ok t \<longleftrightarrow>
     distinct (map lk_id t) \<and> distinct (map (\<lambda>l. (lk_resource_path l, lk_held_by_job_id l)) t)"

fun lock_inv :: "lock_state \<Rightarrow> bool" where
  "lock_inv (now, t) = (lock_keys_ok t \<and> no_conflict now t)"

subsection \<open>What one acquisition does\<close>

lemma acquire_cases [consumes 1, case_names existing fresh]:
  assumes "acquire path job node ltype ttl now now2 new_id t = Inr (l, t')"
  obtains (existing) "l \<in> set t" "lk_resource_path l = path" "lk_held_by_job_id l = job"
      "active_clause now l" "t' = t"
  | (fresh) "l = \<lparr>lk_id = new_id, lk_resource_path = path, lk_lock_type = ltype,
                 lk_held_by_job_id = job, lk_held_by_node_id = node, lk_acquired_at = now,
                 lk_expires_at = now2 + seconds (case ttl of None \<Rightarrow> RESOURCE_LOCK_TTL_SEC | Some n \<Rightarrow> n),
                 lk_released_at = None\<rparr>"
      "insert_lock l t = Inr t'"
      "\<forall>r \<in> set t. active_clause now r \<longrightarrow> \<not> conflicting r l \<and> \<not> conflicting l r"
proof -
  let ?E = "filter (\<lambda>l. lk_resource_path l = path \<and> lk_held_by_job_id l = job \<and> active_clause now l) t"
  show thesis
  proof (cases "fetchone ?E")
    case (Some e)
    from fetchone_filterD [OF Some] Some assms show ?thesis
      by (intro existing) (auto simp: acquire_def Let_def)
  next
    case None
    show ?thesis
    proof (rule fresh)
      show "\<forall>r \<in> set t. active_clause now r \<longrightarrow> \<not> conflicting r l \<and> \<not> conflicting l r"
        using assms None
        by (auto simp: acquire_def Let_def conflicting_def filter_empty_conv
            split: option.splits sum.splits if_splits)
    qed (use assms None in \<open>auto simp: acquire_def Let_def split: option.splits sum.splits if_splits\<close>)
  qed
qed

lemma insert_lock_InrD:
  "insert_lock l t = Inr t' \<Longrightarrow> t' = t @ [l] \<and> (lock_keys_ok t \<longrightarrow> lock_keys_ok t')"
  by (fastforce simp: insert_lock_def lock_keys_ok_def split: if_splits)

lemma no_conflict_mono: "no_conflict now t \<Longrightarrow> now \<le> now' \<Longrightarrow> no_conflict now' t"
  by (force simp: no_conflict_def active_clause_def)

lemma conflicting_irrefl: "\<not> conflicting l l"
  by (simp add: conflicting_def)

lemma no_conflict_snoc:
  assumes "no_conflict now t"
    and "\<forall>r \<in> set t. active_clause now r \<longrightarrow> \<not> conflicting r l \<and> \<not> conflicting l r"
  shows "no_conflict now (t @ [l])"
  using assms conflicting_irrefl by (auto simp: no_conflict_def)

text \<open>Marking rows released keeps keys and can only remove active rows.\<close>

lemma release_update_inv:
  assumes "lock_inv (now, t)"
  shows "lock_inv (now, sql_update P (\<lambda>l. l\<lparr>lk_released_at := Some now\<rparr>) t)"
proof -
  have "r \<in> set t" if "r \<in> set (sql_update P (\<lambda>l. l\<lparr>lk_released_at := Some now\<rparr>) t)"
    and "active_clause now r" for r
    using that by (auto simp: in_sql_update active_clause_def split: if_splits)
  with assms have "no_conflict now (sql_update P (\<lambda>l. l\<lparr>lk_released_at := Some now\<rparr>) t)"
    unfolding no_conflict_def lock_inv.simps by meson
  with assms show ?thesis by (simp add: lock_keys_ok_def map_sql_update)
qed

lemma lock_op_inv: "lock_inv (now, t) \<Longrightarrow> lock_inv (now, lock_op_table c now t)"
proof (cases c)
  case (L_acquire path job node ltype ttl dt2 new_id)
  assume inv: "lock_inv (now, t)"
  show ?thesis
  proof (cases "acquire path job node ltype ttl now (now + int dt2) new_id t")
    case (Inl e)
    with L_acquire inv show ?thesis by simp
  next
    case (Inr r)
    obtain l t' where r: "r = (l, t')" by (cases r)
    from Inr [unfolded r] show ?thesis
    proof (cases rule: acquire_cases)
      case existing
      with L_acquire Inr r inv show ?thesis by simp
    next
      case fresh
      from insert_lock_InrD [OF fresh(2)] inv fresh(3) L_acquire Inr r show ?thesis
        by (auto intro: no_conflict_snoc)
    qed
  qed
qed (use release_update_inv in \<open>simp_all add: release_def release_all_def force_release_def
      cleanup_expired_def Let_def\<close>)

interpretation lock_machine: store_machine lock_step lock_inv
proof
  fix c :: "nat \<times> lock_op" and s :: lock_state
  assume inv: "lock_inv s"
  obtain dt op where c: "c = (dt, op)" by (cases c)
  obtain now t where s: "s = (now, t)" by (cases s)
  from inv s have "lock_inv (now + int dt, t)" by (auto intro: no_conflict_mono)
  then have "lock_inv (now + int dt, lock_op_table op (now + int dt) t)" by (rule lock_op_inv)
  with c s show "lock_inv (lock_step c s)" by simp
qed

subsection \<open>Queries\<close>

lemma is_locked_iff: "is_locked path now t \<longleftrightarrow> (\<exists>l \<in> set t. lk_resource_path l = path \<and> active_clause now l)"
proof -
  let ?F = "filter (\<lambda>l. lk_resource_path l = path \<and> active_clause now l) t"
  have "is_locked path now t \<longleftrightarrow> ?F \<noteq> []"
    by (cases ?F) (simp_all add: is_locked_def sql_limit_def Let_def)
  then show ?thesis by (auto simp: filter_empty_conv)
qed

lemma list_active_release:
  "list_active now (snd (release i now t)) = filter (\<lambda>l. lk_id l \<noteq> i) (list_active now t)"
  unfolding release_def Let_def list_active_def
  by (induction t) (auto simp: active_clause_def)

lemma list_active_release_all:
  "list_active now (release_all j now t) = filter (\<lambda>l. lk_held_by_job_id l \<noteq> j) (list_active now t)"
  unfolding release_all_def list_active_def
  by (induction t) (auto simp: active_clause_def)

lemma list_active_cleanup: "now \<le> now' \<Longrightarrow> list_active now' (snd (cleanup_expired now t)) = list_active now' t"
  unfolding cleanup_expired_def Let_def list_active_def
  by (induction t) (auto simp: active_clause_def)

section \<open>Properties\<close>

definition example_lock :: resource_lock where
  "example_lock = \<lparr>lk_id = ''l1'', lk_resource_path = ''f'', lk_lock_type = ''exclusive'',
     lk_held_by_job_id = ''j1'', lk_held_by_node_id = None, lk_acquired_at = 0,
     lk_expires_at = 100, lk_released_at = None\<rparr>"


text \<open>For a job without an active lock of its own on the path, \<^verbatim>\<open>acquire\<close> is refused with a lock
  conflict exactly when another job's active lock stands in the way: an exclusive one, or a shared
  one if an exclusive lock is asked for.\<close>

theorem lock_refused_iff:
  assumes "\<forall>l \<in> set t. lk_resource_path l = path \<and> lk_held_by_job_id l = job \<longrightarrow> \<not> active_clause now l"
  shows "(\<exists>h. acquire path job node ltype ttl now now2 i t = Inl (LockConflictError path h)) \<longleftrightarrow>
    (\<exists>r \<in> set t. lk_resource_path r = path \<and> lk_held_by_job_id r \<noteq> job \<and> active_clause now r \<and>
       (lk_lock_type r = ''exclusive'' \<or> lk_lock_type r = ''shared'' \<and> ltype = ''exclusive''))"
proof -
  have own: "filter (\<lambda>l. lk_resource_path l = path \<and> lk_held_by_job_id l = job \<and> active_clause now l) t = []"
    using assms by (auto simp: filter_empty_conv)
  let ?X = "filter (\<lambda>l. lk_resource_path l = path \<and> lk_lock_type l = ''exclusive'' \<and>
      lk_held_by_job_id l \<noteq> job \<and> active_clause now l) t"
  let ?S = "filter (\<lambda>l. lk_resource_path l = path \<and> lk_lock_type l = ''shared'' \<and>
      lk_held_by_job_id l \<noteq> job \<and> active_clause now l) t"
  have "(\<exists>h. acquire path job node ltype ttl now now2 i t = Inl (LockConflictError path h)) \<longleftrightarrow>
      fetchone ?X \<noteq> None \<or> ltype = ''exclusive'' \<and> fetchone ?S \<noteq> None"
    by (auto simp: acquire_def own Let_def insert_lock_def split: option.splits if_splits)
  then show ?thesis by (auto simp: filter_empty_conv)
qed

theorem lock_refused_iff_witness:
  "\<exists>h. acquire ''f'' ''j2'' None ''shared'' None 5 5 ''l2'' [example_lock] = Inl (LockConflictError ''f'' h)"
  by (subst lock_refused_iff) (auto simp: example_lock_def active_clause_def)

text \<open>A job that held a lock on a path and no longer does (released or expired) can never lock that
  path again, even when nobody else has it: the insert hits
  \<^verbatim>\<open>UNIQUE(resource_path, held_by_job_id)\<close> and raises an integrity error.\<close>

theorem lock_never_reacquired:
  assumes "r \<in> set t" "lk_resource_path r = path" "lk_held_by_job_id r = job"
    and "\<forall>l \<in> set t. lk_resource_path l = path \<longrightarrow> \<not> active_clause now l"
  shows "\<exists>m. acquire path job node ltype ttl now now2 i t = Inl (IntegrityError m)"
proof -
  have "filter (\<lambda>l. lk_resource_path l = path \<and> P l \<and> active_clause now l) t = []" for P
    using assms(4) by (auto simp: filter_empty_conv)
  moreover have "filter (\<lambda>l. lk_resource_path l = path \<and> P l \<and> Q l \<and> active_clause now l) t = []" for P Q
    using assms(4) by (auto simp: filter_empty_conv)
  moreover have "\<exists>m. insert_lock l t = Inl (IntegrityError m)"
    if "lk_resource_path l = path" "lk_held_by_job_id l = job" for l
  proof -
    have "\<exists>q \<in> set t. lk_resource_path q = lk_resource_path l \<and> lk_held_by_job_id q = lk_held_by_job_id l"
      using assms(1-3) that by auto
    then show ?thesis by (simp only: insert_lock_def if_True split: if_split) blast
  qed
  then obtain m where "insert_lock
      \<lparr>lk_id = i, lk_resource_path = path, lk_lock_type = ltype, lk_held_by_job_id = job,
       lk_held_by_node_id = node, lk_acquired_at = now,
       lk_expires_at = now2 + seconds (case ttl of None \<Rightarrow> RESOURCE_LOCK_TTL_SEC | Some n \<Rightarrow> n),
       lk_released_at = None\<rparr> t = Inl (IntegrityError m)"
    by (metis resource_lock.select_convs(2,4))
  ultimately show ?thesis by (cases "ltype = ''exclusive''") (simp_all add: acquire_def Let_def)
qed

theorem lock_never_reacquired_witness:
  "\<exists>m. acquire ''f'' ''j1'' None ''exclusive'' None 9 9 ''l2'' (snd (release ''l1'' 5 [example_lock])) =
     Inl (IntegrityError m)"
  by (rule lock_never_reacquired [of "example_lock\<lparr>lk_released_at := Some 5\<rparr>"])
    (auto simp: example_lock_def release_def active_clause_def)

text \<open>Cleaning up releases exactly the expired locks: it returns their number, leaves none behind,
  and changes nothing for the locks that are active then or later.\<close>

theorem cleanup_releases_the_expired:
  assumes "now \<le> later"
  shows "fst (cleanup_expired now t) = length (filter (\<lambda>l. lk_released_at l = None \<and> lk_expires_at l \<le> now) t) \<and>
    \<not> (\<exists>l \<in> set (snd (cleanup_expired now t)). lk_released_at l = None \<and> lk_expires_at l \<le> now) \<and>
    list_active later (snd (cleanup_expired now t)) = list_active later t"
proof (intro conjI)
  show "fst (cleanup_expired now t) = length (filter (\<lambda>l. lk_released_at l = None \<and> lk_expires_at l \<le> now) t)"
    by (simp add: cleanup_expired_def sql_rowcount_def Let_def)
  show "\<not> (\<exists>l \<in> set (snd (cleanup_expired now t)). lk_released_at l = None \<and> lk_expires_at l \<le> now)"
    unfolding cleanup_expired_def Let_def snd_conv by (induction t) auto
  show "list_active later (snd (cleanup_expired now t)) = list_active later t"
    using assms by (rule list_active_cleanup)
qed

theorem cleanup_releases_the_expired_witness:
  "list_active 300 (snd (cleanup_expired 200 [example_lock])) = list_active 300 [example_lock]"
  by (rule cleanup_releases_the_expired [THEN conjunct2, THEN conjunct2]) simp

end
