(* ===== verification/Shared_Memory.thy ===== *)
theory Shared_Memory
  imports Prelude
begin

text \<open>
  \<^verbatim>\<open>backend/swarm/shared_memory.py\<close>: the versioned key-value store of a job tree, on the table
  \<^verbatim>\<open>swarm_shared_memory\<close>. The locale \<open>versioned_store\<close> is the contract its users rely on for
  optimistic concurrency; the client lemma in it (a writer with a stale version never succeeds)
  is instantiated on the model of the store at the end.
\<close>

record memory_entry =
  me_id :: ident
  me_tree_root_job_id :: ident
  me_key :: string
  me_value_json :: json
  me_written_by_job_id :: ident
  me_written_by_node_id :: "ident option"
  me_version :: int
  me_created_at :: timestamp
  me_updated_at :: timestamp

text \<open>\<^verbatim>\<open>INSERT\<close> with the primary key and \<^verbatim>\<open>UNIQUE(tree_root_job_id, key)\<close>.\<close>

definition insert_entry :: "memory_entry \<Rightarrow> memory_entry list \<Rightarrow> memory_entry list result" where
  "insert_entry e t =
     (if \<exists>r \<in> set t. me_id r = me_id e then Inl (IntegrityError ''swarm_shared_memory.id'')
      else if \<exists>r \<in> set t. me_tree_root_job_id r = me_tree_root_job_id e \<and> me_key r = me_key e
      then Inl (IntegrityError ''swarm_shared_memory.tree_root_job_id, key'')
      else Inr (t @ [e]))"

abbreviation at_key :: "ident \<Rightarrow> string \<Rightarrow> memory_entry \<Rightarrow> bool" where
  "at_key tree k r \<equiv> me_tree_root_job_id r = tree \<and> me_key r = k"

definition put ::
  "ident \<Rightarrow> string \<Rightarrow> json \<Rightarrow> ident \<Rightarrow> ident option \<Rightarrow> int option \<Rightarrow> timestamp \<Rightarrow> ident \<Rightarrow>
   memory_entry list \<Rightarrow> (memory_entry \<times> memory_entry list) result" where
  "put tree k v job node expected now new_id t =
     (case fetchone (filter (at_key tree k) t) of
        Some existing \<Rightarrow>
          (let current = me_version existing
           in if expected \<noteq> None \<and> expected \<noteq> Some current
              then Inl (VersionConflictError (the expected) (Some current))
              else
                (let new_version = current + 1;
                     t' = sql_update (at_key tree k)
                            (\<lambda>r. r\<lparr>me_value_json := v, me_written_by_job_id := job,
                                   me_written_by_node_id := node, me_version := new_version,
                                   me_updated_at := now\<rparr>) t;
                     entry = \<lparr>me_id = me_id existing, me_tree_root_job_id = tree, me_key = k,
                              me_value_json = v, me_written_by_job_id = job,
                              me_written_by_node_id = node, me_version = new_version,
                              me_created_at = me_created_at existing, me_updated_at = now\<rparr>
                 in Inr (entry, t')))
      | None \<Rightarrow>
          (case expected of
             Some e \<Rightarrow> Inl (VersionConflictError e None)
           | None \<Rightarrow>
               (let entry = \<lparr>me_id = new_id, me_tree_root_job_id = tree, me_key = k,
                             me_value_json = v, me_written_by_job_id = job,
                             me_written_by_node_id = node, me_version = 1,
                             me_created_at = now, me_updated_at = now\<rparr>
                in case insert_entry entry t of Inl err \<Rightarrow> Inl err | Inr t' \<Rightarrow> Inr (entry, t'))))"

definition get_entry :: "ident \<Rightarrow> string \<Rightarrow> memory_entry list \<Rightarrow> memory_entry option" where
  "get_entry tree k t = fetchone (filter (at_key tree k) t)"

definition get_all :: "ident \<Rightarrow> memory_entry list \<Rightarrow> memory_entry list" where
  "get_all tree t = order_by_text me_key (filter (\<lambda>r. me_tree_root_job_id r = tree) t)"

definition delete_entry :: "ident \<Rightarrow> string \<Rightarrow> memory_entry list \<Rightarrow> bool \<times> memory_entry list" where
  "delete_entry tree k t = (0 < sql_rowcount (at_key tree k) t, sql_delete (at_key tree k) t)"

definition get_version :: "ident \<Rightarrow> string \<Rightarrow> memory_entry list \<Rightarrow> int option" where
  "get_version tree k t = map_option me_version (fetchone (filter (at_key tree k) t))"

definition clear_tree :: "ident \<Rightarrow> memory_entry list \<Rightarrow> memory_entry list" where
  "clear_tree tree t = sql_delete (\<lambda>r. me_tree_root_job_id r = tree) t"

section \<open>The contract: versioned stores\<close>

text \<open>
  \<open>'w\<close> is what a write carries besides its key and the version it expects; \<open>wput\<close> returns
  the version it wrote.
\<close>

text \<open>A sequence of writes by anyone; a refused write leaves the store as it was.\<close>

fun puts ::
  "('k \<Rightarrow> 'w \<Rightarrow> int option \<Rightarrow> 's \<Rightarrow> (int \<times> 's) result) \<Rightarrow> ('k \<times> 'w \<times> int option) list \<Rightarrow> 's \<Rightarrow> 's" where
  "puts wput [] s = s"
| "puts wput ((k, w, e) # ps) s =
     (case wput k w e s of Inl _ \<Rightarrow> puts wput ps s | Inr (_, s') \<Rightarrow> puts wput ps s')"

locale versioned_store =
  fixes version :: "'s \<Rightarrow> 'k \<Rightarrow> int option"
    and wput :: "'k \<Rightarrow> 'w \<Rightarrow> int option \<Rightarrow> 's \<Rightarrow> (int \<times> 's) result"
    and inv :: "'s \<Rightarrow> bool"
  assumes wput_inv: "inv s \<Longrightarrow> wput k w e s = Inr (v, s') \<Longrightarrow> inv s'"
    and wput_version: "inv s \<Longrightarrow> wput k w e s = Inr (v, s') \<Longrightarrow>
           version s' k = Some v \<and> v = (case version s k of None \<Rightarrow> 1 | Some c \<Rightarrow> c + 1)"
    and wput_frame: "inv s \<Longrightarrow> wput k w e s = Inr (v, s') \<Longrightarrow> k' \<noteq> k \<Longrightarrow>
           version s' k' = version s k'"
    and wput_expected: "inv s \<Longrightarrow> wput k w (Some c) s = Inr (v, s') \<Longrightarrow> version s k = Some c"
begin

lemma puts_inv: "inv s \<Longrightarrow> inv (puts wput ps s)"
proof (induction ps arbitrary: s)
  case Nil
  then show ?case by simp
next
  case (Cons p ps)
  then show ?case by (cases p) (auto split: sum.splits intro: wput_inv)
qed

lemma version_after_put:
  assumes "inv s" "version s k = Some c" "wput k' w e s = Inr (v, s')"
  shows "\<exists>c' \<ge> c. version s' k = Some c'"
  using wput_version [OF assms(1,3)] wput_frame [OF assms(1,3), of k] assms(2)
  by (cases "k = k'") auto

lemma version_grows:
  "inv s \<Longrightarrow> version s k = Some c \<Longrightarrow> \<exists>c' \<ge> c. version (puts wput ps s) k = Some c'"
proof (induction ps arbitrary: s c)
  case Nil
  then show ?case by simp
next
  case (Cons p ps)
  obtain k' w e where p: "p = (k', w, e)" by (cases p)
  show ?case
  proof (cases "wput k' w e s")
    case (Inl err)
    with Cons p show ?thesis by simp
  next
    case (Inr r)
    obtain v s' where r: "r = (v, s')" by (cases r)
    from version_after_put [OF Cons.prems Inr [unfolded r]] obtain c1
      where c1: "c \<le> c1" "version s' k = Some c1" by auto
    from Cons.IH [OF wput_inv [OF Cons.prems(1) Inr [unfolded r]] c1(2)]
    show ?thesis using Inr r p c1(1) by fastforce
  qed
qed

text \<open>
  Optimistic concurrency: after a successful write of \<open>k\<close> on top of version \<open>c\<close>, and any
  further writes by anyone, a write that still expects version \<open>c\<close> is refused.
\<close>

lemma stale_write_refused:
  assumes "inv s" "wput k w (Some c) s = Inr (v, s')"
  shows "\<exists>err. wput k w2 (Some c) (puts wput ps s') = Inl err"
proof (cases "wput k w2 (Some c) (puts wput ps s')")
  case (Inr r)
  from wput_expected [OF assms] have "version s k = Some c" .
  with wput_version [OF assms] have "version s' k = Some (c + 1)" by simp
  with version_grows wput_inv [OF assms] obtain c' where "c + 1 \<le> c'" "version (puts wput ps s') k = Some c'"
    by blast
  moreover from Inr have "version (puts wput ps s') k = Some c"
    using wput_expected [OF puts_inv [OF wput_inv [OF assms]]] by (cases r) auto
  ultimately show ?thesis by simp
qed auto

end

section \<open>The store keeps its keys unique\<close>

definition memory_inv :: "memory_entry list \<Rightarrow> bool" where
  "memory_inv t \<longleftrightarrow>
     distinct (map me_id t) \<and> distinct (map (\<lambda>r. (me_tree_root_job_id r, me_key r)) t) \<and>
     (\<forall>r \<in> set t. 1 \<le> me_version r)"

lemma at_key_unique:
  "memory_inv t \<Longrightarrow> r \<in> set t \<Longrightarrow> at_key tree k r \<Longrightarrow> fetchone (filter (at_key tree k) t) = Some r"
  using fetchone_key [of "\<lambda>r. (me_tree_root_job_id r, me_key r)" t r]
  by (auto simp: memory_inv_def)

lemma put_cases [consumes 1, case_names update insert]:
  assumes "put tree k v job node expected now new_id t = Inr (entry, t')"
  obtains (update) r where "fetchone (filter (at_key tree k) t) = Some r"
      "expected = None \<or> expected = Some (me_version r)"
      "entry = r\<lparr>me_value_json := v, me_written_by_job_id := job, me_written_by_node_id := node,
                 me_version := me_version r + 1, me_updated_at := now\<rparr>"
      "t' = sql_update (at_key tree k)
              (\<lambda>q. q\<lparr>me_value_json := v, me_written_by_job_id := job, me_written_by_node_id := node,
                     me_version := me_version r + 1, me_updated_at := now\<rparr>) t"
  | (insert) "\<forall>r \<in> set t. \<not> at_key tree k r" "expected = None" "me_id entry \<notin> me_id ` set t"
      "entry = \<lparr>me_id = new_id, me_tree_root_job_id = tree, me_key = k, me_value_json = v,
                me_written_by_job_id = job, me_written_by_node_id = node, me_version = 1,
                me_created_at = now, me_updated_at = now\<rparr>"
      "t' = t @ [entry]"
proof (cases "fetchone (filter (at_key tree k) t)")
  case (Some r)
  from fetchone_filterD [OF Some] have "at_key tree k r" by simp
  then show thesis using assms Some
    by (intro update [of r]) (auto simp: put_def Let_def split: if_splits)
next
  case None
  then have "\<forall>r \<in> set t. \<not> at_key tree k r" by (simp add: filter_empty_conv)
  then show thesis using assms None
    by (intro insert) (auto simp: put_def Let_def insert_entry_def split: option.splits if_splits)
qed

lemma put_inv:
  assumes "memory_inv t" "put tree k v job node expected now new_id t = Inr (entry, t')"
  shows "memory_inv t'"
  using assms(2)
proof (cases rule: put_cases)
  case (update r)
  from fetchone_filterD [OF update(1)] assms(1) have "1 \<le> me_version r"
    by (simp add: memory_inv_def)
  with assms(1) update(4) show ?thesis
    by (auto simp: memory_inv_def map_sql_update in_sql_update)
next
  case insert
  with assms(1) show ?thesis by (auto simp: memory_inv_def)
qed

lemma get_after_put:
  assumes "memory_inv t" "put tree k v job node expected now new_id t = Inr (entry, t')"
  shows "get_entry tree k t' = Some entry"
  using assms(2)
proof (cases rule: put_cases)
  case (update r)
  from fetchone_filterD [OF update(1)] have r: "r \<in> set t" "at_key tree k r" by auto
  with update(3,4) have e: "entry \<in> set t'" "at_key tree k entry"
    by (auto simp: in_sql_update intro!: bexI [of _ r])
  then show ?thesis using at_key_unique [OF put_inv [OF assms] e] by (simp add: get_entry_def)
next
  case insert
  then have e: "entry \<in> set t'" "at_key tree k entry" by auto
  then show ?thesis using at_key_unique [OF put_inv [OF assms] e] by (simp add: get_entry_def)
qed

lemma put_frame:
  assumes "put tree k v job node expected now new_id t = Inr (entry, t')"
    and "(tree', k') \<noteq> (tree, k)"
  shows "filter (at_key tree' k') t' = filter (at_key tree' k') t"
  using assms(1)
proof (cases rule: put_cases)
  case (update r)
  with assms(2) show ?thesis by (auto intro!: filter_sql_update_disjoint)
next
  case insert
  with assms(2) show ?thesis by auto
qed

lemma put_version:
  assumes "memory_inv t" "put tree k v job node expected now new_id t = Inr (entry, t')"
  shows "get_version tree k t' = Some (me_version entry)"
    and "me_version entry = (case get_version tree k t of None \<Rightarrow> 1 | Some c \<Rightarrow> c + 1)"
proof -
  from get_after_put [OF assms] show "get_version tree k t' = Some (me_version entry)"
    by (simp add: get_version_def get_entry_def)
  from assms(2) show "me_version entry = (case get_version tree k t of None \<Rightarrow> 1 | Some c \<Rightarrow> c + 1)"
  proof (cases rule: put_cases)
    case (update r)
    then show ?thesis by (simp add: get_version_def)
  next
    case insert
    then have "filter (at_key tree k) t = []" by (simp add: filter_empty_conv)
    with insert show ?thesis by (simp add: get_version_def)
  qed
qed

lemma put_expected:
  "put tree k v job node (Some c) now new_id t = Inr (entry, t') \<Longrightarrow> get_version tree k t = Some c"
  by (erule put_cases) (auto simp: get_version_def)

text \<open>The store seen through the contract: a key is a tree and a key, a write its other arguments.\<close>

type_synonym store_write = "json \<times> ident \<times> ident option \<times> timestamp \<times> ident"

fun put_write ::
  "ident \<times> string \<Rightarrow> store_write \<Rightarrow> int option \<Rightarrow> memory_entry list \<Rightarrow> (int \<times> memory_entry list) result" where
  "put_write (tree, k) (v, job, node, now, new_id) expected t =
     (case put tree k v job node expected now new_id t of
        Inl e \<Rightarrow> Inl e | Inr (entry, t') \<Rightarrow> Inr (me_version entry, t'))"

abbreviation version_at :: "memory_entry list \<Rightarrow> ident \<times> string \<Rightarrow> int option" where
  "version_at t k \<equiv> get_version (fst k) (snd k) t"

lemma put_write_InrD:
  assumes "put_write k w e t = Inr (n, t')"
  obtains v job node now new_id entry where "w = (v, job, node, now, new_id)"
    "put (fst k) (snd k) v job node e now new_id t = Inr (entry, t')" "n = me_version entry"
  using assms by (cases k; cases w) (auto split: sum.splits)

interpretation memory_store: versioned_store version_at put_write memory_inv
proof
  fix s k w e v s' k' c
  assume inv: "memory_inv s"
  show "memory_inv s'" if "put_write k w e s = Inr (v, s')"
    using that by (rule put_write_InrD) (use inv put_inv in blast)
  show "version_at s' k = Some v \<and> v = (case version_at s k of None \<Rightarrow> 1 | Some c \<Rightarrow> c + 1)"
    if "put_write k w e s = Inr (v, s')"
    using that by (rule put_write_InrD) (use inv put_version in metis)
  show "version_at s' k' = version_at s k'" if "put_write k w e s = Inr (v, s')" "k' \<noteq> k"
    using that(1)
  proof (rule put_write_InrD)
    fix a b c d i entry
    assume "put (fst k) (snd k) a b c e d i s = Inr (entry, s')"
    from put_frame [OF this, of "fst k'" "snd k'"] that(2) show ?thesis
      by (simp add: get_version_def prod_eq_iff)
  qed
  show "version_at s k = Some c" if "put_write k w (Some c) s = Inr (v, s')"
    using that by (rule put_write_InrD) (use put_expected in blast)
qed

lemma delete_entry_gone: "get_entry tree k (snd (delete_entry tree k t)) = None"
  by (auto simp: delete_entry_def get_entry_def filter_empty_conv)

lemma delete_entry_frame:
  "(tree', k') \<noteq> (tree, k) \<Longrightarrow> get_entry tree' k' (snd (delete_entry tree k t)) = get_entry tree' k' t"
  by (auto simp: delete_entry_def get_entry_def filter_sql_delete intro!: arg_cong [of _ _ fetchone]
      intro: filter_cong)

section \<open>Properties\<close>

text \<open>C18. Optimistic concurrency: after a write that succeeded on top of version \<open>c\<close>, and whatever
  further writes follow, a write to the same key that still expects \<open>c\<close> is refused.\<close>

theorem memory_stale_write_refused:
  assumes "memory_inv t" "put_write key w (Some c) t = Inr (n, t')"
  shows "\<exists>err. put_write key w2 (Some c) (puts put_write ps t') = Inl err"
  using assms by (rule memory_store.stale_write_refused)

theorem memory_stale_write_refused_witness:
  "\<exists>err. put_write (''t'', ''k'') (JInt 9, ''j2'', None, 3, ''i2'') (Some 1)
     (puts put_write [((''t'', ''k''), (JInt 7, ''j3'', None, 2, ''i3''), None)]
       (snd (projr (put_write (''t'', ''k'') (JInt 5, ''j1'', None, 1, ''i1'') (Some 1)
          (snd (projr (put_write (''t'', ''k'') (JInt 4, ''j1'', None, 0, ''i0'') None []))))))) = Inl err"
proof (rule memory_stale_write_refused)
  show "memory_inv (snd (projr (put_write (''t'', ''k'') (JInt 4, ''j1'', None, 0, ''i0'') None [])))"
    by (simp add: put_def insert_entry_def memory_inv_def Let_def)
  show "put_write (''t'', ''k'') (JInt 5, ''j1'', None, 1, ''i1'') (Some 1)
          (snd (projr (put_write (''t'', ''k'') (JInt 4, ''j1'', None, 0, ''i0'') None []))) =
        Inr (2, snd (projr (put_write (''t'', ''k'') (JInt 5, ''j1'', None, 1, ''i1'') (Some 1)
          (snd (projr (put_write (''t'', ''k'') (JInt 4, ''j1'', None, 0, ''i0'') None []))))))"
    by (simp add: put_def insert_entry_def Let_def)
qed

text \<open>A successful \<^verbatim>\<open>put\<close> is read back by \<^verbatim>\<open>get\<close> as the entry it returned, with the value written,
  the version one above the old one (or 1), and no other key of any tree affected.\<close>

theorem memory_put_then_get:
  assumes "memory_inv t" "put tree k v job node expected now new_id t = Inr (entry, t')"
  shows "get_entry tree k t' = Some entry \<and> me_value_json entry = v \<and> me_written_by_job_id entry = job \<and>
     me_version entry = (case get_version tree k t of None \<Rightarrow> 1 | Some c \<Rightarrow> c + 1) \<and>
     ((tree', k') \<noteq> (tree, k) \<longrightarrow> get_entry tree' k' t' = get_entry tree' k' t) \<and> memory_inv t'"
proof -
  have "me_value_json entry = v \<and> me_written_by_job_id entry = job"
    using assms(2) by (cases rule: put_cases) auto
  moreover have "(tree', k') \<noteq> (tree, k) \<longrightarrow> get_entry tree' k' t' = get_entry tree' k' t"
    using put_frame [OF assms(2)] by (auto simp: get_entry_def)
  ultimately show ?thesis using get_after_put [OF assms] put_version(2) [OF assms] put_inv [OF assms] by simp
qed

theorem memory_put_then_get_witness:
  "get_entry ''t'' ''k'' (snd (projr (put ''t'' ''k'' (JInt 4) ''j1'' None None 0 ''i0'' []))) =
     Some (fst (projr (put ''t'' ''k'' (JInt 4) ''j1'' None None 0 ''i0'' [])))"
proof -
  have "memory_inv []" by (simp add: memory_inv_def)
  moreover have "put ''t'' ''k'' (JInt 4) ''j1'' None None 0 ''i0'' [] =
      Inr (fst (projr (put ''t'' ''k'' (JInt 4) ''j1'' None None 0 ''i0'' [])),
           snd (projr (put ''t'' ''k'' (JInt 4) ''j1'' None None 0 ''i0'' [])))"
    by (simp add: put_def insert_entry_def Let_def)
  ultimately show ?thesis using memory_put_then_get by blast
qed

section \<open>Refinement of a map\<close>

text \<open>
  The abstract store is a map from a tree and a key to a value with its version. An operation answers, and a write is
  refused exactly when the version it expects is not the current one.
\<close>

type_synonym memory_map = "ident \<times> string \<Rightarrow> (json \<times> int) option"

datatype memory_command =
    M_put ident string json ident "ident option" "int option" timestamp ident
  | M_get ident string
  | M_delete ident string
  | M_clear ident

datatype memory_answer =
    Written int
  | Refused "int option"
  | Read "(json \<times> int) option"
  | Deleted bool
  | Cleared
  | Failed

fun memory_spec :: "memory_command \<Rightarrow> memory_map \<Rightarrow> memory_answer \<times> memory_map" where
  "memory_spec (M_put tree k v job node expected now i) m =
     (let current = map_option snd (m (tree, k))
      in if expected \<noteq> None \<and> expected \<noteq> current then (Refused current, m)
         else let n = (case current of None \<Rightarrow> 1 | Some c \<Rightarrow> c + 1) in (Written n, m((tree, k) \<mapsto> (v, n))))"
| "memory_spec (M_get tree k) m = (Read (m (tree, k)), m)"
| "memory_spec (M_delete tree k) m = (Deleted (m (tree, k) \<noteq> None), m((tree, k) := None))"
| "memory_spec (M_clear tree) m = (Cleared, \<lambda>(t, k). if t = tree then None else m (t, k))"

fun memory_step :: "memory_command \<Rightarrow> memory_entry list \<Rightarrow> memory_answer \<times> memory_entry list" where
  "memory_step (M_put tree k v job node expected now i) t =
     (case put tree k v job node expected now i t of
        Inr (entry, t') \<Rightarrow> (Written (me_version entry), t')
      | Inl (VersionConflictError e current) \<Rightarrow> (Refused current, t)
      | Inl e \<Rightarrow> (Failed, t))"
| "memory_step (M_get tree k) t =
     (Read (map_option (\<lambda>r. (me_value_json r, me_version r)) (get_entry tree k t)), t)"
| "memory_step (M_delete tree k) t = (let (b, t') = delete_entry tree k t in (Deleted b, t'))"
| "memory_step (M_clear tree) t = (Cleared, clear_tree tree t)"

fun run_memory :: "('c \<Rightarrow> 's \<Rightarrow> 'a \<times> 's) \<Rightarrow> 'c list \<Rightarrow> 's \<Rightarrow> 'a list \<times> 's" where
  "run_memory step [] s = ([], s)"
| "run_memory step (c # cs) s =
     (let (a, s1) = step c s; (rest, s2) = run_memory step cs s1 in (a # rest, s2))"

definition memory_abs :: "memory_entry list \<Rightarrow> memory_map" where
  "memory_abs t = (\<lambda>(tree, k). map_option (\<lambda>r. (me_value_json r, me_version r)) (get_entry tree k t))"

text \<open>The identifiers that writes bring are fresh, as those of \<^verbatim>\<open>uuid4\<close> are.\<close>

fun fresh_ids :: "memory_command list \<Rightarrow> ident list \<Rightarrow> bool" where
  "fresh_ids [] used = True"
| "fresh_ids (M_put tree k v job node expected now i # cs) used = (i \<notin> set used \<and> fresh_ids cs (i # used))"
| "fresh_ids (c # cs) used = fresh_ids cs used"

lemma fresh_ids_mono: "fresh_ids cs used \<Longrightarrow> set used' \<subseteq> set used \<Longrightarrow> fresh_ids cs used'"
proof (induction cs used arbitrary: used' rule: fresh_ids.induct)
  case (2 tree k v job node expected now i cs used)
  from "2.IH" [of "i # used'"] "2.prems" show ?case by auto
qed auto

lemma memory_abs_version: "map_option snd (memory_abs t (tree, k)) = get_version tree k t"
  by (simp add: memory_abs_def get_entry_def get_version_def option.map_comp comp_def)

lemma fresh_put:
  assumes "i \<notin> me_id ` set t"
  shows "put tree k v job node expected now i t =
    (if expected \<noteq> None \<and> expected \<noteq> get_version tree k t
     then Inl (VersionConflictError (the expected) (get_version tree k t))
     else Inr (projr (put tree k v job node expected now i t)))"
  using assms
  by (cases "fetchone (filter (at_key tree k) t)")
    (auto simp: put_def get_version_def Let_def insert_entry_def image_iff filter_empty_conv split: option.split)

lemma memory_abs_put:
  assumes "memory_inv t" "put tree k v job node expected now i t = Inr (entry, t')"
  shows "memory_abs t' = (memory_abs t)((tree, k) \<mapsto> (v, me_version entry))"
proof
  fix key :: "ident \<times> string"
  obtain tree' k' where key: "key = (tree', k')" by (cases key)
  have "me_value_json entry = v" using assms(2) by (cases rule: put_cases) auto
  with get_after_put [OF assms] put_frame [OF assms(2), of tree' k'] key
  show "memory_abs t' key = ((memory_abs t)((tree, k) \<mapsto> (v, me_version entry))) key"
    by (cases "key = (tree, k)") (auto simp: memory_abs_def get_entry_def)
qed

lemma put_ids:
  assumes "put tree k v job node expected now i t = Inr (entry, t')"
  shows "me_id ` set t' \<subseteq> insert i (me_id ` set t)"
  using assms by (cases rule: put_cases) (auto simp: in_sql_update)

lemma memory_simulation:
  assumes "memory_inv t" "fresh_ids (c # cs) (map me_id t)" "memory_step c t = (a, t')"
  shows "memory_spec c (memory_abs t) = (a, memory_abs t') \<and> memory_inv t' \<and> fresh_ids cs (map me_id t')"
proof (cases c)
  case (M_put tree k v job node expected now i)
  with assms(2) have fresh: "i \<notin> me_id ` set t" "fresh_ids cs (i # map me_id t)" by auto
  show ?thesis
  proof (cases "expected \<noteq> None \<and> expected \<noteq> get_version tree k t")
    case True
    with assms M_put fresh show ?thesis
      by (auto simp: fresh_put [OF fresh(1)] memory_abs_version Let_def intro: fresh_ids_mono)
  next
    case False
    then obtain entry t2 where p: "put tree k v job node expected now i t = Inr (entry, t2)"
      using fresh_put [OF fresh(1), of tree k v job node expected now] by (metis prod.exhaust)
    with assms(3) M_put have "a = Written (me_version entry)" "t' = t2" by auto
    moreover have "fresh_ids cs (map me_id t2)"
      by (rule fresh_ids_mono [OF fresh(2)]) (use put_ids [OF p] in auto)
    ultimately show ?thesis
      using False M_put put_inv [OF assms(1) p] put_version(2) [OF assms(1) p] memory_abs_put [OF assms(1) p]
      by (simp add: memory_abs_version Let_def)
  qed
next
  case (M_get tree k)
  with assms show ?thesis by (auto simp: memory_abs_def)
next
  case (M_delete tree k)
  have "0 < sql_rowcount (at_key tree k) t \<longleftrightarrow> memory_abs t (tree, k) \<noteq> None"
    by (auto simp: memory_abs_def get_entry_def sql_rowcount_def fetchone_def split: list.split)
  moreover have "memory_abs (snd (delete_entry tree k t)) = (memory_abs t)((tree, k) := None)"
    using delete_entry_gone [of tree k t] delete_entry_frame [of _ _ tree k t]
    by (auto simp: memory_abs_def fun_eq_iff)
  moreover have "memory_inv (snd (delete_entry tree k t))"
    using assms(1) by (auto simp: memory_inv_def delete_entry_def sql_delete_def distinct_map_filter)
  moreover have "fresh_ids cs (map me_id (snd (delete_entry tree k t)))"
    by (rule fresh_ids_mono [of _ "map me_id t"]) (use assms(2) M_delete in \<open>auto simp: delete_entry_def sql_delete_def\<close>)
  ultimately show ?thesis using assms(3) M_delete by (auto simp: delete_entry_def)
next
  case (M_clear tree)
  have "filter (at_key tr k) (clear_tree tree t) = (if tr = tree then [] else filter (at_key tr k) t)" for tr k
    by (auto simp: clear_tree_def sql_delete_def filter_empty_conv intro: filter_cong)
  then have "memory_abs (clear_tree tree t) = (\<lambda>(tr, k). if tr = tree then None else memory_abs t (tr, k))"
    by (auto simp: memory_abs_def get_entry_def fun_eq_iff)
  moreover have "memory_inv (clear_tree tree t)"
    using assms(1) by (auto simp: memory_inv_def clear_tree_def sql_delete_def distinct_map_filter)
  moreover have "fresh_ids cs (map me_id (clear_tree tree t))"
    by (rule fresh_ids_mono [of _ "map me_id t"]) (use assms(2) M_clear in \<open>auto simp: clear_tree_def sql_delete_def\<close>)
  ultimately show ?thesis using assms(3) M_clear by auto
qed

text \<open>C29. The store refines a map with versions: any sequence of writes, reads, deletions and clearings of a tree, whatever the
  jobs that issue them, gets the answers of the map, and the table represents the map at the end.\<close>

theorem memory_refines_map:
  assumes "memory_inv t" "fresh_ids cs (map me_id t)" "run_memory memory_step cs t = (answers, t')"
  shows "run_memory memory_spec cs (memory_abs t) = (answers, memory_abs t')"
  using assms
proof (induction cs arbitrary: t answers t')
  case (Cons c cs)
  obtain a t1 where step: "memory_step c t = (a, t1)" by (cases "memory_step c t")
  obtain rest t2 where run: "run_memory memory_step cs t1 = (rest, t2)" by (cases "run_memory memory_step cs t1")
  from memory_simulation [OF Cons.prems(1,2) step] Cons.IH [OF _ _ run] Cons.prems(3) step run show ?case by simp
qed simp

theorem memory_refines_map_witness:
  "run_memory memory_spec
     [M_put ''t'' ''k'' (JInt 1) ''j'' None None 0 ''i1'', M_put ''t'' ''k'' (JInt 2) ''j'' None (Some 3) 1 ''i2'',
      M_get ''t'' ''k'', M_clear ''t'', M_delete ''t'' ''k''] (memory_abs []) =
   ([Written 1, Refused (Some 1), Read (Some (JInt 1, 1)), Cleared, Deleted False], memory_abs [])"
  by (rule memory_refines_map)
    (simp_all add: memory_inv_def put_def insert_entry_def Let_def get_entry_def delete_entry_def clear_tree_def
      sql_rowcount_def sql_delete_def)

end
