(* ===== verification/Schema.thy ===== *)
theory Schema
  imports Prelude
begin

text \<open>
  The tables of \<^verbatim>\<open>backend/core/schema.py\<close> that several components share: jobs, their nodes, files,
  audit log, templates and the delegation relation, with the constraints SQLite enforces on them
  (primary keys, \<^verbatim>\<open>UNIQUE\<close>, \<^verbatim>\<open>NOT NULL\<close>, foreign keys). \<open>db\<close> is the state of the database
  file; an \<^verbatim>\<open>INSERT\<close> either extends a table or is refused with an \<open>IntegrityError\<close>. Of the
  tables \<^verbatim>\<open>workspaces\<close> and \<^verbatim>\<open>users\<close> only the keys are kept, for the foreign keys.

  A JSON column of known shape has type \<open>'a json_col\<close>: the decoded value, or a text that does
  not parse.
\<close>

datatype 'a json_col = Json 'a | Bad_json string

text \<open>What \<^verbatim>\<open>retry_policy_json\<close> can decode to: a dict with or without its two keys, or no dict.\<close>

datatype retry_json = Retry_dict "int option" "int list option" | Not_a_dict

record job_row =
  jr_id :: ident
  jr_workspace_id :: "ident option"
  jr_title :: string
  jr_description :: "string option"
  jr_source :: string
  jr_source_ref :: "string option"
  jr_status :: string
  jr_priority :: int
  jr_requester :: "ident option"
  jr_mode :: string
  jr_template_id :: "ident option"
  jr_result_summary :: "string option"
  jr_review_count :: int
  jr_max_reviews :: int
  jr_error :: "string option"
  jr_cost_cents :: "real option"
  jr_created_at :: timestamp
  jr_updated_at :: "timestamp option"
  jr_parent_job_id :: "ident option"
  jr_tree_root_id :: "ident option"

record node_row =
  nr_id :: ident
  nr_job_id :: ident
  nr_sequence :: nat
  nr_title :: string
  nr_instructions :: "string option"
  nr_tools_allowed :: "string list json_col option"
  nr_expected_output :: "string option"
  nr_status :: string
  nr_input_json :: "string option"
  nr_output_json :: "string option"
  nr_error :: "string option"
  nr_auto_generated :: bool
  nr_input_schema_json :: "string option"
  nr_output_schema_json :: "string option"
  nr_side_effects_json :: "string option"
  nr_retry_policy_json :: "retry_json json_col option"
  nr_timeout_sec :: "int option"
  nr_rollback_strategy :: "string option"
  nr_acceptance_tests_json :: "string option"
  nr_depends_on :: "string list json_col option"
  nr_created_at :: timestamp
  nr_updated_at :: timestamp

record file_row =
  fr_id :: ident
  fr_job_id :: ident
  fr_node_id :: "ident option"
  fr_filename :: string
  fr_file_path :: string
  fr_file_type :: string
  fr_mime_type :: "string option"
  fr_size_bytes :: "int option"

record audit_row =
  ar_id :: ident
  ar_job_id :: "ident option"
  ar_node_id :: "ident option"
  ar_action :: string
  ar_detail :: "string option"
  ar_actor :: "string option"
  ar_timestamp :: timestamp

text \<open>
  A node definition as the planner and the templates hand it over: a dict with these keys. A list
  valued key may also come as JSON text, a key may be missing.
\<close>

datatype list_field = As_list "string list" | As_text "string list json_col"

record node_def =
  nd_title :: "string option"
  nd_instructions :: "string option"
  nd_tools_allowed :: "list_field option"
  nd_expected_output :: "string option"
  nd_input_schema_json :: "string option"
  nd_output_schema_json :: "string option"
  nd_depends_on :: "list_field option"
  nd_timeout_sec :: "int option"
  nd_retry_policy_json :: "retry_json json_col option"

record template_row =
  tr_id :: ident
  tr_workspace_id :: ident
  tr_name :: string
  tr_description :: "string option"
  tr_nodes_json :: "node_def list json_col"
  tr_created_by :: "ident option"
  tr_use_count :: int
  tr_created_at :: timestamp
  tr_updated_at :: timestamp

record delegation_row =
  dg_id :: ident
  dg_parent_job_id :: ident
  dg_child_job_id :: ident
  dg_delegation_type :: string
  dg_context_json :: "json option"
  dg_status :: string
  dg_created_at :: timestamp
  dg_completed_at :: "timestamp option"

record db =
  db_workspaces :: "ident list"
  db_users :: "ident list"
  db_has_delegation :: bool
  db_jobs :: "job_row list"
  db_nodes :: "node_row list"
  db_files :: "file_row list"
  db_audit :: "audit_row list"
  db_templates :: "template_row list"
  db_delegation :: "delegation_row list"

definition empty_db :: "ident list \<Rightarrow> ident list \<Rightarrow> db" where
  "empty_db wss us = \<lparr>db_workspaces = wss, db_users = us, db_has_delegation = True, db_jobs = [],
     db_nodes = [], db_files = [], db_audit = [], db_templates = [], db_delegation = []\<rparr>"

section \<open>Constraints\<close>

definition insert_job :: "job_row \<Rightarrow> db \<Rightarrow> db result" where
  "insert_job r d =
     (if jr_workspace_id r = None then Inl (IntegrityError ''NOT NULL jobs.workspace_id'')
      else if jr_updated_at r = None then Inl (IntegrityError ''NOT NULL jobs.updated_at'')
      else if jr_id r \<in> set (map jr_id (db_jobs d)) then Inl (IntegrityError ''UNIQUE jobs.id'')
      else if the (jr_workspace_id r) \<notin> set (db_workspaces d)
      then Inl (IntegrityError ''FOREIGN KEY jobs.workspace_id'')
      else if jr_requester r \<noteq> None \<and> the (jr_requester r) \<notin> set (db_users d)
      then Inl (IntegrityError ''FOREIGN KEY jobs.requester'')
      else Inr (d\<lparr>db_jobs := db_jobs d @ [r]\<rparr>))"

definition insert_node :: "node_row \<Rightarrow> db \<Rightarrow> db result" where
  "insert_node r d =
     (if nr_id r \<in> set (map nr_id (db_nodes d)) then Inl (IntegrityError ''UNIQUE job_nodes.id'')
      else if nr_job_id r \<notin> set (map jr_id (db_jobs d))
      then Inl (IntegrityError ''FOREIGN KEY job_nodes.job_id'')
      else Inr (d\<lparr>db_nodes := db_nodes d @ [r]\<rparr>))"

definition insert_file :: "file_row \<Rightarrow> db \<Rightarrow> db result" where
  "insert_file r d =
     (if fr_id r \<in> set (map fr_id (db_files d)) then Inl (IntegrityError ''UNIQUE job_files.id'')
      else if fr_job_id r \<notin> set (map jr_id (db_jobs d))
      then Inl (IntegrityError ''FOREIGN KEY job_files.job_id'')
      else Inr (d\<lparr>db_files := db_files d @ [r]\<rparr>))"

definition insert_audit :: "audit_row \<Rightarrow> db \<Rightarrow> db result" where
  "insert_audit r d =
     (if ar_id r \<in> set (map ar_id (db_audit d)) then Inl (IntegrityError ''UNIQUE job_audit_log.id'')
      else Inr (d\<lparr>db_audit := db_audit d @ [r]\<rparr>))"

definition insert_template :: "template_row \<Rightarrow> db \<Rightarrow> db result" where
  "insert_template r d =
     (if tr_id r \<in> set (map tr_id (db_templates d))
      then Inl (IntegrityError ''UNIQUE pipeline_templates.id'')
      else if tr_workspace_id r \<notin> set (db_workspaces d)
      then Inl (IntegrityError ''FOREIGN KEY pipeline_templates.workspace_id'')
      else if tr_created_by r \<noteq> None \<and> the (tr_created_by r) \<notin> set (db_users d)
      then Inl (IntegrityError ''FOREIGN KEY pipeline_templates.created_by'')
      else Inr (d\<lparr>db_templates := db_templates d @ [r]\<rparr>))"

definition insert_delegation :: "delegation_row \<Rightarrow> db \<Rightarrow> db result" where
  "insert_delegation r d =
     (if dg_id r \<in> set (map dg_id (db_delegation d))
      then Inl (IntegrityError ''UNIQUE job_delegation.id'')
      else if (dg_parent_job_id r, dg_child_job_id r) \<in>
              set (map (\<lambda>q. (dg_parent_job_id q, dg_child_job_id q)) (db_delegation d))
      then Inl (IntegrityError ''UNIQUE job_delegation.parent_job_id, child_job_id'')
      else Inr (d\<lparr>db_delegation := db_delegation d @ [r]\<rparr>))"

text \<open>\<^verbatim>\<open>DELETE FROM jobs WHERE id = ?\<close> is refused while a node or a file refers to the job.\<close>

definition delete_job_row :: "ident \<Rightarrow> db \<Rightarrow> db result" where
  "delete_job_row j d =
     (if (\<exists>n \<in> set (db_nodes d). nr_job_id n = j) \<or> (\<exists>f \<in> set (db_files d). fr_job_id f = j)
      then Inl (IntegrityError ''FOREIGN KEY jobs.id'')
      else Inr (d\<lparr>db_jobs := sql_delete (\<lambda>r. jr_id r = j) (db_jobs d)\<rparr>))"

lemmas insert_defs [store_defs] =
  insert_job_def insert_node_def insert_file_def insert_audit_def insert_template_def
  insert_delegation_def

lemma insert_job_InrD:
  "insert_job r d = Inr d' \<Longrightarrow> d' = d\<lparr>db_jobs := db_jobs d @ [r]\<rparr> \<and> jr_id r \<notin> jr_id ` set (db_jobs d)"
  by (auto simp: insert_job_def split: if_splits)

lemma insert_delegation_InrD:
  "insert_delegation r d = Inr d' \<Longrightarrow> d' = d\<lparr>db_delegation := db_delegation d @ [r]\<rparr>"
  by (auto simp: insert_delegation_def split: if_splits)

text \<open>Well-formedness of the database file: what the constraints maintain.\<close>

definition db_wf :: "db \<Rightarrow> bool" where
  "db_wf d \<longleftrightarrow>
     distinct (map jr_id (db_jobs d)) \<and> distinct (map nr_id (db_nodes d)) \<and>
     distinct (map fr_id (db_files d)) \<and> distinct (map ar_id (db_audit d)) \<and>
     distinct (map tr_id (db_templates d)) \<and>
     (\<forall>n \<in> set (db_nodes d). nr_job_id n \<in> jr_id ` set (db_jobs d)) \<and>
     (\<forall>f \<in> set (db_files d). fr_job_id f \<in> jr_id ` set (db_jobs d))"

lemma insert_wf:
  assumes "db_wf d"
  shows "insert_job jr d = Inr d' \<Longrightarrow> db_wf d'"
    and "insert_node nr d = Inr d' \<Longrightarrow> db_wf d'"
    and "insert_file fr d = Inr d' \<Longrightarrow> db_wf d'"
    and "insert_audit ar d = Inr d' \<Longrightarrow> db_wf d'"
    and "insert_template tr d = Inr d' \<Longrightarrow> db_wf d'"
    and "insert_delegation dr d = Inr d' \<Longrightarrow> db_wf d'"
  using assms by (auto simp: insert_defs db_wf_def split: if_splits)

end
