(* ===== verification/Delegation_Tree.thy ===== *)
theory Delegation_Tree
  imports Schema
begin

text \<open>
  The relation \<^verbatim>\<open>job_delegation\<close> as a graph, shared by the delegation engine, the job queue and the
  message bus: parent lookup, children, the loop that climbs to the root, and the recursion that
  visits a subtree. \<open>grown\<close> is the shape the engine builds: every row's child is new to the
  older rows. On such a table climbing computes \<open>depth_in\<close> and \<open>root_in\<close>, and a subtree
  recursion reaches exactly the descendants.
\<close>

definition parent_of :: "delegation_row list \<Rightarrow> ident \<Rightarrow> ident option" where
  "parent_of rows j = map_option dg_parent_job_id (fetchone (filter (\<lambda>r. dg_child_job_id r = j) rows))"

definition children_ids :: "delegation_row list \<Rightarrow> ident \<Rightarrow> ident list" where
  "children_ids rows p = map dg_child_job_id (filter (\<lambda>r. dg_parent_job_id r = p) rows)"

definition edges :: "delegation_row list \<Rightarrow> (ident \<times> ident) set" where
  "edges rows = {(dg_parent_job_id r, dg_child_job_id r) | r. r \<in> set rows}"

definition row_ids :: "delegation_row list \<Rightarrow> ident set" where
  "row_ids rows = dg_parent_job_id ` set rows \<union> dg_child_job_id ` set rows"

lemma set_children_ids: "set (children_ids rows p) = {c. (p, c) \<in> edges rows}"
  by (auto simp: children_ids_def edges_def)

lemma row_ids_simps [simp]:
  "row_ids [] = {}"
  "row_ids (r # rows) = insert (dg_parent_job_id r) (insert (dg_child_job_id r) (row_ids rows))"
  by (auto simp: row_ids_def)

lemma row_ids_rev [simp]: "row_ids (rev rows) = row_ids rows"
  by (simp add: row_ids_def)

section \<open>Climbing to the root\<close>

text \<open>
  The loop of \<^verbatim>\<open>get_tree_root\<close> and \<^verbatim>\<open>get_depth\<close>: stop at a job met before (a cycle) or at a
  job without a parent; the result is the job it stops at and the number of steps taken. The set
  \<open>visited\<close> grows by a child of the table in every round, so the loop ends.
\<close>

function climb :: "delegation_row list \<Rightarrow> ident \<Rightarrow> ident set \<Rightarrow> nat \<Rightarrow> ident \<times> nat" where
  "climb rows current visited depth =
     (if current \<in> visited then (current, depth)
      else (case parent_of rows current of
              None \<Rightarrow> (current, depth)
            | Some p \<Rightarrow> climb rows p (insert current visited) (Suc depth)))"
  by pat_completeness auto
termination
proof (relation "measure (\<lambda>(rows, current, visited, depth). card (dg_child_job_id ` set rows - visited))",
    goal_cases)
  case (2 rows current visited depth p)
  then have "current \<in> dg_child_job_id ` set rows"
    by (auto simp: parent_of_def dest!: fetchone_filterD)
  with 2 have "dg_child_job_id ` set rows - insert current visited \<subset>
      dg_child_job_id ` set rows - visited" by auto
  then show ?case by (auto intro: psubset_card_mono)
qed simp

declare climb.simps [simp del]

section \<open>The shape the engine builds\<close>

text \<open>Newest row first: its child occurs in no older row, and it is not its own parent.\<close>

fun grown :: "delegation_row list \<Rightarrow> bool" where
  "grown [] = True"
| "grown (r # rows) \<longleftrightarrow>
     dg_child_job_id r \<notin> row_ids rows \<and> dg_child_job_id r \<noteq> dg_parent_job_id r \<and> grown rows"

definition forest :: "delegation_row list \<Rightarrow> bool" where
  "forest rows \<longleftrightarrow> grown (rev rows)"

lemma grown_filter: "grown rows \<Longrightarrow> grown (filter P rows)"
proof (induction rows)
  case Nil
  then show ?case by simp
next
  case (Cons r rows)
  have "row_ids (filter P rows) \<subseteq> row_ids rows" by (auto simp: row_ids_def)
  with Cons show ?case by auto
qed

lemma forest_sql_delete: "forest rows \<Longrightarrow> forest (sql_delete P rows)"
  by (simp add: forest_def sql_delete_def rev_filter grown_filter)

lemma forest_Nil [simp]: "forest []"
  by (simp add: forest_def)

lemma forest_snoc:
  "forest (rows @ [r]) \<longleftrightarrow>
     dg_child_job_id r \<notin> row_ids rows \<and> dg_child_job_id r \<noteq> dg_parent_job_id r \<and> forest rows"
  by (simp add: forest_def)

lemma grown_update:
  "(\<And>r. dg_parent_job_id (f r) = dg_parent_job_id r \<and> dg_child_job_id (f r) = dg_child_job_id r) \<Longrightarrow>
     row_ids (map f rows) = row_ids rows \<and> (grown (map f rows) \<longleftrightarrow> grown rows)"
  by (induction rows) auto

lemma forest_sql_update:
  "(\<And>r. dg_parent_job_id (f r) = dg_parent_job_id r \<and> dg_child_job_id (f r) = dg_child_job_id r) \<Longrightarrow>
     forest (sql_update P f rows) \<longleftrightarrow> forest rows"
  using grown_update [of "\<lambda>r. if P r then f r else r" "rev rows"]
  by (simp add: forest_def sql_update_def rev_map)

lemma grown_append:
  "grown (pre @ rows) \<Longrightarrow> grown rows \<and> (\<forall>q \<in> set pre. dg_child_job_id q \<notin> row_ids rows)"
  by (induction pre) (auto simp: row_ids_def)

text \<open>Depth and root, by recursion over the rows, newest first.\<close>

fun depth_in :: "delegation_row list \<Rightarrow> ident \<Rightarrow> nat" where
  "depth_in [] j = 0"
| "depth_in (r # rows) j =
     (if dg_child_job_id r = j then Suc (depth_in rows (dg_parent_job_id r)) else depth_in rows j)"

fun root_in :: "delegation_row list \<Rightarrow> ident \<Rightarrow> ident" where
  "root_in [] j = j"
| "root_in (r # rows) j =
     (if dg_child_job_id r = j then root_in rows (dg_parent_job_id r) else root_in rows j)"

lemma grown_distinct: "grown rows \<Longrightarrow> distinct (map dg_child_job_id rows)"
  by (induction rows) (auto simp: row_ids_def)

lemma parent_of_row:
  assumes "grown (rev rows)" "r \<in> set rows"
  shows "parent_of rows (dg_child_job_id r) = Some (dg_parent_job_id r)"
proof -
  from grown_distinct [OF assms(1)] have "distinct (map dg_child_job_id rows)"
    by (simp add: rev_map [symmetric])
  from fetchone_key [OF this assms(2)] show ?thesis by (simp add: parent_of_def)
qed

lemma parent_of_None: "parent_of rows j = None \<longleftrightarrow> j \<notin> dg_child_job_id ` set rows"
  by (auto simp: parent_of_def filter_empty_conv)

lemma climb_suffix:
  assumes "rev rows = pre @ rest" "grown (rev rows)"
    and "\<forall>q \<in> set pre. dg_child_job_id q \<noteq> cur" "cur \<notin> V" "V \<inter> row_ids rest = {}"
  shows "climb rows cur V n = (root_in rest cur, n + depth_in rest cur)"
  using assms
proof (induction rest arbitrary: pre cur V n)
  case Nil
  then have "cur \<notin> dg_child_job_id ` set rows" by (metis append_Nil2 imageE set_rev)
  with Nil show ?case by (simp add: climb.simps [of rows cur V n] parent_of_None [symmetric])
next
  case (Cons r rest)
  from Cons.prems(1) have snoc: "rev rows = (pre @ [r]) @ rest" by simp
  from grown_append [of pre "r # rest"] Cons.prems(1,2)
  have g: "grown (r # rest)" "\<forall>q \<in> set pre. dg_child_job_id q \<notin> row_ids (r # rest)" by auto
  show ?case
  proof (cases "dg_child_job_id r = cur")
    case True
    have "r \<in> set rows" using Cons.prems(1) by (metis in_set_conv_decomp set_rev)
    with parent_of_row [OF Cons.prems(2)] True
    have "parent_of rows cur = Some (dg_parent_job_id r)" by blast
    then have "climb rows cur V n = climb rows (dg_parent_job_id r) (insert cur V) (Suc n)"
      using Cons.prems(4) by (simp add: climb.simps [of rows cur V n])
    moreover have "climb rows (dg_parent_job_id r) (insert cur V) (Suc n) =
        (root_in rest (dg_parent_job_id r), Suc n + depth_in rest (dg_parent_job_id r))"
      by (rule Cons.IH [OF snoc Cons.prems(2)]) (use g True Cons.prems(5) in auto)
    ultimately show ?thesis using True by simp
  next
    case False
    have "climb rows cur V n = (root_in rest cur, n + depth_in rest cur)"
      by (rule Cons.IH [OF snoc Cons.prems(2)]) (use False Cons.prems in auto)
    with False show ?thesis by simp
  qed
qed

lemma climb_forest:
  "forest rows \<Longrightarrow> climb rows j {} 0 = (root_in (rev rows) j, depth_in (rev rows) j)"
  using climb_suffix [of rows "[]" "rev rows" j "{}" 0] by (simp add: forest_def)

lemma depth_in_0: "j \<notin> dg_child_job_id ` set rows \<Longrightarrow> depth_in rows j = 0 \<and> root_in rows j = j"
  by (induction rows) auto

lemma depth_edge:
  assumes "grown rows" "r \<in> set rows"
  shows "depth_in rows (dg_child_job_id r) = Suc (depth_in rows (dg_parent_job_id r))"
  using assms
proof (induction rows)
  case Nil
  then show ?case by simp
next
  case (Cons q rows)
  show ?case
  proof (cases "r = q")
    case True
    with Cons.prems show ?thesis by auto
  next
    case False
    with Cons.prems have r: "r \<in> set rows" by simp
    then have "dg_child_job_id r \<in> row_ids rows" "dg_parent_job_id r \<in> row_ids rows"
      by (auto simp: row_ids_def)
    with Cons.prems have "dg_child_job_id q \<noteq> dg_child_job_id r" "dg_child_job_id q \<noteq> dg_parent_job_id r"
      by auto
    with Cons r show ?thesis by simp
  qed
qed

lemma depth_bound: "depth_in rows j \<le> length rows"
  by (induction rows j rule: depth_in.induct) auto

section \<open>Visiting a subtree\<close>

text \<open>
  The nodes a recursive method visits, in its order, when at most \<open>fuel\<close> nested calls are
  possible; \<open>None\<close> is Python's \<^verbatim>\<open>RecursionError\<close>.
\<close>

fun subtree_ids :: "nat \<Rightarrow> delegation_row list \<Rightarrow> ident \<Rightarrow> ident list option" where
  "subtree_ids 0 rows j = None"
| "subtree_ids (Suc f) rows j =
     (let subs = map (subtree_ids f rows) (children_ids rows j)
      in if None \<in> set subs then None else Some (j # concat (map the subs)))"

lemma subtree_ids_step:
  assumes "subtree_ids (Suc f) rows j = Some xs"
  shows "\<forall>c \<in> set (children_ids rows j). \<exists>ys. subtree_ids f rows c = Some ys"
    and "set xs = insert j (\<Union>c \<in> set (children_ids rows j). set (the (subtree_ids f rows c)))"
proof -
  from assms have "None \<notin> set (map (subtree_ids f rows) (children_ids rows j))"
    and xs: "xs = j # concat (map the (map (subtree_ids f rows) (children_ids rows j)))"
    by (auto simp: Let_def split: if_splits)
  then show "\<forall>c \<in> set (children_ids rows j). \<exists>ys. subtree_ids f rows c = Some ys"
    by (metis image_eqI list.set_map option.exhaust)
  from xs show "set xs = insert j (\<Union>c \<in> set (children_ids rows j). set (the (subtree_ids f rows c)))"
    by auto
qed

lemma subtree_ids_descendants:
  "subtree_ids f rows j = Some xs \<Longrightarrow> set xs = (edges rows)\<^sup>* `` {j}"
proof (induction f arbitrary: j xs)
  case 0
  then show ?case by simp
next
  case (Suc f)
  note step = subtree_ids_step [OF Suc.prems]
  have sub: "set (the (subtree_ids f rows c)) = (edges rows)\<^sup>* `` {c}" if "(j, c) \<in> edges rows" for c
    using step(1) that Suc.IH by (fastforce simp: set_children_ids)
  have "set xs = insert j (\<Union>c \<in> {c. (j, c) \<in> edges rows}. (edges rows)\<^sup>* `` {c})"
    using step(2) sub by (auto simp: set_children_ids)
  also have "\<dots> = (edges rows)\<^sup>* `` {j}"
    by (auto intro: converse_rtrancl_into_rtrancl elim: converse_rtranclE)
  finally show ?case .
qed

lemma subtree_ids_enough:
  assumes "forest rows" "\<forall>x. depth_in (rev rows) x \<le> m" "m - depth_in (rev rows) j < f"
  shows "\<exists>xs. subtree_ids f rows j = Some xs"
  using assms(3)
proof (induction f arbitrary: j)
  case 0
  then show ?case by simp
next
  case (Suc f)
  have "\<exists>xs. subtree_ids f rows c = Some xs" if "c \<in> set (children_ids rows j)" for c
  proof -
    from that obtain r where r: "r \<in> set rows" "dg_parent_job_id r = j" "dg_child_job_id r = c"
      by (auto simp: children_ids_def)
    with depth_edge [of "rev rows" r] assms(1) have "depth_in (rev rows) c = Suc (depth_in (rev rows) j)"
      by (simp add: forest_def)
    with Suc.prems assms(2) [rule_format, of c] show ?thesis by (intro Suc.IH) arith
  qed
  then have "None \<notin> set (map (subtree_ids f rows) (children_ids rows j))" by force
  then show ?case by (simp add: Let_def)
qed

lemma subtree_ids_forest:
  assumes "forest rows" "length rows < f"
  shows "\<exists>xs. subtree_ids f rows j = Some xs"
proof (rule subtree_ids_enough [OF assms(1)])
  show "\<forall>x. depth_in (rev rows) x \<le> length rows" using depth_bound [of "rev rows"] by simp
  show "length rows - depth_in (rev rows) j < f" using assms(2) by simp
qed

lemma children_ids_update:
  "(\<And>r. dg_parent_job_id (f r) = dg_parent_job_id r \<and> dg_child_job_id (f r) = dg_child_job_id r) \<Longrightarrow>
     children_ids (sql_update P f rows) p = children_ids rows p"
  by (induction rows) (auto simp: children_ids_def)

text \<open>
  The recursions over \<open>db\<close>. \<open>visit_subtree\<close> visits a job and then, in a nested call each, its
  children; an exception leaves nothing behind (the caller rolls back). \<open>visit_below\<close> visits the
  children only, each before the nested call for it, every visit committed on its own, so that an
  exception keeps the visits made before it.
\<close>

fun visit_subtree :: "(ident \<Rightarrow> db \<Rightarrow> db) \<Rightarrow> nat \<Rightarrow> ident \<Rightarrow> db \<Rightarrow> db result" where
  "visit_subtree visit 0 j d = Inl RecursionError"
| "visit_subtree visit (Suc f) j d =
     fold_result (\<lambda>c d'. visit_subtree visit f c d') (children_ids (db_delegation (visit j d)) j) (visit j d)"

function (sequential) visit_below ::
    "(ident \<Rightarrow> db \<Rightarrow> db) \<Rightarrow> nat \<Rightarrow> ident \<Rightarrow> db \<Rightarrow> py_error option \<times> db"
  and visit_each ::
    "(ident \<Rightarrow> db \<Rightarrow> db) \<Rightarrow> nat \<Rightarrow> ident list \<Rightarrow> db \<Rightarrow> py_error option \<times> db" where
  "visit_below visit 0 p d = (Some RecursionError, d)"
| "visit_below visit (Suc f) p d = visit_each visit f (children_ids (db_delegation d) p) d"
| "visit_each visit f [] d = (None, d)"
| "visit_each visit f (c # cs) d =
     (case visit_below visit f c (visit c d) of
        (Some e, d') \<Rightarrow> (Some e, d') | (None, d') \<Rightarrow> visit_each visit f cs d')"
  by pat_completeness auto
termination
  by (relation "measures [\<lambda>x. case x of Inl (v, f, p, d) \<Rightarrow> f | Inr (v, f, cs, d) \<Rightarrow> f,
                          \<lambda>x. case x of Inl (v, f, p, d) \<Rightarrow> 0 | Inr (v, f, cs, d) \<Rightarrow> Suc (length cs)]") auto

lemma subtree_ids_cong:
  "(\<And>p. children_ids r1 p = children_ids r2 p) \<Longrightarrow> subtree_ids f r1 j = subtree_ids f r2 j"
  by (induction f arbitrary: j) (simp_all add: Let_def cong: map_cong)

locale subtree_visit =
  fixes visit :: "ident \<Rightarrow> db \<Rightarrow> db"
  assumes visit_children: "children_ids (db_delegation (visit x d)) p = children_ids (db_delegation d) p"
begin

lemma fold_visit_children:
  "children_ids (db_delegation (fold visit xs d)) p = children_ids (db_delegation d) p"
  by (induction xs arbitrary: d) (simp_all add: visit_children)

lemma subtree_after [simp]:
  "subtree_ids f (db_delegation (visit x d)) j = subtree_ids f (db_delegation d) j"
  "subtree_ids f (db_delegation (fold visit xs d)) j = subtree_ids f (db_delegation d) j"
  by (rule subtree_ids_cong, rule visit_children) (rule subtree_ids_cong, rule fold_visit_children)

lemma visit_subtree_fold:
  "subtree_ids f (db_delegation d) j = Some xs \<Longrightarrow> visit_subtree visit f j d = Inr (fold visit xs d)"
proof (induction f arbitrary: j d xs)
  case 0
  then show ?case by simp
next
  case (Suc f)
  let ?rows = "db_delegation d"
  have loop: "fold_result (\<lambda>c d'. visit_subtree visit f c d') cs e =
      Inr (fold visit (concat (map (\<lambda>c. the (subtree_ids f ?rows c)) cs)) e)"
    if "\<forall>c \<in> set cs. \<exists>ys. subtree_ids f ?rows c = Some ys"
      and "\<forall>j. subtree_ids f (db_delegation e) j = subtree_ids f ?rows j" for cs e
    using that
  proof (induction cs arbitrary: e)
    case Nil
    then show ?case by simp
  next
    case (Cons c cs)
    then obtain ys where "subtree_ids f ?rows c = Some ys" by auto
    with Cons Suc.IH [of e c ys] show ?case by simp
  qed
  from Suc.prems have "\<forall>c \<in> set (children_ids ?rows j). \<exists>ys. subtree_ids f ?rows c = Some ys"
    by (rule subtree_ids_step)
  moreover from Suc.prems have "xs = j # concat (map (\<lambda>c. the (subtree_ids f ?rows c)) (children_ids ?rows j))"
    by (auto simp: Let_def comp_def split: if_splits)
  ultimately show ?case using loop [of "children_ids ?rows j" "visit j d"]
    by (simp add: visit_children)
qed

lemma visit_below_fold:
  "subtree_ids f (db_delegation d) p = Some xs \<Longrightarrow> visit_below visit f p d = (None, fold visit (tl xs) d)"
proof (induction f arbitrary: p d xs)
  case 0
  then show ?case by simp
next
  case (Suc f)
  let ?rows = "db_delegation d"
  have loop: "visit_each visit f cs e =
      (None, fold visit (concat (map (\<lambda>c. the (subtree_ids f ?rows c)) cs)) e)"
    if "\<forall>c \<in> set cs. \<exists>ys. subtree_ids f ?rows c = Some ys"
      and "\<forall>j. subtree_ids f (db_delegation e) j = subtree_ids f ?rows j" for cs e
    using that
  proof (induction cs arbitrary: e)
    case Nil
    then show ?case by simp
  next
    case (Cons c cs)
    then obtain ys where ys: "subtree_ids f ?rows c = Some ys" by auto
    then have "ys = c # tl ys" by (cases f) (auto simp: Let_def split: if_splits)
    then have "fold visit (tl ys) (visit c e) = fold visit ys e" by (metis fold_simps(2))
    with ys Cons Suc.IH [of "visit c e" c ys] show ?case by simp
  qed
  from Suc.prems have "\<forall>c \<in> set (children_ids ?rows p). \<exists>ys. subtree_ids f ?rows c = Some ys"
    by (rule subtree_ids_step)
  moreover from Suc.prems have "tl xs = concat (map (\<lambda>c. the (subtree_ids f ?rows c)) (children_ids ?rows p))"
    by (auto simp: Let_def comp_def split: if_splits)
  ultimately show ?case using loop [of "children_ids ?rows p" d] by simp
qed

end

end
