(* ===== verification/Delegation.thy ===== *)
theory Delegation
  imports Delegation_Tree
begin

text \<open>
  \<^verbatim>\<open>backend/swarm/delegation.py\<close>: the engine that spawns child jobs under a parent, within a fan-out
  and a depth limit, and cancels or inspects whole trees. \<open>spawn_child_job\<close> takes the
  \<^verbatim>\<open>INSERT INTO jobs\<close> of the database file it runs on as an argument: \<open>insert_job\<close> is the table
  of \<^verbatim>\<open>backend/core/schema.py\<close>, \<open>insert_job_loose\<close> one whose only constraint is the primary
  key (the shape the engine's statement is written for). The locale \<open>job_table\<close> is what the
  engine relies on from that statement.
\<close>

definition MAX_CHILD_JOBS_PER_PARENT :: nat where
  "MAX_CHILD_JOBS_PER_PARENT = 10"

definition MAX_DELEGATION_DEPTH :: nat where
  "MAX_DELEGATION_DEPTH = 5"

definition terminal_statuses :: "string set" where
  "terminal_statuses = {''completed'', ''failed'', ''cancelled''}"

definition insert_job_loose :: "job_row \<Rightarrow> db \<Rightarrow> db result" where
  "insert_job_loose r d =
     (if jr_id r \<in> set (map jr_id (db_jobs d)) then Inl (IntegrityError ''UNIQUE jobs.id'')
      else Inr (d\<lparr>db_jobs := db_jobs d @ [r]\<rparr>))"

definition get_depth :: "db \<Rightarrow> ident \<Rightarrow> nat" where
  "get_depth d j = snd (climb (db_delegation d) j {} 0)"

definition get_tree_root :: "db \<Rightarrow> ident \<Rightarrow> ident" where
  "get_tree_root d j = fst (climb (db_delegation d) j {} 0)"

text \<open>The row \<^verbatim>\<open>spawn_child_job\<close> inserts: six columns given, the others at their defaults.\<close>

definition spawned_job :: "ident \<Rightarrow> string \<Rightarrow> string \<Rightarrow> int \<Rightarrow> timestamp \<Rightarrow> job_row" where
  "spawned_job j title description priority now =
     \<lparr>jr_id = j, jr_workspace_id = None, jr_title = title, jr_description = Some description,
      jr_source = ''web'', jr_source_ref = None, jr_status = ''queued'', jr_priority = priority,
      jr_requester = None, jr_mode = ''quick'', jr_template_id = None, jr_result_summary = None,
      jr_review_count = 0, jr_max_reviews = 3, jr_error = None, jr_cost_cents = Some 0,
      jr_created_at = now, jr_updated_at = None, jr_parent_job_id = None, jr_tree_root_id = None\<rparr>"

definition spawn_child_job ::
  "(job_row \<Rightarrow> db \<Rightarrow> db result) \<Rightarrow> ident \<Rightarrow> string \<Rightarrow> string \<Rightarrow> string \<Rightarrow> json option \<Rightarrow> int \<Rightarrow>
   timestamp \<Rightarrow> ident \<Rightarrow> ident \<Rightarrow> db \<Rightarrow> (delegation_row \<times> db) result" where
  "spawn_child_job ins parent title description dtype context priority now child_id deleg_id d =
     (if fetchone (filter (\<lambda>r. jr_id r = parent) (db_jobs d)) = None
      then Inl (ValueError ''parent does not exist'')
      else if sql_rowcount (\<lambda>r. dg_parent_job_id r = parent) (db_delegation d) \<ge>
              MAX_CHILD_JOBS_PER_PARENT
      then Inl (ValueError ''too many children'')
      else if get_depth d parent + 1 \<ge> MAX_DELEGATION_DEPTH
      then Inl (ValueError ''too deep'')
      else (case ins (spawned_job child_id title description priority now) d of
              Inl e \<Rightarrow> Inl e
            | Inr d1 \<Rightarrow>
                (let r = \<lparr>dg_id = deleg_id, dg_parent_job_id = parent, dg_child_job_id = child_id,
                          dg_delegation_type = dtype, dg_context_json = context,
                          dg_status = ''active'', dg_created_at = now, dg_completed_at = None\<rparr>
                 in case insert_delegation r d1 of Inl e \<Rightarrow> Inl e | Inr d2 \<Rightarrow> Inr (r, d2))))"

definition get_children :: "db \<Rightarrow> ident \<Rightarrow> delegation_row list" where
  "get_children d j =
     order_by dg_created_at (filter (\<lambda>r. dg_parent_job_id r = j) (db_delegation d))"

definition get_parent :: "db \<Rightarrow> ident \<Rightarrow> delegation_row option" where
  "get_parent d j = fetchone (filter (\<lambda>r. dg_child_job_id r = j) (db_delegation d))"

text \<open>The nested dict of \<^verbatim>\<open>get_full_tree\<close>.\<close>

datatype job_tree = Job_tree
  (tree_job_id: ident) (tree_status: string) (tree_title: string)
  (tree_delegation_type: "string option") (tree_children: "job_tree list")

fun build_subtree :: "nat \<Rightarrow> db \<Rightarrow> ident \<Rightarrow> string option \<Rightarrow> job_tree result" where
  "build_subtree 0 d j dtype = Inl RecursionError"
| "build_subtree (Suc f) d j dtype =
     (let job = fetchone (filter (\<lambda>r. jr_id r = j) (db_jobs d))
      in case sequence_results
                (map (\<lambda>r. build_subtree f d (dg_child_job_id r) (Some (dg_delegation_type r)))
                     (get_children d j)) of
           Inl e \<Rightarrow> Inl e
         | Inr children \<Rightarrow>
             Inr (Job_tree j (case job of None \<Rightarrow> ''unknown'' | Some r \<Rightarrow> jr_status r)
                    (case job of None \<Rightarrow> '''' | Some r \<Rightarrow> jr_title r) dtype children))"

definition get_full_tree :: "nat \<Rightarrow> db \<Rightarrow> ident \<Rightarrow> job_tree result" where
  "get_full_tree f d root_id = build_subtree f d root_id None"

text \<open>\<^verbatim>\<open>_cancel_recursive\<close>: one job and the delegation row pointing to it; then the children.\<close>

definition cancel_one :: "timestamp \<Rightarrow> ident \<Rightarrow> db \<Rightarrow> db" where
  "cancel_one now j d =
     d\<lparr>db_jobs := sql_update (\<lambda>r. jr_id r = j \<and> jr_status r \<notin> terminal_statuses)
                    (\<lambda>r. r\<lparr>jr_status := ''cancelled''\<rparr>) (db_jobs d),
       db_delegation := sql_update (\<lambda>r. dg_child_job_id r = j \<and> dg_status r = ''active'')
                    (\<lambda>r. r\<lparr>dg_status := ''cancelled'', dg_completed_at := Some now\<rparr>) (db_delegation d)\<rparr>"

definition cancel_subtree :: "nat \<Rightarrow> timestamp \<Rightarrow> ident \<Rightarrow> db \<Rightarrow> db result" where
  "cancel_subtree f now j d = visit_subtree (cancel_one now) f j d"

definition mark_completed :: "ident \<Rightarrow> string \<Rightarrow> timestamp \<Rightarrow> db \<Rightarrow> db result" where
  "mark_completed child status now d =
     (if status \<notin> {''completed'', ''failed'', ''cancelled''}
      then Inl (ValueError ''Invalid delegation status'')
      else Inr (d\<lparr>db_delegation :=
                  sql_update (\<lambda>r. dg_child_job_id r = child \<and> dg_status r = ''active'')
                    (\<lambda>r. r\<lparr>dg_status := status, dg_completed_at := Some now\<rparr>) (db_delegation d)\<rparr>))"

fun check_complete :: "nat \<Rightarrow> db \<Rightarrow> ident \<Rightarrow> bool result" where
  "check_complete 0 d j = Inl RecursionError"
| "check_complete (Suc f) d j =
     (case fetchone (filter (\<lambda>r. jr_id r = j) (db_jobs d)) of
        None \<Rightarrow> Inr True
      | Some r \<Rightarrow>
          if jr_status r \<notin> terminal_statuses then Inr False
          else all_results (map (check_complete f d) (children_ids (db_delegation d) j)))"

definition is_tree_complete :: "nat \<Rightarrow> db \<Rightarrow> ident \<Rightarrow> bool result" where
  "is_tree_complete f d root_id = check_complete f d root_id"

section \<open>The contract of the jobs table\<close>

locale job_table =
  fixes ins :: "job_row \<Rightarrow> db \<Rightarrow> db result"
  assumes ins_adds: "ins r d = Inr d' \<Longrightarrow>
    d' = d\<lparr>db_jobs := db_jobs d @ [r]\<rparr> \<and> jr_id r \<notin> jr_id ` set (db_jobs d)"
begin

lemma spawn_InrD:
  assumes "spawn_child_job ins p title descr dtype ctx prio now c i d = Inr (r, d')"
  shows "p \<in> jr_id ` set (db_jobs d)" "c \<notin> jr_id ` set (db_jobs d)"
    and "length (children_ids (db_delegation d) p) < MAX_CHILD_JOBS_PER_PARENT"
    and "get_depth d p + 1 < MAX_DELEGATION_DEPTH"
    and "dg_parent_job_id r = p" "dg_child_job_id r = c" "dg_status r = ''active''"
    and "d' = d\<lparr>db_jobs := db_jobs d @ [spawned_job c title descr prio now],
                db_delegation := db_delegation d @ [r]\<rparr>"
proof -
  from assms obtain d1 where d1: "ins (spawned_job c title descr prio now) d = Inr d1"
    by (auto simp: spawn_child_job_def split: if_splits sum.splits)
  from ins_adds [OF d1] have
    d1': "d1 = d\<lparr>db_jobs := db_jobs d @ [spawned_job c title descr prio now]\<rparr>"
    and new: "jr_id (spawned_job c title descr prio now) \<notin> jr_id ` set (db_jobs d)" by auto
  from new show "c \<notin> jr_id ` set (db_jobs d)" by (simp add: spawned_job_def)
  show "p \<in> jr_id ` set (db_jobs d)"
    using assms by (auto simp: spawn_child_job_def filter_empty_conv split: if_splits)
  show "length (children_ids (db_delegation d) p) < MAX_CHILD_JOBS_PER_PARENT"
    using assms by (auto simp: spawn_child_job_def children_ids_def sql_rowcount_def split: if_splits)
  show "get_depth d p + 1 < MAX_DELEGATION_DEPTH"
    using assms by (auto simp: spawn_child_job_def split: if_splits)
  have ins2: "insert_delegation r d1 = Inr d'" and
    r: "r = \<lparr>dg_id = i, dg_parent_job_id = p, dg_child_job_id = c, dg_delegation_type = dtype,
             dg_context_json = ctx, dg_status = ''active'', dg_created_at = now, dg_completed_at = None\<rparr>"
    using assms d1 by (auto simp: spawn_child_job_def Let_def split: if_splits sum.splits)
  from r show "dg_parent_job_id r = p" "dg_child_job_id r = c" "dg_status r = ''active''" by simp_all
  from insert_delegation_InrD [OF ins2] d1'
  show "d' = d\<lparr>db_jobs := db_jobs d @ [spawned_job c title descr prio now],
               db_delegation := db_delegation d @ [r]\<rparr>" by simp
qed

end

interpretation schema_jobs: job_table insert_job
  by unfold_locales (rule insert_job_InrD)

interpretation loose_jobs: job_table insert_job_loose
  by unfold_locales (auto simp: insert_job_loose_def split: if_splits)

section \<open>The invariant of the delegation trees\<close>

definition deleg_inv :: "db \<Rightarrow> bool" where
  "deleg_inv d \<longleftrightarrow>
     forest (db_delegation d) \<and> row_ids (db_delegation d) \<subseteq> jr_id ` set (db_jobs d) \<and>
     (\<forall>j. get_depth d j < MAX_DELEGATION_DEPTH) \<and>
     (\<forall>j. length (children_ids (db_delegation d) j) \<le> MAX_CHILD_JOBS_PER_PARENT)"

lemma get_depth_forest:
  "forest (db_delegation d) \<Longrightarrow> get_depth d j = depth_in (rev (db_delegation d)) j"
  by (simp add: get_depth_def climb_forest)

lemma get_tree_root_forest:
  "forest (db_delegation d) \<Longrightarrow> get_tree_root d j = root_in (rev (db_delegation d)) j"
  by (simp add: get_tree_root_def climb_forest)

lemma deleg_inv_frame:
  assumes "deleg_inv d" "jr_id ` set (db_jobs d') = jr_id ` set (db_jobs d)"
    and "map dg_parent_job_id (db_delegation d') = map dg_parent_job_id (db_delegation d)"
    and "map dg_child_job_id (db_delegation d') = map dg_child_job_id (db_delegation d)"
  shows "deleg_inv d'"
proof -
  have same: "row_ids r1 = row_ids r2 \<and> (grown r1 \<longleftrightarrow> grown r2) \<and> (\<forall>j. depth_in r1 j = depth_in r2 j) \<and>
      (\<forall>j. length (children_ids r1 j) = length (children_ids r2 j))"
    if "map dg_parent_job_id r1 = map dg_parent_job_id r2"
      "map dg_child_job_id r1 = map dg_child_job_id r2" for r1 r2
    using that
  proof (induction r1 arbitrary: r2)
    case Nil
    then show ?case by simp
  next
    case (Cons r r1)
    then obtain q r3 where "r2 = q # r3" by (cases r2) auto
    with Cons.IH [of r3] Cons.prems show ?case by (auto simp: children_ids_def)
  qed
  note same1 = same [OF assms(3,4)]
  have same2: "(grown (rev (db_delegation d')) \<longleftrightarrow> grown (rev (db_delegation d))) \<and>
      (\<forall>j. depth_in (rev (db_delegation d')) j = depth_in (rev (db_delegation d)) j)"
    using same [of "rev (db_delegation d')" "rev (db_delegation d)"] assms(3,4)
    by (simp add: rev_map [symmetric])
  then have "forest (db_delegation d')" "\<forall>j. get_depth d' j = get_depth d j"
    using assms(1) by (simp_all add: deleg_inv_def forest_def get_depth_forest)
  with same1 assms(1,2) show ?thesis by (simp add: deleg_inv_def)
qed

lemma cancel_one_frame:
  "map jr_id (db_jobs (cancel_one now j d)) = map jr_id (db_jobs d)"
  "map dg_parent_job_id (db_delegation (cancel_one now j d)) = map dg_parent_job_id (db_delegation d)"
  "map dg_child_job_id (db_delegation (cancel_one now j d)) = map dg_child_job_id (db_delegation d)"
  by (simp_all add: cancel_one_def map_sql_update)

interpretation cancel_visit: subtree_visit "cancel_one now" for now
  by unfold_locales (simp add: cancel_one_def children_ids_update)

lemma cancel_one_inv: "deleg_inv d \<Longrightarrow> deleg_inv (cancel_one now j d)"
  by (erule deleg_inv_frame) (simp_all only: cancel_one_frame flip: set_map)

lemma cancel_subtree_inv:
  assumes "deleg_inv d" "cancel_subtree f now j d = Inr d'"
  shows "deleg_inv d'"
proof -
  have "deleg_inv d'" if "visit_subtree (cancel_one now) f j d = Inr d'" "deleg_inv d" for f j d d'
    using that
  proof (induction f arbitrary: j d d')
    case 0
    then show ?case by simp
  next
    case (Suc f)
    have loop: "deleg_inv e'"
      if "fold_result (\<lambda>c d'. visit_subtree (cancel_one now) f c d') cs e = Inr e'" "deleg_inv e" for cs e e'
      using that by (induction cs arbitrary: e) (auto split: sum.splits dest: Suc.IH)
    from Suc.prems cancel_one_inv show ?case by (auto intro: loop)
  qed
  with assms show ?thesis by (simp add: cancel_subtree_def)
qed

lemma mark_completed_inv: "deleg_inv d \<Longrightarrow> mark_completed c st now d = Inr d' \<Longrightarrow> deleg_inv d'"
  by (erule deleg_inv_frame) (auto simp: mark_completed_def map_sql_update split: if_splits)

context job_table begin

lemma spawn_depth:
  assumes "deleg_inv d" "spawn_child_job ins p title descr dtype ctx prio now c i d = Inr (r, d')"
  shows "forest (db_delegation d')"
    and "get_depth d' j = (if j = c then Suc (get_depth d p) else get_depth d j)"
    and "get_tree_root d' j = (if j = c then get_tree_root d p else get_tree_root d j)"
proof -
  note D = spawn_InrD [OF assms(2)]
  from assms(1) D(1,2) have new: "c \<notin> row_ids (db_delegation d)" "c \<noteq> p"
    by (auto simp: deleg_inv_def)
  with assms(1) D show f': "forest (db_delegation d')"
    by (simp add: forest_snoc deleg_inv_def)
  from assms(1) have f: "forest (db_delegation d)" by (simp add: deleg_inv_def)
  have rev: "rev (db_delegation d') = r # rev (db_delegation d)" using D by simp
  show "get_depth d' j = (if j = c then Suc (get_depth d p) else get_depth d j)"
    unfolding get_depth_forest [OF f] get_depth_forest [OF f'] rev using D(5,6) by auto
  show "get_tree_root d' j = (if j = c then get_tree_root d p else get_tree_root d j)"
    unfolding get_tree_root_forest [OF f] get_tree_root_forest [OF f'] rev using D(5,6) by auto
qed

lemma spawn_inv:
  assumes "deleg_inv d" "spawn_child_job ins p title descr dtype ctx prio now c i d = Inr (r, d')"
  shows "deleg_inv d'"
proof -
  note D = spawn_InrD [OF assms(2)] and depth = spawn_depth [OF assms]
  have "row_ids (db_delegation d') \<subseteq> jr_id ` set (db_jobs d')"
    using assms(1) D by (auto simp: deleg_inv_def row_ids_def spawned_job_def)
  moreover have "get_depth d' j < MAX_DELEGATION_DEPTH" for j
    using assms(1) D(4) depth(2) by (simp add: deleg_inv_def)
  moreover have "length (children_ids (db_delegation d') j) \<le> MAX_CHILD_JOBS_PER_PARENT" for j
    using assms(1) D(3,5,8) by (auto simp: deleg_inv_def children_ids_def)
  ultimately show ?thesis using depth(1) by (simp add: deleg_inv_def)
qed

end

text \<open>Commands of the engine on a given jobs table; a raised exception rolls back.\<close>

datatype delegation_command =
    D_spawn ident string string string "json option" int timestamp ident ident
  | D_cancel nat timestamp ident
  | D_mark ident string timestamp

fun delegation_step :: "(job_row \<Rightarrow> db \<Rightarrow> db result) \<Rightarrow> delegation_command \<Rightarrow> db \<Rightarrow> db" where
  "delegation_step ins (D_spawn p title descr dtype ctx prio now c i) d =
     (case spawn_child_job ins p title descr dtype ctx prio now c i d of
        Inl _ \<Rightarrow> d | Inr (_, d') \<Rightarrow> d')"
| "delegation_step ins (D_cancel f now j) d =
     (case cancel_subtree f now j d of Inl _ \<Rightarrow> d | Inr d' \<Rightarrow> d')"
| "delegation_step ins (D_mark c st now) d =
     (case mark_completed c st now d of Inl _ \<Rightarrow> d | Inr d' \<Rightarrow> d')"

context job_table begin

lemma delegation_step_inv: "deleg_inv d \<Longrightarrow> deleg_inv (delegation_step ins c d)"
  by (cases c) (auto split: sum.splits intro: spawn_inv cancel_subtree_inv mark_completed_inv)

end

sublocale job_table \<subseteq> delegation_machine: store_machine "delegation_step ins" deleg_inv
  by unfold_locales (rule delegation_step_inv)

section \<open>Cancelling a subtree\<close>

lemma fold_cancel_jobs:
  "db_jobs (fold (cancel_one now) xs d) =
     map (\<lambda>r. if jr_id r \<in> set xs \<and> jr_status r \<notin> terminal_statuses
              then r\<lparr>jr_status := ''cancelled''\<rparr> else r) (db_jobs d)"
proof (induction xs arbitrary: d)
  case Nil
  then show ?case by simp
next
  case (Cons x xs)
  have "''cancelled'' \<in> terminal_statuses" by (simp add: terminal_statuses_def)
  moreover have "db_jobs (cancel_one now x d) =
      sql_update (\<lambda>r. jr_id r = x \<and> jr_status r \<notin> terminal_statuses)
        (\<lambda>r. r\<lparr>jr_status := ''cancelled''\<rparr>) (db_jobs d)"
    by (simp add: cancel_one_def)
  ultimately show ?case by (auto simp: Cons.IH sql_update_def)
qed

lemma cancel_subtree_effect:
  assumes "subtree_ids f (db_delegation d) j = Some xs"
  shows "cancel_subtree f now j d = Inr (fold (cancel_one now) xs d)"
  using cancel_visit.visit_subtree_fold [OF assms] by (simp add: cancel_subtree_def)

lemma subtree_within_limits:
  assumes "deleg_inv d" "MAX_DELEGATION_DEPTH \<le> f"
  shows "\<exists>xs. subtree_ids f (db_delegation d) j = Some xs"
proof (rule subtree_ids_enough [where m = "MAX_DELEGATION_DEPTH - 1"])
  from assms(1) show f: "forest (db_delegation d)" by (simp add: deleg_inv_def)
  from assms(1) show "\<forall>x. depth_in (rev (db_delegation d)) x \<le> MAX_DELEGATION_DEPTH - 1"
    by (auto simp: deleg_inv_def get_depth_forest [OF f, symmetric] less_eq_Suc_le
        intro: le_diff_conv2 [THEN iffD2] simp: MAX_DELEGATION_DEPTH_def)
  show "MAX_DELEGATION_DEPTH - 1 - depth_in (rev (db_delegation d)) j < f"
    using assms(2) by (simp add: MAX_DELEGATION_DEPTH_def)
qed

section \<open>Completion of a tree\<close>

lemma all_results_Inr: "all_results (map (\<lambda>c. Inr (P c)) cs) = Inr (\<forall>c \<in> set cs. P c)"
  by (induction cs) simp_all

lemma check_complete_value:
  assumes "subtree_ids f (db_delegation d) j = Some ids"
    and "row_ids (db_delegation d) \<subseteq> jr_id ` set (db_jobs d)" "distinct (map jr_id (db_jobs d))"
  shows "check_complete f d j =
    Inr (\<forall>r \<in> set (db_jobs d). jr_id r \<in> set ids \<longrightarrow> jr_status r \<in> terminal_statuses)"
  using assms(1)
proof (induction f arbitrary: j ids)
  case 0
  then show ?case by simp
next
  case (Suc f)
  let ?cs = "children_ids (db_delegation d) j"
  let ?ok = "\<lambda>c. \<forall>r \<in> set (db_jobs d). jr_id r \<in> set (the (subtree_ids f (db_delegation d) c)) \<longrightarrow>
    jr_status r \<in> terminal_statuses"
  note step = subtree_ids_step [OF Suc.prems]
  have "\<forall>c \<in> set ?cs. check_complete f d c = Inr (?ok c)" using step(1) Suc.IH by fastforce
  then have sub: "map (check_complete f d) ?cs = map (\<lambda>c. Inr (?ok c)) ?cs" by simp
  show ?case
  proof (cases "fetchone (filter (\<lambda>r. jr_id r = j) (db_jobs d))")
    case None
    then have "j \<notin> jr_id ` set (db_jobs d)" by (auto simp: filter_empty_conv)
    then have "?cs = []" using assms(2)
      by (auto simp: children_ids_def filter_empty_conv row_ids_def)
    with step(2) None \<open>j \<notin> jr_id ` set (db_jobs d)\<close> show ?thesis by auto
  next
    case (Some r)
    from fetchone_filterD [OF Some] have r: "r \<in> set (db_jobs d)" "jr_id r = j" by auto
    have only: "q = r" if "q \<in> set (db_jobs d)" "jr_id q = j" for q
      using unique_key_eq [OF assms(3) that(1) r(1)] that(2) r(2) by simp
    show ?thesis
    proof (cases "jr_status r \<in> terminal_statuses")
      case True
      have "check_complete (Suc f) d j = all_results (map (check_complete f d) ?cs)"
        using True Some by simp
      also have "\<dots> = Inr (\<forall>c \<in> set ?cs. ?ok c)" unfolding sub by (rule all_results_Inr)
      also have "(\<forall>c \<in> set ?cs. ?ok c) \<longleftrightarrow>
          (\<forall>r \<in> set (db_jobs d). jr_id r \<in> set ids \<longrightarrow> jr_status r \<in> terminal_statuses)"
        unfolding step(2) using True only by blast
      finally show ?thesis .
    next
      case False
      with Some r step(2) show ?thesis by auto
    qed
  qed
qed

section \<open>Properties\<close>

text \<open>A database with two jobs and a delegation between them.\<close>

definition plain_job :: "ident \<Rightarrow> string \<Rightarrow> job_row" where
  "plain_job j status = (spawned_job j ''t'' ''d'' 5 0)\<lparr>jr_status := status\<rparr>"

definition example_db :: db where
  "example_db = (empty_db [''w''] [])\<lparr>
     db_jobs := [plain_job ''a'' ''executing'', plain_job ''b'' ''done''],
     db_delegation := [\<lparr>dg_id = ''d1'', dg_parent_job_id = ''a'', dg_child_job_id = ''b'',
       dg_delegation_type = ''sub_task'', dg_context_json = None, dg_status = ''active'',
       dg_created_at = 0, dg_completed_at = None\<rparr>]\<rparr>"

lemma example_db_inv: "deleg_inv example_db"
proof -
  have f: "forest (db_delegation example_db)" by (simp add: forest_def example_db_def)
  have "get_depth example_db j < 5" for j
    by (simp add: get_depth_forest [OF f]) (simp add: example_db_def)
  then show ?thesis using f
    by (simp add: deleg_inv_def MAX_DELEGATION_DEPTH_def MAX_CHILD_JOBS_PER_PARENT_def)
      (simp add: example_db_def children_ids_def plain_job_def spawned_job_def)
qed

text \<open>C4. The limits hold on every run: from a database without delegations, whatever jobs are spawned,
  cancelled or completed, on the schema's jobs table or on one without its column constraints, the
  relation stays a forest of existing jobs, no job is ever deeper than \<open>MAX_DELEGATION_DEPTH\<close> - 1 and none
  has more than \<open>MAX_CHILD_JOBS_PER_PARENT\<close> children.\<close>

theorem delegation_limits:
  assumes "db_delegation d = []" "ins = insert_job \<or> ins = insert_job_loose"
  shows "let d' = run_commands (delegation_step ins) cs d in
     forest (db_delegation d') \<and> row_ids (db_delegation d') \<subseteq> jr_id ` set (db_jobs d') \<and>
     (\<forall>j. get_depth d' j < MAX_DELEGATION_DEPTH) \<and>
     (\<forall>j. length (get_children d' j) \<le> MAX_CHILD_JOBS_PER_PARENT)"
proof -
  have "deleg_inv d" using assms(1)
    by (simp add: deleg_inv_def get_depth_forest children_ids_def MAX_DELEGATION_DEPTH_def
        MAX_CHILD_JOBS_PER_PARENT_def)
  then have "deleg_inv (run_commands (delegation_step ins) cs d)"
    using assms(2) schema_jobs.delegation_machine.run_inv loose_jobs.delegation_machine.run_inv by blast
  then show ?thesis
    by (simp add: deleg_inv_def Let_def get_children_def children_ids_def order_by_def)
qed

theorem delegation_limits_witness:
  "let d' = run_commands (delegation_step insert_job_loose)
       [D_spawn ''a'' ''t'' ''d'' ''sub_task'' None 5 1 ''c'' ''x'']
       ((empty_db [] [])\<lparr>db_jobs := [plain_job ''a'' ''executing'']\<rparr>) in
     forest (db_delegation d') \<and> row_ids (db_delegation d') \<subseteq> jr_id ` set (db_jobs d') \<and>
     (\<forall>j. get_depth d' j < MAX_DELEGATION_DEPTH) \<and>
     (\<forall>j. length (get_children d' j) \<le> MAX_CHILD_JOBS_PER_PARENT)"
  by (rule delegation_limits) (simp_all add: empty_db_def)

text \<open>C16. Cancelling a subtree always returns once the recursion limit is at least the depth limit, and
  sets to \<open>cancelled\<close> exactly the descendants of the job (itself included) that were not
  completed, failed or cancelled; every other job row is untouched.\<close>

theorem cancel_subtree_cancels_descendants:
  assumes "deleg_inv d" "MAX_DELEGATION_DEPTH \<le> f"
  shows "\<exists>d'. cancel_subtree f now j d = Inr d' \<and>
     db_jobs d' = map (\<lambda>r. if jr_id r \<in> (edges (db_delegation d))\<^sup>* `` {j} \<and> jr_status r \<notin> terminal_statuses
                           then r\<lparr>jr_status := ''cancelled''\<rparr> else r) (db_jobs d)"
proof -
  from subtree_within_limits [OF assms] obtain xs where
    xs: "subtree_ids f (db_delegation d) j = Some xs" by blast
  from cancel_subtree_effect [OF this] fold_cancel_jobs [of now xs d] subtree_ids_descendants [OF xs]
  show ?thesis by auto
qed

theorem cancel_subtree_cancels_descendants_witness:
  "\<exists>d'. cancel_subtree 5 9 ''a'' example_db = Inr d' \<and>
     db_jobs d' = map (\<lambda>r. if jr_id r \<in> (edges (db_delegation example_db))\<^sup>* `` {''a''} \<and>
                              jr_status r \<notin> terminal_statuses
                           then r\<lparr>jr_status := ''cancelled''\<rparr> else r) (db_jobs example_db)"
  by (rule cancel_subtree_cancels_descendants [OF example_db_inv]) (simp add: MAX_DELEGATION_DEPTH_def)

text \<open>A spawned child is a new job under an existing parent that had room: it is one level below
  the parent, in the parent's tree, and the depth and the root of every other job stay as they
  were.\<close>

theorem spawn_places_child:
  assumes "deleg_inv d"
    and "spawn_child_job insert_job_loose p title descr dtype ctx prio now c i d = Inr (r, d')"
  shows "p \<in> jr_id ` set (db_jobs d) \<and> c \<notin> jr_id ` set (db_jobs d) \<and>
     length (get_children d p) < MAX_CHILD_JOBS_PER_PARENT \<and>
     get_depth d' x = (if x = c then Suc (get_depth d p) else get_depth d x) \<and>
     get_tree_root d' x = (if x = c then get_tree_root d p else get_tree_root d x) \<and>
     map_option dg_parent_job_id (get_parent d' c) = Some p"
proof -
  note D = loose_jobs.spawn_InrD [OF assms(2)] and S = loose_jobs.spawn_depth [OF assms]
  from assms(1) D(1,2) have "c \<notin> row_ids (db_delegation d)" by (auto simp: deleg_inv_def)
  then have "filter (\<lambda>q. dg_child_job_id q = c) (db_delegation d) = []"
    by (auto simp: filter_empty_conv row_ids_def)
  with D(5,6,8) have "map_option dg_parent_job_id (get_parent d' c) = Some p" by (simp add: get_parent_def)
  moreover have "length (get_children d p) < MAX_CHILD_JOBS_PER_PARENT"
    using D(3) by (simp add: get_children_def children_ids_def order_by_def)
  ultimately show ?thesis using D(1,2) S(2,3) by simp
qed

theorem spawn_places_child_witness:
  "\<exists>r d'. spawn_child_job insert_job_loose ''a'' ''t'' ''d'' ''sub_task'' None 5 1 ''c'' ''x'' example_db = Inr (r, d') \<and>
     get_depth d' ''c'' = Suc (get_depth example_db ''a'')"
proof -
  have depth: "get_depth example_db ''a'' = 0"
    using example_db_inv by (simp add: deleg_inv_def get_depth_forest) (simp add: example_db_def)
  have "is_ok (spawn_child_job insert_job_loose ''a'' ''t'' ''d'' ''sub_task'' None 5 1 ''c'' ''x'' example_db)"
    by (simp add: spawn_child_job_def depth MAX_DELEGATION_DEPTH_def)
      (simp add: example_db_def insert_job_loose_def insert_delegation_def sql_rowcount_def plain_job_def
        spawned_job_def MAX_CHILD_JOBS_PER_PARENT_def Let_def)
  then obtain r d' where
    s: "spawn_child_job insert_job_loose ''a'' ''t'' ''d'' ''sub_task'' None 5 1 ''c'' ''x'' example_db = Inr (r, d')"
    by (metis is_ok.simps(1) old.prod.exhaust sum.exhaust)
  from spawn_places_child [OF example_db_inv s, of "''c''"] s show ?thesis by simp
qed

text \<open>On the jobs table that the schema creates, spawning never succeeds: the insert leaves out the
  columns \<open>workspace_id\<close> and \<open>updated_at\<close>, which are \<^verbatim>\<open>NOT NULL\<close>.\<close>

theorem spawn_refused_by_schema:
  "\<not> is_ok (spawn_child_job insert_job p title descr dtype ctx prio now c i d)"
  by (simp add: spawn_child_job_def insert_job_def spawned_job_def)

text \<open>With a recursion limit of at least the depth limit, \<open>is_tree_complete\<close> returns, and it is
  true exactly when every job of the tree is completed, failed or cancelled; so one job in the
  pipeline's own final status \<open>done\<close> keeps its tree incomplete for ever.\<close>

theorem tree_complete_iff_all_terminal:
  assumes "deleg_inv d" "distinct (map jr_id (db_jobs d))" "MAX_DELEGATION_DEPTH \<le> f"
  shows "is_tree_complete f d j =
      Inr (\<forall>r \<in> set (db_jobs d). jr_id r \<in> (edges (db_delegation d))\<^sup>* `` {j} \<longrightarrow> jr_status r \<in> terminal_statuses) \<and>
    ((\<exists>r \<in> set (db_jobs d). jr_id r \<in> (edges (db_delegation d))\<^sup>* `` {j} \<and> jr_status r = ''done'') \<longrightarrow>
      is_tree_complete f d j = Inr False)"
proof -
  from subtree_within_limits [OF assms(1,3)] obtain ids where
    ids: "subtree_ids f (db_delegation d) j = Some ids" by blast
  from assms(1) have "row_ids (db_delegation d) \<subseteq> jr_id ` set (db_jobs d)" by (simp add: deleg_inv_def)
  from check_complete_value [OF ids this assms(2)] subtree_ids_descendants [OF ids]
  have v: "is_tree_complete f d j =
      Inr (\<forall>r \<in> set (db_jobs d). jr_id r \<in> (edges (db_delegation d))\<^sup>* `` {j} \<longrightarrow> jr_status r \<in> terminal_statuses)"
    by (simp add: is_tree_complete_def)
  then show ?thesis by (auto simp: terminal_statuses_def)
qed

theorem tree_complete_iff_all_terminal_witness: "is_tree_complete 5 example_db ''a'' = Inr False"
proof (rule tree_complete_iff_all_terminal [OF example_db_inv, THEN conjunct2, rule_format])
  have "plain_job ''b'' ''done'' \<in> set (db_jobs example_db)" by (simp add: example_db_def)
  moreover have "(''a'', jr_id (plain_job ''b'' ''done'')) \<in> (edges (db_delegation example_db))\<^sup>*"
    by (rule r_into_rtrancl) (simp add: example_db_def edges_def plain_job_def spawned_job_def)
  ultimately show "\<exists>r \<in> set (db_jobs example_db).
      jr_id r \<in> (edges (db_delegation example_db))\<^sup>* `` {''a''} \<and> jr_status r = ''done''"
    by (intro bexI [of _ "plain_job ''b'' ''done''"]) (simp_all add: plain_job_def)
qed (simp_all add: example_db_def plain_job_def spawned_job_def MAX_DELEGATION_DEPTH_def)

end
