(* ===== verification/Message_Bus.thy ===== *)
theory Message_Bus
  imports Delegation
begin

text \<open>
  \<^verbatim>\<open>backend/swarm/messaging.py\<close>: the message bus of a job tree. Its state is the table
  \<^verbatim>\<open>agent_messages\<close>; the delegation rows are read only and given as an argument. The polling loop
  of \<open>get_response\<close> sees one reading of the clock and one state of the table per round.
\<close>

record agent_message =
  am_id :: ident
  am_tree_root_job_id :: ident
  am_from_job_id :: ident
  am_to_job_id :: "ident option"
  am_message_type :: string
  am_subject :: "string option"
  am_body_json :: json_text
  am_status :: string
  am_created_at :: timestamp
  am_read_at :: "timestamp option"

definition SWARM_MESSAGE_TTL_SEC :: int where
  "SWARM_MESSAGE_TTL_SEC = 3600"

definition am_body :: "agent_message \<Rightarrow> json result" where
  "am_body m = json_loads (am_body_json m)"

definition send ::
  "ident \<Rightarrow> ident \<Rightarrow> json \<Rightarrow> ident option \<Rightarrow> string \<Rightarrow> string option \<Rightarrow> ident \<Rightarrow> timestamp \<Rightarrow>
   agent_message list \<Rightarrow> (agent_message \<times> agent_message list) result" where
  "send tree sender body recipient mtype subject msg_id now t =
     (let m = \<lparr>am_id = msg_id, am_tree_root_job_id = tree, am_from_job_id = sender,
               am_to_job_id = recipient, am_message_type = mtype, am_subject = subject,
               am_body_json = json_dumps body, am_status = ''pending'', am_created_at = now,
               am_read_at = None\<rparr>
      in if msg_id \<in> set (map am_id t) then Inl (IntegrityError ''UNIQUE agent_messages.id'')
         else Inr (m, t @ [m]))"

text \<open>\<^verbatim>\<open>_get_tree_roots_for_job\<close>: at most 50 steps up, then the trees met in the messages.\<close>

fun walk_up :: "nat \<Rightarrow> delegation_row list \<Rightarrow> ident \<Rightarrow> ident" where
  "walk_up 0 rows current = current"
| "walk_up (Suc n) rows current =
     (case parent_of rows current of None \<Rightarrow> current | Some p \<Rightarrow> walk_up n rows p)"

definition get_tree_roots_for_job ::
    "delegation_row list \<Rightarrow> agent_message list \<Rightarrow> ident \<Rightarrow> ident list" where
  "get_tree_roots_for_job rows t j =
     remdups (walk_up 50 rows j #
       map am_tree_root_job_id
         (filter (\<lambda>m. am_from_job_id m = j \<or> am_to_job_id m = Some j) t))"

definition receivable :: "delegation_row list \<Rightarrow> agent_message list \<Rightarrow> ident \<Rightarrow> bool \<Rightarrow> agent_message \<Rightarrow> bool" where
  "receivable rows t j include_broadcasts m \<longleftrightarrow>
     am_status m = ''pending'' \<and> am_from_job_id m \<noteq> j \<and>
     (am_to_job_id m = Some j \<or>
      include_broadcasts \<and> am_to_job_id m = None \<and>
        am_tree_root_job_id m \<in> set (get_tree_roots_for_job rows t j))"

definition receive ::
    "delegation_row list \<Rightarrow> ident \<Rightarrow> bool \<Rightarrow> agent_message list \<Rightarrow> agent_message list \<times> agent_message list" where
  "receive rows j include_broadcasts t =
     (let messages = order_by am_created_at (filter (receivable rows t j include_broadcasts) t);
          ids = map am_id messages
      in if messages = [] then ([], t)
         else (messages, sql_update (\<lambda>m. am_id m \<in> set ids) (\<lambda>m. m\<lparr>am_status := ''delivered''\<rparr>) t))"

definition mark_read :: "ident \<Rightarrow> timestamp \<Rightarrow> agent_message list \<Rightarrow> agent_message list" where
  "mark_read msg_id now t =
     sql_update (\<lambda>m. am_id m = msg_id) (\<lambda>m. m\<lparr>am_status := ''read'', am_read_at := Some now\<rparr>) t"

definition send_request ::
  "ident \<Rightarrow> ident \<Rightarrow> ident \<Rightarrow> string \<Rightarrow> json \<Rightarrow> ident \<Rightarrow> timestamp \<Rightarrow>
   agent_message list \<Rightarrow> (agent_message \<times> agent_message list) result" where
  "send_request tree sender recipient subject body msg_id now t =
     send tree sender body (Some recipient) ''request'' (Some subject) msg_id now t"

definition send_response ::
  "ident \<Rightarrow> ident \<Rightarrow> json \<Rightarrow> ident \<Rightarrow> timestamp \<Rightarrow>
   agent_message list \<Rightarrow> (agent_message \<times> agent_message list) result" where
  "send_response request_id sender body msg_id now t =
     (case fetchone (filter (\<lambda>m. am_id m = request_id) t) of
        None \<Rightarrow> Inl (ValueError ''Request message not found'')
      | Some original \<Rightarrow>
          send (am_tree_root_job_id original) sender body (Some (am_from_job_id original))
            ''response'' (Some request_id) msg_id now t)"

definition find_response :: "ident \<Rightarrow> agent_message list \<Rightarrow> agent_message option" where
  "find_response request_id t =
     fetchone (filter (\<lambda>m. am_message_type m = ''response'' \<and> am_subject m = Some request_id) t)"

text \<open>
  Round \<open>k\<close> of the loop of \<^verbatim>\<open>get_response\<close>: the clock reads \<open>clock k\<close>, the table is \<open>tables k\<close>.
  \<open>None\<close> means the loop did not return within the fuel, \<open>Some None\<close> the timeout.
\<close>

fun poll_response ::
  "nat \<Rightarrow> (nat \<Rightarrow> timestamp) \<Rightarrow> (nat \<Rightarrow> agent_message list) \<Rightarrow> timestamp \<Rightarrow> ident \<Rightarrow> nat \<Rightarrow>
   agent_message option option" where
  "poll_response 0 clock tables deadline request_id k = None"
| "poll_response (Suc f) clock tables deadline request_id k =
     (if clock k < deadline
      then (case find_response request_id (tables k) of
              Some m \<Rightarrow> Some (Some m)
            | None \<Rightarrow> poll_response f clock tables deadline request_id (Suc k))
      else Some None)"

definition POLL_INTERVAL :: timestamp where
  "POLL_INTERVAL = 500000"

definition get_response ::
  "nat \<Rightarrow> (nat \<Rightarrow> timestamp) \<Rightarrow> (nat \<Rightarrow> agent_message list) \<Rightarrow> timestamp \<Rightarrow> timestamp \<Rightarrow> ident \<Rightarrow>
   agent_message option option" where
  "get_response f clock tables start timeout request_id =
     poll_response f clock tables (start + timeout) request_id 0"

definition get_messages_for_tree :: "ident \<Rightarrow> agent_message list \<Rightarrow> agent_message list" where
  "get_messages_for_tree tree t = order_by am_created_at (filter (\<lambda>m. am_tree_root_job_id m = tree) t)"

definition expirable :: "timestamp \<Rightarrow> agent_message \<Rightarrow> bool" where
  "expirable now m \<longleftrightarrow>
     (am_status m = ''pending'' \<or> am_status m = ''delivered'') \<and>
     am_created_at m < now - SWARM_MESSAGE_TTL_SEC * 1000000"

definition expire_messages :: "timestamp \<Rightarrow> agent_message list \<Rightarrow> nat \<times> agent_message list" where
  "expire_messages now t =
     (sql_rowcount (expirable now) t,
      sql_update (expirable now) (\<lambda>m. m\<lparr>am_status := ''expired''\<rparr>) t)"

section \<open>Runs of the bus\<close>

datatype bus_command =
    B_send ident ident json "ident option" string "string option" ident timestamp
  | B_respond ident ident json ident timestamp
  | B_receive "delegation_row list" ident bool
  | B_mark ident timestamp
  | B_expire timestamp

fun bus_step :: "bus_command \<Rightarrow> agent_message list \<Rightarrow> agent_message list" where
  "bus_step (B_send tree sender body recipient mtype subject i now) t =
     (case send tree sender body recipient mtype subject i now t of Inl _ \<Rightarrow> t | Inr (_, t') \<Rightarrow> t')"
| "bus_step (B_respond req sender body i now) t =
     (case send_response req sender body i now t of Inl _ \<Rightarrow> t | Inr (_, t') \<Rightarrow> t')"
| "bus_step (B_receive rows j inc) t = snd (receive rows j inc t)"
| "bus_step (B_mark i now) t = mark_read i now t"
| "bus_step (B_expire now) t = snd (expire_messages now t)"

text \<open>
  What every command keeps: message ids are unique, and the messages of a given set of ids are in
  the table and not pending.
\<close>

definition settled :: "ident set \<Rightarrow> agent_message list \<Rightarrow> bool" where
  "settled ids t \<longleftrightarrow>
     distinct (map am_id t) \<and> ids \<subseteq> am_id ` set t \<and>
     (\<forall>m \<in> set t. am_id m \<in> ids \<longrightarrow> am_status m \<noteq> ''pending'')"

lemma settled_update:
  assumes "settled ids t" "\<And>m. am_id (f m) = am_id m"
    and "\<And>m. m \<in> set t \<Longrightarrow> P m \<Longrightarrow> am_id m \<in> ids \<Longrightarrow> am_status (f m) \<noteq> ''pending''"
  shows "settled ids (sql_update P f t)"
proof -
  have "map am_id (sql_update P f t) = map am_id t" by (simp add: map_sql_update assms(2))
  moreover from this have "am_id ` set (sql_update P f t) = am_id ` set t" by (metis list.set_map)
  moreover have "am_status m \<noteq> ''pending''" if "m \<in> set (sql_update P f t)" "am_id m \<in> ids" for m
    using that assms by (auto simp: in_sql_update settled_def split: if_splits)
  ultimately show ?thesis using assms(1) by (simp add: settled_def)
qed

lemma send_InrD:
  "send tree sender body recipient mtype subject i now t = Inr (m, t') \<Longrightarrow>
     t' = t @ [m] \<and> i \<notin> am_id ` set t \<and>
     m = \<lparr>am_id = i, am_tree_root_job_id = tree, am_from_job_id = sender, am_to_job_id = recipient,
          am_message_type = mtype, am_subject = subject, am_body_json = json_dumps body,
          am_status = ''pending'', am_created_at = now, am_read_at = None\<rparr>"
  by (auto simp: send_def Let_def split: if_splits)

lemma send_settled:
  assumes "settled ids t" "send tree sender body recipient mtype subject i now t = Inr (m, t')"
  shows "settled ids t'"
proof -
  from send_InrD [OF assms(2)] have t': "t' = t @ [m]" "am_id m \<notin> am_id ` set t" by auto
  from assms(1) t'(2) have "am_id m \<notin> ids" by (auto simp: settled_def)
  with assms(1) t' show ?thesis by (auto simp: settled_def)
qed

lemma receive_settled: "settled ids t \<Longrightarrow> settled ids (snd (receive rows j inc t))"
  by (auto simp: receive_def Let_def intro: settled_update)

lemma bus_step_settled: "settled ids t \<Longrightarrow> settled ids (bus_step c t)"
proof (cases c)
  case (B_respond req sender body i now)
  assume "settled ids t"
  with B_respond show ?thesis
    by (auto simp: send_response_def split: sum.splits option.splits intro: send_settled)
qed (auto simp: mark_read_def expire_messages_def expirable_def
      split: sum.splits intro: send_settled receive_settled settled_update)

interpretation bus_machine: store_machine bus_step "settled ids" for ids
  by unfold_locales (rule bus_step_settled)

section \<open>Receiving\<close>

lemma receive_returns: "set (fst (receive rows j inc t)) = {m \<in> set t. receivable rows t j inc m}"
  by (auto simp: receive_def Let_def filter_empty_conv)

lemma receive_settles:
  assumes "distinct (map am_id t)"
  shows "settled (am_id ` set (fst (receive rows j inc t))) (snd (receive rows j inc t))"
proof (cases "filter (receivable rows t j inc) t = []")
  case True
  with assms show ?thesis by (simp add: receive_def settled_def Let_def)
next
  case False
  let ?ms = "filter (receivable rows t j inc) t"
  have snd: "snd (receive rows j inc t) =
      sql_update (\<lambda>m. am_id m \<in> am_id ` set ?ms) (\<lambda>m. m\<lparr>am_status := ''delivered''\<rparr>) t"
    using False by (simp add: receive_def Let_def)
  have fst: "set (fst (receive rows j inc t)) = set ?ms" by (auto simp: receive_returns)
  have ids: "map am_id (snd (receive rows j inc t)) = map am_id t"
    by (simp add: snd map_sql_update)
  then have "am_id ` set (snd (receive rows j inc t)) = am_id ` set t" by (metis list.set_map)
  moreover have "am_status m \<noteq> ''pending''"
    if "m \<in> set (snd (receive rows j inc t))" "am_id m \<in> am_id ` set ?ms" for m
  proof -
    from that(1) obtain q where "m = (if am_id q \<in> am_id ` set ?ms then q\<lparr>am_status := ''delivered''\<rparr> else q)"
      unfolding snd in_sql_update by blast
    with that(2) show ?thesis by (cases "am_id q \<in> am_id ` set ?ms") simp_all
  qed
  ultimately show ?thesis using assms ids unfolding settled_def fst by auto
qed

lemma settled_not_received:
  "settled ids t \<Longrightarrow> m \<in> set (fst (receive rows j inc t)) \<Longrightarrow> am_id m \<notin> ids"
  by (auto simp: receive_returns receivable_def settled_def)

section \<open>The root found by walking up\<close>

lemma climb_walk_up:
  assumes "rev rows = pre @ rest" "grown (rev rows)"
    and "\<forall>q \<in> set pre. dg_child_job_id q \<noteq> cur" "depth_in rest cur < n"
  shows "walk_up n rows cur = root_in rest cur"
  using assms
proof (induction rest arbitrary: pre cur n)
  case Nil
  then have "cur \<notin> dg_child_job_id ` set rows" by (metis append_Nil2 imageE set_rev)
  with Nil show ?case by (cases n) (simp_all add: parent_of_None [symmetric])
next
  case (Cons r rest)
  from Cons.prems(1) have snoc: "rev rows = (pre @ [r]) @ rest" by simp
  from grown_append [of pre "r # rest"] Cons.prems(1,2)
  have g: "grown (r # rest)" "\<forall>q \<in> set pre. dg_child_job_id q \<notin> row_ids (r # rest)" by auto
  show ?case
  proof (cases "dg_child_job_id r = cur")
    case True
    have "r \<in> set rows" using Cons.prems(1) by (metis in_set_conv_decomp set_rev)
    with parent_of_row [OF Cons.prems(2)] True
    have parent: "parent_of rows cur = Some (dg_parent_job_id r)" by blast
    from Cons.prems(4) True obtain n' where n: "n = Suc n'" by (cases n) auto
    have "walk_up n' rows (dg_parent_job_id r) = root_in rest (dg_parent_job_id r)"
      by (rule Cons.IH [OF snoc Cons.prems(2)]) (use g True Cons.prems(4) n in auto)
    with parent n True show ?thesis by simp
  next
    case False
    have "walk_up n rows cur = root_in rest cur"
      by (rule Cons.IH [OF snoc Cons.prems(2)]) (use False Cons.prems in auto)
    with False show ?thesis by simp
  qed
qed

lemma walk_up_root:
  assumes "forest (db_delegation d)" "get_depth d j < n"
  shows "walk_up n (db_delegation d) j = get_tree_root d j"
  using climb_walk_up [of "db_delegation d" "[]" "rev (db_delegation d)" j n] assms
  by (simp add: forest_def get_tree_root_forest get_depth_forest)

section \<open>Polling\<close>

lemma poll_response_returns:
  assumes "\<And>i. clock i + POLL_INTERVAL \<le> clock (Suc i)" "deadline - clock k \<le> int n * POLL_INTERVAL" "n < f"
  shows "\<exists>r. poll_response f clock tables deadline request_id k = Some r"
  using assms(2,3)
proof (induction n arbitrary: k f)
  case 0
  then show ?case by (cases f) auto
next
  case (Suc n)
  then obtain f' where f: "f = Suc f'" "n < f'" by (cases f) auto
  have "deadline - clock (Suc k) \<le> int n * POLL_INTERVAL"
    using Suc.prems(1) assms(1) [of k] by (simp add: algebra_simps)
  with Suc.IH [of "Suc k" f'] f show ?case by (auto split: option.splits)
qed

lemma poll_response_finds:
  assumes "find_response request_id (tables (k + n)) = Some m" "clock (k + n) < deadline"
    and "\<And>i. clock i \<le> clock (Suc i)" "\<And>i. i < n \<Longrightarrow> find_response request_id (tables (k + i)) = None"
    and "n < f"
  shows "poll_response f clock tables deadline request_id k = Some (Some m)"
  using assms
proof (induction n arbitrary: k f)
  case 0
  then show ?case by (cases f) auto
next
  case (Suc n)
  from Suc.prems obtain f' where f: "f = Suc f'" "n < f'" by (cases f) auto
  have "clock k \<le> clock (k + i)" for i by (induction i) (auto intro: order_trans Suc.prems(3))
  with Suc.prems(2) have "clock k < deadline" by (meson le_less_trans)
  moreover have "find_response request_id (tables k) = None" using Suc.prems(4) [of 0] by simp
  moreover have "poll_response f' clock tables deadline request_id (Suc k) = Some (Some m)"
    by (rule Suc.IH) (use Suc.prems f in \<open>auto simp flip: add_Suc_right\<close>)
  ultimately show ?case using f by simp
qed

section \<open>Properties\<close>

definition example_message :: "ident \<Rightarrow> ident option \<Rightarrow> agent_message" where
  "example_message i recipient = \<lparr>am_id = i, am_tree_root_job_id = ''a'', am_from_job_id = ''a'',
     am_to_job_id = recipient, am_message_type = ''data'', am_subject = None,
     am_body_json = json_dumps JNull, am_status = ''pending'', am_created_at = 0, am_read_at = None\<rparr>"



text \<open>A receive returns exactly the pending messages not sent by the job itself that are addressed to
  it or, with broadcasts included, to everyone in one of its trees, in order of creation, all
  still pending in the answer and delivered in the table.\<close>

theorem receive_returns_pending:
  assumes "distinct (map am_id t)" "receive rows j inc t = (ms, t')"
  shows "set ms = {m \<in> set t. am_status m = ''pending'' \<and> am_from_job_id m \<noteq> j \<and>
      (am_to_job_id m = Some j \<or> inc \<and> am_to_job_id m = None \<and>
         am_tree_root_job_id m \<in> set (get_tree_roots_for_job rows t j))} \<and>
    sorted (map am_created_at ms) \<and>
    t' = map (\<lambda>m. if m \<in> set ms then m\<lparr>am_status := ''delivered''\<rparr> else m) t"
proof (intro conjI)
  show "set ms = {m \<in> set t. am_status m = ''pending'' \<and> am_from_job_id m \<noteq> j \<and>
      (am_to_job_id m = Some j \<or> inc \<and> am_to_job_id m = None \<and>
         am_tree_root_job_id m \<in> set (get_tree_roots_for_job rows t j))}"
    using receive_returns [of rows j inc t] assms(2) by (auto simp: receivable_def)
  show "sorted (map am_created_at ms)"
    using assms(2) sorted_order_by [of am_created_at] by (auto simp: receive_def Let_def split: if_splits)
  have ms: "set ms \<subseteq> set t" using receive_returns [of rows j inc t] assms(2) by auto
  have "am_id m \<in> am_id ` set ms \<longleftrightarrow> m \<in> set ms" if "m \<in> set t" for m
    using unique_key_eq [OF assms(1) that] ms by blast
  then show "t' = map (\<lambda>m. if m \<in> set ms then m\<lparr>am_status := ''delivered''\<rparr> else m) t"
    using assms(2) by (auto simp: receive_def Let_def sql_update_def split: if_splits)
qed

theorem receive_returns_pending_witness:
  "snd (receive [] ''b'' False [example_message ''m'' (Some ''b'')]) =
     map (\<lambda>m. if m \<in> set (fst (receive [] ''b'' False [example_message ''m'' (Some ''b'')]))
              then m\<lparr>am_status := ''delivered''\<rparr> else m) [example_message ''m'' (Some ''b'')]"
  by (rule receive_returns_pending [where rows = "[]" and j = "''b''" and inc = False, THEN conjunct2, THEN conjunct2]) simp_all

text \<open>Request and response: the response to a stored request goes back to its sender in the same
  tree, and the first poll after it returns it with its body, when nobody answered before.\<close>

theorem response_reaches_requester:
  assumes "send_request tree a b subj body req now t = Inr (m, t1)"
    and "\<forall>q \<in> set t. am_message_type q = ''response'' \<longrightarrow> am_subject q \<noteq> Some req"
    and "resp \<notin> am_id ` set t1"
  shows "\<exists>r t2. send_response req b answer resp now2 t1 = Inr (r, t2) \<and>
     am_to_job_id r = Some a \<and> am_tree_root_job_id r = tree \<and> am_body r = Inr answer \<and>
     (clock 0 < start + timeout \<longrightarrow> get_response (Suc f) clock (\<lambda>i. t2) start timeout req = Some (Some r))"
proof -
  from send_InrD [OF assms(1) [unfolded send_request_def]]
  have t1: "t1 = t @ [m]" and new: "req \<notin> am_id ` set t"
    and m: "am_id m = req" "am_from_job_id m = a" "am_tree_root_job_id m = tree"
      "am_message_type m = ''request''" by auto
  have req: "fetchone (filter (\<lambda>q. am_id q = req) t1) = Some m"
    unfolding t1 by (rule fetchone_snoc [OF m(1) new])
  let ?r = "\<lparr>am_id = resp, am_tree_root_job_id = tree, am_from_job_id = b, am_to_job_id = Some a,
             am_message_type = ''response'', am_subject = Some req, am_body_json = json_dumps answer,
             am_status = ''pending'', am_created_at = now2, am_read_at = None\<rparr>"
  have s: "send_response req b answer resp now2 t1 = Inr (?r, t1 @ [?r])"
    using assms(3) req m by (simp add: send_response_def send_def Let_def)
  have "filter (\<lambda>q. am_message_type q = ''response'' \<and> am_subject q = Some req) t = []"
    using assms(2) by (auto simp: filter_empty_conv)
  then have "find_response req (t1 @ [?r]) = Some ?r" using m(4) by (simp add: find_response_def t1)
  with s show ?thesis by (simp add: get_response_def am_body_def)
qed

theorem response_reaches_requester_witness:
  "\<exists>r t2. send_response ''q'' ''b'' (JInt 7) ''p'' 1
       (snd (projr (send_request ''a'' ''a'' ''b'' ''s'' JNull ''q'' 0 []))) = Inr (r, t2) \<and>
     get_response 1 (\<lambda>i. 0) (\<lambda>i. t2) 0 10 ''q'' = Some (Some r)"
proof -
  have "send_request ''a'' ''a'' ''b'' ''s'' JNull ''q'' 0 [] =
      Inr (fst (projr (send_request ''a'' ''a'' ''b'' ''s'' JNull ''q'' 0 [])),
           snd (projr (send_request ''a'' ''a'' ''b'' ''s'' JNull ''q'' 0 [])))"
    by (simp add: send_request_def send_def Let_def)
  from response_reaches_requester [OF this, of "''p''" "JInt 7" 1 "\<lambda>i. 0" 0 10 0]
  show ?thesis by (auto simp: send_request_def send_def Let_def)
qed

text \<open>Polling for a response always ends: when every round lasts at least the polling interval, the
  loop returns within \<open>n + 1\<close> rounds, \<open>n\<close> intervals covering the timeout.\<close>

theorem get_response_returns:
  assumes "\<forall>i. clock i + POLL_INTERVAL \<le> clock (Suc i)" "start \<le> clock 0"
    and "timeout \<le> int n * POLL_INTERVAL" "n < f"
  shows "\<exists>r. get_response f clock tables start timeout req = Some r"
  unfolding get_response_def
  by (rule poll_response_returns [where n = n]) (use assms in auto)

theorem get_response_returns_witness:
  "\<exists>r. get_response 61 (\<lambda>i. int i * 600000) (\<lambda>i. []) 0 30000000 ''q'' = Some r"
  by (rule get_response_returns [where n = 60]) (auto simp: POLL_INTERVAL_def)

text \<open>The walk that finds a job's tree for broadcasts agrees with the delegation engine's root: on
  the trees the engine builds, its 50 steps are always enough.\<close>

theorem broadcast_root_is_tree_root:
  assumes "deleg_inv d"
  shows "get_tree_root d j \<in> set (get_tree_roots_for_job (db_delegation d) t j) \<and>
     (\<forall>x \<in> set (get_tree_roots_for_job (db_delegation d) t j). x = get_tree_root d j \<or>
        (\<exists>m \<in> set t. (am_from_job_id m = j \<or> am_to_job_id m = Some j) \<and> am_tree_root_job_id m = x))"
proof -
  have "get_depth d j < 50" using assms by (auto simp: deleg_inv_def MAX_DELEGATION_DEPTH_def intro: less_trans)
  with assms have "walk_up 50 (db_delegation d) j = get_tree_root d j"
    by (intro walk_up_root) (auto simp: deleg_inv_def)
  then show ?thesis by (auto simp: get_tree_roots_for_job_def)
qed

theorem broadcast_root_is_tree_root_witness:
  "get_tree_root example_db ''b'' \<in> set (get_tree_roots_for_job (db_delegation example_db) [] ''b'')"
  using broadcast_root_is_tree_root [OF example_db_inv] by blast

end
