(* ===== verification/Job_Models.thy ===== *)
theory Job_Models
  imports Schema
begin

text \<open>
  \<^verbatim>\<open>backend/jobs/models.py\<close>: the status enums, the retry policy, and the objects built from the
  rows of the job tables, with their dict forms. A dict is the list of its items in insertion
  order. The classes \<open>JobFile\<close> and \<open>AuditEntry\<close> have the fields of their rows, so their rows
  stand for them.
\<close>

fun parse_json_field :: "'a json_col option \<Rightarrow> 'a \<Rightarrow> 'a" where
  "parse_json_field None dflt = dflt"
| "parse_json_field (Some (Json v)) dflt = v"
| "parse_json_field (Some (Bad_json _)) dflt = dflt"

datatype job_status = JOB_PENDING | JOB_PLANNING | JOB_EXECUTING | JOB_REVIEWING | JOB_DONE | JOB_FAILED
  | JOB_CANCELLED | JOB_CANCELLING

fun job_status_value :: "job_status \<Rightarrow> string" where
  "job_status_value JOB_PENDING = ''pending''"
| "job_status_value JOB_PLANNING = ''planning''"
| "job_status_value JOB_EXECUTING = ''executing''"
| "job_status_value JOB_REVIEWING = ''reviewing''"
| "job_status_value JOB_DONE = ''done''"
| "job_status_value JOB_FAILED = ''failed''"
| "job_status_value JOB_CANCELLED = ''cancelled''"
| "job_status_value JOB_CANCELLING = ''cancelling''"

datatype node_status = NODE_PENDING | NODE_RUNNING | NODE_COMPLETED | NODE_FAILED | NODE_CANCELLED
  | NODE_AWAITING_INPUT | NODE_SKIPPED

fun node_status_value :: "node_status \<Rightarrow> string" where
  "node_status_value NODE_PENDING = ''pending''"
| "node_status_value NODE_RUNNING = ''running''"
| "node_status_value NODE_COMPLETED = ''completed''"
| "node_status_value NODE_FAILED = ''failed''"
| "node_status_value NODE_CANCELLED = ''cancelled''"
| "node_status_value NODE_AWAITING_INPUT = ''awaiting_input''"
| "node_status_value NODE_SKIPPED = ''skipped''"

section \<open>Retry policy\<close>

record retry_policy =
  rp_max_attempts :: int
  rp_backoff_ms :: "int list"

definition DEFAULT_BACKOFF_MS :: "int list" where
  "DEFAULT_BACKOFF_MS = [1000, 5000, 15000]"

definition default_retry_policy :: retry_policy where
  "default_retry_policy = \<lparr>rp_max_attempts = 3, rp_backoff_ms = DEFAULT_BACKOFF_MS\<rparr>"

definition retry_policy_from_json :: "retry_json json_col option \<Rightarrow> retry_policy" where
  "retry_policy_from_json s =
     (case parse_json_field s (Retry_dict None None) of
        Not_a_dict \<Rightarrow> default_retry_policy
      | Retry_dict attempts backoff \<Rightarrow>
          \<lparr>rp_max_attempts = (case attempts of None \<Rightarrow> 3 | Some n \<Rightarrow> n),
           rp_backoff_ms = (case backoff of None \<Rightarrow> DEFAULT_BACKOFF_MS | Some ms \<Rightarrow> ms)\<rparr>)"

definition retry_policy_to_json :: "retry_policy \<Rightarrow> retry_json json_col" where
  "retry_policy_to_json p = Json (Retry_dict (Some (rp_max_attempts p)) (Some (rp_backoff_ms p)))"

definition retry_policy_to_dict :: "retry_policy \<Rightarrow> (string \<times> json) list" where
  "retry_policy_to_dict p =
     [(''max_attempts'', JInt (rp_max_attempts p)), (''backoff_ms'', JList (map JInt (rp_backoff_ms p)))]"

lemma retry_policy_roundtrip: "retry_policy_from_json (Some (retry_policy_to_json p)) = p"
  by (simp add: retry_policy_from_json_def retry_policy_to_json_def)

section \<open>Jobs\<close>

record job =
  jo_id :: ident
  jo_workspace_id :: "ident option"
  jo_title :: string
  jo_description :: "string option"
  jo_source :: string
  jo_source_ref :: "string option"
  jo_status :: string
  jo_priority :: int
  jo_requester :: "ident option"
  jo_mode :: string
  jo_template_id :: "ident option"
  jo_result_summary :: "string option"
  jo_review_count :: int
  jo_max_reviews :: int
  jo_error :: "string option"
  jo_cost_cents :: real
  jo_created_at :: timestamp
  jo_updated_at :: "timestamp option"
  jo_parent_job_id :: "ident option"
  jo_tree_root_id :: "ident option"

definition job_from_row :: "job_row \<Rightarrow> job" where
  "job_from_row r =
     \<lparr>jo_id = jr_id r, jo_workspace_id = jr_workspace_id r, jo_title = jr_title r,
      jo_description = jr_description r, jo_source = jr_source r, jo_source_ref = jr_source_ref r,
      jo_status = jr_status r, jo_priority = jr_priority r, jo_requester = jr_requester r,
      jo_mode = jr_mode r, jo_template_id = jr_template_id r,
      jo_result_summary = jr_result_summary r, jo_review_count = jr_review_count r,
      jo_max_reviews = jr_max_reviews r, jo_error = jr_error r,
      jo_cost_cents = (case jr_cost_cents r of None \<Rightarrow> 0 | Some c \<Rightarrow> c),
      jo_created_at = jr_created_at r, jo_updated_at = jr_updated_at r,
      jo_parent_job_id = jr_parent_job_id r, jo_tree_root_id = jr_tree_root_id r\<rparr>"

definition opt_str :: "string option \<Rightarrow> json" where
  "opt_str v = (case v of None \<Rightarrow> JNull | Some s \<Rightarrow> JStr s)"

definition opt_int :: "int option \<Rightarrow> json" where
  "opt_int v = (case v of None \<Rightarrow> JNull | Some i \<Rightarrow> JInt i)"

definition JOB_INTERNAL_FIELDS :: "string set" where
  "JOB_INTERNAL_FIELDS = {''error'', ''cost_cents'', ''review_count'', ''max_reviews''}"

definition job_to_dict :: "job \<Rightarrow> (string \<times> json) list" where
  "job_to_dict j =
     [(''id'', JStr (jo_id j)), (''workspace_id'', opt_str (jo_workspace_id j)),
      (''title'', JStr (jo_title j)), (''description'', opt_str (jo_description j)),
      (''source'', JStr (jo_source j)), (''source_ref'', opt_str (jo_source_ref j)),
      (''status'', JStr (jo_status j)), (''priority'', JInt (jo_priority j)),
      (''requester'', opt_str (jo_requester j)), (''mode'', JStr (jo_mode j)),
      (''template_id'', opt_str (jo_template_id j)),
      (''result_summary'', opt_str (jo_result_summary j)),
      (''review_count'', JInt (jo_review_count j)), (''max_reviews'', JInt (jo_max_reviews j)),
      (''error'', opt_str (jo_error j)), (''cost_cents'', JReal (jo_cost_cents j)),
      (''created_at'', JInt (jo_created_at j)), (''updated_at'', opt_int (jo_updated_at j)),
      (''parent_job_id'', opt_str (jo_parent_job_id j)),
      (''tree_root_id'', opt_str (jo_tree_root_id j))]"

definition job_to_api_dict :: "job \<Rightarrow> (string \<times> json) list" where
  "job_to_api_dict j = filter (\<lambda>(k, v). k \<notin> JOB_INTERNAL_FIELDS) (job_to_dict j)"

text \<open>The public dict is the full dict without the internal fields.\<close>

lemma job_keys_distinct: "distinct (map fst (job_to_dict j))"
  by (simp add: job_to_dict_def)

lemma map_of_filter_keys:
  "map_of (filter (\<lambda>(k, v). P k) xs) k = (if P k then map_of xs k else None)"
  by (induction xs) auto

lemma job_to_api_dict_get:
  "obj_get (job_to_api_dict j) k =
     (if k \<in> JOB_INTERNAL_FIELDS then None else obj_get (job_to_dict j) k)"
proof -
  have "obj_get (filter (\<lambda>(k, v). k \<notin> JOB_INTERNAL_FIELDS) xs) k =
      (if k \<in> JOB_INTERNAL_FIELDS then None else obj_get xs k)" for xs
    by (simp add: obj_get_def rev_filter map_of_filter_keys)
  then show ?thesis by (simp add: job_to_api_dict_def)
qed

section \<open>Nodes\<close>

record node =
  no_id :: ident
  no_job_id :: ident
  no_sequence :: nat
  no_title :: string
  no_instructions :: "string option"
  no_tools_allowed :: "string list"
  no_expected_output :: "string option"
  no_status :: string
  no_input_json :: "string option"
  no_output_json :: "string option"
  no_error :: "string option"
  no_auto_generated :: bool
  no_input_schema_json :: "string option"
  no_output_schema_json :: "string option"
  no_side_effects_json :: "string option"
  no_retry_policy :: retry_policy
  no_timeout_sec :: int
  no_rollback_strategy :: "string option"
  no_acceptance_tests_json :: "string option"
  no_depends_on :: "string list"
  no_created_at :: timestamp
  no_updated_at :: timestamp

definition node_from_row :: "node_row \<Rightarrow> node" where
  "node_from_row r =
     \<lparr>no_id = nr_id r, no_job_id = nr_job_id r, no_sequence = nr_sequence r, no_title = nr_title r,
      no_instructions = nr_instructions r,
      no_tools_allowed = parse_json_field (nr_tools_allowed r) [],
      no_expected_output = nr_expected_output r, no_status = nr_status r,
      no_input_json = nr_input_json r, no_output_json = nr_output_json r, no_error = nr_error r,
      no_auto_generated = nr_auto_generated r, no_input_schema_json = nr_input_schema_json r,
      no_output_schema_json = nr_output_schema_json r,
      no_side_effects_json = nr_side_effects_json r,
      no_retry_policy = retry_policy_from_json (nr_retry_policy_json r),
      no_timeout_sec = (case nr_timeout_sec r of None \<Rightarrow> 300 | Some n \<Rightarrow> if n = 0 then 300 else n),
      no_rollback_strategy = nr_rollback_strategy r,
      no_acceptance_tests_json = nr_acceptance_tests_json r,
      no_depends_on = parse_json_field (nr_depends_on r) [],
      no_created_at = nr_created_at r, no_updated_at = nr_updated_at r\<rparr>"

definition str_list :: "string list \<Rightarrow> json" where
  "str_list xs = JList (map JStr xs)"

definition node_to_dict :: "node \<Rightarrow> (string \<times> json) list" where
  "node_to_dict n =
     [(''id'', JStr (no_id n)), (''job_id'', JStr (no_job_id n)),
      (''sequence'', JInt (int (no_sequence n))), (''title'', JStr (no_title n)),
      (''instructions'', opt_str (no_instructions n)),
      (''tools_allowed'', str_list (no_tools_allowed n)),
      (''expected_output'', opt_str (no_expected_output n)), (''status'', JStr (no_status n)),
      (''input_json'', opt_str (no_input_json n)), (''output_json'', opt_str (no_output_json n)),
      (''error'', opt_str (no_error n)), (''auto_generated'', JBool (no_auto_generated n)),
      (''input_schema_json'', opt_str (no_input_schema_json n)),
      (''output_schema_json'', opt_str (no_output_schema_json n)),
      (''side_effects_json'', opt_str (no_side_effects_json n)),
      (''retry_policy'', JObj (retry_policy_to_dict (no_retry_policy n))),
      (''timeout_sec'', JInt (no_timeout_sec n)),
      (''rollback_strategy'', opt_str (no_rollback_strategy n)),
      (''acceptance_tests_json'', opt_str (no_acceptance_tests_json n)),
      (''depends_on'', str_list (no_depends_on n)),
      (''created_at'', JInt (no_created_at n)), (''updated_at'', JInt (no_updated_at n))]"

section \<open>Files and audit entries\<close>

definition file_to_dict :: "file_row \<Rightarrow> (string \<times> json) list" where
  "file_to_dict f =
     [(''id'', JStr (fr_id f)), (''job_id'', JStr (fr_job_id f)), (''node_id'', opt_str (fr_node_id f)),
      (''filename'', JStr (fr_filename f)), (''file_path'', JStr (fr_file_path f)),
      (''file_type'', JStr (fr_file_type f)), (''mime_type'', opt_str (fr_mime_type f)),
      (''size_bytes'', opt_int (fr_size_bytes f))]"

definition audit_to_dict :: "audit_row \<Rightarrow> (string \<times> json) list" where
  "audit_to_dict a =
     [(''id'', JStr (ar_id a)), (''job_id'', opt_str (ar_job_id a)), (''node_id'', opt_str (ar_node_id a)),
      (''action'', JStr (ar_action a)), (''detail'', opt_str (ar_detail a)),
      (''actor'', opt_str (ar_actor a)), (''timestamp'', JInt (ar_timestamp a))]"

section \<open>Templates\<close>

record pipeline_template =
  te_id :: ident
  te_workspace_id :: ident
  te_name :: string
  te_description :: "string option"
  te_nodes :: "node_def list"
  te_created_by :: "ident option"
  te_use_count :: int
  te_created_at :: timestamp
  te_updated_at :: timestamp

definition template_from_row :: "template_row \<Rightarrow> pipeline_template" where
  "template_from_row r =
     \<lparr>te_id = tr_id r, te_workspace_id = tr_workspace_id r, te_name = tr_name r,
      te_description = tr_description r, te_nodes = parse_json_field (Some (tr_nodes_json r)) [],
      te_created_by = tr_created_by r, te_use_count = tr_use_count r,
      te_created_at = tr_created_at r, te_updated_at = tr_updated_at r\<rparr>"

lemma node_from_row_sel [simp]:
  "no_id (node_from_row r) = nr_id r" "no_job_id (node_from_row r) = nr_job_id r"
  "no_status (node_from_row r) = nr_status r" "no_title (node_from_row r) = nr_title r"
  "no_sequence (node_from_row r) = nr_sequence r"
  "no_depends_on (node_from_row r) = parse_json_field (nr_depends_on r) []"
  by (simp_all add: node_from_row_def)

lemma job_from_row_sel [simp]:
  "jo_id (job_from_row r) = jr_id r" "jo_status (job_from_row r) = jr_status r"
  "jo_created_at (job_from_row r) = jr_created_at r"
  "jo_workspace_id (job_from_row r) = jr_workspace_id r"
  by (simp_all add: job_from_row_def)

end
