(* ===== verification/Job_Queue.thy ===== *)
theory Job_Queue
  imports Job_Models Delegation
begin

text \<open>
  \<^verbatim>\<open>backend/jobs/queue.py\<close>: the class \<open>JobQueue\<close>, all operations on jobs, nodes, files, audit log
  and templates. A method that is one transaction returns the new database or an error; a method
  that calls several (each committed on its own) returns its result and the database it leaves,
  also when it raises.
\<close>

section \<open>Jobs\<close>

definition find_job :: "db \<Rightarrow> ident \<Rightarrow> job_row option" where
  "find_job d j = fetchone (filter (\<lambda>r. jr_id r = j) (db_jobs d))"

definition create_job ::
  "ident \<Rightarrow> string \<Rightarrow> string option \<Rightarrow> string \<Rightarrow> ident option \<Rightarrow> string \<Rightarrow> ident option \<Rightarrow> int \<Rightarrow>
   string option \<Rightarrow> ident option \<Rightarrow> ident option \<Rightarrow> ident \<Rightarrow> timestamp \<Rightarrow> db \<Rightarrow> (job \<times> db) result" where
  "create_job workspace title description source requester mode template priority source_ref
     parent tree job_id now d =
     (case insert_job
        \<lparr>jr_id = job_id, jr_workspace_id = Some workspace, jr_title = title,
         jr_description = description, jr_source = source, jr_source_ref = source_ref,
         jr_status = job_status_value JOB_PENDING, jr_priority = priority, jr_requester = requester,
         jr_mode = mode, jr_template_id = template, jr_result_summary = None, jr_review_count = 0,
         jr_max_reviews = 3, jr_error = None, jr_cost_cents = Some 0, jr_created_at = now,
         jr_updated_at = Some now,
         jr_parent_job_id = (if db_has_delegation d then parent else None),
         jr_tree_root_id = (if db_has_delegation d then tree else None)\<rparr> d of
        Inl e \<Rightarrow> Inl e
      | Inr d' \<Rightarrow> (case find_job d' job_id of
                     None \<Rightarrow> Inl (TypeError ''NoneType'')
                   | Some r \<Rightarrow> Inr (job_from_row r, d')))"

definition get_job :: "db \<Rightarrow> ident \<Rightarrow> job option" where
  "get_job d j = map_option job_from_row (find_job d j)"

definition list_jobs :: "db \<Rightarrow> ident \<Rightarrow> string option \<Rightarrow> int \<Rightarrow> int \<Rightarrow> job list" where
  "list_jobs d workspace status limit offset =
     map job_from_row (sql_limit limit offset (order_by_desc jr_created_at
       (filter (\<lambda>r. jr_workspace_id r = Some workspace \<and>
                    (case status of None \<Rightarrow> True | Some s \<Rightarrow> jr_status r = s)) (db_jobs d))))"

definition update_job_status ::
  "ident \<Rightarrow> string \<Rightarrow> string option \<Rightarrow> string option \<Rightarrow> timestamp \<Rightarrow> db \<Rightarrow> db" where
  "update_job_status j status error summary now d =
     d\<lparr>db_jobs := sql_update (\<lambda>r. jr_id r = j)
        (\<lambda>r. r\<lparr>jr_status := status, jr_error := error, jr_result_summary := summary,
                jr_updated_at := Some now\<rparr>) (db_jobs d)\<rparr>"

definition set_cancelling :: "timestamp \<Rightarrow> ident \<Rightarrow> db \<Rightarrow> db" where
  "set_cancelling now j d = update_job_status j (job_status_value JOB_CANCELLING) None None now d"

definition cascade_cancel :: "nat \<Rightarrow> timestamp \<Rightarrow> ident \<Rightarrow> db \<Rightarrow> py_error option \<times> db" where
  "cascade_cancel f now p d = visit_below (set_cancelling now) f p d"

definition cancel_job :: "nat \<Rightarrow> timestamp \<Rightarrow> ident \<Rightarrow> bool \<Rightarrow> db \<Rightarrow> py_error option \<times> db" where
  "cancel_job f now j cascade d =
     (let d1 = set_cancelling now j d in if cascade then cascade_cancel f now j d1 else (None, d1))"

definition delete_job :: "ident \<Rightarrow> db \<Rightarrow> (bool \<times> db) result" where
  "delete_job j d =
     (if find_job d j = None then Inr (False, d)
      else (case delete_job_row j
              (d\<lparr>db_audit := sql_delete (\<lambda>a. ar_job_id a = Some j) (db_audit d),
                 db_files := sql_delete (\<lambda>f. fr_job_id f = j) (db_files d),
                 db_nodes := sql_delete (\<lambda>n. nr_job_id n = j) (db_nodes d),
                 db_delegation := sql_delete (\<lambda>g. dg_parent_job_id g = j \<or> dg_child_job_id g = j)
                                    (db_delegation d)\<rparr>) of
              Inl e \<Rightarrow> Inl e | Inr d' \<Rightarrow> Inr (True, d')))"

text \<open>The two joins of \<^verbatim>\<open>jobs\<close> with a list of ids; SQL keeps one row per match.\<close>

definition jobs_of_ids :: "db \<Rightarrow> ident list \<Rightarrow> job_row list" where
  "jobs_of_ids d ids = concat (map (\<lambda>i. filter (\<lambda>r. jr_id r = i) (db_jobs d)) ids)"

definition get_child_jobs :: "db \<Rightarrow> ident \<Rightarrow> job list" where
  "get_child_jobs d p =
     map job_from_row (order_by jr_created_at (jobs_of_ids d (children_ids (db_delegation d) p)))"

text \<open>
  The recursive query of \<^verbatim>\<open>get_job_tree\<close>: SQLite takes the oldest row of the queue, adds it to the
  result and appends its children (\<^verbatim>\<open>UNION ALL\<close>, so without a duplicate check). \<open>None\<close>: the
  query has not ended within the fuel.
\<close>

fun tree_query :: "nat \<Rightarrow> delegation_row list \<Rightarrow> ident list \<Rightarrow> ident list option" where
  "tree_query f rows [] = Some []"
| "tree_query 0 rows (x # queue) = None"
| "tree_query (Suc f) rows (x # queue) =
     map_option (Cons x) (tree_query f rows (queue @ children_ids rows x))"

definition get_job_tree :: "nat \<Rightarrow> db \<Rightarrow> ident \<Rightarrow> job list option" where
  "get_job_tree f d root_id =
     map_option (\<lambda>ids. map job_from_row (order_by jr_created_at (jobs_of_ids d ids)))
       (tree_query f (db_delegation d) [root_id])"

definition track_cost :: "ident \<Rightarrow> real \<Rightarrow> timestamp \<Rightarrow> db \<Rightarrow> db" where
  "track_cost j cents now d =
     d\<lparr>db_jobs := sql_update (\<lambda>r. jr_id r = j)
        (\<lambda>r. r\<lparr>jr_cost_cents := map_option (\<lambda>c. c + cents) (jr_cost_cents r),
                jr_updated_at := Some now\<rparr>) (db_jobs d)\<rparr>"

definition increment_review_count :: "ident \<Rightarrow> timestamp \<Rightarrow> db \<Rightarrow> int \<times> db" where
  "increment_review_count j now d =
     (let d' = d\<lparr>db_jobs := sql_update (\<lambda>r. jr_id r = j)
                  (\<lambda>r. r\<lparr>jr_review_count := jr_review_count r + 1, jr_updated_at := Some now\<rparr>)
                  (db_jobs d)\<rparr>
      in (case find_job d' j of None \<Rightarrow> 0 | Some r \<Rightarrow> jr_review_count r, d'))"

definition get_interrupted_jobs :: "db \<Rightarrow> job list" where
  "get_interrupted_jobs d =
     map job_from_row (order_by jr_created_at
       (filter (\<lambda>r. jr_status r = job_status_value JOB_EXECUTING) (db_jobs d)))"

section \<open>Nodes\<close>

definition node_def_title :: "node_def \<Rightarrow> string" where
  "node_def_title nd = py_strip (case nd_title nd of None \<Rightarrow> '''' | Some t \<Rightarrow> t)"

definition title_to_id :: "(ident \<times> node_def) list \<Rightarrow> string \<rightharpoonup> ident" where
  "title_to_id defs =
     map_of (rev (map (\<lambda>(i, nd). (node_def_title nd, i))
                    (filter (\<lambda>(i, nd). node_def_title nd \<noteq> []) defs)))"

definition declared_deps :: "node_def \<Rightarrow> string list" where
  "declared_deps nd =
     (case nd_depends_on nd of
        None \<Rightarrow> []
      | Some (As_list xs) \<Rightarrow> xs
      | Some (As_text (Json xs)) \<Rightarrow> xs
      | Some (As_text (Bad_json s)) \<Rightarrow> if s = [] then [] else [s])"

definition resolve_deps :: "(string \<rightharpoonup> ident) \<Rightarrow> node_def \<Rightarrow> ident list" where
  "resolve_deps titles nd = map (\<lambda>dep. case titles dep of None \<Rightarrow> dep | Some i \<Rightarrow> i) (declared_deps nd)"

definition tools_column :: "node_def \<Rightarrow> string list json_col" where
  "tools_column nd =
     (case nd_tools_allowed nd of
        None \<Rightarrow> Json [] | Some (As_list xs) \<Rightarrow> Json xs | Some (As_text t) \<Rightarrow> t)"

definition retry_column :: "node_def \<Rightarrow> retry_json json_col" where
  "retry_column nd =
     (case nd_retry_policy_json nd of
        None \<Rightarrow> retry_policy_to_json default_retry_policy
      | Some (Bad_json []) \<Rightarrow> retry_policy_to_json default_retry_policy
      | Some t \<Rightarrow> t)"

definition new_node_row ::
    "ident \<Rightarrow> (string \<rightharpoonup> ident) \<Rightarrow> timestamp \<Rightarrow> nat \<Rightarrow> ident \<Rightarrow> node_def \<Rightarrow> node_row" where
  "new_node_row j titles now sq i nd =
     \<lparr>nr_id = i, nr_job_id = j, nr_sequence = sq,
      nr_title = (case nd_title nd of None \<Rightarrow> ''Node '' @ show_nat sq | Some t \<Rightarrow> t),
      nr_instructions = nd_instructions nd, nr_tools_allowed = Some (tools_column nd),
      nr_expected_output = nd_expected_output nd, nr_status = node_status_value NODE_PENDING,
      nr_input_json = None, nr_output_json = None, nr_error = None, nr_auto_generated = True,
      nr_input_schema_json = nd_input_schema_json nd,
      nr_output_schema_json = nd_output_schema_json nd, nr_side_effects_json = None,
      nr_retry_policy_json = Some (retry_column nd),
      nr_timeout_sec = Some (case nd_timeout_sec nd of None \<Rightarrow> 300 | Some n \<Rightarrow> n),
      nr_rollback_strategy = None, nr_acceptance_tests_json = None,
      nr_depends_on = Some (Json (resolve_deps titles nd)), nr_created_at = now, nr_updated_at = now\<rparr>"

fun insert_nodes ::
  "ident \<Rightarrow> (string \<rightharpoonup> ident) \<Rightarrow> timestamp \<Rightarrow> nat \<Rightarrow> (ident \<times> node_def) list \<Rightarrow> db \<Rightarrow> (node list \<times> db) result" where
  "insert_nodes j titles now sq [] d = Inr ([], d)"
| "insert_nodes j titles now sq ((i, nd) # defs) d =
     (case insert_node (new_node_row j titles now sq i nd) d of
        Inl e \<Rightarrow> Inl e
      | Inr d1 \<Rightarrow>
          (case fetchone (filter (\<lambda>r. nr_id r = i) (db_nodes d1)) of
             None \<Rightarrow> Inl (TypeError ''NoneType'')
           | Some r \<Rightarrow>
               (case insert_nodes j titles now (Suc sq) defs d1 of
                  Inl e \<Rightarrow> Inl e
                | Inr (ns, d2) \<Rightarrow> Inr (node_from_row r # ns, d2))))"

definition create_nodes ::
    "ident \<Rightarrow> (ident \<times> node_def) list \<Rightarrow> timestamp \<Rightarrow> db \<Rightarrow> (node list \<times> db) result" where
  "create_nodes j defs now d = insert_nodes j (title_to_id defs) now 1 defs d"

definition job_nodes :: "db \<Rightarrow> ident \<Rightarrow> node_row list" where
  "job_nodes d j = order_by nr_sequence (filter (\<lambda>r. nr_job_id r = j) (db_nodes d))"

definition get_nodes :: "db \<Rightarrow> ident \<Rightarrow> node list" where
  "get_nodes d j = map node_from_row (job_nodes d j)"

definition get_node :: "db \<Rightarrow> ident \<Rightarrow> node option" where
  "get_node d i = map_option node_from_row (fetchone (filter (\<lambda>r. nr_id r = i) (db_nodes d)))"

definition update_node ::
  "ident \<Rightarrow> string option \<Rightarrow> string option \<Rightarrow> string option \<Rightarrow> string option \<Rightarrow> timestamp \<Rightarrow> db \<Rightarrow> db" where
  "update_node i status input output error now d =
     (let set_if = (\<lambda>v old. case v of None \<Rightarrow> old | Some x \<Rightarrow> Some x)
      in d\<lparr>db_nodes := sql_update (\<lambda>r. nr_id r = i)
            (\<lambda>r. r\<lparr>nr_updated_at := now,
                    nr_status := (case status of None \<Rightarrow> nr_status r | Some s \<Rightarrow> s),
                    nr_input_json := set_if input (nr_input_json r),
                    nr_output_json := set_if output (nr_output_json r),
                    nr_error := set_if error (nr_error r)\<rparr>) (db_nodes d)\<rparr>)"

definition dependency_met :: "(ident \<rightharpoonup> string) \<Rightarrow> ident \<Rightarrow> bool" where
  "dependency_met status_by_id dep \<longleftrightarrow> status_by_id dep = Some (node_status_value NODE_COMPLETED)"

definition node_ready :: "(ident \<rightharpoonup> string) \<Rightarrow> node_row \<Rightarrow> bool" where
  "node_ready status_by_id r \<longleftrightarrow>
     nr_status r = node_status_value NODE_PENDING \<and>
     (let deps = parse_json_field (nr_depends_on r) []
      in deps = [] \<or> list_all (dependency_met status_by_id) deps)"

definition status_by_id :: "node_row list \<Rightarrow> ident \<rightharpoonup> string" where
  "status_by_id rows = map_of (rev (map (\<lambda>r. (nr_id r, nr_status r)) rows))"

definition get_next_pending_node :: "db \<Rightarrow> ident \<Rightarrow> node option" where
  "get_next_pending_node d j =
     (let rows = job_nodes d j
      in map_option node_from_row (find (node_ready (status_by_id rows)) rows))"

section \<open>Files and audit log\<close>

definition add_file ::
  "ident \<Rightarrow> string \<Rightarrow> string \<Rightarrow> string \<Rightarrow> string option \<Rightarrow> int option \<Rightarrow> ident option \<Rightarrow> ident \<Rightarrow> db \<Rightarrow>
   (file_row \<times> db) result" where
  "add_file j filename path ftype mime nbytes node file_id d =
     (case insert_file \<lparr>fr_id = file_id, fr_job_id = j, fr_node_id = node, fr_filename = filename,
                        fr_file_path = path, fr_file_type = ftype, fr_mime_type = mime,
                        fr_size_bytes = nbytes\<rparr> d of
        Inl e \<Rightarrow> Inl e
      | Inr d' \<Rightarrow> (case fetchone (filter (\<lambda>r. fr_id r = file_id) (db_files d')) of
                     None \<Rightarrow> Inl (TypeError ''NoneType'') | Some r \<Rightarrow> Inr (r, d')))"

definition get_files :: "db \<Rightarrow> ident \<Rightarrow> string option \<Rightarrow> file_row list" where
  "get_files d j ftype =
     filter (\<lambda>r. fr_job_id r = j \<and> (case ftype of None \<Rightarrow> True | Some t \<Rightarrow> fr_file_type r = t)) (db_files d)"

definition add_audit ::
  "ident \<Rightarrow> string \<Rightarrow> string option \<Rightarrow> string option \<Rightarrow> ident option \<Rightarrow> ident \<Rightarrow> timestamp \<Rightarrow> db \<Rightarrow> db result" where
  "add_audit j action detail actor node entry_id now d =
     insert_audit \<lparr>ar_id = entry_id, ar_job_id = Some j, ar_node_id = node, ar_action = action,
                   ar_detail = detail, ar_actor = actor, ar_timestamp = now\<rparr> d"

definition get_audit_log :: "db \<Rightarrow> ident \<Rightarrow> int \<Rightarrow> audit_row list" where
  "get_audit_log d j limit =
     sql_limit limit 0 (order_by_desc ar_timestamp (filter (\<lambda>a. ar_job_id a = Some j) (db_audit d)))"

section \<open>Templates\<close>

definition snapshot_node :: "node \<Rightarrow> node_def" where
  "snapshot_node n =
     \<lparr>nd_title = Some (no_title n), nd_instructions = no_instructions n,
      nd_tools_allowed = Some (As_list (no_tools_allowed n)),
      nd_expected_output = no_expected_output n, nd_input_schema_json = no_input_schema_json n,
      nd_output_schema_json = no_output_schema_json n,
      nd_depends_on = Some (As_list (no_depends_on n)), nd_timeout_sec = Some (no_timeout_sec n),
      nd_retry_policy_json = Some (retry_policy_to_json (no_retry_policy n))\<rparr>"

definition get_template :: "db \<Rightarrow> ident \<Rightarrow> pipeline_template option" where
  "get_template d t = map_option template_from_row (fetchone (filter (\<lambda>r. tr_id r = t) (db_templates d)))"

definition save_as_template ::
  "ident \<Rightarrow> string \<Rightarrow> ident \<Rightarrow> ident option \<Rightarrow> ident \<Rightarrow> timestamp \<Rightarrow> db \<Rightarrow> (pipeline_template \<times> db) result" where
  "save_as_template j name workspace created_by template_id now d =
     (case insert_template
        \<lparr>tr_id = template_id, tr_workspace_id = workspace, tr_name = name, tr_description = None,
         tr_nodes_json = Json (map snapshot_node (get_nodes d j)), tr_created_by = created_by,
         tr_use_count = 0, tr_created_at = now, tr_updated_at = now\<rparr> d of
        Inl e \<Rightarrow> Inl e
      | Inr d' \<Rightarrow> (case get_template d' template_id of
                     None \<Rightarrow> Inl (TypeError ''NoneType'') | Some t \<Rightarrow> Inr (t, d')))"

text \<open>A file handed over with a template: a dict with two required keys.\<close>

record file_spec =
  fs_filename :: "string option"
  fs_file_path :: "string option"
  fs_file_type :: "string option"
  fs_mime_type :: "string option"
  fs_size_bytes :: "int option"
  fs_node_id :: "ident option"

text \<open>The loop over the files: each file is committed on its own; the result is the exception, if
  any, with the database reached.\<close>

fun add_files :: "ident \<Rightarrow> (ident \<times> file_spec) list \<Rightarrow> db \<Rightarrow> py_error option \<times> db" where
  "add_files j [] d = (None, d)"
| "add_files j ((i, f) # fs) d =
     (case fs_filename f of
        None \<Rightarrow> (Some (KeyError ''filename''), d)
      | Some name \<Rightarrow>
          (case fs_file_path f of
             None \<Rightarrow> (Some (KeyError ''file_path''), d)
           | Some path \<Rightarrow>
               (case add_file j name path
                       (case fs_file_type f of None \<Rightarrow> ''input'' | Some t \<Rightarrow> t)
                       (fs_mime_type f) (fs_size_bytes f) (fs_node_id f) i d of
                  Inl e \<Rightarrow> (Some e, d)
                | Inr (_, d') \<Rightarrow> add_files j fs d')))"

definition increment_template_use :: "ident \<Rightarrow> timestamp \<Rightarrow> db \<Rightarrow> db" where
  "increment_template_use t now d =
     d\<lparr>db_templates := sql_update (\<lambda>r. tr_id r = t)
        (\<lambda>r. r\<lparr>tr_use_count := tr_use_count r + 1, tr_updated_at := now\<rparr>) (db_templates d)\<rparr>"

definition create_job_from_template ::
  "ident \<Rightarrow> ident \<Rightarrow> ident option \<Rightarrow> (ident \<times> file_spec) list \<Rightarrow> ident \<Rightarrow> (nat \<Rightarrow> ident) \<Rightarrow> ident \<Rightarrow> timestamp \<Rightarrow>
   db \<Rightarrow> job result \<times> db" where
  "create_job_from_template template_id workspace requester files job_id node_id audit_id now d =
     (case get_template d template_id of
        None \<Rightarrow> (Inl (ValueError ''Template not found''), d)
      | Some tmpl \<Rightarrow>
          (case create_job workspace (te_name tmpl) (te_description tmpl) ''template'' requester
                  ''pipeline'' (Some template_id) 0 None None None job_id now d of
             Inl e \<Rightarrow> (Inl e, d)
           | Inr (job, d1) \<Rightarrow>
               (case (if te_nodes tmpl = [] then Inr ([], d1)
                      else create_nodes job_id
                             (zip (map node_id [0..<length (te_nodes tmpl)]) (te_nodes tmpl)) now d1) of
                  Inl e \<Rightarrow> (Inl e, d1)
                | Inr (_, d2) \<Rightarrow>
                    (case add_files job_id files d2 of
                       (Some e, d3) \<Rightarrow> (Inl e, d3)
                     | (None, d3) \<Rightarrow>
                         (let d4 = increment_template_use template_id now d3
                          in case add_audit job_id ''job_created_from_template''
                                    (Some (''template_id='' @ template_id)) requester None audit_id now d4 of
                               Inl e \<Rightarrow> (Inl e, d4)
                             | Inr d5 \<Rightarrow> (Inr job, d5))))))"

definition list_templates :: "db \<Rightarrow> ident \<Rightarrow> pipeline_template list" where
  "list_templates d workspace =
     map template_from_row
       (order_by_text tr_name (filter (\<lambda>r. tr_workspace_id r = workspace) (db_templates d)))"

section \<open>What each operation adds\<close>

lemma create_job_InrD:
  assumes "create_job ws title descr src requester mode template prio ref p tree j now d = Inr (job, d')"
  shows "\<exists>r. d' = d\<lparr>db_jobs := db_jobs d @ [r]\<rparr> \<and> jr_id r = j \<and> j \<notin> jr_id ` set (db_jobs d) \<and>
           insert_job r d = Inr d' \<and> jr_status r = ''pending'' \<and> jr_workspace_id r = Some ws \<and>
           job = job_from_row r"
proof -
  from assms obtain r where r: "insert_job r d = Inr d'" "jr_id r = j" "jr_status r = ''pending''"
      "jr_workspace_id r = Some ws" and job: "map_option job_from_row (find_job d' j) = Some job"
    by (auto simp: create_job_def split: sum.splits option.splits)
  from insert_job_InrD [OF r(1)] r(2)
  have d': "d' = d\<lparr>db_jobs := db_jobs d @ [r]\<rparr>" "j \<notin> jr_id ` set (db_jobs d)" by auto
  then have "find_job d' j = Some r"
    unfolding find_job_def using fetchone_snoc [of jr_id r j "db_jobs d"] r(2) by (simp del: filter_append)
  with d' r job show ?thesis by auto
qed

fun node_rows :: "ident \<Rightarrow> (string \<rightharpoonup> ident) \<Rightarrow> timestamp \<Rightarrow> nat \<Rightarrow> (ident \<times> node_def) list \<Rightarrow> node_row list" where
  "node_rows j titles now sq [] = []"
| "node_rows j titles now sq ((i, nd) # defs) =
     new_node_row j titles now sq i nd # node_rows j titles now (Suc sq) defs"

lemma new_node_row_sel [simp]:
  "nr_id (new_node_row j titles now sq i nd) = i"
  "nr_job_id (new_node_row j titles now sq i nd) = j"
  "nr_sequence (new_node_row j titles now sq i nd) = sq"
  "nr_status (new_node_row j titles now sq i nd) = ''pending''"
  "nr_depends_on (new_node_row j titles now sq i nd) = Some (Json (resolve_deps titles nd))"
  by (simp_all add: new_node_row_def)

lemma node_rows_sel [simp]:
  "length (node_rows j titles now sq defs) = length defs"
  "map nr_id (node_rows j titles now sq defs) = map fst defs"
  "map nr_sequence (node_rows j titles now sq defs) = [sq..<sq + length defs]"
proof -
  show "length (node_rows j titles now sq defs) = length defs"
    by (induction j titles now sq defs rule: node_rows.induct) simp_all
  show "map nr_id (node_rows j titles now sq defs) = map fst defs"
    by (induction j titles now sq defs rule: node_rows.induct) simp_all
  show "map nr_sequence (node_rows j titles now sq defs) = [sq..<sq + length defs]"
    by (induction j titles now sq defs rule: node_rows.induct) (simp_all add: upt_conv_Cons del: upt_Suc)
qed

lemma node_rows_nth:
  "k < length defs \<Longrightarrow> node_rows j titles now sq defs ! k =
     new_node_row j titles now (sq + k) (fst (defs ! k)) (snd (defs ! k))"
  by (induction j titles now sq defs arbitrary: k rule: node_rows.induct) (auto simp: nth_Cons')

lemma insert_node_InrD:
  "insert_node r d = Inr d' \<Longrightarrow>
     d' = d\<lparr>db_nodes := db_nodes d @ [r]\<rparr> \<and> nr_id r \<notin> nr_id ` set (db_nodes d) \<and>
     nr_job_id r \<in> jr_id ` set (db_jobs d)"
  by (auto simp: insert_node_def split: if_splits)

lemma insert_nodes_InrD:
  assumes "insert_nodes j titles now sq defs d = Inr (ns, d')"
  shows "d' = d\<lparr>db_nodes := db_nodes d @ node_rows j titles now sq defs\<rparr> \<and>
         ns = map node_from_row (node_rows j titles now sq defs) \<and>
         distinct (map fst defs) \<and> fst ` set defs \<inter> nr_id ` set (db_nodes d) = {}"
  using assms
proof (induction j titles now sq defs d arbitrary: ns d' rule: insert_nodes.induct)
  case (1 j titles now sq d)
  then show ?case by simp
next
  case (2 j titles now sq i nd defs d)
  let ?r = "new_node_row j titles now sq i nd"
  from "2.prems" obtain d1 where d1: "insert_node ?r d = Inr d1" by (auto split: sum.splits)
  from insert_node_InrD [OF d1]
  have d1': "d1 = d\<lparr>db_nodes := db_nodes d @ [?r]\<rparr>" and new: "i \<notin> nr_id ` set (db_nodes d)" by auto
  have f: "fetchone (filter (\<lambda>r. nr_id r = i) (db_nodes d1)) = Some ?r"
    using fetchone_snoc [of nr_id ?r i "db_nodes d"] new by (simp add: d1' del: filter_append)
  from "2.prems" d1 f obtain ns2 where
    ns2: "insert_nodes j titles now (Suc sq) defs d1 = Inr (ns2, d')" "ns = node_from_row ?r # ns2"
    by (auto split: sum.splits)
  from "2.IH" [OF d1 f ns2(1)] ns2(2) new show ?case by (auto simp: d1')
qed

lemma create_nodes_InrD:
  assumes "create_nodes j defs now d = Inr (ns, d')"
  shows "d' = d\<lparr>db_nodes := db_nodes d @ node_rows j (title_to_id defs) now 1 defs\<rparr>"
    and "ns = map node_from_row (node_rows j (title_to_id defs) now 1 defs)"
    and "distinct (map fst defs)" "fst ` set defs \<inter> nr_id ` set (db_nodes d) = {}"
  using insert_nodes_InrD [OF assms [unfolded create_nodes_def]] by auto

section \<open>Well-formedness on every run\<close>

definition queue_inv :: "db \<Rightarrow> bool" where
  "queue_inv d \<longleftrightarrow> db_wf d \<and> forest (db_delegation d)"

lemma db_wf_jobs_update:
  assumes "db_wf d" "\<And>r. jr_id (f r) = jr_id r"
  shows "db_wf (d\<lparr>db_jobs := sql_update P f (db_jobs d)\<rparr>)"
proof -
  have ids: "map jr_id (sql_update P f (db_jobs d)) = map jr_id (db_jobs d)"
    by (simp add: map_sql_update assms(2))
  then have "jr_id ` set (sql_update P f (db_jobs d)) = jr_id ` set (db_jobs d)" by (metis list.set_map)
  with ids assms(1) show ?thesis by (simp add: db_wf_def)
qed

lemma db_wf_nodes_update:
  assumes "db_wf d" "\<And>r. nr_id (f r) = nr_id r \<and> nr_job_id (f r) = nr_job_id r"
  shows "db_wf (d\<lparr>db_nodes := sql_update P f (db_nodes d)\<rparr>)"
proof -
  have ids: "map nr_id (sql_update P f (db_nodes d)) = map nr_id (db_nodes d)"
    and "map nr_job_id (sql_update P f (db_nodes d)) = map nr_job_id (db_nodes d)"
    by (simp_all add: map_sql_update assms(2))
  then have "nr_job_id ` set (sql_update P f (db_nodes d)) = nr_job_id ` set (db_nodes d)"
    by (metis list.set_map)
  then have "\<forall>n \<in> set (sql_update P f (db_nodes d)). nr_job_id n \<in> nr_job_id ` set (db_nodes d)"
    by (metis image_eqI)
  with ids assms(1) show ?thesis by (auto simp: db_wf_def)
qed

lemma update_job_status_inv: "queue_inv d \<Longrightarrow> queue_inv (update_job_status j st er su now d)"
  by (simp add: queue_inv_def update_job_status_def db_wf_jobs_update)

lemma set_cancelling_inv: "queue_inv d \<Longrightarrow> queue_inv (set_cancelling now j d)"
  by (simp add: set_cancelling_def update_job_status_inv)

lemma visit_keeps:
  "(\<And>x d. I d \<Longrightarrow> I (visit x d)) \<Longrightarrow> I d \<Longrightarrow> I (snd (visit_below visit f p d))"
  "(\<And>x d. I d \<Longrightarrow> I (visit x d)) \<Longrightarrow> I d \<Longrightarrow> I (snd (visit_each visit f cs d))"
proof (induction visit f p d and visit f cs d rule: visit_below_visit_each.induct)
  case (4 visit f c cs d)
  obtain e d' where v: "visit_below visit f c (visit c d) = (e, d')" by fastforce
  with 4 have "I d'" by (metis snd_conv)
  with 4 v show ?case by (cases e) simp_all
qed simp_all

lemma cancel_job_inv: "queue_inv d \<Longrightarrow> queue_inv (snd (cancel_job f now j c d))"
  using visit_keeps(1) [of queue_inv "set_cancelling now"]
  by (simp add: cancel_job_def cascade_cancel_def Let_def set_cancelling_inv)

lemma insert_same_delegation:
  "insert_job jr d = Inr d' \<Longrightarrow> db_delegation d' = db_delegation d"
  "insert_node nr d = Inr d' \<Longrightarrow> db_delegation d' = db_delegation d"
  "insert_file fr d = Inr d' \<Longrightarrow> db_delegation d' = db_delegation d"
  "insert_audit ar d = Inr d' \<Longrightarrow> db_delegation d' = db_delegation d"
  "insert_template tr d = Inr d' \<Longrightarrow> db_delegation d' = db_delegation d"
  by (auto simp: insert_job_def insert_node_def insert_file_def insert_audit_def
      insert_template_def split: if_splits)

lemma insert_queue_inv:
  assumes "queue_inv d"
  shows "insert_job jr d = Inr d' \<Longrightarrow> queue_inv d'"
    and "insert_node nr d = Inr d' \<Longrightarrow> queue_inv d'"
    and "insert_file fr d = Inr d' \<Longrightarrow> queue_inv d'"
    and "insert_audit ar d = Inr d' \<Longrightarrow> queue_inv d'"
    and "insert_template tr d = Inr d' \<Longrightarrow> queue_inv d'"
proof -
  from assms have wf: "db_wf d" and f: "forest (db_delegation d)" by (simp_all add: queue_inv_def)
  note same = insert_same_delegation and ins = insert_wf [OF wf]
  show "insert_job jr d = Inr d' \<Longrightarrow> queue_inv d'" using ins(1) same(1) f by (metis queue_inv_def)
  show "insert_node nr d = Inr d' \<Longrightarrow> queue_inv d'" using ins(2) same(2) f by (metis queue_inv_def)
  show "insert_file fr d = Inr d' \<Longrightarrow> queue_inv d'" using ins(3) same(3) f by (metis queue_inv_def)
  show "insert_audit ar d = Inr d' \<Longrightarrow> queue_inv d'" using ins(4) same(4) f by (metis queue_inv_def)
  show "insert_template tr d = Inr d' \<Longrightarrow> queue_inv d'" using ins(5) same(5) f by (metis queue_inv_def)
qed

lemma delete_job_cases:
  assumes "delete_job j d = Inr (b, d')"
  shows "if b then d' = d\<lparr>db_audit := sql_delete (\<lambda>a. ar_job_id a = Some j) (db_audit d),
                 db_files := sql_delete (\<lambda>f. fr_job_id f = j) (db_files d),
                 db_nodes := sql_delete (\<lambda>n. nr_job_id n = j) (db_nodes d),
                 db_delegation := sql_delete (\<lambda>g. dg_parent_job_id g = j \<or> dg_child_job_id g = j)
                                    (db_delegation d),
                 db_jobs := sql_delete (\<lambda>r. jr_id r = j) (db_jobs d)\<rparr>
          else d' = d \<and> j \<notin> jr_id ` set (db_jobs d)"
  using assms by (auto simp: delete_job_def delete_job_row_def find_job_def filter_empty_conv
      split: if_splits sum.splits)

lemma delete_job_never_raises: "is_ok (delete_job j d)"
  by (simp add: delete_job_def delete_job_row_def)

lemma delete_job_inv: "queue_inv d \<Longrightarrow> delete_job j d = Inr (b, d') \<Longrightarrow> queue_inv d'"
  by (drule delete_job_cases) (auto simp: queue_inv_def db_wf_def forest_sql_delete split: if_splits)

lemma create_job_inv:
  "queue_inv d \<Longrightarrow> create_job ws title descr src requester mode template prio ref p tree j now d = Inr (job, d') \<Longrightarrow>
     queue_inv d'"
  by (auto dest!: create_job_InrD intro: insert_queue_inv)

lemma insert_nodes_inv:
  "queue_inv d \<Longrightarrow> insert_nodes j titles now sq defs d = Inr (ns, d') \<Longrightarrow> queue_inv d'"
  by (induction j titles now sq defs d arbitrary: ns d' rule: insert_nodes.induct)
    (auto split: sum.splits option.splits dest: insert_queue_inv)

lemma create_nodes_inv: "queue_inv d \<Longrightarrow> create_nodes j defs now d = Inr (ns, d') \<Longrightarrow> queue_inv d'"
  unfolding create_nodes_def by (rule insert_nodes_inv)

lemma add_file_inv: "queue_inv d \<Longrightarrow> add_file j n p t m s nd i d = Inr (r, d') \<Longrightarrow> queue_inv d'"
  by (auto simp: add_file_def split: sum.splits option.splits dest: insert_queue_inv)

lemma add_files_inv: "queue_inv d \<Longrightarrow> queue_inv (snd (add_files j fs d))"
proof (induction j fs d rule: add_files.induct)
  case (2 j i f fs d)
  then show ?case by (auto split: option.split sum.split dest: add_file_inv)
qed simp

lemma add_audit_inv: "queue_inv d \<Longrightarrow> add_audit j a dt ac n i now d = Inr d' \<Longrightarrow> queue_inv d'"
  by (auto simp: add_audit_def dest: insert_queue_inv)

lemma save_as_template_inv: "queue_inv d \<Longrightarrow> save_as_template j n w c t now d = Inr (r, d') \<Longrightarrow> queue_inv d'"
  by (auto simp: save_as_template_def split: sum.splits option.splits dest: insert_queue_inv)

lemma increment_template_use_inv: "queue_inv d \<Longrightarrow> queue_inv (increment_template_use t now d)"
  by (simp add: queue_inv_def increment_template_use_def db_wf_def map_sql_update)

text \<open>The four stages of \<open>create_job_from_template\<close>.\<close>

lemma template_nodes_inv:
  assumes "queue_inv d1"
    and "(if ns = [] then Inr ([], d1) else create_nodes j (zip ids ns) now d1) = Inr (created, d2)"
  shows "queue_inv d2"
  using assms by (auto split: if_splits intro: create_nodes_inv)

lemma template_audit_inv:
  assumes "queue_inv d4"
  shows "queue_inv (snd (case add_audit j a dt ac n i now d4 of Inl e \<Rightarrow> (Inl e, d4) | Inr d5 \<Rightarrow> (Inr job, d5)))"
  using assms by (auto split: sum.split intro: add_audit_inv)

lemma template_rest_inv:
  assumes "queue_inv d2"
  shows "queue_inv (snd (case add_files j fs d2 of
     (Some e, d3) \<Rightarrow> (Inl e, d3)
   | (None, d3) \<Rightarrow>
       (let d4 = increment_template_use t now d3
        in case add_audit j a dt ac n i now d4 of Inl e \<Rightarrow> (Inl e, d4) | Inr d5 \<Rightarrow> (Inr job, d5))))"
proof -
  obtain e d3 where e: "add_files j fs d2 = (e, d3)" by fastforce
  with add_files_inv [OF assms, of j fs] have "queue_inv d3" by simp
  then show ?thesis
    by (cases e) (simp_all only: e prod.case option.case Let_def snd_conv template_audit_inv
        increment_template_use_inv)
qed

lemma create_job_from_template_inv:
  assumes "queue_inv d"
  shows "queue_inv (snd (create_job_from_template t ws req fs j nid aid now d))"
proof (cases "get_template d t")
  case None
  with assms show ?thesis by (simp add: create_job_from_template_def)
next
  case (Some tmpl)
  note T = Some
  let ?c = "create_job ws (te_name tmpl) (te_description tmpl) ''template'' req ''pipeline'' (Some t) 0
    None None None j now d"
  let ?n = "\<lambda>d1. if te_nodes tmpl = [] then Inr ([], d1)
    else create_nodes j (zip (map nid [0..<length (te_nodes tmpl)]) (te_nodes tmpl)) now d1"
  show ?thesis
  proof (cases ?c)
    case (Inl e)
    with assms T show ?thesis by (simp add: create_job_from_template_def)
  next
    case (Inr p)
    then obtain job d1 where c: "?c = Inr (job, d1)" by (cases p) simp
    with assms have d1: "queue_inv d1" by (blast intro: create_job_inv)
    show ?thesis
    proof (cases "?n d1")
      case (Inl e)
      with d1 T c show ?thesis by (simp add: create_job_from_template_def)
    next
      case (Inr q)
      then obtain ns d2 where n: "?n d1 = Inr (ns, d2)" by (cases q) simp
      with d1 have "queue_inv d2" by (rule template_nodes_inv)
      then show ?thesis
        by (simp only: create_job_from_template_def T c n option.case sum.case prod.case template_rest_inv)
    qed
  qed
qed

datatype queue_command =
    Q_create ident string "string option" string "ident option" string "ident option" int
      "string option" "ident option" "ident option" ident timestamp
  | Q_status ident string "string option" "string option" timestamp
  | Q_cancel nat timestamp ident bool
  | Q_delete ident
  | Q_cost ident real timestamp
  | Q_review ident timestamp
  | Q_nodes ident "(ident \<times> node_def) list" timestamp
  | Q_node ident "string option" "string option" "string option" "string option" timestamp
  | Q_file ident string string string "string option" "int option" "ident option" ident
  | Q_audit ident string "string option" "string option" "ident option" ident timestamp
  | Q_template ident string ident "ident option" ident timestamp
  | Q_instantiate ident ident "ident option" "(ident \<times> file_spec) list" ident "nat \<Rightarrow> ident" ident timestamp

definition kept :: "db \<Rightarrow> ('a \<times> db) result \<Rightarrow> db" where
  "kept d r = (case r of Inl _ \<Rightarrow> d | Inr (_, d') \<Rightarrow> d')"

fun queue_step :: "queue_command \<Rightarrow> db \<Rightarrow> db" where
  "queue_step (Q_create ws title descr src requester mode template prio ref p tree j now) d =
     kept d (create_job ws title descr src requester mode template prio ref p tree j now d)"
| "queue_step (Q_status j st er su now) d = update_job_status j st er su now d"
| "queue_step (Q_cancel f now j c) d = snd (cancel_job f now j c d)"
| "queue_step (Q_delete j) d = kept d (delete_job j d)"
| "queue_step (Q_cost j c now) d = track_cost j c now d"
| "queue_step (Q_review j now) d = snd (increment_review_count j now d)"
| "queue_step (Q_nodes j defs now) d = kept d (create_nodes j defs now d)"
| "queue_step (Q_node i st inp out er now) d = update_node i st inp out er now d"
| "queue_step (Q_file j n p t m s nd i) d = kept d (add_file j n p t m s nd i d)"
| "queue_step (Q_audit j a dt ac n i now) d =
     (case add_audit j a dt ac n i now d of Inl _ \<Rightarrow> d | Inr d' \<Rightarrow> d')"
| "queue_step (Q_template j n ws c t now) d = kept d (save_as_template j n ws c t now d)"
| "queue_step (Q_instantiate t ws req fs j nid aid now) d =
     snd (create_job_from_template t ws req fs j nid aid now d)"

lemma kept_inv: "(\<And>x d'. r = Inr (x, d') \<Longrightarrow> I d') \<Longrightarrow> I d \<Longrightarrow> I (kept d r)"
  by (auto simp: kept_def split: sum.splits prod.splits)

lemma small_updates_inv:
  assumes "queue_inv d"
  shows "queue_inv (track_cost j c now d)" "queue_inv (snd (increment_review_count j now d))"
    and "queue_inv (update_node i st inp out er now d)"
  using assms
  by (simp_all add: queue_inv_def track_cost_def increment_review_count_def update_node_def Let_def
      db_wf_jobs_update db_wf_nodes_update)

lemma kept_queue_inv:
  assumes "queue_inv d"
  shows "queue_inv (kept d (create_job ws title descr src requester mode template prio ref p tree j now d))"
    and "queue_inv (kept d (delete_job j d))" "queue_inv (kept d (create_nodes j defs now d))"
    and "queue_inv (kept d (add_file j n pa t m s nd i d))"
    and "queue_inv (kept d (save_as_template j n ws c t now d))"
  by (rule kept_inv [where I = queue_inv, OF _ assms],
      erule create_job_inv [OF assms] delete_job_inv [OF assms] create_nodes_inv [OF assms]
        add_file_inv [OF assms] save_as_template_inv [OF assms])+

lemma add_audit_step_inv:
  "queue_inv d \<Longrightarrow> queue_inv (case add_audit j a dt ac n i now d of Inl _ \<Rightarrow> d | Inr d' \<Rightarrow> d')"
  by (auto split: sum.split intro: add_audit_inv)

lemma queue_step_inv: "queue_inv d \<Longrightarrow> queue_inv (queue_step c d)"
  by (cases c) (simp_all only: queue_step.simps kept_queue_inv small_updates_inv
      update_job_status_inv cancel_job_inv create_job_from_template_inv add_audit_step_inv)

interpretation queue_machine: store_machine queue_step queue_inv
  by unfold_locales (rule queue_step_inv)

lemma queue_inv_empty [simp]: "queue_inv (empty_db wss us)"
  by (simp add: queue_inv_def db_wf_def empty_db_def)

section \<open>Cascading cancellation\<close>

interpretation cascade_visit: subtree_visit "set_cancelling now" for now
  by unfold_locales (simp add: set_cancelling_def update_job_status_def)

lemma fold_set_cancelling:
  "fold (set_cancelling now) ids d =
     d\<lparr>db_jobs := map (\<lambda>r. if jr_id r \<in> set ids
         then r\<lparr>jr_status := ''cancelling'', jr_error := None, jr_result_summary := None,
                 jr_updated_at := Some now\<rparr> else r) (db_jobs d)\<rparr>"
proof (induction ids arbitrary: d)
  case Nil
  then show ?case by simp
next
  case (Cons i ids)
  have "set_cancelling now i d =
      d\<lparr>db_jobs := map (\<lambda>r. if jr_id r = i
         then r\<lparr>jr_status := ''cancelling'', jr_error := None, jr_result_summary := None,
                 jr_updated_at := Some now\<rparr> else r) (db_jobs d)\<rparr>"
    by (simp add: set_cancelling_def update_job_status_def sql_update_def)
  then show ?case by (auto simp: Cons.IH comp_def)
qed

lemma cancel_job_cascade_effect:
  assumes "subtree_ids f (db_delegation d) j = Some xs"
  shows "cancel_job f now j True d = (None, fold (set_cancelling now) xs d)"
proof -
  from assms have xs: "xs = j # tl xs" by (cases f) (auto simp: Let_def split: if_splits)
  have "db_delegation (set_cancelling now j d) = db_delegation d"
    by (simp add: set_cancelling_def update_job_status_def)
  with cascade_visit.visit_below_fold [of f "set_cancelling now j d" j xs now] assms
  have "cancel_job f now j True d = (None, fold (set_cancelling now) (tl xs) (set_cancelling now j d))"
    by (simp add: cancel_job_def cascade_cancel_def)
  also have "fold (set_cancelling now) (tl xs) (set_cancelling now j d) = fold (set_cancelling now) xs d"
    by (metis fold_simps(2) xs)
  finally show ?thesis .
qed

section \<open>The recursive query\<close>

definition sub_of :: "delegation_row list \<Rightarrow> nat \<Rightarrow> ident \<Rightarrow> ident list" where
  "sub_of rows f j = the (subtree_ids f rows j)"

lemma subtree_ids_mono: "subtree_ids f rows j = Some xs \<Longrightarrow> subtree_ids (Suc f) rows j = Some xs"
proof (induction f arbitrary: j xs)
  case 0
  then show ?case by simp
next
  case (Suc f)
  from subtree_ids_step(1) [OF Suc.prems]
  have "\<forall>c \<in> set (children_ids rows j). subtree_ids (Suc f) rows c = subtree_ids f rows c"
    using Suc.IH by fastforce
  then have "map (subtree_ids (Suc f) rows) (children_ids rows j) =
      map (subtree_ids f rows) (children_ids rows j)" by simp
  with Suc.prems show ?case by (simp only: subtree_ids.simps Let_def)
qed

text \<open>
  When the subtree of every queued id is finite, the query returns within as many rounds as there
  are ids below the queue, and its result is these ids.
\<close>

lemma tree_query_result:
  assumes "\<And>x. x \<in> set queue \<Longrightarrow> subtree_ids F rows x = Some (sub_of rows F x)"
    and "length (concat (map (sub_of rows F) queue)) \<le> f"
  shows "\<exists>ids. tree_query f rows queue = Some ids \<and>
           mset ids = mset (concat (map (sub_of rows F) queue))"
  using assms
proof (induction f rows queue rule: tree_query.induct)
  case (1 f rows)
  then show ?case by simp
next
  case (2 rows x queue)
  then have "sub_of rows F x = []" "subtree_ids F rows x = Some (sub_of rows F x)" by auto
  then show ?case by (cases F) (auto simp: Let_def split: if_splits)
next
  case (3 f rows x queue)
  from "3.prems"(1) have sx: "subtree_ids F rows x = Some (sub_of rows F x)" by simp
  then obtain F' where F: "F = Suc F'" by (cases F) auto
  let ?cs = "children_ids rows x"
  from sx [unfolded F] have each: "\<forall>c \<in> set ?cs. \<exists>ys. subtree_ids F' rows c = Some ys"
    by (rule subtree_ids_step)
  then have sub: "\<forall>c \<in> set ?cs. subtree_ids F rows c = Some (sub_of rows F' c) \<and>
      sub_of rows F c = sub_of rows F' c"
    using subtree_ids_mono by (fastforce simp: F sub_of_def)
  have "sub_of rows F x = x # concat (map (\<lambda>c. sub_of rows F' c) ?cs)"
    using sx each by (auto simp: F Let_def sub_of_def comp_def split: if_splits)
  also have "map (\<lambda>c. sub_of rows F' c) ?cs = map (sub_of rows F) ?cs" using sub by simp
  finally have sub_x: "sub_of rows F x = x # concat (map (sub_of rows F) ?cs)" .
  have "\<exists>ids. tree_query f rows (queue @ ?cs) = Some ids \<and>
      mset ids = mset (concat (map (sub_of rows F) (queue @ ?cs)))"
  proof (rule "3.IH")
    show "\<And>y. y \<in> set (queue @ ?cs) \<Longrightarrow> subtree_ids F rows y = Some (sub_of rows F y)"
      using "3.prems"(1) sub by auto
    show "length (concat (map (sub_of rows F) (queue @ ?cs))) \<le> f"
      using "3.prems"(2) sub_x by (simp add: length_concat)
  qed
  then show ?case using sub_x by auto
qed

lemma set_jobs_of_ids: "set (jobs_of_ids d ids) = {r \<in> set (db_jobs d). jr_id r \<in> set ids}"
  by (auto simp: jobs_of_ids_def)

section \<open>The next node to run\<close>

lemma set_job_nodes: "set (job_nodes d j) = {r \<in> set (db_nodes d). nr_job_id r = j}"
  by (auto simp: job_nodes_def)

lemma status_by_id_Some:
  assumes "db_wf d"
  shows "status_by_id (job_nodes d j) i = Some s \<longleftrightarrow>
    (\<exists>r \<in> set (db_nodes d). nr_job_id r = j \<and> nr_id r = i \<and> nr_status r = s)"
proof -
  have "distinct (map nr_id (job_nodes d j))"
  proof -
    from assms have "distinct (map nr_id (filter (\<lambda>r. nr_job_id r = j) (db_nodes d)))"
      by (simp add: db_wf_def distinct_map_filter)
    then show ?thesis
      by (metis job_nodes_def mset_map mset_order_by mset_eq_imp_distinct_iff)
  qed
  then have "map_of (rev (map (\<lambda>r. (nr_id r, nr_status r)) (job_nodes d j))) i = Some s \<longleftrightarrow>
      (i, s) \<in> set (map (\<lambda>r. (nr_id r, nr_status r)) (job_nodes d j))"
    by (subst map_of_eq_Some_iff) (simp_all add: rev_map comp_def flip: rev_map)
  then show ?thesis by (auto simp: status_by_id_def set_job_nodes)
qed

text \<open>A pending node of the job all of whose dependencies are completed nodes of the job.\<close>

definition eligible :: "db \<Rightarrow> ident \<Rightarrow> node_row \<Rightarrow> bool" where
  "eligible d j r \<longleftrightarrow>
     r \<in> set (db_nodes d) \<and> nr_job_id r = j \<and> nr_status r = ''pending'' \<and>
     (\<forall>dep \<in> set (parse_json_field (nr_depends_on r) []).
        \<exists>q \<in> set (db_nodes d). nr_id q = dep \<and> nr_job_id q = j \<and> nr_status q = ''completed'')"

lemma node_ready_eligible:
  assumes "db_wf d" "r \<in> set (job_nodes d j)"
  shows "node_ready (status_by_id (job_nodes d j)) r \<longleftrightarrow> eligible d j r"
proof -
  have "dependency_met (status_by_id (job_nodes d j)) dep \<longleftrightarrow>
      (\<exists>q \<in> set (db_nodes d). nr_id q = dep \<and> nr_job_id q = j \<and> nr_status q = ''completed'')" for dep
    unfolding dependency_met_def status_by_id_Some [OF assms(1)] by auto
  with assms(2) show ?thesis
    by (auto simp: node_ready_def eligible_def Let_def list_all_iff set_job_nodes)
qed

lemma find_sorted:
  assumes "sorted (map k xs)" "find P xs = Some x" "y \<in> set xs" "P y"
  shows "k x \<le> (k y :: 'a :: linorder)"
  using assms by (induction xs) (auto split: if_splits)

lemma get_next_pending_node_Some:
  assumes "db_wf d" "get_next_pending_node d j = Some n"
  shows "\<exists>r. n = node_from_row r \<and> eligible d j r \<and>
           (\<forall>q. eligible d j q \<longrightarrow> nr_sequence r \<le> nr_sequence q)"
proof -
  from assms(2) obtain r where r: "find (node_ready (status_by_id (job_nodes d j))) (job_nodes d j) = Some r"
    and n: "n = node_from_row r" by (auto simp: get_next_pending_node_def Let_def)
  from r have "r \<in> set (job_nodes d j)" "node_ready (status_by_id (job_nodes d j)) r"
    by (auto simp: find_Some_iff)
  then have "eligible d j r" using node_ready_eligible [OF assms(1)] by blast
  moreover have "nr_sequence r \<le> nr_sequence q" if "eligible d j q" for q
  proof -
    from that have q: "q \<in> set (job_nodes d j)" by (auto simp: set_job_nodes eligible_def)
    show ?thesis
      by (rule find_sorted [OF _ r q]) (use that node_ready_eligible [OF assms(1) q] in
        \<open>simp_all add: job_nodes_def sorted_order_by\<close>)
  qed
  ultimately show ?thesis using n by blast
qed

lemma get_next_pending_node_None:
  assumes "db_wf d"
  shows "get_next_pending_node d j = None \<longleftrightarrow> (\<forall>r. \<not> eligible d j r)"
proof -
  have "get_next_pending_node d j = None \<longleftrightarrow>
      (\<forall>r \<in> set (job_nodes d j). \<not> node_ready (status_by_id (job_nodes d j)) r)"
    by (auto simp: get_next_pending_node_def Let_def find_None_iff)
  also have "\<dots> \<longleftrightarrow> (\<forall>r \<in> set (job_nodes d j). \<not> eligible d j r)"
    using node_ready_eligible [OF assms] by blast
  also have "\<dots> \<longleftrightarrow> (\<forall>r. \<not> eligible d j r)" by (auto simp: set_job_nodes eligible_def)
  finally show ?thesis .
qed

section \<open>A pipeline runs to its end\<close>

text \<open>
  Repeatedly asking for the next node and completing it, as the worker does when every node
  succeeds; the result is the ids in the order they were run.
\<close>

fun run_pipeline :: "nat \<Rightarrow> ident \<Rightarrow> timestamp \<Rightarrow> db \<Rightarrow> ident list \<times> db" where
  "run_pipeline 0 j now d = ([], d)"
| "run_pipeline (Suc n) j now d =
     (case get_next_pending_node d j of
        None \<Rightarrow> ([], d)
      | Some nd \<Rightarrow>
          (let (ids, d') = run_pipeline n j now
                 (update_node (no_id nd) (Some (node_status_value NODE_COMPLETED)) None None None now d)
           in (no_id nd # ids, d')))"

text \<open>Every dependency of a definition is the title of an earlier one; titles are distinct.\<close>

definition ordered_defs :: "(ident \<times> node_def) list \<Rightarrow> bool" where
  "ordered_defs defs \<longleftrightarrow>
     distinct (map (\<lambda>(i, nd). node_def_title nd) defs) \<and>
     (\<forall>k < length defs. node_def_title (snd (defs ! k)) \<noteq> [] \<and>
        (\<forall>dep \<in> set (declared_deps (snd (defs ! k))). \<exists>i < k. node_def_title (snd (defs ! i)) = dep))"

text \<open>The state after \<open>k\<close> completions: the first \<open>k\<close> nodes completed, the others pending.\<close>

definition pipeline_at :: "ident \<Rightarrow> (ident \<times> node_def) list \<Rightarrow> nat \<Rightarrow> db \<Rightarrow> bool" where
  "pipeline_at j defs k d \<longleftrightarrow>
     db_wf d \<and>
     (\<forall>r \<in> set (db_nodes d). nr_job_id r = j \<longrightarrow> (\<exists>i < length defs.
        nr_id r = fst (defs ! i) \<and> nr_sequence r = Suc i \<and>
        nr_depends_on r = Some (Json (resolve_deps (title_to_id defs) (snd (defs ! i)))) \<and>
        nr_status r = (if i < k then ''completed'' else ''pending''))) \<and>
     (\<forall>i < length defs. \<exists>r \<in> set (db_nodes d). nr_job_id r = j \<and> nr_id r = fst (defs ! i))"

lemma title_to_id_ordered:
  assumes "ordered_defs defs" "i < length defs"
  shows "title_to_id defs (node_def_title (snd (defs ! i))) = Some (fst (defs ! i))"
proof -
  let ?f = "\<lambda>(i, nd). (node_def_title nd, i)"
  have all: "filter (\<lambda>(i, nd). node_def_title nd \<noteq> []) defs = defs"
  proof (rule filter_True, rule ballI)
    fix x assume "x \<in> set defs"
    then obtain k where "k < length defs" "x = defs ! k" by (auto simp: in_set_conv_nth)
    with assms(1) show "case x of (i, nd) \<Rightarrow> node_def_title nd \<noteq> []"
      by (auto simp: ordered_defs_def split: prod.split)
  qed
  have keys: "map fst (map ?f defs) = map (\<lambda>(i, nd). node_def_title nd) defs" by auto
  have "(node_def_title (snd (defs ! i)), fst (defs ! i)) = ?f (defs ! i)" by (simp add: case_prod_beta)
  then have "(node_def_title (snd (defs ! i)), fst (defs ! i)) \<in> set (map ?f defs)"
    using assms(2) by (metis length_map nth_map nth_mem)
  moreover have "distinct (map fst (rev (map ?f defs)))"
    using assms(1) keys by (simp add: ordered_defs_def rev_map [symmetric] del: map_map)
  ultimately show ?thesis unfolding title_to_id_def all by simp
qed

lemma resolve_deps_ordered:
  assumes "ordered_defs defs" "k < length defs"
    and "x \<in> set (resolve_deps (title_to_id defs) (snd (defs ! k)))"
  shows "\<exists>i < k. x = fst (defs ! i)"
proof -
  from assms(3) obtain dep where dep: "dep \<in> set (declared_deps (snd (defs ! k)))"
    "x = (case title_to_id defs dep of None \<Rightarrow> dep | Some i \<Rightarrow> i)"
    by (auto simp: resolve_deps_def)
  from assms(1,2) dep(1) obtain i where "i < k" "node_def_title (snd (defs ! i)) = dep"
    unfolding ordered_defs_def by blast
  with title_to_id_ordered [OF assms(1), of i] assms(2) dep(2) show ?thesis by auto
qed

lemma pipeline_at_next:
  assumes P: "pipeline_at j defs k d" and o: "ordered_defs defs" and k: "k < length defs"
    and ids: "distinct (map fst defs)"
  shows "\<exists>nd. get_next_pending_node d j = Some nd \<and> no_id nd = fst (defs ! k)"
proof -
  from P have wf: "db_wf d"
    and shape: "\<And>r. r \<in> set (db_nodes d) \<Longrightarrow> nr_job_id r = j \<Longrightarrow> \<exists>i < length defs.
        nr_id r = fst (defs ! i) \<and> nr_sequence r = Suc i \<and>
        nr_depends_on r = Some (Json (resolve_deps (title_to_id defs) (snd (defs ! i)))) \<and>
        nr_status r = (if i < k then ''completed'' else ''pending'')"
    and present: "\<And>i. i < length defs \<Longrightarrow>
        \<exists>r \<in> set (db_nodes d). nr_job_id r = j \<and> nr_id r = fst (defs ! i)"
    unfolding pipeline_at_def by blast+
  have inj: "i = i'" if "i < length defs" "i' < length defs" "fst (defs ! i) = fst (defs ! i')" for i i'
    using that ids by (metis length_map nth_eq_iff_index_eq nth_map)
  have row: "\<exists>r \<in> set (db_nodes d). nr_job_id r = j \<and> nr_id r = fst (defs ! i) \<and> nr_sequence r = Suc i \<and>
      nr_depends_on r = Some (Json (resolve_deps (title_to_id defs) (snd (defs ! i)))) \<and>
      nr_status r = (if i < k then ''completed'' else ''pending'')" if i: "i < length defs" for i
  proof -
    from present [OF i] obtain r where r: "r \<in> set (db_nodes d)" "nr_job_id r = j"
      "nr_id r = fst (defs ! i)" by blast
    from shape [OF r(1,2)] r(3) i inj show ?thesis using r by metis
  qed
  from row [OF k] obtain r where r: "r \<in> set (db_nodes d)" "nr_job_id r = j" "nr_id r = fst (defs ! k)"
    "nr_sequence r = Suc k" "nr_status r = ''pending''"
    "nr_depends_on r = Some (Json (resolve_deps (title_to_id defs) (snd (defs ! k))))" by auto
  have "\<exists>q \<in> set (db_nodes d). nr_id q = dep \<and> nr_job_id q = j \<and> nr_status q = ''completed''"
    if "dep \<in> set (resolve_deps (title_to_id defs) (snd (defs ! k)))" for dep
  proof -
    from resolve_deps_ordered [OF o k that] obtain i where "i < k" "dep = fst (defs ! i)" by blast
    with row [of i] k show ?thesis by auto
  qed
  with r have e: "eligible d j r" by (simp add: eligible_def)
  with get_next_pending_node_None [OF wf, of j] obtain nd where nd: "get_next_pending_node d j = Some nd"
    by fastforce
  from get_next_pending_node_Some [OF wf this] obtain q where q: "nd = node_from_row q" "eligible d j q"
    "nr_sequence q \<le> nr_sequence r" using e by blast
  from q(2) shape [of q] obtain i where "i < length defs" "nr_id q = fst (defs ! i)"
    "nr_sequence q = Suc i" "nr_status q = (if i < k then ''completed'' else ''pending'')"
    unfolding eligible_def by blast
  with q r(4) have "i = k" by (auto simp: eligible_def split: if_splits)
  with nd q(1) \<open>nr_id q = fst (defs ! i)\<close> show ?thesis by simp
qed

lemma pipeline_at_step:
  assumes P: "pipeline_at j defs k d" and k: "k < length defs" and ids: "distinct (map fst defs)"
  shows "pipeline_at j defs (Suc k)
           (update_node (fst (defs ! k)) (Some ''completed'') None None None now d)"
proof -
  let ?f = "\<lambda>r. r\<lparr>nr_updated_at := now, nr_status := ''completed''\<rparr>"
  have nodes: "db_nodes (update_node (fst (defs ! k)) (Some ''completed'') None None None now d) =
      sql_update (\<lambda>r. nr_id r = fst (defs ! k)) ?f (db_nodes d)"
    by (simp add: update_node_def sql_update_def Let_def)
  have wf: "db_wf (update_node (fst (defs ! k)) (Some ''completed'') None None None now d)"
    using P by (simp add: pipeline_at_def update_node_def Let_def db_wf_nodes_update)
  have inj: "i = i'" if "i < length defs" "i' < length defs" "fst (defs ! i) = fst (defs ! i')" for i i'
    using that ids by (metis length_map nth_eq_iff_index_eq nth_map)
  have "\<exists>i < length defs. nr_id r = fst (defs ! i) \<and> nr_sequence r = Suc i \<and>
        nr_depends_on r = Some (Json (resolve_deps (title_to_id defs) (snd (defs ! i)))) \<and>
        nr_status r = (if i < Suc k then ''completed'' else ''pending'')"
    if r: "r \<in> set (sql_update (\<lambda>r. nr_id r = fst (defs ! k)) ?f (db_nodes d))" "nr_job_id r = j" for r
  proof -
    from r(1) obtain q where q: "q \<in> set (db_nodes d)" "r = (if nr_id q = fst (defs ! k) then ?f q else q)"
      by (auto simp: in_sql_update)
    with r(2) have "nr_job_id q = j" by (auto split: if_splits)
    with P q(1) obtain i where i: "i < length defs" "nr_id q = fst (defs ! i)" "nr_sequence q = Suc i"
      "nr_depends_on q = Some (Json (resolve_deps (title_to_id defs) (snd (defs ! i))))"
      "nr_status q = (if i < k then ''completed'' else ''pending'')"
      unfolding pipeline_at_def by blast
    show ?thesis
    proof (cases "i = k")
      case True
      with i q(2) show ?thesis by auto
    next
      case False
      with inj [of i k] i k have "nr_id q \<noteq> fst (defs ! k)" by auto
      with i q(2) False show ?thesis by auto
    qed
  qed
  moreover have "\<exists>r \<in> set (sql_update (\<lambda>r. nr_id r = fst (defs ! k)) ?f (db_nodes d)).
      nr_job_id r = j \<and> nr_id r = fst (defs ! i)" if i: "i < length defs" for i
  proof -
    from P i obtain q where q: "q \<in> set (db_nodes d)" "nr_job_id q = j" "nr_id q = fst (defs ! i)"
      unfolding pipeline_at_def by blast
    have "(if nr_id q = fst (defs ! k) then ?f q else q) \<in>
        set (sql_update (\<lambda>r. nr_id r = fst (defs ! k)) ?f (db_nodes d))"
      unfolding in_sql_update using q(1) by blast
    then show ?thesis
      by (rule rev_bexI) (use q in auto)
  qed
  ultimately show ?thesis unfolding pipeline_at_def nodes using wf by blast
qed

lemma run_pipeline_from:
  assumes "pipeline_at j defs k d" "ordered_defs defs" "distinct (map fst defs)" "k + n = length defs"
  shows "\<exists>d'. run_pipeline n j now d = (map fst (drop k defs), d') \<and> pipeline_at j defs (length defs) d'"
  using assms(1,4)
proof (induction n arbitrary: k d)
  case 0
  then show ?case by simp
next
  case (Suc n)
  then have k: "k < length defs" by simp
  from pipeline_at_next [OF Suc.prems(1) assms(2) k assms(3)] obtain nd where
    nd: "get_next_pending_node d j = Some nd" "no_id nd = fst (defs ! k)" by blast
  from Suc.IH [OF pipeline_at_step [OF Suc.prems(1) k assms(3)]] Suc.prems(2) obtain d' where
    "run_pipeline n j now (update_node (fst (defs ! k)) (Some ''completed'') None None None now d) =
       (map fst (drop (Suc k) defs), d')" "pipeline_at j defs (length defs) d'" by fastforce
  with nd k show ?case by (auto simp: Cons_nth_drop_Suc [symmetric])
qed

lemma create_nodes_pipeline:
  assumes "db_wf d" "create_nodes j defs now d = Inr (ns, d')"
    and "\<forall>r \<in> set (db_nodes d). nr_job_id r \<noteq> j"
  shows "pipeline_at j defs 0 d'"
proof -
  let ?rows = "node_rows j (title_to_id defs) now 1 defs"
  note C = create_nodes_InrD [OF assms(2)]
  have "db_wf d'"
  proof -
    have "db_wf d'" if "insert_nodes j ts now sq defs d = Inr (ns, d')" "db_wf d" for ts sq defs d ns d'
      using that by (induction j ts now sq defs d arbitrary: ns d' rule: insert_nodes.induct)
        (auto split: sum.splits option.splits dest: insert_wf(2))
    with assms(1,2) show ?thesis by (simp add: create_nodes_def)
  qed
  moreover have "\<exists>i < length defs. r = ?rows ! i" if "r \<in> set (db_nodes d')" "nr_job_id r = j" for r
  proof -
    from that C(1) assms(3) have "r \<in> set ?rows" by auto
    then show ?thesis by (auto simp: in_set_conv_nth)
  qed
  moreover have "?rows ! i \<in> set (db_nodes d')" if "i < length defs" for i
    using that C(1) by simp
  ultimately show ?thesis unfolding pipeline_at_def
    by (metis add.commute new_node_row_sel not_less_zero node_rows_nth plus_1_eq_Suc)
qed

section \<open>Templates lose dependencies\<close>

text \<open>A node with a dependency that is no node of its job is never eligible.\<close>

lemma dangling_not_eligible:
  assumes "dep \<in> set (parse_json_field (nr_depends_on r) [])" "\<forall>q \<in> set (db_nodes d). nr_id q \<noteq> dep \<or> nr_job_id q \<noteq> j"
  shows "\<not> eligible d j r"
  using assms by (auto simp: eligible_def)

section \<open>Properties\<close>

definition plain_def :: "string \<Rightarrow> string list \<Rightarrow> node_def" where
  "plain_def t deps = \<lparr>nd_title = Some t, nd_instructions = None, nd_tools_allowed = None,
     nd_expected_output = None, nd_input_schema_json = None, nd_output_schema_json = None,
     nd_depends_on = Some (As_list deps), nd_timeout_sec = None, nd_retry_policy_json = None\<rparr>"

definition one_job_db :: db where
  "one_job_db = (empty_db [''w''] [])\<lparr>db_jobs := [plain_job ''j'' ''pending'']\<rparr>"

lemma one_job_inv: "queue_inv one_job_db"
  by (simp add: queue_inv_def db_wf_def one_job_db_def empty_db_def)

text \<open>C14. \<^verbatim>\<open>get_next_pending_node\<close> is sound and complete: it returns an eligible node of the lowest
  sequence number (pending, every dependency a completed node of the same job), and nothing only
  when the job has no eligible node.\<close>

theorem next_pending_node_correct:
  assumes "db_wf d"
  shows "case get_next_pending_node d j of
      None \<Rightarrow> \<not> (\<exists>r. eligible d j r)
    | Some n \<Rightarrow> \<exists>r. n = node_from_row r \<and> eligible d j r \<and> (\<forall>q. eligible d j q \<longrightarrow> nr_sequence r \<le> nr_sequence q)"
  using get_next_pending_node_None [OF assms, of j] get_next_pending_node_Some [OF assms, of j]
  by (auto split: option.split)

theorem next_pending_node_correct_witness: "\<not> (\<exists>r. eligible one_job_db ''j'' r)"
proof -
  have "get_next_pending_node one_job_db ''j'' = None"
    by (simp add: get_next_pending_node_def job_nodes_def one_job_db_def empty_db_def order_by_def Let_def)
  moreover have "db_wf one_job_db" using one_job_inv by (simp add: queue_inv_def)
  ultimately show ?thesis using next_pending_node_correct [of one_job_db "''j''"] by simp
qed

text \<open>C2. A pipeline never stalls: for nodes created with dependencies on titles of earlier nodes, taking
  the next node and completing it, as many times as there are nodes, runs every node once, in the
  order given, and leaves all of them completed.\<close>

theorem pipeline_runs_in_order:
  assumes "db_wf d" "\<forall>r \<in> set (db_nodes d). nr_job_id r \<noteq> j" "ordered_defs defs"
    and "create_nodes j defs now d = Inr (ns, d1)"
  shows "\<exists>d2. run_pipeline (length defs) j later d1 = (map fst defs, d2) \<and>
     (\<forall>r \<in> set (db_nodes d2). nr_job_id r = j \<longrightarrow> nr_status r = ''completed'') \<and>
     get_next_pending_node d2 j = None"
proof -
  from create_nodes_pipeline [OF assms(1,4,2)] have "pipeline_at j defs 0 d1" .
  from run_pipeline_from [OF this assms(3) create_nodes_InrD(3) [OF assms(4)], of "length defs" later]
  obtain d2 where d2: "run_pipeline (length defs) j later d1 = (map fst defs, d2)"
    "pipeline_at j defs (length defs) d2" by auto
  from d2(2) have wf: "db_wf d2" by (simp add: pipeline_at_def)
  from d2(2) have fin: "\<forall>r \<in> set (db_nodes d2). nr_job_id r = j \<longrightarrow> nr_status r = ''completed''"
    unfolding pipeline_at_def by fastforce
  then have "\<not> eligible d2 j r" for r by (auto simp: eligible_def)
  then have "get_next_pending_node d2 j = None" by (simp add: get_next_pending_node_None [OF wf])
  with d2(1) fin show ?thesis by blast
qed

theorem pipeline_runs_in_order_witness:
  "\<exists>d2. run_pipeline 2 ''j'' 9
     (snd (projr (create_nodes ''j'' [(''n1'', plain_def ''A'' []), (''n2'', plain_def ''B'' [''A''])] 0 one_job_db))) =
     ([''n1'', ''n2''], d2)"
proof -
  let ?defs = "[(''n1'', plain_def ''A'' []), (''n2'', plain_def ''B'' [''A''])]"
  have strip: "node_def_title (plain_def ''A'' x) = ''A''" "node_def_title (plain_def ''B'' x) = ''B''" for x
    by (simp_all add: node_def_title_def plain_def_def py_strip_def py_isspace_def)
  have "ordered_defs ?defs"
    by (auto simp: ordered_defs_def strip less_Suc_eq declared_deps_def) (simp_all add: plain_def_def)
  moreover have "is_ok (create_nodes ''j'' ?defs 0 one_job_db)"
    by (simp add: create_nodes_def insert_node_def one_job_db_def empty_db_def plain_job_def spawned_job_def)
  then obtain ns d1 where c: "create_nodes ''j'' ?defs 0 one_job_db = Inr (ns, d1)"
    by (metis is_ok.simps(1) old.prod.exhaust sum.exhaust)
  moreover have "db_wf one_job_db" using one_job_inv by (simp add: queue_inv_def)
  moreover have "\<forall>r \<in> set (db_nodes one_job_db). nr_job_id r \<noteq> ''j''" by (simp add: one_job_db_def empty_db_def)
  ultimately show ?thesis using pipeline_runs_in_order [of one_job_db "''j''" ?defs 0 ns d1 9]
    by (auto simp: numeral_2_eq_2)
qed

text \<open>Cancelling a job with cascade, on a database whose delegations form a forest, ends within a
  recursion depth of one more than the number of delegations, and puts exactly the job and its
  descendants into \<open>cancelling\<close>, erasing their results.\<close>

theorem cascade_cancels_descendants:
  assumes "queue_inv d" "length (db_delegation d) < f"
  shows "cancel_job f now j True d =
    (None, d\<lparr>db_jobs := map (\<lambda>r. if jr_id r \<in> (edges (db_delegation d))\<^sup>* `` {j}
        then r\<lparr>jr_status := ''cancelling'', jr_error := None, jr_result_summary := None,
                jr_updated_at := Some now\<rparr> else r) (db_jobs d)\<rparr>)"
proof -
  from assms subtree_ids_forest obtain ids where ids: "subtree_ids f (db_delegation d) j = Some ids"
    unfolding queue_inv_def by blast
  from cancel_job_cascade_effect [OF ids] subtree_ids_descendants [OF ids] show ?thesis
    by (simp add: fold_set_cancelling)
qed

theorem cascade_cancels_descendants_witness:
  "fst (cancel_job 1 7 ''j'' True one_job_db) = None"
proof -
  have "length (db_delegation one_job_db) < 1" by (simp add: one_job_db_def empty_db_def)
  from cascade_cancels_descendants [OF one_job_inv this, of 7 "''j''"] show ?thesis by simp
qed

text \<open>The recursive query of \<^verbatim>\<open>get_job_tree\<close> ends on every forest of delegations and returns exactly
  the jobs of the subtree, the root included, each once for a table with unique ids, by time of
  creation.\<close>

theorem job_tree_query_correct:
  assumes "queue_inv d"
  shows "\<exists>f jobs. get_job_tree f d root_id = Some jobs \<and>
     set jobs = job_from_row ` {r \<in> set (db_jobs d). jr_id r \<in> (edges (db_delegation d))\<^sup>* `` {root_id}} \<and>
     sorted (map jo_created_at jobs)"
proof -
  let ?rows = "db_delegation d" and ?F = "Suc (length (db_delegation d))"
  have all: "subtree_ids ?F ?rows x = Some (sub_of ?rows ?F x)" for x
    using subtree_ids_forest [of ?rows ?F x] assms by (auto simp: queue_inv_def sub_of_def)
  let ?f = "length (concat (map (sub_of ?rows ?F) [root_id]))"
  from tree_query_result [of "[root_id]" ?F ?rows ?f] all obtain ids where
    ids: "tree_query ?f ?rows [root_id] = Some ids" "mset ids = mset (sub_of ?rows ?F root_id)" by auto
  from ids(2) have "set ids = set (sub_of ?rows ?F root_id)" by (metis set_mset_mset)
  with subtree_ids_descendants [OF all] have set_ids: "set ids = (edges ?rows)\<^sup>* `` {root_id}" by simp
  let ?jobs = "map job_from_row (order_by jr_created_at (jobs_of_ids d ids))"
  have "get_job_tree ?f d root_id = Some ?jobs" using ids(1) by (simp add: get_job_tree_def)
  moreover have "set ?jobs = job_from_row ` {r \<in> set (db_jobs d). jr_id r \<in> (edges ?rows)\<^sup>* `` {root_id}}"
    by (simp only: set_map set_order_by set_jobs_of_ids set_ids)
  moreover have "sorted (map jo_created_at ?jobs)"
    using sorted_order_by [of jr_created_at "jobs_of_ids d ids"] by (simp add: comp_def)
  ultimately show ?thesis by blast
qed

theorem job_tree_query_correct_witness:
  "\<exists>f jobs. get_job_tree f one_job_db ''j'' = Some jobs \<and> sorted (map jo_created_at jobs)"
  using job_tree_query_correct [OF one_job_inv, of "''j''"] by blast

text \<open>Deleting a job never fails, whatever refers to it: afterwards no row of any table mentions the
  job, every row that did not is still there, and a second deletion finds nothing.\<close>

theorem delete_job_removes_all_traces:
  assumes "j \<in> jr_id ` set (db_jobs d)"
  shows "\<exists>d'. delete_job j d = Inr (True, d') \<and>
     set (db_jobs d') = {r \<in> set (db_jobs d). jr_id r \<noteq> j} \<and>
     set (db_nodes d') = {n \<in> set (db_nodes d). nr_job_id n \<noteq> j} \<and>
     set (db_files d') = {f \<in> set (db_files d). fr_job_id f \<noteq> j} \<and>
     set (db_audit d') = {a \<in> set (db_audit d). ar_job_id a \<noteq> Some j} \<and>
     set (db_delegation d') = {g \<in> set (db_delegation d). dg_parent_job_id g \<noteq> j \<and> dg_child_job_id g \<noteq> j} \<and>
     db_templates d' = db_templates d \<and> delete_job j d' = Inr (False, d')"
proof -
  have "find_job d j \<noteq> None" using assms by (auto simp: find_job_def filter_empty_conv)
  with delete_job_never_raises [of j d] obtain b d' where d': "delete_job j d = Inr (b, d')" and b
    by (auto simp: delete_job_def split: sum.splits)
  from delete_job_cases [OF d'] \<open>b\<close> have
    e: "d' = d\<lparr>db_audit := sql_delete (\<lambda>a. ar_job_id a = Some j) (db_audit d),
       db_files := sql_delete (\<lambda>f. fr_job_id f = j) (db_files d),
       db_nodes := sql_delete (\<lambda>n. nr_job_id n = j) (db_nodes d),
       db_delegation := sql_delete (\<lambda>g. dg_parent_job_id g = j \<or> dg_child_job_id g = j) (db_delegation d),
       db_jobs := sql_delete (\<lambda>r. jr_id r = j) (db_jobs d)\<rparr>" by simp
  then have "find_job d' j = None" by (simp add: find_job_def filter_empty_conv)
  then have "delete_job j d' = Inr (False, d')" by (simp add: delete_job_def)
  with d' \<open>b\<close> e show ?thesis by auto
qed

theorem delete_job_removes_all_traces_witness:
  "\<exists>d'. delete_job ''j'' one_job_db = Inr (True, d') \<and> delete_job ''j'' d' = Inr (False, d')"
  using delete_job_removes_all_traces [of "''j''" one_job_db]
  by (auto simp: one_job_db_def plain_job_def spawned_job_def)

text \<open>Whatever sequence of queue operations runs on a fresh database, also when operations raise half
  way, ids stay unique, every node and file belongs to an existing job, and the delegations stay a
  forest.\<close>

theorem queue_stays_well_formed:
  "let d = run_commands queue_step cs (empty_db workspaces users) in
     db_wf d \<and> forest (db_delegation d)"
  using queue_machine.run_inv [OF queue_inv_empty, of cs workspaces users]
  by (simp add: queue_inv_def Let_def)

text \<open>Dependencies do not survive a template: for nodes created from definitions that depend on ids
  of another job's nodes (what \<^verbatim>\<open>save_as_template\<close> stores), the node is never the next one, whatever
  becomes of the statuses.\<close>

theorem template_dependencies_never_met:
  assumes "db_wf d1" "create_nodes j defs now d = Inr (ns, d1)" "k < length defs"
    and "dep \<in> set (declared_deps (snd (defs ! k)))" "title_to_id defs dep = None"
    and "dep \<notin> nr_id ` set (db_nodes d1) \<or> (\<exists>q \<in> set (db_nodes d1). nr_id q = dep \<and> nr_job_id q \<noteq> j)"
    and "db_wf d2" "map nr_id (db_nodes d2) = map nr_id (db_nodes d1)"
    and "map nr_job_id (db_nodes d2) = map nr_job_id (db_nodes d1)"
    and "map nr_depends_on (db_nodes d2) = map nr_depends_on (db_nodes d1)"
  shows "map_option no_id (get_next_pending_node d2 j) \<noteq> Some (fst (defs ! k))"
proof
  assume "map_option no_id (get_next_pending_node d2 j) = Some (fst (defs ! k))"
  then obtain n where nxt: "get_next_pending_node d2 j = Some n" and n: "no_id n = fst (defs ! k)" by auto
  from get_next_pending_node_Some [OF assms(7) nxt] obtain r where
    r: "n = node_from_row r" "eligible d2 j r" by blast
  let ?new = "node_rows j (title_to_id defs) now 1 defs ! k"
  have new: "?new \<in> set (db_nodes d1)" "nr_id ?new = fst (defs ! k)"
    "nr_depends_on ?new = Some (Json (resolve_deps (title_to_id defs) (snd (defs ! k))))"
  proof -
    have "?new \<in> set (node_rows j (title_to_id defs) now 1 defs)" using assms(3) by (intro nth_mem) simp
    then show "?new \<in> set (db_nodes d1)" using create_nodes_InrD(1) [OF assms(2)] by simp
  qed (use assms(3) in \<open>simp_all add: node_rows_nth\<close>)
  from r(2) obtain i where i: "i < length (db_nodes d2)" "db_nodes d2 ! i = r"
    by (auto simp: eligible_def in_set_conv_nth)
  have len: "length (db_nodes d2) = length (db_nodes d1)" using assms(8) by (metis length_map)
  have "nr_id (db_nodes d1 ! i) = nr_id r" "nr_depends_on (db_nodes d1 ! i) = nr_depends_on r"
    using assms(8,10) i len by (metis nth_map)+
  moreover have "db_nodes d1 ! i = ?new"
  proof (rule unique_key_eq [of nr_id "db_nodes d1"])
    show "distinct (map nr_id (db_nodes d1))" using assms(1) by (simp add: db_wf_def)
  qed (use i len new n r(1) calculation in simp_all)
  ultimately have "dep \<in> set (parse_json_field (nr_depends_on r) [])"
    using new(3) assms(4,5) by (force simp: resolve_deps_def)
  moreover have "\<forall>q \<in> set (db_nodes d2). nr_id q \<noteq> dep \<or> nr_job_id q \<noteq> j"
  proof (intro ballI, rule ccontr)
    fix q assume q: "q \<in> set (db_nodes d2)" "\<not> (nr_id q \<noteq> dep \<or> nr_job_id q \<noteq> j)"
    then obtain m where m: "m < length (db_nodes d1)" "db_nodes d2 ! m = q"
      by (auto simp: in_set_conv_nth len)
    then have p: "db_nodes d1 ! m \<in> set (db_nodes d1)" "nr_id (db_nodes d1 ! m) = dep" "nr_job_id (db_nodes d1 ! m) = j"
      using assms(8,9) q(2) len by (metis nth_mem nth_map)+
    with assms(6) unique_key_eq [of nr_id "db_nodes d1"] assms(1) show False
      by (fastforce simp: db_wf_def)
  qed
  ultimately show False using dangling_not_eligible r(2) by blast
qed

theorem template_dependencies_never_met_witness:
  "map_option no_id (get_next_pending_node
     (snd (projr (create_nodes ''j'' [(''n2'', plain_def ''B'' [''n0''])] 0 one_job_db))) ''j'') \<noteq> Some ''n2''"
proof -
  let ?defs = "[(''n2'', plain_def ''B'' [''n0''])]"
  have "is_ok (create_nodes ''j'' ?defs 0 one_job_db)"
    by (simp add: create_nodes_def insert_node_def one_job_db_def empty_db_def plain_job_def spawned_job_def)
  then obtain ns d1 where c: "create_nodes ''j'' ?defs 0 one_job_db = Inr (ns, d1)"
    by (metis is_ok.simps(1) old.prod.exhaust sum.exhaust)
  have "node_def_title (plain_def ''B'' [''n0'']) = ''B''"
    by (simp add: node_def_title_def plain_def_def py_strip_def py_isspace_def)
  then have t: "title_to_id ?defs ''n0'' = None" by (simp add: title_to_id_def)
  have ids: "nr_id ` set (db_nodes d1) = {''n2''}"
    unfolding create_nodes_InrD(1) [OF c] by (simp add: one_job_db_def empty_db_def)
  have "db_wf d1" using create_nodes_inv [OF one_job_inv c] by (simp add: queue_inv_def)
  from template_dependencies_never_met [OF this c, of 0 "''n0''" d1] this t ids
  have "map_option no_id (get_next_pending_node d1 ''j'') \<noteq> Some ''n2''"
    by (simp add: declared_deps_def plain_def_def)
  then show ?thesis by (simp add: c)
qed

text \<open>The public dict of a job is its full dict without the internal fields (\<open>error\<close>,
  \<open>cost_cents\<close>, \<open>review_count\<close>, \<open>max_reviews\<close>), and a retry policy written to JSON reads back as itself.\<close>

theorem api_dict_and_policy_roundtrip:
  "obj_get (job_to_api_dict jb) key =
     (if key \<in> JOB_INTERNAL_FIELDS then None else obj_get (job_to_dict jb) key) \<and>
   retry_policy_from_json (Some (retry_policy_to_json pol)) = pol"
  by (simp add: job_to_api_dict_get retry_policy_roundtrip)

end
