(* ===== verification/Execution.thy ===== *)
theory Execution
  imports Job_Models
begin

text \<open>
  \<^verbatim>\<open>backend/core/execution.py\<close>: the six managers of the durable execution engine over the tables
  \<^verbatim>\<open>source_events\<close>, \<^verbatim>\<open>node_attempts\<close>, \<^verbatim>\<open>tool_invocations\<close>, \<^verbatim>\<open>worker_leases\<close>, \<^verbatim>\<open>dead_letters\<close> and the
  jobs of \<open>db\<close>. The directories under \<^verbatim>\<open>JOBS_DIR\<close> and \<^verbatim>\<open>RECYCLE_DIR\<close> are the lists of their names;
  whether the move of a directory succeeds is an argument.
\<close>

record source_event =
  ev_id :: ident
  ev_source :: string
  ev_source_event_id :: string
  ev_workspace_id :: ident
  ev_processed_at :: "timestamp option"
  ev_result_json :: "string option"

record attempt =
  at_id :: ident
  at_node_id :: ident
  at_attempt_number :: int
  at_status :: string
  at_started_at :: timestamp
  at_completed_at :: "timestamp option"
  at_input_json :: "string option"
  at_output_json :: "string option"
  at_error :: "string option"
  at_error_category :: "string option"
  at_model_used :: "string option"
  at_tokens_in :: "int option"
  at_tokens_out :: "int option"
  at_cost_cents :: "real option"
  at_duration_ms :: "int option"

record invocation =
  iv_id :: ident
  iv_attempt_id :: ident
  iv_tool_name :: string
  iv_args_json :: string
  iv_result_json :: "string option"
  iv_status :: string
  iv_policy_result :: "string option"
  iv_started_at :: timestamp
  iv_completed_at :: "timestamp option"
  iv_duration_ms :: "int option"
  iv_idempotency_key :: "string option"

record worker_lease =
  wl_worker_id :: ident
  wl_hostname :: string
  wl_pid :: int
  wl_started_at :: timestamp
  wl_last_heartbeat :: timestamp
  wl_current_job_id :: "ident option"
  wl_current_node_id :: "ident option"
  wl_status :: string
  wl_capabilities_json :: "string option"

record dead_letter =
  dl_id :: ident
  dl_job_id :: ident
  dl_node_id :: "ident option"
  dl_attempt_id :: "ident option"
  dl_error :: string
  dl_error_category :: string
  dl_payload_json :: "string option"
  dl_created_at :: timestamp
  dl_resolved_at :: "timestamp option"
  dl_resolved_by :: "ident option"
  dl_resolution :: "string option"

record exec_state =
  ex_db :: db
  ex_events :: "source_event list"
  ex_attempts :: "attempt list"
  ex_invocations :: "invocation list"
  ex_leases :: "worker_lease list"
  ex_dead :: "dead_letter list"
  ex_job_dirs :: "string list"
  ex_recycle_dirs :: "string list"

section \<open>Source events\<close>

definition insert_event :: "source_event \<Rightarrow> exec_state \<Rightarrow> exec_state result" where
  "insert_event e s =
     (if ev_id e \<in> set (map ev_id (ex_events s)) then Inl (IntegrityError ''UNIQUE source_events.id'')
      else if (ev_source e, ev_source_event_id e) \<in>
              set (map (\<lambda>q. (ev_source q, ev_source_event_id q)) (ex_events s))
      then Inl (IntegrityError ''UNIQUE source_events.source, source_event_id'')
      else if ev_workspace_id e \<notin> set (db_workspaces (ex_db s))
      then Inl (IntegrityError ''FOREIGN KEY source_events.workspace_id'')
      else Inr (s\<lparr>ex_events := ex_events s @ [e]\<rparr>))"

definition record_event ::
    "string \<Rightarrow> string \<Rightarrow> ident \<Rightarrow> ident \<Rightarrow> exec_state \<Rightarrow> ident option \<times> exec_state" where
  "record_event source source_event_id workspace event_id s =
     (case insert_event \<lparr>ev_id = event_id, ev_source = source, ev_source_event_id = source_event_id,
                         ev_workspace_id = workspace, ev_processed_at = None, ev_result_json = None\<rparr> s of
        Inl _ \<Rightarrow> (None, s) | Inr s' \<Rightarrow> (Some event_id, s'))"

definition mark_processed :: "ident \<Rightarrow> string \<Rightarrow> timestamp \<Rightarrow> exec_state \<Rightarrow> exec_state" where
  "mark_processed event_id result now s =
     s\<lparr>ex_events := sql_update (\<lambda>e. ev_id e = event_id)
        (\<lambda>e. e\<lparr>ev_processed_at := Some now, ev_result_json := Some result\<rparr>) (ex_events s)\<rparr>"

section \<open>Node attempts\<close>

definition start_attempt ::
  "ident \<Rightarrow> int \<Rightarrow> string option \<Rightarrow> string option \<Rightarrow> ident \<Rightarrow> timestamp \<Rightarrow> exec_state \<Rightarrow>
   (ident \<times> exec_state) result" where
  "start_attempt node_id number input model attempt_id now s =
     (if attempt_id \<in> set (map at_id (ex_attempts s))
      then Inl (IntegrityError ''UNIQUE node_attempts.id'')
      else if (node_id, number) \<in> set (map (\<lambda>a. (at_node_id a, at_attempt_number a)) (ex_attempts s))
      then Inl (IntegrityError ''UNIQUE node_attempts.node_id, attempt_number'')
      else Inr (attempt_id, s\<lparr>ex_attempts := ex_attempts s @
             [\<lparr>at_id = attempt_id, at_node_id = node_id, at_attempt_number = number,
               at_status = ''running'', at_started_at = now, at_completed_at = None,
               at_input_json = input, at_output_json = None, at_error = None,
               at_error_category = None, at_model_used = model, at_tokens_in = None,
               at_tokens_out = None, at_cost_cents = None, at_duration_ms = None\<rparr>]\<rparr>))"

definition complete_attempt ::
  "ident \<Rightarrow> string \<Rightarrow> int \<Rightarrow> int \<Rightarrow> real \<Rightarrow> int \<Rightarrow> timestamp \<Rightarrow> exec_state \<Rightarrow> exec_state" where
  "complete_attempt attempt_id output tin tout cost duration now s =
     s\<lparr>ex_attempts := sql_update (\<lambda>a. at_id a = attempt_id)
        (\<lambda>a. a\<lparr>at_status := ''completed'', at_completed_at := Some now, at_output_json := Some output,
                at_tokens_in := Some tin, at_tokens_out := Some tout, at_cost_cents := Some cost,
                at_duration_ms := Some duration\<rparr>) (ex_attempts s)\<rparr>"

definition VALID_ERROR_CATEGORIES :: "string set" where
  "VALID_ERROR_CATEGORIES = {''transient'', ''permanent'', ''injection_detected'', ''timeout'', ''resource'',
     ''contract'', ''upstream'', ''model''}"

definition fail_attempt :: "ident \<Rightarrow> string \<Rightarrow> string \<Rightarrow> timestamp \<Rightarrow> exec_state \<Rightarrow> exec_state" where
  "fail_attempt attempt_id error category now s =
     (let cat = (if category \<in> VALID_ERROR_CATEGORIES then category else ''transient'')
      in s\<lparr>ex_attempts := sql_update (\<lambda>a. at_id a = attempt_id)
            (\<lambda>a. a\<lparr>at_status := ''failed'', at_completed_at := Some now, at_error := Some error,
                    at_error_category := Some cat\<rparr>) (ex_attempts s)\<rparr>)"

definition get_attempts :: "exec_state \<Rightarrow> ident \<Rightarrow> attempt list" where
  "get_attempts s node_id = order_by at_attempt_number (filter (\<lambda>a. at_node_id a = node_id) (ex_attempts s))"

definition get_latest_attempt :: "exec_state \<Rightarrow> ident \<Rightarrow> attempt option" where
  "get_latest_attempt s node_id =
     fetchone (order_by_desc at_attempt_number (filter (\<lambda>a. at_node_id a = node_id) (ex_attempts s)))"

section \<open>Tool invocations\<close>

definition log_invocation ::
  "ident \<Rightarrow> string \<Rightarrow> string \<Rightarrow> string option \<Rightarrow> ident \<Rightarrow> timestamp \<Rightarrow> exec_state \<Rightarrow> (ident \<times> exec_state) result" where
  "log_invocation attempt_id tool args key invocation_id now s =
     (if invocation_id \<in> set (map iv_id (ex_invocations s))
      then Inl (IntegrityError ''UNIQUE tool_invocations.id'')
      else if attempt_id \<notin> set (map at_id (ex_attempts s))
      then Inl (IntegrityError ''FOREIGN KEY tool_invocations.attempt_id'')
      else Inr (invocation_id, s\<lparr>ex_invocations := ex_invocations s @
             [\<lparr>iv_id = invocation_id, iv_attempt_id = attempt_id, iv_tool_name = tool,
               iv_args_json = args, iv_result_json = None, iv_status = ''pending'',
               iv_policy_result = None, iv_started_at = now, iv_completed_at = None,
               iv_duration_ms = None, iv_idempotency_key = key\<rparr>]\<rparr>))"

definition update_invocation ::
  "ident \<Rightarrow> string \<Rightarrow> string \<Rightarrow> string option \<Rightarrow> int option \<Rightarrow> timestamp \<Rightarrow> exec_state \<Rightarrow> exec_state" where
  "update_invocation invocation_id result status policy duration now s =
     s\<lparr>ex_invocations := sql_update (\<lambda>i. iv_id i = invocation_id)
        (\<lambda>i. i\<lparr>iv_result_json := Some result, iv_status := status, iv_policy_result := policy,
                iv_completed_at := Some now, iv_duration_ms := duration\<rparr>) (ex_invocations s)\<rparr>"

text \<open>\<^verbatim>\<open>ORDER BY completed_at DESC\<close> puts \<^verbatim>\<open>NULL\<close> last.\<close>

definition newest_completed :: "invocation list \<Rightarrow> invocation list" where
  "newest_completed rows =
     order_by_desc (\<lambda>i. the (iv_completed_at i)) (filter (\<lambda>i. iv_completed_at i \<noteq> None) rows) @
     filter (\<lambda>i. iv_completed_at i = None) rows"

definition get_cached_result :: "exec_state \<Rightarrow> string \<Rightarrow> invocation option" where
  "get_cached_result s key =
     fetchone (newest_completed
       (filter (\<lambda>i. iv_idempotency_key i = Some key \<and> iv_status i = ''success'') (ex_invocations s)))"

definition get_invocations :: "exec_state \<Rightarrow> ident \<Rightarrow> invocation list" where
  "get_invocations s attempt_id =
     order_by iv_started_at (filter (\<lambda>i. iv_attempt_id i = attempt_id) (ex_invocations s))"

section \<open>Worker leases\<close>

definition acquire_lease ::
  "ident \<Rightarrow> string \<Rightarrow> int \<Rightarrow> string option \<Rightarrow> timestamp \<Rightarrow> exec_state \<Rightarrow> bool \<times> exec_state" where
  "acquire_lease worker host pid caps now s =
     (True, s\<lparr>ex_leases :=
        (if worker \<in> set (map wl_worker_id (ex_leases s))
         then sql_update (\<lambda>w. wl_worker_id w = worker)
                (\<lambda>w. w\<lparr>wl_hostname := host, wl_pid := pid, wl_started_at := now,
                        wl_last_heartbeat := now, wl_status := ''active'',
                        wl_capabilities_json := caps, wl_current_job_id := None,
                        wl_current_node_id := None\<rparr>) (ex_leases s)
         else ex_leases s @
                [\<lparr>wl_worker_id = worker, wl_hostname = host, wl_pid = pid, wl_started_at = now,
                  wl_last_heartbeat = now, wl_current_job_id = None, wl_current_node_id = None,
                  wl_status = ''active'', wl_capabilities_json = caps\<rparr>])\<rparr>)"

definition heartbeat ::
    "ident \<Rightarrow> ident option \<Rightarrow> ident option \<Rightarrow> timestamp \<Rightarrow> exec_state \<Rightarrow> exec_state" where
  "heartbeat worker job node now s =
     s\<lparr>ex_leases := sql_update (\<lambda>w. wl_worker_id w = worker \<and> wl_status w = ''active'')
        (\<lambda>w. w\<lparr>wl_last_heartbeat := now, wl_current_job_id := job, wl_current_node_id := node\<rparr>)
        (ex_leases s)\<rparr>"

definition release_lease :: "ident \<Rightarrow> timestamp \<Rightarrow> exec_state \<Rightarrow> exec_state" where
  "release_lease worker now s =
     s\<lparr>ex_leases := sql_update (\<lambda>w. wl_worker_id w = worker)
        (\<lambda>w. w\<lparr>wl_status := ''released'', wl_current_job_id := None, wl_current_node_id := None,
                wl_last_heartbeat := now\<rparr>) (ex_leases s)\<rparr>"

definition find_dead_workers :: "int \<Rightarrow> timestamp \<Rightarrow> exec_state \<Rightarrow> ident list" where
  "find_dead_workers timeout_sec now s =
     map wl_worker_id (filter (\<lambda>w. wl_status w = ''active'' \<and>
       wl_last_heartbeat w < now - timeout_sec * 1000000) (ex_leases s))"

text \<open>One round of the loop of \<^verbatim>\<open>claim_orphaned_jobs\<close>, and the loop; \<^verbatim>\<open>current_job_id\<close> of an empty string counts as
  no job.\<close>

definition reset_job :: "ident \<Rightarrow> timestamp \<Rightarrow> db \<Rightarrow> db" where
  "reset_job j now d =
     d\<lparr>db_jobs := sql_update (\<lambda>r. jr_id r = j \<and> jr_status r = ''running'')
        (\<lambda>r. r\<lparr>jr_status := ''pending'', jr_updated_at := Some now\<rparr>) (db_jobs d)\<rparr>"

definition bury_worker :: "ident \<Rightarrow> worker_lease list \<Rightarrow> worker_lease list" where
  "bury_worker worker t =
     sql_update (\<lambda>w. wl_worker_id w = worker)
       (\<lambda>w. w\<lparr>wl_status := ''dead'', wl_current_job_id := None, wl_current_node_id := None\<rparr>) t"

definition worker_job :: "exec_state \<Rightarrow> ident \<Rightarrow> ident option" where
  "worker_job s worker =
     (case fetchone (filter (\<lambda>w. wl_worker_id w = worker \<and> wl_current_job_id w \<noteq> None) (ex_leases s)) of
        None \<Rightarrow> None
      | Some w \<Rightarrow> if wl_current_job_id w = Some [] then None else wl_current_job_id w)"

fun claim_orphaned_jobs :: "timestamp \<Rightarrow> ident list \<Rightarrow> exec_state \<Rightarrow> ident list \<times> exec_state" where
  "claim_orphaned_jobs now [] s = ([], s)"
| "claim_orphaned_jobs now (worker # ws) s =
     (let job = worker_job s worker;
          s1 = (case job of None \<Rightarrow> s | Some j \<Rightarrow> s\<lparr>ex_db := reset_job j now (ex_db s)\<rparr>);
          (rest, s2) = claim_orphaned_jobs now ws (s1\<lparr>ex_leases := bury_worker worker (ex_leases s1)\<rparr>)
      in (case job of None \<Rightarrow> rest | Some j \<Rightarrow> j # rest, s2))"

section \<open>Dead letters\<close>

definition add_dead_letter ::
  "ident \<Rightarrow> ident option \<Rightarrow> ident option \<Rightarrow> string \<Rightarrow> string \<Rightarrow> string option \<Rightarrow> ident \<Rightarrow> timestamp \<Rightarrow>
   exec_state \<Rightarrow> (ident \<times> exec_state) result" where
  "add_dead_letter job node attempt_id error category payload letter_id now s =
     (if letter_id \<in> set (map dl_id (ex_dead s)) then Inl (IntegrityError ''UNIQUE dead_letters.id'')
      else Inr (letter_id, s\<lparr>ex_dead := ex_dead s @
             [\<lparr>dl_id = letter_id, dl_job_id = job, dl_node_id = node, dl_attempt_id = attempt_id,
               dl_error = error, dl_error_category = category, dl_payload_json = payload,
               dl_created_at = now, dl_resolved_at = None, dl_resolved_by = None,
               dl_resolution = None\<rparr>]\<rparr>))"

definition list_dead_letters :: "bool \<Rightarrow> exec_state \<Rightarrow> dead_letter list" where
  "list_dead_letters resolved s =
     order_by_desc dl_created_at (filter (\<lambda>l. (dl_resolved_at l \<noteq> None) = resolved) (ex_dead s))"

definition VALID_RESOLUTIONS :: "string set" where
  "VALID_RESOLUTIONS = {''retried'', ''skipped'', ''manual_fix''}"

definition resolve_dead_letter ::
    "ident \<Rightarrow> ident \<Rightarrow> string \<Rightarrow> timestamp \<Rightarrow> exec_state \<Rightarrow> exec_state result" where
  "resolve_dead_letter letter_id resolved_by resolution now s =
     (if resolution \<notin> VALID_RESOLUTIONS then Inl (ValueError ''Invalid resolution'')
      else if (\<exists>l \<in> set (ex_dead s). dl_id l = letter_id) \<and> resolved_by \<notin> set (db_users (ex_db s))
      then Inl (IntegrityError ''FOREIGN KEY dead_letters.resolved_by'')
      else Inr (s\<lparr>ex_dead := sql_update (\<lambda>l. dl_id l = letter_id)
             (\<lambda>l. l\<lparr>dl_resolved_at := Some now, dl_resolved_by := Some resolved_by,
                     dl_resolution := Some resolution\<rparr>) (ex_dead s)\<rparr>))"

section \<open>Cancellation\<close>

definition request_cancellation :: "ident \<Rightarrow> timestamp \<Rightarrow> exec_state \<Rightarrow> exec_state" where
  "request_cancellation j now s =
     s\<lparr>ex_db := (ex_db s)\<lparr>db_jobs :=
        sql_update (\<lambda>r. jr_id r = j \<and> (jr_status r = ''pending'' \<or> jr_status r = ''running''))
          (\<lambda>r. r\<lparr>jr_status := ''cancelling'', jr_updated_at := Some now\<rparr>) (db_jobs (ex_db s))\<rparr>\<rparr>"

definition is_cancelling :: "exec_state \<Rightarrow> ident \<Rightarrow> bool" where
  "is_cancelling s j =
     (case fetchone (filter (\<lambda>r. jr_id r = j) (db_jobs (ex_db s))) of
        None \<Rightarrow> False | Some r \<Rightarrow> jr_status r = ''cancelling'')"

definition recycle_job_dir :: "ident \<Rightarrow> string \<Rightarrow> bool \<Rightarrow> exec_state \<Rightarrow> exec_state" where
  "recycle_job_dir j suffix move_ok s =
     (if j \<in> set (ex_job_dirs s) \<and> move_ok
      then s\<lparr>ex_job_dirs := removeAll j (ex_job_dirs s),
              ex_recycle_dirs := (if j \<in> set (ex_recycle_dirs s) then j @ ''_'' @ suffix else j) #
                                 ex_recycle_dirs s\<rparr>
      else s)"

definition complete_cancellation ::
    "ident \<Rightarrow> timestamp \<Rightarrow> string \<Rightarrow> bool \<Rightarrow> exec_state \<Rightarrow> exec_state" where
  "complete_cancellation j now suffix move_ok s =
     recycle_job_dir j suffix move_ok
       (s\<lparr>ex_db := (ex_db s)\<lparr>db_jobs := sql_update (\<lambda>r. jr_id r = j)
            (\<lambda>r. r\<lparr>jr_status := ''cancelled'', jr_updated_at := Some now\<rparr>) (db_jobs (ex_db s))\<rparr>\<rparr>)"

section \<open>Runs of the engine\<close>

datatype exec_command =
    X_event string string ident ident
  | X_processed ident string timestamp
  | X_start ident int "string option" "string option" ident timestamp
  | X_complete ident string int int real int timestamp
  | X_fail ident string string timestamp
  | X_log ident string string "string option" ident timestamp
  | X_update ident string string "string option" "int option" timestamp
  | X_lease ident string int "string option" timestamp
  | X_heartbeat ident "ident option" "ident option" timestamp
  | X_release ident timestamp
  | X_claim "ident list" timestamp
  | X_letter ident "ident option" "ident option" string string "string option" ident timestamp
  | X_resolve ident ident string timestamp
  | X_request ident timestamp
  | X_cancelled ident timestamp string bool

definition result_state :: "exec_state \<Rightarrow> ('a \<times> exec_state) result \<Rightarrow> exec_state" where
  "result_state s r = (case r of Inl _ \<Rightarrow> s | Inr (_, s') \<Rightarrow> s')"

fun exec_step :: "exec_command \<Rightarrow> exec_state \<Rightarrow> exec_state" where
  "exec_step (X_event src sid ws i) s = snd (record_event src sid ws i s)"
| "exec_step (X_processed i r now) s = mark_processed i r now s"
| "exec_step (X_start n k inp m i now) s = result_state s (start_attempt n k inp m i now s)"
| "exec_step (X_complete i out tin tout c dur now) s = complete_attempt i out tin tout c dur now s"
| "exec_step (X_fail i er cat now) s = fail_attempt i er cat now s"
| "exec_step (X_log a t args key i now) s = result_state s (log_invocation a t args key i now s)"
| "exec_step (X_update i r st pol dur now) s = update_invocation i r st pol dur now s"
| "exec_step (X_lease w h p c now) s = snd (acquire_lease w h p c now s)"
| "exec_step (X_heartbeat w j n now) s = heartbeat w j n now s"
| "exec_step (X_release w now) s = release_lease w now s"
| "exec_step (X_claim ws now) s = snd (claim_orphaned_jobs now ws s)"
| "exec_step (X_letter j n a er cat p i now) s = result_state s (add_dead_letter j n a er cat p i now s)"
| "exec_step (X_resolve i who r now) s =
     (case resolve_dead_letter i who r now s of Inl _ \<Rightarrow> s | Inr s' \<Rightarrow> s')"
| "exec_step (X_request j now) s = request_cancellation j now s"
| "exec_step (X_cancelled j now suffix ok) s = complete_cancellation j now suffix ok s"

definition event_key :: "source_event \<Rightarrow> string \<times> string" where
  "event_key e = (ev_source e, ev_source_event_id e)"

definition attempt_key :: "attempt \<Rightarrow> ident \<times> int" where
  "attempt_key a = (at_node_id a, at_attempt_number a)"

text \<open>
  Events and attempts are unique under their keys, every failed attempt has a known category,
  every invocation belongs to an attempt, a worker has one lease and, unless it is active, no job,
  and a letter is resolved with a known resolution or not at all.
\<close>

definition exec_inv :: "exec_state \<Rightarrow> bool" where
  "exec_inv s \<longleftrightarrow>
     distinct (map event_key (ex_events s)) \<and>
     distinct (map at_id (ex_attempts s)) \<and> distinct (map attempt_key (ex_attempts s)) \<and>
     (\<forall>a \<in> set (ex_attempts s). \<forall>c. at_error_category a = Some c \<longrightarrow> c \<in> VALID_ERROR_CATEGORIES) \<and>
     (\<forall>i \<in> set (ex_invocations s). iv_attempt_id i \<in> at_id ` set (ex_attempts s)) \<and>
     distinct (map wl_worker_id (ex_leases s)) \<and>
     (\<forall>w \<in> set (ex_leases s). wl_status w \<noteq> ''active'' \<longrightarrow> wl_current_job_id w = None) \<and>
     (\<forall>l \<in> set (ex_dead s). (dl_resolved_at l = None \<longleftrightarrow> dl_resolution l = None) \<and>
        (\<forall>r. dl_resolution l = Some r \<longrightarrow> r \<in> VALID_RESOLUTIONS))"

text \<open>Each table has its own part of the invariant; an operation touches one of them.\<close>

definition events_ok :: "source_event list \<Rightarrow> bool" where
  "events_ok t \<longleftrightarrow> distinct (map event_key t)"

definition attempts_ok :: "attempt list \<Rightarrow> invocation list \<Rightarrow> bool" where
  "attempts_ok t u \<longleftrightarrow>
     distinct (map at_id t) \<and> distinct (map attempt_key t) \<and>
     (\<forall>a \<in> set t. \<forall>c. at_error_category a = Some c \<longrightarrow> c \<in> VALID_ERROR_CATEGORIES) \<and>
     (\<forall>i \<in> set u. iv_attempt_id i \<in> at_id ` set t)"

definition leases_ok :: "worker_lease list \<Rightarrow> bool" where
  "leases_ok t \<longleftrightarrow>
     distinct (map wl_worker_id t) \<and>
     (\<forall>w \<in> set t. wl_status w \<noteq> ''active'' \<longrightarrow> wl_current_job_id w = None)"

definition letters_ok :: "dead_letter list \<Rightarrow> bool" where
  "letters_ok t \<longleftrightarrow>
     (\<forall>l \<in> set t. (dl_resolved_at l = None \<longleftrightarrow> dl_resolution l = None) \<and>
        (\<forall>r. dl_resolution l = Some r \<longrightarrow> r \<in> VALID_RESOLUTIONS))"

lemma exec_inv_parts:
  "exec_inv s \<longleftrightarrow> events_ok (ex_events s) \<and> attempts_ok (ex_attempts s) (ex_invocations s) \<and>
     leases_ok (ex_leases s) \<and> letters_ok (ex_dead s)"
  by (auto simp: exec_inv_def events_ok_def attempts_ok_def leases_ok_def letters_ok_def)

lemma insert_event_InrD:
  "insert_event e s = Inr s' \<Longrightarrow>
     s' = s\<lparr>ex_events := ex_events s @ [e]\<rparr> \<and> event_key e \<notin> event_key ` set (ex_events s)"
  by (auto simp: insert_event_def event_key_def split: if_splits)

lemma record_event_cases:
  "(fst (record_event src sid ws i s) = None \<and> snd (record_event src sid ws i s) = s) \<or>
   (\<exists>e. fst (record_event src sid ws i s) = Some i \<and> event_key e = (src, sid) \<and>
      (src, sid) \<notin> event_key ` set (ex_events s) \<and>
      snd (record_event src sid ws i s) = s\<lparr>ex_events := ex_events s @ [e]\<rparr>)"
proof (cases "insert_event \<lparr>ev_id = i, ev_source = src, ev_source_event_id = sid, ev_workspace_id = ws,
    ev_processed_at = None, ev_result_json = None\<rparr> s")
  case (Inl e)
  then show ?thesis by (simp add: record_event_def)
next
  case (Inr s')
  let ?e = "\<lparr>ev_id = i, ev_source = src, ev_source_event_id = sid, ev_workspace_id = ws,
    ev_processed_at = None, ev_result_json = None\<rparr>"
  have "event_key ?e = (src, sid)" by (simp add: event_key_def)
  moreover have "record_event src sid ws i s = (Some i, s')" using Inr by (simp add: record_event_def)
  ultimately show ?thesis using insert_event_InrD [OF Inr]
    by (intro disjI2 exI [of _ ?e]) (simp only: fst_conv snd_conv simp_thms)
qed

lemma events_step: "events_ok (ex_events s) \<Longrightarrow> events_ok (ex_events (snd (record_event src sid ws i s)))"
  using record_event_cases [of src sid ws i s] by (auto simp: events_ok_def)

lemma events_processed: "events_ok (ex_events s) \<Longrightarrow> events_ok (ex_events (mark_processed i r now s))"
  by (simp add: events_ok_def mark_processed_def map_sql_update event_key_def)

lemma attempts_update:
  assumes "attempts_ok t u"
    and "\<And>a. at_id (f a) = at_id a \<and> attempt_key (f a) = attempt_key a"
    and "\<And>a c. at_error_category (f a) = Some c \<Longrightarrow>
           at_error_category a = Some c \<or> c \<in> VALID_ERROR_CATEGORIES"
  shows "attempts_ok (sql_update P f t) u"
proof -
  have ids: "map at_id (sql_update P f t) = map at_id t" by (simp add: map_sql_update assms(2))
  then have "at_id ` set (sql_update P f t) = at_id ` set t" by (metis list.set_map)
  moreover have "map attempt_key (sql_update P f t) = map attempt_key t"
    by (simp add: map_sql_update assms(2))
  moreover have "c \<in> VALID_ERROR_CATEGORIES"
    if "a \<in> set (sql_update P f t)" "at_error_category a = Some c" for a c
    using that assms(1,3) by (force simp: in_sql_update attempts_ok_def split: if_splits)
  ultimately show ?thesis using assms(1) ids by (simp add: attempts_ok_def)
qed

lemma fail_category_valid: "(if c \<in> VALID_ERROR_CATEGORIES then c else ''transient'') \<in> VALID_ERROR_CATEGORIES"
  by (simp add: VALID_ERROR_CATEGORIES_def)

lemma attempts_step:
  assumes "attempts_ok (ex_attempts s) (ex_invocations s)"
  shows "attempts_ok (ex_attempts (complete_attempt i out tin tout c dur now s)) (ex_invocations s)"
    and "attempts_ok (ex_attempts (fail_attempt i er cat now s)) (ex_invocations s)"
  using assms fail_category_valid [of cat]
  by (auto simp: complete_attempt_def fail_attempt_def Let_def attempt_key_def intro!: attempts_update)

lemma attempts_start:
  assumes "attempts_ok (ex_attempts s) (ex_invocations s)" "start_attempt n k inp m i now s = Inr (j, s')"
  shows "attempts_ok (ex_attempts s') (ex_invocations s)"
  using assms by (auto simp: start_attempt_def attempts_ok_def attempt_key_def split: if_splits)

lemma invocations_step:
  assumes "attempts_ok (ex_attempts s) (ex_invocations s)"
  shows "log_invocation a t args key i now s = Inr (j, s') \<Longrightarrow> attempts_ok (ex_attempts s) (ex_invocations s')"
    and "attempts_ok (ex_attempts s) (ex_invocations (update_invocation i r st pol dur now s))"
  using assms
  by (auto simp: log_invocation_def update_invocation_def attempts_ok_def in_sql_update split: if_splits)

lemma leases_update:
  assumes "leases_ok t" "\<And>w. wl_worker_id (f w) = wl_worker_id w"
    and "\<And>w. P w \<Longrightarrow> wl_status (f w) = ''active'' \<or> wl_current_job_id (f w) = None"
  shows "leases_ok (sql_update P f t)"
proof -
  have "map wl_worker_id (sql_update P f t) = map wl_worker_id t" by (simp add: map_sql_update assms(2))
  moreover have "wl_current_job_id w = None"
    if "w \<in> set (sql_update P f t)" "wl_status w \<noteq> ''active''" for w
    using that assms(1,3) by (force simp: in_sql_update leases_ok_def split: if_splits)
  ultimately show ?thesis using assms(1) by (simp add: leases_ok_def)
qed

lemma leases_step:
  assumes "leases_ok (ex_leases s)"
  shows "leases_ok (ex_leases (snd (acquire_lease w h p c now s)))"
    and "leases_ok (ex_leases (heartbeat w j n now s))" "leases_ok (ex_leases (release_lease w now s))"
    and "leases_ok (bury_worker w (ex_leases s))"
proof -
  show "leases_ok (ex_leases (snd (acquire_lease w h p c now s)))"
  proof (cases "w \<in> set (map wl_worker_id (ex_leases s))")
    case True
    then show ?thesis using assms by (simp add: acquire_lease_def leases_update)
  next
    case False
    then show ?thesis using assms by (auto simp: acquire_lease_def leases_ok_def)
  qed
  show "leases_ok (ex_leases (heartbeat w j n now s))"
    using assms by (auto simp: heartbeat_def intro: leases_update)
qed (use assms in \<open>simp_all add: release_lease_def bury_worker_def leases_update\<close>)

lemma claim_keeps:
  "ex_events (snd (claim_orphaned_jobs now ws s)) = ex_events s"
  "ex_attempts (snd (claim_orphaned_jobs now ws s)) = ex_attempts s"
  "ex_invocations (snd (claim_orphaned_jobs now ws s)) = ex_invocations s"
  "ex_dead (snd (claim_orphaned_jobs now ws s)) = ex_dead s"
  by (induction now ws s rule: claim_orphaned_jobs.induct) (auto simp: Let_def split: prod.splits option.splits)

lemma claim_leases:
  "ex_leases (snd (claim_orphaned_jobs now ws s)) = fold bury_worker ws (ex_leases s)"
  by (induction now ws s rule: claim_orphaned_jobs.induct) (auto simp: Let_def split: prod.splits option.splits)

lemma claim_leases_ok: "leases_ok (ex_leases s) \<Longrightarrow> leases_ok (ex_leases (snd (claim_orphaned_jobs now ws s)))"
proof -
  have "leases_ok t \<Longrightarrow> leases_ok (fold bury_worker ws t)" for t
    by (induction ws arbitrary: t) (simp_all add: bury_worker_def leases_update)
  then show "leases_ok (ex_leases s) \<Longrightarrow> ?thesis" by (simp add: claim_leases)
qed

lemma letters_step:
  assumes "letters_ok (ex_dead s)"
  shows "add_dead_letter j n a er cat p i now s = Inr (k, s') \<Longrightarrow> letters_ok (ex_dead s')"
    and "resolve_dead_letter i who r now s = Inr s' \<Longrightarrow> letters_ok (ex_dead s')"
  using assms
  by (auto simp: add_dead_letter_def resolve_dead_letter_def letters_ok_def in_sql_update split: if_splits)

lemma other_tables:
  "ex_attempts (snd (record_event src sid ws i s)) = ex_attempts s"
  "ex_invocations (snd (record_event src sid ws i s)) = ex_invocations s"
  "ex_leases (snd (record_event src sid ws i s)) = ex_leases s"
  "ex_dead (snd (record_event src sid ws i s)) = ex_dead s"
  using record_event_cases [of src sid ws i s] by auto

lemma exec_step_inv: "exec_inv s \<Longrightarrow> exec_inv (exec_step c s)"
  unfolding exec_inv_parts
proof (induction c s rule: exec_step.induct)
  case (1 src sid ws i s)
  then show ?case by (simp add: other_tables events_step)
next
  case (3 n k inp m i now s)
  then show ?case
    using attempts_start [of s n k inp m i now] by (auto simp: result_state_def start_attempt_def split: if_splits)
next
  case (6 a t args key i now s)
  then show ?case
    using invocations_step(1) [of s a t args key i now] by (auto simp: result_state_def log_invocation_def split: if_splits)
next
  case (12 j n a er cat p i now s)
  then show ?case
    using letters_step(1) [of s j n a er cat p i now] by (auto simp: result_state_def add_dead_letter_def split: if_splits)
next
  case (13 i who r now s)
  then show ?case
    using letters_step(2) [of s i who r now] by (auto simp: resolve_dead_letter_def split: if_splits)
next
  case (2 i r now s)
  then show ?case using events_processed [of s i r now] by (simp add: mark_processed_def)
next
  case (4 i out tin tout c dur now s)
  then show ?case using attempts_step(1) [of s i out tin tout c dur now] by (simp add: complete_attempt_def)
next
  case (5 i er cat now s)
  then show ?case using attempts_step(2) [of s i er cat now] by (simp add: fail_attempt_def Let_def)
next
  case (7 i r st pol dur now s)
  then show ?case using invocations_step(2) [of s i r st pol dur now] by (simp add: update_invocation_def)
next
  case (8 w h p c now s)
  then show ?case using leases_step(1) [of s w h p c now] by (simp add: acquire_lease_def)
next
  case (9 w j n now s)
  then show ?case using leases_step(2) [of s w j n now] by (simp add: heartbeat_def)
next
  case (10 w now s)
  then show ?case using leases_step(3) [of s w now] by (simp add: release_lease_def)
next
  case (11 ws now s)
  then show ?case using claim_leases_ok [of s now ws] by (simp add: claim_keeps)
next
  case (14 j now s)
  then show ?case by (simp add: request_cancellation_def)
next
  case (15 j now suffix ok s)
  then show ?case by (simp add: complete_cancellation_def recycle_job_dir_def)
qed

interpretation exec_machine: store_machine exec_step exec_inv
  by unfold_locales (rule exec_step_inv)

definition new_exec_state :: "db \<Rightarrow> exec_state" where
  "new_exec_state d = \<lparr>ex_db = d, ex_events = [], ex_attempts = [], ex_invocations = [], ex_leases = [],
     ex_dead = [], ex_job_dirs = [], ex_recycle_dirs = []\<rparr>"

lemma exec_inv_new [simp]: "exec_inv (new_exec_state d)"
  by (simp add: exec_inv_def new_exec_state_def)

section \<open>Events are recorded once\<close>

text \<open>Recorded events stay: the second machine invariant, for a fixed key.\<close>

lemma exec_step_event_stays:
  assumes "k \<in> event_key ` set (ex_events s)"
  shows "k \<in> event_key ` set (ex_events (exec_step c s))"
  using assms
  proof (induction c s rule: exec_step.induct)
    case (1 src sid ws i s)
    then show ?case using record_event_cases [of src sid ws i s] by auto
  next
    case (2 i r now s)
    have "map event_key (ex_events (mark_processed i r now s)) = map event_key (ex_events s)"
      by (simp add: mark_processed_def map_sql_update event_key_def)
    then have "event_key ` set (ex_events (mark_processed i r now s)) = event_key ` set (ex_events s)"
      by (metis list.set_map)
    with 2 show ?case by simp
  qed (simp_all add: start_attempt_def complete_attempt_def fail_attempt_def log_invocation_def
      update_invocation_def acquire_lease_def heartbeat_def release_lease_def claim_keeps
      add_dead_letter_def resolve_dead_letter_def request_cancellation_def complete_cancellation_def
      recycle_job_dir_def result_state_def Let_def)

interpretation event_machine: store_machine exec_step "\<lambda>s. k \<in> event_key ` set (ex_events s)" for k
  by unfold_locales (rule exec_step_event_stays)

lemma known_event_refused:
  "(src, sid) \<in> event_key ` set (ex_events s) \<Longrightarrow> record_event src sid ws i s = (None, s)"
  using record_event_cases [of src sid ws i s] by (auto simp: prod_eq_iff)

lemma recorded_event_known:
  "fst (record_event src sid ws i s) = Some e \<Longrightarrow>
     (src, sid) \<in> event_key ` set (ex_events (snd (record_event src sid ws i s)))"
  using record_event_cases [of src sid ws i s] by (auto simp: image_iff)

section \<open>Dead workers\<close>

lemma reset_job_known_status:
  assumes "\<forall>r \<in> set (db_jobs d). jr_status r \<in> range job_status_value"
  shows "reset_job j now d = d"
proof -
  have "''running'' \<notin> range job_status_value"
  proof
    assume "''running'' \<in> range job_status_value"
    then obtain st where "''running'' = job_status_value st" by blast
    then show False by (cases st) simp_all
  qed
  with assms have "sql_update (\<lambda>r. jr_id r = j \<and> jr_status r = ''running'') f (db_jobs d) = db_jobs d" for f
    by (intro sql_update_id) metis
  then show ?thesis by (simp add: reset_job_def)
qed

lemma worker_job_buried:
  assumes "ex_leases s' = bury_worker v (ex_leases s)"
  shows "worker_job s' w = (if v = w then None else worker_job s w)"
proof -
  have "filter (\<lambda>l. wl_worker_id l = w \<and> wl_current_job_id l \<noteq> None) (bury_worker v t) =
      (if v = w then [] else filter (\<lambda>l. wl_worker_id l = w \<and> wl_current_job_id l \<noteq> None) t)" for t
    by (induction t) (auto simp: bury_worker_def)
  then show ?thesis by (simp add: worker_job_def assms)
qed

lemma claim_reports:
  "set (fst (claim_orphaned_jobs now ws s)) = {j. \<exists>w \<in> set ws. worker_job s w = Some j}"
proof (induction now ws s rule: claim_orphaned_jobs.induct)
  case (1 now s)
  then show ?case by simp
next
  case (2 now v ws s)
  let ?s1 = "case worker_job s v of None \<Rightarrow> s | Some j \<Rightarrow> s\<lparr>ex_db := reset_job j now (ex_db s)\<rparr>"
  let ?s2 = "?s1\<lparr>ex_leases := bury_worker v (ex_leases ?s1)\<rparr>"
  have "set (fst (claim_orphaned_jobs now ws ?s2)) = {j. \<exists>w \<in> set ws. worker_job ?s2 w = Some j}"
    by (rule "2.IH") simp_all
  moreover have "worker_job ?s2 w = (if v = w then None else worker_job s w)" for w
    by (rule worker_job_buried) (simp split: option.split)
  ultimately have rest: "set (fst (claim_orphaned_jobs now ws ?s2)) =
      {j. \<exists>w \<in> set ws. v \<noteq> w \<and> worker_job s w = Some j}" by auto
  have "fst (claim_orphaned_jobs now (v # ws) s) =
      (case worker_job s v of None \<Rightarrow> fst (claim_orphaned_jobs now ws ?s2)
       | Some j \<Rightarrow> j # fst (claim_orphaned_jobs now ws ?s2))"
    by (simp add: Let_def case_prod_beta split: option.split)
  then have "set (fst (claim_orphaned_jobs now (v # ws) s)) =
      {j. worker_job s v = Some j} \<union> set (fst (claim_orphaned_jobs now ws ?s2))"
    by (cases "worker_job s v") auto
  also have "\<dots> = {j. \<exists>w \<in> set (v # ws). worker_job s w = Some j}" unfolding rest by auto
  finally show ?case .
qed

lemma claim_db_known_status:
  assumes "\<forall>r \<in> set (db_jobs (ex_db s)). jr_status r \<in> range job_status_value"
  shows "ex_db (snd (claim_orphaned_jobs now ws s)) = ex_db s"
  using assms
proof (induction now ws s rule: claim_orphaned_jobs.induct)
  case (1 now s)
  then show ?case by simp
next
  case (2 now v ws s)
  let ?s1 = "case worker_job s v of None \<Rightarrow> s | Some j \<Rightarrow> s\<lparr>ex_db := reset_job j now (ex_db s)\<rparr>"
  let ?s2 = "?s1\<lparr>ex_leases := bury_worker v (ex_leases ?s1)\<rparr>"
  have db: "ex_db ?s2 = ex_db s"
    using reset_job_known_status [OF "2.prems"] by (simp split: option.split)
  have "ex_db (snd (claim_orphaned_jobs now ws ?s2)) = ex_db ?s2"
    by (rule "2.IH") (use "2.prems" db in simp_all)
  with db show ?case by (simp add: Let_def case_prod_beta)
qed

definition dead_in :: "ident \<Rightarrow> worker_lease list \<Rightarrow> bool" where
  "dead_in w t \<longleftrightarrow>
     (\<forall>l \<in> set t. wl_worker_id l = w \<longrightarrow> wl_status l = ''dead'' \<and> wl_current_job_id l = None)"

lemma bury_dead: "dead_in w (bury_worker w t)" "dead_in w t \<Longrightarrow> dead_in w (bury_worker v t)"
  by (induction t) (auto simp: dead_in_def bury_worker_def)

lemma fold_bury_keeps: "dead_in w t \<Longrightarrow> dead_in w (fold bury_worker ws t)"
  by (induction ws arbitrary: t) (simp_all add: bury_dead(2))

lemma buried_not_active: "w \<in> set ws \<Longrightarrow> dead_in w (fold bury_worker ws t)"
  by (induction ws arbitrary: t) (auto simp: bury_dead(1) fold_bury_keeps)

section \<open>Properties\<close>

text \<open>C27. On every run of the six managers the tables stay consistent: events unique per source and
  source id, attempts unique per node and number with known error categories, invocations of known
  attempts, one lease per worker and jobs only on active ones, letters resolved in a known way.\<close>

theorem execution_stays_consistent: "exec_inv (run_commands exec_step cs (new_exec_state d))"
  by (rule exec_machine.run_inv) simp

text \<open>An event is recorded once: after \<^verbatim>\<open>record_event\<close> has accepted it, it is refused for ever, for any
  workspace and after any commands, without any effect.\<close>

theorem event_recorded_once:
  assumes "fst (record_event src sid ws i s) = Some e"
  shows "let s' = run_commands exec_step cs (snd (record_event src sid ws i s)) in
     record_event src sid ws' i' s' = (None, s')"
proof -
  have "(src, sid) \<in> event_key ` set (ex_events (run_commands exec_step cs (snd (record_event src sid ws i s))))"
    by (rule event_machine.run_inv [OF recorded_event_known [OF assms]])
  then show ?thesis by (simp add: Let_def known_event_refused)
qed

theorem event_recorded_once_witness:
  "let s' = run_commands exec_step [X_processed ''e'' ''{}'' 5]
       (snd (record_event ''slack'' ''1'' ''w'' ''e'' (new_exec_state (empty_db [''w''] [])))) in
     record_event ''slack'' ''1'' ''w'' ''e2'' s' = (None, s')"
  by (rule event_recorded_once [of _ _ _ _ _ "''e''"])
    (simp add: record_event_def insert_event_def new_exec_state_def empty_db_def)

text \<open>An event that names an unknown workspace is dropped as if it were a duplicate: the foreign key
  error is caught with the uniqueness error and the caller gets \<open>None\<close>.\<close>

theorem unknown_workspace_reported_duplicate:
  assumes "ws \<notin> set (db_workspaces (ex_db s))"
  shows "record_event src sid ws i s = (None, s)"
  using assms by (simp add: record_event_def insert_event_def)

theorem unknown_workspace_reported_duplicate_witness:
  "record_event ''slack'' ''1'' ''w2'' ''e'' (new_exec_state (empty_db [''w''] [])) =
     (None, new_exec_state (empty_db [''w''] []))"
  by (rule unknown_workspace_reported_duplicate) (simp add: new_exec_state_def empty_db_def)

text \<open>\<^verbatim>\<open>claim_orphaned_jobs\<close> buries every given worker and reports exactly the jobs they held; but as long
  as jobs have the statuses of the pipeline, it resets none of them: it looks for status
  \<open>running\<close>, which is no job status.\<close>

theorem orphaned_jobs_reported_not_reset:
  assumes "\<forall>r \<in> set (db_jobs (ex_db s)). jr_status r \<in> range job_status_value"
  shows "set (fst (claim_orphaned_jobs now ws s)) = {j. \<exists>w \<in> set ws. worker_job s w = Some j} \<and>
     (\<forall>l \<in> set (ex_leases (snd (claim_orphaned_jobs now ws s))). wl_worker_id l \<in> set ws \<longrightarrow>
        wl_status l = ''dead'' \<and> wl_current_job_id l = None) \<and>
     ex_db (snd (claim_orphaned_jobs now ws s)) = ex_db s"
  using claim_reports [of now ws s] claim_db_known_status [OF assms, of now ws]
    buried_not_active [of _ ws "ex_leases s"]
  by (auto simp: claim_leases dead_in_def)

definition busy_state :: exec_state where
  "busy_state = heartbeat ''w1'' (Some ''j'') None 1
     (snd (acquire_lease ''w1'' ''host'' 7 None 0 (new_exec_state (empty_db [''w''] []))))"

theorem orphaned_jobs_reported_not_reset_witness:
  "set (fst (claim_orphaned_jobs 200 [''w1''] busy_state)) = {''j''} \<and>
     ex_db (snd (claim_orphaned_jobs 200 [''w1''] busy_state)) = ex_db busy_state"
proof -
  have "\<forall>r \<in> set (db_jobs (ex_db busy_state)). jr_status r \<in> range job_status_value"
    by (simp add: busy_state_def heartbeat_def acquire_lease_def new_exec_state_def empty_db_def)
  from orphaned_jobs_reported_not_reset [OF this, of 200 "[''w1'']"]
  show ?thesis
    by (simp add: busy_state_def heartbeat_def acquire_lease_def new_exec_state_def empty_db_def worker_job_def)
qed

end
