(* ===== verification/Error_Strategy.thy ===== *)
theory Error_Strategy
  imports Execution
begin

text \<open>
  \<^verbatim>\<open>backend/core/error_strategy.py\<close>: the error categories, the table of responses, the classifier
  of exceptions and the degradation cascade. An exception is what the classifier reads of it: the
  name and module of its class, and the module and name of each of its base classes.
\<close>

datatype error_category = TRANSIENT | PERMANENT | INJECTION_DETECTED | TIMEOUT | RESOURCE | CONTRACT
  | UPSTREAM | MODEL

fun category_value :: "error_category \<Rightarrow> string" where
  "category_value TRANSIENT = ''transient''"
| "category_value PERMANENT = ''permanent''"
| "category_value INJECTION_DETECTED = ''injection''"
| "category_value TIMEOUT = ''timeout''"
| "category_value RESOURCE = ''resource''"
| "category_value CONTRACT = ''contract''"
| "category_value UPSTREAM = ''upstream''"
| "category_value MODEL = ''model''"

record error_response =
  er_category :: error_category
  er_should_retry :: bool
  er_max_retries :: nat
  er_backoff_ms :: "int list"
  er_fallback_strategy :: "string option"

fun ERROR_RESPONSES :: "error_category \<Rightarrow> error_response" where
  "ERROR_RESPONSES TRANSIENT =
     \<lparr>er_category = TRANSIENT, er_should_retry = True, er_max_retries = 3,
      er_backoff_ms = [1000, 5000, 15000], er_fallback_strategy = Some ''dead_letter''\<rparr>"
| "ERROR_RESPONSES PERMANENT =
     \<lparr>er_category = PERMANENT, er_should_retry = False, er_max_retries = 0,
      er_backoff_ms = [], er_fallback_strategy = None\<rparr>"
| "ERROR_RESPONSES INJECTION_DETECTED =
     \<lparr>er_category = INJECTION_DETECTED, er_should_retry = False, er_max_retries = 0,
      er_backoff_ms = [], er_fallback_strategy = Some ''halt_quarantine''\<rparr>"
| "ERROR_RESPONSES TIMEOUT =
     \<lparr>er_category = TIMEOUT, er_should_retry = True, er_max_retries = 1,
      er_backoff_ms = [0], er_fallback_strategy = Some ''simplify_plan''\<rparr>"
| "ERROR_RESPONSES RESOURCE =
     \<lparr>er_category = RESOURCE, er_should_retry = True, er_max_retries = 2,
      er_backoff_ms = [10000, 30000], er_fallback_strategy = Some ''fallback_model''\<rparr>"
| "ERROR_RESPONSES CONTRACT =
     \<lparr>er_category = CONTRACT, er_should_retry = True, er_max_retries = 1,
      er_backoff_ms = [0], er_fallback_strategy = Some ''partial_delivery''\<rparr>"
| "ERROR_RESPONSES UPSTREAM =
     \<lparr>er_category = UPSTREAM, er_should_retry = False, er_max_retries = 0,
      er_backoff_ms = [], er_fallback_strategy = None\<rparr>"
| "ERROR_RESPONSES MODEL =
     \<lparr>er_category = MODEL, er_should_retry = True, er_max_retries = 2,
      er_backoff_ms = [5000, 15000], er_fallback_strategy = Some ''fallback_model''\<rparr>"

section \<open>Classification\<close>

record py_exception =
  px_type_name :: string
  px_module :: string
  px_bases :: "(string \<times> string) list"

definition builtin_class :: "string \<Rightarrow> string \<times> string" where
  "builtin_class name = (''builtins'', name)"

definition is_instance :: "py_exception \<Rightarrow> (string \<times> string) list \<Rightarrow> bool" where
  "is_instance e classes \<longleftrightarrow>
     list_ex (\<lambda>c. c \<in> set ((px_module e, px_type_name e) # px_bases e)) classes"

definition HTTPX_TRANSIENT :: "string list" where
  "HTTPX_TRANSIENT = [''ConnectError'', ''RemoteProtocolError'', ''NetworkError'', ''HTTPStatusError'', ''RequestError'']"

definition classify_error :: "py_exception \<Rightarrow> error_category" where
  "classify_error e =
     (if is_instance e [builtin_class ''TimeoutError'', (''asyncio.exceptions'', ''TimeoutError'')] then TIMEOUT
      else if contains ''httpx'' (px_module e) \<and> contains ''Timeout'' (px_type_name e) then TIMEOUT
      else if is_instance e [builtin_class ''ConnectionError''] then TRANSIENT
      else if contains ''httpx'' (px_module e) \<and> px_type_name e \<in> set HTTPX_TRANSIENT then TRANSIENT
      else if is_instance e [builtin_class ''MemoryError''] then RESOURCE
      else if is_instance e (map builtin_class
             [''FileNotFoundError'', ''ValueError'', ''TypeError'', ''UnicodeDecodeError''])
      then PERMANENT
      else TRANSIENT)"

section \<open>The cascade\<close>

fun CASCADE_ACTIONS :: "error_category \<Rightarrow> string list" where
  "CASCADE_ACTIONS TRANSIENT = [''retry'', ''retry'', ''retry'', ''dead_letter'']"
| "CASCADE_ACTIONS PERMANENT = [''dead_letter'']"
| "CASCADE_ACTIONS INJECTION_DETECTED = [''dead_letter'']"
| "CASCADE_ACTIONS TIMEOUT = [''retry'', ''simplify'']"
| "CASCADE_ACTIONS RESOURCE = [''retry'', ''retry'', ''fallback_model'']"
| "CASCADE_ACTIONS CONTRACT = [''retry'', ''partial_delivery'']"
| "CASCADE_ACTIONS UPSTREAM = [''dead_letter'']"
| "CASCADE_ACTIONS MODEL = [''retry'', ''retry'', ''fallback_model'']"

definition next_action :: "error_category \<Rightarrow> nat \<Rightarrow> string" where
  "next_action c attempt =
     (if attempt < length (CASCADE_ACTIONS c) then CASCADE_ACTIONS c ! attempt else ''dead_letter'')"

definition backoff_for :: "error_category \<Rightarrow> nat \<Rightarrow> int" where
  "backoff_for c attempt =
     (let ms = er_backoff_ms (ERROR_RESPONSES c)
      in if ms = [] then 0 else ms ! min attempt (length ms - 1))"

text \<open>
  What a job runner that follows the cascade does: the actions from a given attempt on, stopping
  at the first that is not a retry.
\<close>

fun follow :: "nat \<Rightarrow> error_category \<Rightarrow> nat \<Rightarrow> string list" where
  "follow 0 c attempt = []"
| "follow (Suc n) c attempt =
     (let a = next_action c attempt in a # (if a = ''retry'' then follow n c (Suc attempt) else []))"

lemma next_action_retry_iff: "next_action c k = ''retry'' \<longleftrightarrow> k < er_max_retries (ERROR_RESPONSES c)"
  by (cases c) (auto simp: next_action_def nth_Cons' numeral_eq_Suc less_Suc_eq)

lemma backoff_nonneg: "0 \<le> backoff_for c k"
  by (cases c) (auto simp: backoff_for_def Let_def nth_Cons' min_def)

lemma backoff_sorted: "sorted (er_backoff_ms (ERROR_RESPONSES c))"
  by (cases c) simp_all

lemma backoff_mono:
  assumes "k \<le> l"
  shows "backoff_for c k \<le> backoff_for c l"
proof (cases "er_backoff_ms (ERROR_RESPONSES c) = []")
  case True
  then show ?thesis by (simp add: backoff_for_def)
next
  case False
  let ?ms = "er_backoff_ms (ERROR_RESPONSES c)"
  from False have "min l (length ?ms - 1) < length ?ms" by (cases ?ms) auto
  moreover have "min k (length ?ms - 1) \<le> min l (length ?ms - 1)" using assms by simp
  ultimately have "?ms ! min k (length ?ms - 1) \<le> ?ms ! min l (length ?ms - 1)"
    using backoff_sorted by (metis sorted_nth_mono)
  with False show ?thesis by (simp add: backoff_for_def Let_def)
qed

lemma follow_retries:
  "k + m = er_max_retries (ERROR_RESPONSES c) \<Longrightarrow> m < n \<Longrightarrow>
     follow n c k = replicate m ''retry'' @ [next_action c (er_max_retries (ERROR_RESPONSES c))]"
proof (induction m arbitrary: k n)
  case 0
  then obtain n' where "n = Suc n'" by (cases n) auto
  with 0 next_action_retry_iff [of c k] show ?case by (simp add: Let_def)
next
  case (Suc m)
  then obtain n' where n: "n = Suc n'" by (cases n) auto
  from Suc.prems have "next_action c k = ''retry''" by (simp add: next_action_retry_iff)
  with Suc.IH [of "Suc k" n'] Suc.prems n show ?case by (simp add: Let_def)
qed

section \<open>Properties\<close>

text \<open>The cascade and the response table agree on retries: a runner that follows the cascade retries
  exactly \<open>max_retries\<close> times, then takes one last action that is no retry, and stops; the waits
  before the retries are never negative and never get shorter.\<close>

theorem cascade_follows_retry_policy:
  assumes "er_max_retries (ERROR_RESPONSES c) < n"
  shows "follow n c 0 = replicate (er_max_retries (ERROR_RESPONSES c)) ''retry'' @
      [next_action c (er_max_retries (ERROR_RESPONSES c))] \<and>
    next_action c (er_max_retries (ERROR_RESPONSES c)) \<noteq> ''retry'' \<and>
    0 \<le> backoff_for c k \<and> backoff_for c k \<le> backoff_for c (k + l) \<and>
    (er_should_retry (ERROR_RESPONSES c) \<longleftrightarrow> 0 < er_max_retries (ERROR_RESPONSES c))"
  using follow_retries [of 0 "er_max_retries (ERROR_RESPONSES c)" c n] assms
    next_action_retry_iff [of c "er_max_retries (ERROR_RESPONSES c)"]
    backoff_nonneg [of c k] backoff_mono [of k "k + l" c]
  by (simp_all, cases c) simp_all

theorem cascade_follows_retry_policy_witness:
  "follow 9 TRANSIENT 0 = replicate 3 ''retry'' @ [next_action TRANSIENT 3]"
  using cascade_follows_retry_policy [of TRANSIENT 9] by simp

text \<open>The cascade's last action is the fallback the response table documents for four of the eight
  categories only: the table quarantines an injection, simplifies the plan on a timeout and has no
  fallback for permanent and upstream errors, where the cascade dead-letters or says \<open>simplify\<close>.\<close>

theorem cascade_fallback_agrees_iff:
  "er_fallback_strategy (ERROR_RESPONSES c) = Some (next_action c (er_max_retries (ERROR_RESPONSES c))) \<longleftrightarrow>
     c \<in> {TRANSIENT, RESOURCE, CONTRACT, MODEL}"
  by (cases c) (simp_all add: next_action_def)

text \<open>A failed attempt keeps its error category, except a detected injection: the enum's value
  \<open>injection\<close> is not one \<^verbatim>\<open>fail_attempt\<close> knows, so the attempt is stored as \<open>transient\<close>, the
  category that is retried.\<close>

theorem injection_stored_as_transient:
  assumes "a \<in> set (ex_attempts (fail_attempt i err (category_value c) now s))" "at_id a = i"
  shows "at_status a = ''failed'' \<and>
    at_error_category a = Some (if c = INJECTION_DETECTED then ''transient'' else category_value c)"
proof -
  have valid: "category_value c \<in> VALID_ERROR_CATEGORIES \<longleftrightarrow> c \<noteq> INJECTION_DETECTED"
    by (cases c) (simp_all add: VALID_ERROR_CATEGORIES_def)
  from assms(1) obtain b where "a = (if at_id b = i then b\<lparr>at_status := ''failed'', at_completed_at := Some now,
      at_error := Some err, at_error_category :=
        Some (if category_value c \<in> VALID_ERROR_CATEGORIES then category_value c else ''transient'')\<rparr> else b)"
    by (auto simp: fail_attempt_def Let_def in_sql_update)
  with assms(2) valid show ?thesis by (cases "at_id b = i") auto
qed

theorem injection_stored_as_transient_witness:
  "\<forall>a. a = hd (ex_attempts (fail_attempt ''a1'' ''bad'' (category_value INJECTION_DETECTED) 5
       (snd (projr (start_attempt ''n1'' 1 None None ''a1'' 0 (new_exec_state (empty_db [] []))))))) \<longrightarrow>
     at_error_category a = Some ''transient''"
proof -
  let ?s = "snd (projr (start_attempt ''n1'' 1 None None ''a1'' 0 (new_exec_state (empty_db [] []))))"
  let ?a = "hd (ex_attempts (fail_attempt ''a1'' ''bad'' (category_value INJECTION_DETECTED) 5 ?s))"
  have "?a \<in> set (ex_attempts (fail_attempt ''a1'' ''bad'' (category_value INJECTION_DETECTED) 5 ?s))"
    "at_id ?a = ''a1''"
    by (simp_all add: fail_attempt_def start_attempt_def new_exec_state_def Let_def)
  from injection_stored_as_transient [OF this] show ?thesis by simp
qed

end
