(* ===== verification/Gpu_Manager.thy ===== *)
theory Gpu_Manager
  imports Prelude
begin

text \<open>
  \<^verbatim>\<open>backend/core/gpu_manager.py\<close>: the VRAM semaphore. The dict of loaded models is the list of its
  items in insertion order. A coroutine holds the lock for one round of \<open>acquire\<close>, so a round is
  one step; between two rounds it waits, and what other tasks do meanwhile is an argument of the
  loop, as are the readings of the clock and the fresh slot id. Megabytes are natural numbers.
\<close>

record model_slot =
  ms_model_id :: string
  ms_lora_id :: "string option"
  ms_vram_mb :: nat
  ms_loaded_at :: timestamp
  ms_last_used_at :: timestamp
  ms_job_id :: "ident option"

record inference_slot =
  is_slot_id :: ident
  is_model_id :: string
  is_lora_id :: "string option"
  is_vram_mb :: nat
  is_acquired_at :: timestamp

record gpu_manager =
  gm_loaded_models :: "(string \<times> model_slot) list"
  gm_vram_total_mb :: nat
  gm_vram_allocated_mb :: nat
  gm_waiters :: "ident list"

definition new_gpu_manager :: "nat \<Rightarrow> gpu_manager" where
  "new_gpu_manager total_mb =
     \<lparr>gm_loaded_models = [], gm_vram_total_mb = total_mb, gm_vram_allocated_mb = 0, gm_waiters = []\<rparr>"

text \<open>\<^verbatim>\<open>f"{model_id}:{lora_id or '_'}"\<close>.\<close>

definition model_key :: "string \<Rightarrow> string option \<Rightarrow> string" where
  "model_key model lora =
     model @ '':'' @ (case lora of None \<Rightarrow> ''_'' | Some l \<Rightarrow> if l = [] then ''_'' else l)"

definition touch :: "timestamp \<Rightarrow> model_slot \<Rightarrow> model_slot" where
  "touch now ms = ms\<lparr>ms_last_used_at := now\<rparr>"

definition can_fit :: "gpu_manager \<Rightarrow> nat \<Rightarrow> bool" where
  "can_fit g mb \<longleftrightarrow> gm_vram_allocated_mb g + mb \<le> gm_vram_total_mb g"

definition new_slot :: "ident \<Rightarrow> string \<Rightarrow> string option \<Rightarrow> nat \<Rightarrow> timestamp \<Rightarrow> inference_slot" where
  "new_slot i model lora mb now =
     \<lparr>is_slot_id = i, is_model_id = model, is_lora_id = lora, is_vram_mb = mb, is_acquired_at = now\<rparr>"

definition allocate_new ::
  "string \<Rightarrow> string option \<Rightarrow> nat \<Rightarrow> ident \<Rightarrow> timestamp \<Rightarrow> gpu_manager \<Rightarrow> inference_slot \<times> gpu_manager" where
  "allocate_new model lora mb i now g =
     (new_slot i model lora mb now,
      g\<lparr>gm_loaded_models := dict_put (model_key model lora)
           \<lparr>ms_model_id = model, ms_lora_id = lora, ms_vram_mb = mb, ms_loaded_at = now,
            ms_last_used_at = now, ms_job_id = None\<rparr> (gm_loaded_models g),
        gm_vram_allocated_mb := gm_vram_allocated_mb g + mb\<rparr>)"

text \<open>
  The loop of \<^verbatim>\<open>_evict_lru_locked\<close> over the candidates, oldest first: the keys to evict and the
  manager with its counter reduced (\<^verbatim>\<open>max(0, a - b)\<close> is the difference of natural numbers).
\<close>

fun evict_loop :: "nat \<Rightarrow> (string \<times> model_slot) list \<Rightarrow> gpu_manager \<Rightarrow> string list \<times> gpu_manager" where
  "evict_loop needed [] g = ([], g)"
| "evict_loop needed ((k, ms) # cands) g =
     (if can_fit g needed then ([], g)
      else (let (ks, g') = evict_loop needed cands
                  (g\<lparr>gm_vram_allocated_mb := gm_vram_allocated_mb g - ms_vram_mb ms\<rparr>)
            in (k # ks, g')))"

definition evict_lru :: "nat \<Rightarrow> gpu_manager \<Rightarrow> bool \<times> gpu_manager" where
  "evict_lru needed g =
     (let cands = order_by (\<lambda>(k, ms). ms_last_used_at ms) (gm_loaded_models g);
          (ks, g1) = evict_loop needed cands g;
          g2 = g1\<lparr>gm_loaded_models := filter (\<lambda>(k, ms). k \<notin> set ks) (gm_loaded_models g1)\<rparr>
      in (can_fit g2 needed, g2))"

text \<open>One round of \<open>acquire\<close> under the lock: a slot, or none and the caller has to wait.\<close>

definition swappable :: "string \<Rightarrow> string option \<Rightarrow> string \<times> model_slot \<Rightarrow> bool" where
  "swappable model lora = (\<lambda>(k, ms). starts_with (model @ '':'') k \<and> k \<noteq> model_key model lora)"

definition acquire_round ::
  "string \<Rightarrow> string option \<Rightarrow> nat \<Rightarrow> ident \<Rightarrow> timestamp \<Rightarrow> gpu_manager \<Rightarrow> inference_slot option \<times> gpu_manager" where
  "acquire_round model lora mb i now g =
     (let key = model_key model lora; loaded = gm_loaded_models g in
      case map_of loaded key of
        Some ms \<Rightarrow>
          (Some (new_slot i model lora 0 now),
           g\<lparr>gm_loaded_models := dict_put key (touch now ms) loaded\<rparr>)
      | None \<Rightarrow>
          (case find (swappable model lora) loaded of
             Some (k, ms) \<Rightarrow>
               (Some (new_slot i model lora 0 now),
                g\<lparr>gm_loaded_models :=
                   dict_put key (touch now (ms\<lparr>ms_lora_id := lora\<rparr>)) (dict_del k loaded)\<rparr>)
           | None \<Rightarrow>
               (if can_fit g mb
                then (let (slot, g') = allocate_new model lora mb i now g in (Some slot, g'))
                else (let (evicted, g1) = evict_lru mb g
                      in if evicted \<and> can_fit g1 mb
                         then (let (slot, g') = allocate_new model lora mb i now g1 in (Some slot, g'))
                         else (None, g1)))))"

text \<open>
  A round of the loop of \<open>acquire\<close> that fails reads the clock, registers its waiter and waits: it
  is woken or times out, after other tasks have changed the manager. \<open>None\<close> as a result means
  that the task still waits after the given rounds.
\<close>

record wait_round =
  wr_now :: timestamp
  wr_clock :: timestamp
  wr_waiter :: ident
  wr_woken :: bool
  wr_others :: "gpu_manager \<Rightarrow> gpu_manager"

fun acquire_loop ::
  "string \<Rightarrow> string option \<Rightarrow> nat \<Rightarrow> ident \<Rightarrow> timestamp \<Rightarrow> wait_round list \<Rightarrow> gpu_manager \<Rightarrow>
   inference_slot result option \<times> gpu_manager" where
  "acquire_loop model lora mb i deadline [] g = (None, g)"
| "acquire_loop model lora mb i deadline (w # ws) g =
     (case acquire_round model lora mb i (wr_now w) g of
        (Some slot, g1) \<Rightarrow> (Some (Inr slot), g1)
      | (None, g1) \<Rightarrow>
          if deadline \<le> wr_clock w then (Some (Inl TimeoutError), g1)
          else (let g2 = wr_others w (g1\<lparr>gm_waiters := gm_waiters g1 @ [wr_waiter w]\<rparr>);
                    g3 = g2\<lparr>gm_waiters := remove1 (wr_waiter w) (gm_waiters g2)\<rparr>
                in if wr_woken w then acquire_loop model lora mb i deadline ws g3
                   else (Some (Inl TimeoutError), g3)))"

definition acquire ::
  "string \<Rightarrow> string option \<Rightarrow> nat \<Rightarrow> ident \<Rightarrow> timestamp \<Rightarrow> timestamp \<Rightarrow> wait_round list \<Rightarrow> gpu_manager \<Rightarrow>
   inference_slot result option \<times> gpu_manager" where
  "acquire model lora mb i start timeout ws g =
     (if gm_vram_total_mb g < mb then (Some (Inl (ValueError ''exceeds total VRAM'')), g)
      else acquire_loop model lora mb i (start + timeout) ws g)"

definition release :: "inference_slot \<Rightarrow> gpu_manager \<Rightarrow> gpu_manager" where
  "release slot g =
     g\<lparr>gm_vram_allocated_mb :=
          (if 0 < is_vram_mb slot then gm_vram_allocated_mb g - is_vram_mb slot
           else gm_vram_allocated_mb g),
       gm_waiters := []\<rparr>"

record gpu_status =
  gs_vram_total_mb :: nat
  gs_vram_allocated_mb :: nat
  gs_vram_free_mb :: int
  gs_loaded_models :: "model_slot list"
  gs_loaded_model_count :: nat
  gs_waiters :: nat

definition get_status :: "gpu_manager \<Rightarrow> gpu_status" where
  "get_status g =
     \<lparr>gs_vram_total_mb = gm_vram_total_mb g, gs_vram_allocated_mb = gm_vram_allocated_mb g,
      gs_vram_free_mb = int (gm_vram_total_mb g) - int (gm_vram_allocated_mb g),
      gs_loaded_models = map snd (gm_loaded_models g),
      gs_loaded_model_count = length (gm_loaded_models g), gs_waiters = length (gm_waiters g)\<rparr>"

section \<open>Eviction\<close>

definition vram_of :: "(string \<times> model_slot) list \<Rightarrow> nat" where
  "vram_of kvs = (\<Sum>(k, ms) \<leftarrow> kvs. ms_vram_mb ms)"

lemma vram_of_simps [simp]:
  "vram_of [] = 0" "vram_of ((k, ms) # kvs) = ms_vram_mb ms + vram_of kvs"
  "vram_of (xs @ ys) = vram_of xs + vram_of ys"
  by (simp_all add: vram_of_def)

lemma vram_of_mset: "mset xs = mset ys \<Longrightarrow> vram_of xs = vram_of ys"
  unfolding vram_of_def by (metis mset_map sum_mset_sum_list)

definition candidates :: "gpu_manager \<Rightarrow> (string \<times> model_slot) list" where
  "candidates g = order_by (\<lambda>(k, ms). ms_last_used_at ms) (gm_loaded_models g)"

text \<open>The loop takes the shortest sufficient prefix of its candidates.\<close>

lemma evict_loop_prefix:
  "\<exists>n \<le> length cands.
     evict_loop needed cands g =
       (map fst (take n cands), g\<lparr>gm_vram_allocated_mb := gm_vram_allocated_mb g - vram_of (take n cands)\<rparr>) \<and>
     (\<forall>m < n. gm_vram_total_mb g < gm_vram_allocated_mb g - vram_of (take m cands) + needed) \<and>
     (n = length cands \<or> gm_vram_allocated_mb g - vram_of (take n cands) + needed \<le> gm_vram_total_mb g)"
proof (induction needed cands g rule: evict_loop.induct)
  case (1 needed g)
  then show ?case by simp
next
  case (2 needed k ms cands g)
  show ?case
  proof (cases "can_fit g needed")
    case True
    then show ?thesis by (intro exI [of _ 0]) (simp add: can_fit_def)
  next
    case False
    from "2.IH" [OF False] obtain n where n: "n \<le> length cands"
      "evict_loop needed cands (g\<lparr>gm_vram_allocated_mb := gm_vram_allocated_mb g - ms_vram_mb ms\<rparr>) =
         (map fst (take n cands),
          g\<lparr>gm_vram_allocated_mb := gm_vram_allocated_mb g - ms_vram_mb ms - vram_of (take n cands)\<rparr>)"
      "\<forall>m < n. gm_vram_total_mb g <
         gm_vram_allocated_mb g - ms_vram_mb ms - vram_of (take m cands) + needed"
      "n = length cands \<or>
         gm_vram_allocated_mb g - ms_vram_mb ms - vram_of (take n cands) + needed \<le> gm_vram_total_mb g"
      by auto
    have "gm_vram_total_mb g < gm_vram_allocated_mb g - vram_of (take m ((k, ms) # cands)) + needed"
      if "m < Suc n" for m
      using that n(3) False by (cases m) (auto simp: can_fit_def)
    with n False show ?thesis by (intro exI [of _ "Suc n"]) simp
  qed
qed

lemma filter_keys_take:
  assumes "distinct (map fst xs)"
  shows "filter (\<lambda>(k, v). k \<notin> fst ` set (take n xs)) xs = drop n xs"
proof -
  let ?keep = "\<lambda>(k, v). k \<notin> fst ` set (take n xs)"
  have "filter ?keep (take n xs) = []" by (auto simp: filter_empty_conv image_iff)
  moreover have "distinct (map fst (take n xs) @ map fst (drop n xs))"
    using assms by (metis append_take_drop_id map_append)
  then have "filter ?keep (drop n xs) = drop n xs" by (force simp: filter_id_conv)
  ultimately have "filter ?keep (take n xs @ drop n xs) = drop n xs" unfolding filter_append by simp
  then show ?thesis unfolding append_take_drop_id .
qed

text \<open>
  What eviction does: for some \<open>n\<close>, exactly the \<open>n\<close> least recently used models go, no fewer would
  have been enough, and the counter drops by their size.
\<close>

lemma evict_lru_effect:
  assumes "distinct (map fst (gm_loaded_models g))" "evict_lru needed g = (ok, g')"
  shows "\<exists>n \<le> length (candidates g).
     mset (gm_loaded_models g') = mset (drop n (candidates g)) \<and>
     gm_vram_allocated_mb g' = gm_vram_allocated_mb g - vram_of (take n (candidates g)) \<and>
     gm_vram_total_mb g' = gm_vram_total_mb g \<and>
     distinct (map fst (gm_loaded_models g')) \<and>
     set (gm_loaded_models g') \<subseteq> set (gm_loaded_models g) \<and>
     (\<forall>m < n. gm_vram_total_mb g < gm_vram_allocated_mb g - vram_of (take m (candidates g)) + needed) \<and>
     (ok \<longleftrightarrow> can_fit g' needed) \<and> (ok \<or> n = length (candidates g))"
proof -
  let ?c = "candidates g"
  from evict_loop_prefix [of ?c needed g] obtain n where n: "n \<le> length ?c"
    "evict_loop needed ?c g =
       (map fst (take n ?c), g\<lparr>gm_vram_allocated_mb := gm_vram_allocated_mb g - vram_of (take n ?c)\<rparr>)"
    "\<forall>m < n. gm_vram_total_mb g < gm_vram_allocated_mb g - vram_of (take m ?c) + needed"
    "n = length ?c \<or> gm_vram_allocated_mb g - vram_of (take n ?c) + needed \<le> gm_vram_total_mb g"
    by blast
  let ?keep = "\<lambda>(k, ms). k \<notin> fst ` set (take n ?c)"
  have g': "g' = g\<lparr>gm_vram_allocated_mb := gm_vram_allocated_mb g - vram_of (take n ?c),
      gm_loaded_models := filter ?keep (gm_loaded_models g)\<rparr>" and ok: "ok = can_fit g' needed"
    using assms(2) n(2) by (auto simp: evict_lru_def candidates_def Let_def)
  have ms: "mset ?c = mset (gm_loaded_models g)" by (simp add: candidates_def)
  then have "distinct (map fst ?c)" using assms(1) by (metis mset_eq_imp_distinct_iff mset_map)
  then have "filter ?keep ?c = drop n ?c" by (rule filter_keys_take)
  moreover have "mset (filter ?keep ?c) = mset (filter ?keep (gm_loaded_models g))"
    using ms by (simp only: mset_filter)
  moreover have loaded: "gm_loaded_models g' = filter ?keep (gm_loaded_models g)" by (simp add: g')
  ultimately have kept: "mset (gm_loaded_models g') = mset (drop n ?c)" by simp
  moreover have "distinct (map fst (gm_loaded_models g'))"
    unfolding loaded using assms(1) by (rule distinct_map_filter)
  moreover have "set (gm_loaded_models g') \<subseteq> set (gm_loaded_models g)" unfolding loaded by auto
  moreover have counters: "gm_vram_allocated_mb g' = gm_vram_allocated_mb g - vram_of (take n ?c)"
    "gm_vram_total_mb g' = gm_vram_total_mb g" by (simp_all add: g')
  moreover have "ok \<or> n = length ?c" using n(4) by (simp only: ok can_fit_def counters) blast
  ultimately show ?thesis using n(1,3) ok by blast
qed

lemma lru_order:
  assumes "x \<in> set (take n (candidates g))" "y \<in> set (drop n (candidates g))"
  shows "ms_last_used_at (snd x) \<le> ms_last_used_at (snd y)"
proof -
  let ?k = "\<lambda>(k :: string, ms). ms_last_used_at ms"
  have "sorted (map ?k (take n (candidates g)) @ map ?k (drop n (candidates g)))"
    unfolding map_append [symmetric] append_take_drop_id candidates_def by (rule sorted_order_by)
  then have "\<forall>a \<in> set (map ?k (take n (candidates g))). \<forall>b \<in> set (map ?k (drop n (candidates g))). a \<le> b"
    unfolding sorted_append by blast
  with assms show ?thesis by (force simp: case_prod_beta)
qed

section \<open>The counter\<close>

definition gpu_inv :: "gpu_manager \<Rightarrow> bool" where
  "gpu_inv g \<longleftrightarrow> gm_vram_allocated_mb g \<le> gm_vram_total_mb g \<and> distinct (map fst (gm_loaded_models g))"

text \<open>The counter is the size of what is loaded.\<close>

definition books_balanced :: "gpu_manager \<Rightarrow> bool" where
  "books_balanced g \<longleftrightarrow> gm_vram_allocated_mb g = vram_of (gm_loaded_models g)"

lemma vram_dict_put_new: "k \<notin> fst ` set kvs \<Longrightarrow> vram_of (dict_put k v kvs) = vram_of kvs + ms_vram_mb v"
  by (simp add: dict_put_def)

lemma vram_dict_put_same:
  assumes "distinct (map fst kvs)" "map_of kvs k = Some old" "ms_vram_mb v = ms_vram_mb old"
  shows "vram_of (dict_put k v kvs) = vram_of kvs"
proof -
  have "vram_of (map (\<lambda>(k', v'). if k' = k then (k, v) else (k', v')) kvs) = vram_of kvs"
    using assms
  proof (induction kvs)
    case Nil
    then show ?case by simp
  next
    case (Cons x kvs)
    show ?case
    proof (cases "fst x = k")
      case True
      with Cons.prems have "\<forall>y \<in> set kvs. fst y \<noteq> k" by (auto simp: image_iff)
      then have "map (\<lambda>(k', v'). if k' = k then (k, v) else (k', v')) kvs = kvs"
        by (intro map_idI) (auto split: prod.split)
      with True Cons.prems show ?thesis by (cases x) auto
    next
      case False
      with Cons show ?thesis by (cases x) auto
    qed
  qed
  moreover from assms(2) have "k \<in> fst ` set kvs" by (metis domI dom_map_of_conv_image_fst)
  ultimately show ?thesis by (simp add: dict_put_def)
qed

lemma vram_dict_del:
  assumes "distinct (map fst kvs)" "(k, ms) \<in> set kvs"
  shows "vram_of (dict_del k kvs) + ms_vram_mb ms = vram_of kvs"
  using assms
proof (induction kvs)
  case Nil
  then show ?case by simp
next
  case (Cons x kvs)
  show ?case
  proof (cases "fst x = k")
    case True
    with Cons.prems(1) have away: "\<forall>y \<in> set kvs. fst y \<noteq> k" by (auto simp: image_iff)
    then have "dict_del k kvs = kvs" by (auto simp: dict_del_def filter_id_conv)
    moreover from Cons.prems(2) away have "x = (k, ms)" by auto
    ultimately show ?thesis by (simp add: dict_del_def)
  next
    case False
    with Cons show ?thesis by (cases x) (auto simp: dict_del_def)
  qed
qed

text \<open>The three ways a round ends: a loaded model reused, its adapter swapped, or room made.\<close>

lemma allocate_new_inv:
  assumes "gpu_inv g" "can_fit g mb" "model_key model lora \<notin> fst ` set (gm_loaded_models g)"
  shows "gpu_inv (snd (allocate_new model lora mb i now g))"
    and "books_balanced g \<Longrightarrow> books_balanced (snd (allocate_new model lora mb i now g))"
  using assms
  by (auto simp: allocate_new_def gpu_inv_def can_fit_def books_balanced_def distinct_dict_put vram_dict_put_new)

lemma evict_lru_inv:
  assumes "gpu_inv g"
  shows "gpu_inv (snd (evict_lru needed g))"
    and "books_balanced g \<Longrightarrow> books_balanced (snd (evict_lru needed g))"
    and "set (gm_loaded_models (snd (evict_lru needed g))) \<subseteq> set (gm_loaded_models g)"
    and "fst (evict_lru needed g) \<longleftrightarrow> can_fit (snd (evict_lru needed g)) needed"
proof -
  obtain ok g' where e: "evict_lru needed g = (ok, g')" by fastforce
  from assms have d: "distinct (map fst (gm_loaded_models g))" by (simp add: gpu_inv_def)
  from evict_lru_effect [OF d e] obtain n where n:
    "mset (gm_loaded_models g') = mset (drop n (candidates g))"
    "gm_vram_allocated_mb g' = gm_vram_allocated_mb g - vram_of (take n (candidates g))"
    "gm_vram_total_mb g' = gm_vram_total_mb g" "distinct (map fst (gm_loaded_models g'))"
    "set (gm_loaded_models g') \<subseteq> set (gm_loaded_models g)" "ok \<longleftrightarrow> can_fit g' needed" by blast
  from n(2,3,4) assms have "gpu_inv g'" by (auto simp: gpu_inv_def)
  with e show "gpu_inv (snd (evict_lru needed g))" by simp
  from e n(5) show "set (gm_loaded_models (snd (evict_lru needed g))) \<subseteq> set (gm_loaded_models g)" by simp
  from e n(6) show "fst (evict_lru needed g) \<longleftrightarrow> can_fit (snd (evict_lru needed g)) needed" by simp
  assume "books_balanced g"
  then have "gm_vram_allocated_mb g = vram_of (candidates g)"
    by (simp add: books_balanced_def candidates_def vram_of_mset [of "order_by _ _" "gm_loaded_models g"])
  also have "\<dots> = vram_of (take n (candidates g)) + vram_of (drop n (candidates g))"
    by (metis append_take_drop_id vram_of_simps(3))
  finally have "books_balanced g'" using n(1,2) by (simp add: books_balanced_def vram_of_mset [OF n(1)])
  with e show "books_balanced (snd (evict_lru needed g))" by simp
qed

lemma touch_loaded_inv:
  assumes "gpu_inv g" "map_of (gm_loaded_models g) k = Some ms"
  shows "gpu_inv (g\<lparr>gm_loaded_models := dict_put k (touch now ms) (gm_loaded_models g)\<rparr>)"
    and "books_balanced g \<Longrightarrow>
           books_balanced (g\<lparr>gm_loaded_models := dict_put k (touch now ms) (gm_loaded_models g)\<rparr>)"
  using assms by (auto simp: gpu_inv_def books_balanced_def distinct_dict_put touch_def vram_dict_put_same)

lemma swap_loaded_inv:
  assumes "gpu_inv g" "map_of (gm_loaded_models g) key = None" "(k, ms) \<in> set (gm_loaded_models g)"
    and "ms_vram_mb ms' = ms_vram_mb ms"
  shows "gpu_inv (g\<lparr>gm_loaded_models := dict_put key ms' (dict_del k (gm_loaded_models g))\<rparr>)"
    and "books_balanced g \<Longrightarrow>
           books_balanced (g\<lparr>gm_loaded_models := dict_put key ms' (dict_del k (gm_loaded_models g))\<rparr>)"
proof -
  from assms(2) have "key \<notin> fst ` set (gm_loaded_models g)" by (simp add: map_of_eq_None_iff)
  then have new: "key \<notin> fst ` set (dict_del k (gm_loaded_models g))" by (auto simp: dict_del_def)
  have d: "distinct (map fst (gm_loaded_models g))" using assms(1) by (simp add: gpu_inv_def)
  show "gpu_inv (g\<lparr>gm_loaded_models := dict_put key ms' (dict_del k (gm_loaded_models g))\<rparr>)"
    using assms(1) by (simp add: gpu_inv_def distinct_dict_put distinct_dict_del)
  show "books_balanced (g\<lparr>gm_loaded_models := dict_put key ms' (dict_del k (gm_loaded_models g))\<rparr>)"
    if "books_balanced g"
    using that vram_dict_del [OF d assms(3)] assms(4)
    by (simp add: books_balanced_def vram_dict_put_new [OF new])
qed

text \<open>Both invariants are kept by a round; the proof goes through its branches once.\<close>

lemma acquire_round_keeps:
  assumes "gpu_inv g"
  shows "gpu_inv (snd (acquire_round model lora mb i now g)) \<and>
         (books_balanced g \<longrightarrow> books_balanced (snd (acquire_round model lora mb i now g)))"
proof (cases "map_of (gm_loaded_models g) (model_key model lora)")
  case (Some ms)
  with touch_loaded_inv [OF assms Some, of now] show ?thesis by (simp add: acquire_round_def)
next
  case None
  note N = None
  show ?thesis
  proof (cases "find (swappable model lora) (gm_loaded_models g)")
    case (Some p)
    obtain k ms where p: "p = (k, ms)" by fastforce
    with Some have "(k, ms) \<in> set (gm_loaded_models g)" by (auto simp: find_Some_iff)
    from swap_loaded_inv [OF assms N this, of "touch now (ms\<lparr>ms_lora_id := lora\<rparr>)"] N Some p
    show ?thesis by (simp add: acquire_round_def touch_def)
  next
    case None
    from N have new: "model_key model lora \<notin> fst ` set (gm_loaded_models g)"
      by (simp add: map_of_eq_None_iff)
    show ?thesis
    proof (cases "can_fit g mb")
      case True
      with N None allocate_new_inv [OF assms True new, of i now] show ?thesis
        by (simp add: acquire_round_def case_prod_beta Let_def)
    next
      case False
      obtain ok g1 where e: "evict_lru mb g = (ok, g1)" by fastforce
      with evict_lru_inv [OF assms, of mb] have g1: "gpu_inv g1" "books_balanced g \<longrightarrow> books_balanced g1"
        "set (gm_loaded_models g1) \<subseteq> set (gm_loaded_models g)" by auto
      from new g1(3) have new1: "model_key model lora \<notin> fst ` set (gm_loaded_models g1)" by auto
      show ?thesis
      proof (cases "ok \<and> can_fit g1 mb")
        case True
        with N None False e g1(2) allocate_new_inv [OF g1(1) _ new1, of mb i now] show ?thesis
          by (simp add: acquire_round_def case_prod_beta Let_def)
      next
        case no: False
        with N None False e g1 show ?thesis by (auto simp: acquire_round_def case_prod_beta Let_def)
      qed
    qed
  qed
qed

text \<open>
  Commands: a round of \<open>acquire\<close> for a request that passed its guard, a release, an eviction, and
  a task that starts to wait.
\<close>

datatype gpu_command =
    G_round string "string option" nat ident timestamp
  | G_release inference_slot
  | G_evict nat
  | G_wait ident

fun gpu_step :: "gpu_command \<Rightarrow> gpu_manager \<Rightarrow> gpu_manager" where
  "gpu_step (G_round model lora mb i now) g =
     (if gm_vram_total_mb g < mb then g else snd (acquire_round model lora mb i now g))"
| "gpu_step (G_release slot) g = release slot g"
| "gpu_step (G_evict mb) g = snd (evict_lru mb g)"
| "gpu_step (G_wait w) g = g\<lparr>gm_waiters := gm_waiters g @ [w]\<rparr>"

lemma gpu_step_inv: "gpu_inv g \<Longrightarrow> gpu_inv (gpu_step c g)"
proof (cases c)
  case (G_round model lora mb i now)
  assume "gpu_inv g"
  with G_round acquire_round_keeps [of g model lora mb i now] show ?thesis by simp
next
  case (G_release slot)
  assume "gpu_inv g"
  with G_release show ?thesis by (auto simp: release_def gpu_inv_def)
next
  case (G_evict mb)
  assume "gpu_inv g"
  with G_evict evict_lru_inv(1) show ?thesis by simp
next
  case (G_wait w)
  assume "gpu_inv g"
  with G_wait show ?thesis by (simp add: gpu_inv_def)
qed

interpretation gpu_machine: store_machine gpu_step gpu_inv
  by unfold_locales (rule gpu_step_inv)

lemma gpu_inv_new [simp]: "gpu_inv (new_gpu_manager total_mb)" "books_balanced (new_gpu_manager total_mb)"
  by (simp_all add: gpu_inv_def books_balanced_def new_gpu_manager_def)

text \<open>The slot a reuse or an adapter swap hands out has no memory of its own to release.\<close>

definition frees_nothing :: "gpu_command \<Rightarrow> bool" where
  "frees_nothing c = (case c of G_release slot \<Rightarrow> is_vram_mb slot = 0 | _ \<Rightarrow> True)"

lemma balanced_step:
  "gpu_inv g \<Longrightarrow> books_balanced g \<Longrightarrow> frees_nothing c \<Longrightarrow> books_balanced (gpu_step c g)"
  using acquire_round_keeps [of g] evict_lru_inv(2) [of g]
  by (cases c) (auto simp: frees_nothing_def release_def books_balanced_def)

lemma balanced_run:
  "gpu_inv g \<Longrightarrow> books_balanced g \<Longrightarrow> \<forall>c \<in> set cs. frees_nothing c \<Longrightarrow>
     books_balanced (run_commands gpu_step cs g)"
  by (induction cs arbitrary: g) (auto intro: balanced_step gpu_step_inv)

section \<open>The loop\<close>

text \<open>The rounds keep the invariant as long as the other tasks do; then \<open>acquire\<close> does.\<close>

lemma acquire_loop_inv:
  assumes "\<And>w h. w \<in> set ws \<Longrightarrow> gpu_inv h \<Longrightarrow> gpu_inv (wr_others w h)" "gpu_inv g"
  shows "gpu_inv (snd (acquire_loop model lora mb i deadline ws g))"
  using assms
proof (induction ws arbitrary: g)
  case Nil
  then show ?case by simp
next
  case (Cons w ws)
  obtain r g1 where r: "acquire_round model lora mb i (wr_now w) g = (r, g1)" by fastforce
  with acquire_round_keeps [OF Cons.prems(2), of model lora mb i "wr_now w"] have g1: "gpu_inv g1" by simp
  let ?g2 = "wr_others w (g1\<lparr>gm_waiters := gm_waiters g1 @ [wr_waiter w]\<rparr>)"
  let ?g3 = "?g2\<lparr>gm_waiters := remove1 (wr_waiter w) (gm_waiters ?g2)\<rparr>"
  have "gpu_inv (g1\<lparr>gm_waiters := gm_waiters g1 @ [wr_waiter w]\<rparr>)" using g1 by (simp add: gpu_inv_def)
  then have "gpu_inv ?g2" using Cons.prems(1) by simp
  then have g3: "gpu_inv ?g3" by (simp add: gpu_inv_def)
  have "gpu_inv (snd (acquire_loop model lora mb i deadline ws ?g3))"
    by (rule Cons.IH [OF Cons.prems(1) g3]) simp_all
  with g1 g3 r show ?case by (auto simp: Let_def split: option.split)
qed

text \<open>Every failed round either ends the call or is followed by another: past the deadline it ends.\<close>

lemma acquire_loop_returns:
  assumes "w \<in> set ws" "deadline \<le> wr_clock w \<or> \<not> wr_woken w"
  shows "fst (acquire_loop model lora mb i deadline ws g) \<noteq> None"
  using assms(1)
proof (induction ws arbitrary: g)
  case Nil
  then show ?case by simp
next
  case (Cons v ws)
  with assms(2) show ?case by (auto simp: Let_def split: prod.split option.split)
qed

section \<open>Properties\<close>


text \<open>Eviction removes least recently used models only, and no more than needed: every model it
  keeps was used at least as recently as every one it removes, it reports whether the request fits,
  and had it kept any evicted model besides the later candidates, the request would not fit.\<close>

theorem eviction_is_minimal_lru:
  assumes "gpu_inv g" "evict_lru needed g = (ok, g')"
  shows "\<exists>gone kept. mset (gm_loaded_models g) = mset (gone @ kept) \<and>
     mset (gm_loaded_models g') = mset kept \<and>
     (\<forall>x \<in> set gone. \<forall>y \<in> set kept. ms_last_used_at (snd x) \<le> ms_last_used_at (snd y)) \<and>
     gm_vram_allocated_mb g' = gm_vram_allocated_mb g - vram_of gone \<and>
     (gone \<noteq> [] \<longrightarrow> gm_vram_total_mb g < gm_vram_allocated_mb g - vram_of (butlast gone) + needed) \<and>
     (ok \<longleftrightarrow> can_fit g' needed) \<and> (ok \<or> kept = [])"
proof -
  have d: "distinct (map fst (gm_loaded_models g))" using assms(1) by (simp add: gpu_inv_def)
  from evict_lru_effect [OF d assms(2)] obtain n where n: "n \<le> length (candidates g)"
    "mset (gm_loaded_models g') = mset (drop n (candidates g))"
    "gm_vram_allocated_mb g' = gm_vram_allocated_mb g - vram_of (take n (candidates g))"
    "\<forall>m < n. gm_vram_total_mb g < gm_vram_allocated_mb g - vram_of (take m (candidates g)) + needed"
    "ok \<longleftrightarrow> can_fit g' needed" "ok \<or> n = length (candidates g)" by blast
  have "mset (gm_loaded_models g) = mset (take n (candidates g) @ drop n (candidates g))"
    by (simp only: append_take_drop_id candidates_def mset_order_by)
  moreover have "gm_vram_total_mb g < gm_vram_allocated_mb g - vram_of (butlast (take n (candidates g))) + needed"
    if "take n (candidates g) \<noteq> []"
  proof -
    from that have "0 < n" by (cases n) auto
    then have "n - 1 < n" "butlast (take n (candidates g)) = take (n - 1) (candidates g)"
      using n(1) by (simp_all add: butlast_take)
    with n(4) show ?thesis by metis
  qed
  moreover have "ok \<or> drop n (candidates g) = []" using n(6) by auto
  ultimately show ?thesis using n(2,3,5) lru_order by blast
qed

definition example_gpu :: gpu_manager where
  "example_gpu = run_commands gpu_step [G_round ''m1'' None 600 ''s1'' 1, G_round ''m2'' None 300 ''s2'' 2]
     (new_gpu_manager 1000)"

lemma example_gpu_inv: "gpu_inv example_gpu"
  unfolding example_gpu_def by (rule gpu_machine.run_inv [OF gpu_inv_new(1)])

theorem eviction_is_minimal_lru_witness:
  "fst (evict_lru 500 example_gpu) \<longleftrightarrow> can_fit (snd (evict_lru 500 example_gpu)) 500"
proof -
  obtain ok g' where e: "evict_lru 500 example_gpu = (ok, g')" by fastforce
  from eviction_is_minimal_lru [OF example_gpu_inv e] e show ?thesis by auto
qed

text \<open>As long as only slots without memory of their own are released, the counter is exactly the size
  of the loaded models, so their total fits.\<close>

theorem counter_is_loaded_size:
  assumes "\<forall>c \<in> set cs. frees_nothing c"
  shows "let g = run_commands gpu_step cs (new_gpu_manager total_mb) in
     gm_vram_allocated_mb g = vram_of (gm_loaded_models g) \<and> vram_of (gm_loaded_models g) \<le> gm_vram_total_mb g"
proof -
  have "books_balanced (run_commands gpu_step cs (new_gpu_manager total_mb))"
    by (rule balanced_run [OF gpu_inv_new assms])
  moreover have "gpu_inv (run_commands gpu_step cs (new_gpu_manager total_mb))"
    by (rule gpu_machine.run_inv [OF gpu_inv_new(1)])
  ultimately show ?thesis by (simp add: books_balanced_def gpu_inv_def Let_def)
qed

theorem counter_is_loaded_size_witness:
  "let g = run_commands gpu_step [G_round ''m1'' None 600 ''s1'' 1] (new_gpu_manager 1000) in
     gm_vram_allocated_mb g = vram_of (gm_loaded_models g) \<and> vram_of (gm_loaded_models g) \<le> gm_vram_total_mb g"
  by (rule counter_is_loaded_size) (simp add: frees_nothing_def)

text \<open>Releasing the slot of a fresh allocation breaks that: the counter drops although the model stays
  loaded, so after acquire, release and acquire the loaded models need more memory than there is.\<close>

theorem loaded_models_overcommit:
  "let g = run_commands gpu_step
       [G_round ''m1'' None 600 ''s1'' 1, G_release (new_slot ''s1'' ''m1'' None 600 1),
        G_round ''m2'' None 600 ''s2'' 2] (new_gpu_manager 1000) in
     gm_vram_total_mb g < vram_of (gm_loaded_models g) \<and>
     acquire_round ''m1'' None 600 ''s1'' 1 (new_gpu_manager 1000) =
       (Some (new_slot ''s1'' ''m1'' None 600 1),
        run_commands gpu_step [G_round ''m1'' None 600 ''s1'' 1] (new_gpu_manager 1000))"
  by code_simp



text \<open>A request for an untagged model can be answered with a differently tagged one: the prefix test
  on keys takes a loaded \<open>m:14b\<close> for the base model \<open>m\<close>, and the slot keeps its memory and model.\<close>

theorem untagged_model_gets_tagged_one:
  "let g = run_commands gpu_step [G_round ''m:14b'' None 600 ''s1'' 1] (new_gpu_manager 1000);
       (slot, g') = acquire_round ''m'' None 100 ''s2'' 2 g in
     map_option is_model_id slot = Some ''m'' \<and> map (\<lambda>(k, ms). (k, ms_model_id ms, ms_vram_mb ms)) (gm_loaded_models g') =
       [(''m:_'', ''m:14b'', 600)]"
  by code_simp

end
