(* ===== verification/Plan_Cycles.thy ===== *)
theory Plan_Cycles
  imports Prelude
begin

text \<open>
  \<^verbatim>\<open>_detect_cycles\<close> of \<^verbatim>\<open>backend/jobs/planner.py\<close>: the depth-first search with three colours over the
  titles of a plan. A neighbour that is grey closes a cycle, which is reported with the path to it.
  The search is over an adjacency dict, a map from titles to the titles they depend on; Python's
  recursion limit is the fuel. The search is sound and complete: it reports nothing exactly when the
  graph has no cycle.
\<close>

datatype colour = WHITE | GREY | BLACK

type_synonym colouring = "string \<rightharpoonup> colour"
type_synonym dfs_state = "colouring \<times> string list list"

fun dfs :: "nat \<Rightarrow> (string \<Rightarrow> string list) \<Rightarrow> string \<Rightarrow> string list \<Rightarrow> dfs_state \<Rightarrow> dfs_state result" where
  "dfs 0 adj v path s = Inl RecursionError"
| "dfs (Suc f) adj v path (col, errs) =
     (let path' = path @ [v]
      in case fold_result (\<lambda>w (col, errs).
                case col w of
                  None \<Rightarrow> Inr (col, errs)
                | Some GREY \<Rightarrow> Inr (col, errs @ [path' @ [w]])
                | Some WHITE \<Rightarrow> dfs f adj w path' (col, errs)
                | Some BLACK \<Rightarrow> Inr (col, errs)) (adj v) (col(v \<mapsto> GREY), errs) of
           Inl e \<Rightarrow> Inl e
         | Inr (col', errs') \<Rightarrow> Inr (col'(v \<mapsto> BLACK), errs'))"

definition detect_cycles :: "nat \<Rightarrow> (string \<times> string list) list \<Rightarrow> string list list result" where
  "detect_cycles f adj =
     (let titles = map fst adj;
          succs = (\<lambda>t. case map_of adj t of None \<Rightarrow> [] | Some ds \<Rightarrow> ds);
          start = (\<lambda>t. if t \<in> set titles then Some WHITE else None)
      in case fold_result (\<lambda>t (col, errs).
                if col t = Some WHITE then dfs f succs t [] (col, errs) else Inr (col, errs))
              titles (start, []) of
           Inl e \<Rightarrow> Inl e | Inr (col, errs) \<Rightarrow> Inr errs)"

section \<open>The graph\<close>

text \<open>The edges the search follows: to neighbours that are titles themselves.\<close>

definition dep_edges :: "string set \<Rightarrow> (string \<Rightarrow> string list) \<Rightarrow> (string \<times> string) set" where
  "dep_edges D adj = {(v, w). v \<in> D \<and> w \<in> D \<and> w \<in> set (adj v)}"

definition coloured :: "colour \<Rightarrow> colouring \<Rightarrow> string set" where
  "coloured c col = {v. col v = Some c}"

text \<open>A finished set: closed under the edges and free of cycles.\<close>

definition finished :: "(string \<times> string) set \<Rightarrow> string set \<Rightarrow> bool" where
  "finished E B \<longleftrightarrow> E `` B \<subseteq> B \<and> (\<forall>x \<in> B. (x, x) \<notin> E\<^sup>+)"

lemma finished_empty [simp]: "finished E {}"
  by (simp add: finished_def)

lemma closed_trancl: "E `` B \<subseteq> B \<Longrightarrow> x \<in> B \<Longrightarrow> (x, y) \<in> E\<^sup>* \<Longrightarrow> y \<in> B"
  by (erule rtrancl_induct) auto

lemma finished_insert:
  assumes "finished E B" "v \<notin> B" "E `` {v} \<subseteq> B"
  shows "finished E (insert v B)"
proof -
  have closed: "E `` B \<subseteq> B" using assms(1) by (simp add: finished_def)
  have "(v, v) \<notin> E\<^sup>+"
  proof
    assume "(v, v) \<in> E\<^sup>+"
    then obtain y where "(v, y) \<in> E" "(y, v) \<in> E\<^sup>*" by (meson tranclD)
    with assms(3) closed_trancl [OF closed] have "v \<in> B" by blast
    with assms(2) show False by simp
  qed
  with assms show ?thesis by (auto simp: finished_def)
qed

section \<open>One call of the search\<close>

text \<open>
  The contract of a call, from colouring \<open>c\<close> with errors \<open>es\<close> to \<open>c'\<close> with \<open>es'\<close>: grey nodes stay, black
  nodes stay black, every title keeps a colour; new errors witness a cycle, and without new errors the
  black set stays finished.
\<close>

definition dfs_post ::
  "(string \<times> string) set \<Rightarrow> colouring \<Rightarrow> string list list \<Rightarrow> colouring \<Rightarrow> string list list \<Rightarrow> bool" where
  "dfs_post E c es c' es' \<longleftrightarrow>
     dom c' = dom c \<and> coloured GREY c' = coloured GREY c \<and> coloured BLACK c \<subseteq> coloured BLACK c' \<and>
     (\<exists>new. es' = es @ new \<and> (new \<noteq> [] \<longrightarrow> (\<exists>x. (x, x) \<in> E\<^sup>+)) \<and>
        (new = [] \<longrightarrow> finished E (coloured BLACK c) \<longrightarrow> finished E (coloured BLACK c')))"

lemma dfs_post_refl [simp]: "dfs_post E c es c es"
  by (simp add: dfs_post_def)

lemma dfs_post_trans:
  assumes "dfs_post E c es c1 es1" "dfs_post E c1 es1 c2 es2"
  shows "dfs_post E c es c2 es2"
proof -
  from assms(1) obtain n1 where n1: "es1 = es @ n1" "n1 \<noteq> [] \<longrightarrow> (\<exists>x. (x, x) \<in> E\<^sup>+)"
    "n1 = [] \<longrightarrow> finished E (coloured BLACK c) \<longrightarrow> finished E (coloured BLACK c1)"
    unfolding dfs_post_def by blast
  from assms(2) obtain n2 where n2: "es2 = es1 @ n2" "n2 \<noteq> [] \<longrightarrow> (\<exists>x. (x, x) \<in> E\<^sup>+)"
    "n2 = [] \<longrightarrow> finished E (coloured BLACK c1) \<longrightarrow> finished E (coloured BLACK c2)"
    unfolding dfs_post_def by blast
  have "\<exists>new. es2 = es @ new \<and> (new \<noteq> [] \<longrightarrow> (\<exists>x. (x, x) \<in> E\<^sup>+)) \<and>
      (new = [] \<longrightarrow> finished E (coloured BLACK c) \<longrightarrow> finished E (coloured BLACK c2))"
    using n1 n2 by (intro exI [of _ "n1 @ n2"]) auto
  with assms show ?thesis by (auto simp: dfs_post_def)
qed

text \<open>The loop over the neighbours, for any recursive call with the contract.\<close>

definition visit_neighbour ::
  "(string \<Rightarrow> dfs_state \<Rightarrow> dfs_state result) \<Rightarrow> string list \<Rightarrow> string \<Rightarrow> dfs_state \<Rightarrow> dfs_state result" where
  "visit_neighbour rec path w = (\<lambda>(col, errs).
     case col w of
       None \<Rightarrow> Inr (col, errs)
     | Some GREY \<Rightarrow> Inr (col, errs @ [path @ [w]])
     | Some WHITE \<Rightarrow> rec w (col, errs)
     | Some BLACK \<Rightarrow> Inr (col, errs))"

lemma dfs_Suc:
  "dfs (Suc f) adj v path (col, errs) =
     (case fold_result (visit_neighbour (\<lambda>w. dfs f adj w (path @ [v])) (path @ [v])) (adj v)
             (col(v \<mapsto> GREY), errs) of
        Inl e \<Rightarrow> Inl e | Inr (col', errs') \<Rightarrow> Inr (col'(v \<mapsto> BLACK), errs'))"
  unfolding dfs.simps Let_def visit_neighbour_def ..

declare dfs.simps(2) [simp del]

lemma neighbours_post:
  assumes rec: "\<And>w c es c' es'. w \<in> set ws \<Longrightarrow> c w = Some WHITE \<Longrightarrow> dom c = D \<Longrightarrow> coloured GREY c = G \<Longrightarrow>
      rec w (c, es) = Inr (c', es') \<Longrightarrow> dfs_post E c es c' es' \<and> c' w = Some BLACK"
    and grey: "\<And>w g. w \<in> set ws \<Longrightarrow> w \<in> G \<Longrightarrow> \<exists>x. (x, x) \<in> E\<^sup>+"
    and run: "fold_result (visit_neighbour rec path) ws (c, es) = Inr (c', es')"
    and c: "dom c = D" "coloured GREY c = G"
  shows "dfs_post E c es c' es' \<and> (es' = es \<longrightarrow> set ws \<inter> D \<subseteq> coloured BLACK c')"
  using rec grey run c
proof (induction ws arbitrary: c es)
  case Nil
  then show ?case by simp
next
  case (Cons w ws)
  from Cons.prems(3) obtain c1 es1 where one: "visit_neighbour rec path w (c, es) = Inr (c1, es1)"
    and rest: "fold_result (visit_neighbour rec path) ws (c1, es1) = Inr (c', es')"
    by (auto split: sum.splits)
  have step: "dfs_post E c es c1 es1 \<and> (es1 = es \<longrightarrow> w \<in> D \<longrightarrow> w \<in> coloured BLACK c1)"
  proof (cases "c w")
    case None
    with one Cons.prems(4) show ?thesis by (auto simp: visit_neighbour_def)
  next
    case (Some col)
    show ?thesis
    proof (cases col)
      case WHITE
      with Some one have "rec w (c, es) = Inr (c1, es1)" by (simp add: visit_neighbour_def)
      with Cons.prems(1) [of w c es c1 es1] Some WHITE Cons.prems(4,5) show ?thesis
        by (simp add: coloured_def)
    next
      case GREY
      with Some Cons.prems(5) have "w \<in> G" by (auto simp: coloured_def)
      with Cons.prems(2) have cyc: "\<exists>x. (x, x) \<in> E\<^sup>+" by auto
      from GREY Some one have "c1 = c" "es1 = es @ [path @ [w]]" by (auto simp: visit_neighbour_def)
      with cyc show ?thesis by (simp add: dfs_post_def)
    next
      case BLACK
      with Some one show ?thesis by (auto simp: visit_neighbour_def coloured_def)
    qed
  qed
  then have c1: "dom c1 = D" "coloured GREY c1 = G"
    using Cons.prems(4,5) by (auto simp: dfs_post_def)
  have IH: "dfs_post E c1 es1 c' es' \<and> (es' = es1 \<longrightarrow> set ws \<inter> D \<subseteq> coloured BLACK c')"
    using Cons.IH [OF _ _ rest c1] Cons.prems(1,2) by (metis list.set_intros(2))
  have "set (w # ws) \<inter> D \<subseteq> coloured BLACK c'" if "es' = es"
  proof -
    from that step IH have "es1 = es" "es' = es1" by (auto simp: dfs_post_def)
    with step IH show ?thesis by (auto simp: dfs_post_def)
  qed
  with step IH dfs_post_trans [of E c es c1 es1 c' es'] show ?case by blast
qed

lemma dfs_correct:
  assumes "dfs f adj v path (c, es) = Inr (c', es')" "c v = Some WHITE"
    and "\<forall>g \<in> coloured GREY c. (g, v) \<in> (dep_edges (dom c) adj)\<^sup>+"
  shows "dfs_post (dep_edges (dom c) adj) c es c' es' \<and> c' v = Some BLACK"
  using assms
proof (induction f arbitrary: v path c es c' es')
  case 0
  then show ?case by simp
next
  case (Suc f)
  let ?E = "dep_edges (dom c) adj" and ?c = "c(v \<mapsto> GREY)"
  from Suc.prems(1) obtain c1 where
    run: "fold_result (visit_neighbour (\<lambda>w. dfs f adj w (path @ [v])) (path @ [v])) (adj v) (?c, es) =
            Inr (c1, es')" and c': "c' = c1(v \<mapsto> BLACK)"
    by (auto simp: dfs_Suc split: sum.splits)
  have dom: "dom ?c = dom c" using Suc.prems(2) by auto
  have grey: "coloured GREY ?c = insert v (coloured GREY c)" by (auto simp: coloured_def)
  have black: "coloured BLACK ?c = coloured BLACK c" using Suc.prems(2) by (auto simp: coloured_def)
  have edge: "(v, w) \<in> ?E" if "w \<in> set (adj v)" "w \<in> dom c" for w
    using that Suc.prems(2) by (auto simp: dep_edges_def)
  have reach: "(g, w) \<in> ?E\<^sup>+" if "g \<in> coloured GREY ?c" "w \<in> set (adj v)" "w \<in> dom c" for g w
    using that(1) edge [OF that(2,3)] Suc.prems(3) unfolding grey by (auto intro: trancl_into_trancl)
  have post: "dfs_post ?E ?c es c1 es' \<and> (es' = es \<longrightarrow> set (adj v) \<inter> dom c \<subseteq> coloured BLACK c1)"
  proof (rule neighbours_post [OF _ _ run dom refl])
    fix w d ds d' ds'
    assume w: "w \<in> set (adj v)" "d w = Some WHITE" and d: "dom d = dom c" "coloured GREY d = coloured GREY ?c"
      and call: "dfs f adj w (path @ [v]) (d, ds) = Inr (d', ds')"
    have "w \<in> dom c" using w(2) d(1) by blast
    with reach w(1) d have "\<forall>g \<in> coloured GREY d. (g, w) \<in> (dep_edges (dom d) adj)\<^sup>+" by simp
    from Suc.IH [OF call w(2) this] d(1) show "dfs_post ?E d ds d' ds' \<and> d' w = Some BLACK" by simp
  next
    fix w g assume "w \<in> set (adj v)" "w \<in> coloured GREY ?c"
    moreover have "w \<in> dom c" using calculation dom by (auto simp: coloured_def)
    ultimately show "\<exists>x. (x, x) \<in> ?E\<^sup>+" using reach by blast
  qed
  have v1: "c1 v = Some GREY" using post grey by (auto simp: dfs_post_def coloured_def)
  have g': "coloured GREY c' = coloured GREY c"
    using post grey Suc.prems(2) v1 by (auto simp: c' dfs_post_def coloured_def)
  have b': "coloured BLACK c' = insert v (coloured BLACK c1)" by (auto simp: c' coloured_def)
  from post obtain new where new: "es' = es @ new" "new \<noteq> [] \<longrightarrow> (\<exists>x. (x, x) \<in> ?E\<^sup>+)"
    "new = [] \<longrightarrow> finished ?E (coloured BLACK ?c) \<longrightarrow> finished ?E (coloured BLACK c1)"
    unfolding dfs_post_def by blast
  have "finished ?E (coloured BLACK c')" if "new = []" "finished ?E (coloured BLACK c)"
    unfolding b'
  proof (rule finished_insert)
    show "finished ?E (coloured BLACK c1)" using new(3) that black by simp
    show "v \<notin> coloured BLACK c1" using v1 by (simp add: coloured_def)
    show "?E `` {v} \<subseteq> coloured BLACK c1" using post new(1) that(1) by (auto simp: dep_edges_def)
  qed
  moreover have "dom c' = dom c" using post dom c' v1 by (auto simp: dfs_post_def)
  moreover have "coloured BLACK c \<subseteq> coloured BLACK c'" using post black b' by (auto simp: dfs_post_def)
  moreover have "c' v = Some BLACK" by (simp add: c')
  ultimately show ?case using new(1,2) g' unfolding dfs_post_def by blast
qed

section \<open>The whole search\<close>

definition visit_title ::
  "nat \<Rightarrow> (string \<Rightarrow> string list) \<Rightarrow> string \<Rightarrow> dfs_state \<Rightarrow> dfs_state result" where
  "visit_title f adj t = (\<lambda>(col, errs).
     if col t = Some WHITE then dfs f adj t [] (col, errs) else Inr (col, errs))"

definition adj_get :: "(string \<times> string list) list \<Rightarrow> string \<Rightarrow> string list" where
  "adj_get adj t = (case map_of adj t of None \<Rightarrow> [] | Some ds \<Rightarrow> ds)"

definition all_white :: "string list \<Rightarrow> colouring" where
  "all_white ts = (\<lambda>t. if t \<in> set ts then Some WHITE else None)"

lemma detect_cycles_unfold:
  "detect_cycles f adj =
     (case fold_result (visit_title f (adj_get adj)) (map fst adj) (all_white (map fst adj), []) of
        Inl e \<Rightarrow> Inl e | Inr (col, errs) \<Rightarrow> Inr errs)"
  unfolding detect_cycles_def visit_title_def adj_get_def all_white_def Let_def ..

lemma all_white_simps [simp]:
  "dom (all_white ts) = set ts" "coloured GREY (all_white ts) = {}" "coloured BLACK (all_white ts) = {}"
  "coloured WHITE (all_white ts) = set ts"
  by (auto simp: all_white_def coloured_def split: if_splits)

lemma visit_titles_post:
  assumes "fold_result (visit_title f adj) ts (c, es) = Inr (c', es')" "coloured GREY c = {}"
    "set ts \<subseteq> dom c"
  shows "dfs_post (dep_edges (dom c) adj) c es c' es' \<and> set ts \<subseteq> coloured BLACK c'"
  using assms
proof (induction ts arbitrary: c es)
  case Nil
  then show ?case by simp
next
  case (Cons t ts)
  let ?E = "dep_edges (dom c) adj"
  from Cons.prems(1) obtain c1 es1 where one: "visit_title f adj t (c, es) = Inr (c1, es1)"
    and rest: "fold_result (visit_title f adj) ts (c1, es1) = Inr (c', es')"
    by (auto split: sum.splits)
  from Cons.prems(3) obtain k where k: "c t = Some k" by auto
  have step: "dfs_post ?E c es c1 es1 \<and> c1 t = Some BLACK"
  proof (cases k)
    case WHITE
    with k one have "dfs f adj t [] (c, es) = Inr (c1, es1)" by (simp add: visit_title_def)
    from dfs_correct [OF this] k WHITE Cons.prems(2) show ?thesis by simp
  next
    case GREY
    with k Cons.prems(2) show ?thesis by (auto simp: coloured_def)
  next
    case BLACK
    with k one show ?thesis by (auto simp: visit_title_def)
  qed
  then have c1: "coloured GREY c1 = {}" "dom c1 = dom c" using Cons.prems(2) by (auto simp: dfs_post_def)
  with Cons.IH [OF rest] Cons.prems(3)
  have "dfs_post ?E c1 es1 c' es' \<and> set ts \<subseteq> coloured BLACK c'" by simp
  moreover from this step have "t \<in> coloured BLACK c'" by (auto simp: dfs_post_def coloured_def)
  ultimately show ?case using step dfs_post_trans by fastforce
qed

theorem detect_cycles_correct:
  assumes "detect_cycles f adj = Inr es"
  shows "es = [] \<longleftrightarrow> acyclic (dep_edges (fst ` set adj) (adj_get adj))"
proof -
  let ?ts = "map fst adj" and ?E = "dep_edges (fst ` set adj) (adj_get adj)"
  from assms obtain c' where "fold_result (visit_title f (adj_get adj)) ?ts (all_white ?ts, []) = Inr (c', es)"
    by (auto simp: detect_cycles_unfold split: sum.splits)
  from visit_titles_post [OF this]
  have post: "dfs_post ?E (all_white ?ts) [] c' es" and all: "fst ` set adj \<subseteq> coloured BLACK c'"
    by simp_all
  from post obtain new where new: "es = [] @ new" "new \<noteq> [] \<longrightarrow> (\<exists>x. (x, x) \<in> ?E\<^sup>+)"
      "new = [] \<longrightarrow> finished ?E (coloured BLACK (all_white ?ts)) \<longrightarrow> finished ?E (coloured BLACK c')"
    unfolding dfs_post_def by blast
  have "acyclic ?E" if "es = []"
  proof -
    have fin: "finished ?E (coloured BLACK c')" using that new by simp
    have "(x, x) \<notin> ?E\<^sup>+" for x
    proof
      assume x: "(x, x) \<in> ?E\<^sup>+"
      then obtain y where "(x, y) \<in> ?E" by (meson tranclD)
      then have "x \<in> coloured BLACK c'" using all unfolding dep_edges_def by blast
      with fin x show False unfolding finished_def by blast
    qed
    then show ?thesis unfolding acyclic_def by blast
  qed
  moreover have "\<not> acyclic ?E" if "es \<noteq> []" using that new by (auto simp: acyclic_def)
  ultimately show ?thesis by blast
qed

section \<open>Enough fuel\<close>

lemma dfs_enough_fuel:
  assumes "card (coloured WHITE c) \<le> f" "finite (coloured WHITE c)" "c v = Some WHITE"
  shows "\<exists>s'. dfs f adj v path (c, es) = Inr s' \<and> coloured WHITE (fst s') \<subseteq> coloured WHITE c"
  using assms
proof (induction f arbitrary: v path c es)
  case 0
  then show ?case by (auto simp: coloured_def)
next
  case (Suc f)
  let ?c = "c(v \<mapsto> GREY)" and ?I = "\<lambda>s. coloured WHITE (fst s) \<subseteq> coloured WHITE (c(v \<mapsto> GREY))"
  have w: "coloured WHITE ?c = coloured WHITE c - {v}" by (auto simp: coloured_def)
  have v: "v \<in> coloured WHITE c" using Suc.prems(3) by (simp add: coloured_def)
  have le: "card (coloured WHITE c - {v}) \<le> f" using Suc.prems(1,2) v by simp
  have "\<exists>s'. fold_result (visit_neighbour (\<lambda>w. dfs f adj w (path @ [v])) (path @ [v])) (adj v) (?c, es) = Inr s' \<and> ?I s'"
  proof (rule fold_result_inv)
    fix x and s :: dfs_state assume I: "?I s"
    obtain d ds where s: "s = (d, ds)" by (cases s)
    have sub: "coloured WHITE d \<subseteq> coloured WHITE c - {v}" using I s w by simp
    have fin: "finite (coloured WHITE d)" "card (coloured WHITE d) \<le> f"
      using sub Suc.prems(2) finite_subset card_mono [OF _ sub] le by (blast, fastforce)
    show "\<exists>s'. visit_neighbour (\<lambda>w. dfs f adj w (path @ [v])) (path @ [v]) x s = Inr s' \<and> ?I s'"
    proof (cases "d x = Some WHITE")
      case True
      from Suc.IH [OF fin(2,1) True, of "path @ [v]" ds] I s True show ?thesis
        by (auto simp: visit_neighbour_def)
    next
      case False
      then show ?thesis using I s
        by (cases "d x") (auto simp: visit_neighbour_def split: colour.splits)
    qed
  qed simp
  then obtain d ds where "fold_result (visit_neighbour (\<lambda>w. dfs f adj w (path @ [v])) (path @ [v])) (adj v) (?c, es) = Inr (d, ds)"
    and "coloured WHITE d \<subseteq> coloured WHITE c" using w by fastforce
  then show ?case by (auto simp: dfs_Suc coloured_def)
qed

text \<open>As many frames as there are titles are enough.\<close>

theorem detect_cycles_returns:
  assumes "length adj \<le> f"
  shows "\<exists>es. detect_cycles f adj = Inr es"
proof -
  let ?ts = "map fst adj" and ?I = "\<lambda>s :: dfs_state. coloured WHITE (fst s) \<subseteq> fst ` set adj"
  have "\<exists>s'. fold_result (visit_title f (adj_get adj)) ?ts (all_white ?ts, []) = Inr s' \<and> ?I s'"
  proof (rule fold_result_inv)
    fix t and s :: dfs_state assume I: "?I s"
    obtain d ds where s: "s = (d, ds)" by (cases s)
    have fin: "finite (coloured WHITE d)" using I s by (auto intro: finite_subset)
    have "card (coloured WHITE d) \<le> card (fst ` set adj)" using I s by (auto intro: card_mono)
    also have "\<dots> \<le> length adj" using card_length [of "map fst adj"] by simp
    finally have "card (coloured WHITE d) \<le> f" using assms by simp
    with dfs_enough_fuel [OF this fin] I s
    show "\<exists>s'. visit_title f (adj_get adj) t s = Inr s' \<and> ?I s'"
      by (auto simp: visit_title_def) (metis fst_conv order_trans)
  qed simp
  then show ?thesis by (auto simp: detect_cycles_unfold)
qed

end
