(* ===== verification/Std_Text.thy ===== *)
theory Std_Text
  imports Prelude
begin

text \<open>
  What the policy engine uses of Python's standard library on text: \<^verbatim>\<open>fnmatch.fnmatch\<close> (on
  POSIX, where \<^verbatim>\<open>normcase\<close> is the identity), \<^verbatim>\<open>urllib.parse.urlparse\<close> for its scheme and network
  location, \<^verbatim>\<open>os.path.basename\<close>; and \<^verbatim>\<open>int\<close>, \<^verbatim>\<open>float\<close>, \<^verbatim>\<open>str\<close> and \<^verbatim>\<open>list\<close>. Strings are over code points
  below 256. Of \<^verbatim>\<open>urlparse\<close> the check that a bracketed host is an IP literal is left out: a
  location with both brackets is accepted.
\<close>

section \<open>Glob patterns\<close>

text \<open>The text between \<^verbatim>\<open>[\<close> and the bracket that closes it, and the pattern after it.\<close>

definition bracket :: "string \<Rightarrow> (string \<times> string) option" where
  "bracket p =
     (let neg = (case p of [] \<Rightarrow> 0 | c # _ \<Rightarrow> if c = CHR ''!'' then 1 else 0);
          skip = (case drop neg p of [] \<Rightarrow> neg | c # _ \<Rightarrow> if c = CHR '']'' then Suc neg else neg)
      in case find_idx (\<lambda>c. c = CHR '']'') (drop skip p) of
           None \<Rightarrow> None
         | Some i \<Rightarrow> Some (take (skip + i) p, drop (Suc (skip + i)) p))"

text \<open>Membership in the items of a bracket expression: ranges and single characters.\<close>

fun in_items :: "string \<Rightarrow> char \<Rightarrow> bool" where
  "in_items (a # h # b # rest) c =
     (if h = CHR ''-''
      then (of_char a :: nat) \<le> of_char c \<and> (of_char c :: nat) \<le> of_char b \<or> in_items rest c
      else a = c \<or> in_items (h # b # rest) c)"
| "in_items [a, b] c = (a = c \<or> b = c)"
| "in_items [a] c = (a = c)"
| "in_items [] c = False"

definition bracket_matches :: "string \<Rightarrow> char \<Rightarrow> bool" where
  "bracket_matches stuff c =
     (case stuff of
        [] \<Rightarrow> False
      | x # rest \<Rightarrow> if x = CHR ''!'' then \<not> in_items rest c else in_items stuff c)"

lemma bracket_shorter: "bracket p = Some (stuff, rest) \<Longrightarrow> length rest < length p"
  by (auto simp: bracket_def Let_def split: option.splits dest!: find_idx_SomeD)

function fnmatch :: "string \<Rightarrow> string \<Rightarrow> bool" where
  "fnmatch [] s = (s = [])"
| "fnmatch (p # ps) s =
     (if p = CHR ''*'' then fnmatch ps s \<or> (case s of [] \<Rightarrow> False | c # s' \<Rightarrow> fnmatch (p # ps) s')
      else (case s of
              [] \<Rightarrow> False
            | c # s' \<Rightarrow>
                if p = CHR ''?'' then fnmatch ps s'
                else if p = CHR ''['' then
                  (case bracket ps of
                     None \<Rightarrow> c = CHR ''['' \<and> fnmatch ps s'
                   | Some (stuff, rest) \<Rightarrow> bracket_matches stuff c \<and> fnmatch rest s')
                else p = c \<and> fnmatch ps s'))"
  by pat_completeness auto
termination
  by (relation "measure (\<lambda>(p, s). length p + length s)") (auto dest: bracket_shorter)

declare fnmatch.simps [simp del]

lemma fnmatch_literal:
  "\<forall>c \<in> set p. c \<noteq> CHR ''*'' \<and> c \<noteq> CHR ''?'' \<and> c \<noteq> CHR ''['' \<Longrightarrow> fnmatch p s \<longleftrightarrow> p = s"
  by (induction p arbitrary: s) (auto simp: fnmatch.simps split: list.split)

lemma fnmatch_star: "fnmatch (CHR ''*'' # p) s \<longleftrightarrow> (\<exists>u t. s = u @ t \<and> fnmatch p t)"
proof (induction s)
  case Nil
  then show ?case by (simp add: fnmatch.simps(2))
next
  case (Cons c s)
  have "fnmatch (CHR ''*'' # p) (c # s) \<longleftrightarrow> fnmatch p (c # s) \<or> fnmatch (CHR ''*'' # p) s"
    by (subst fnmatch.simps) simp
  also have "\<dots> \<longleftrightarrow> (\<exists>u t. c # s = u @ t \<and> fnmatch p t)"
    unfolding Cons.IH by (metis append_Cons append_Nil append_eq_Cons_conv)
  finally show ?case .
qed

section \<open>Paths and URLs\<close>

definition basename :: "string \<Rightarrow> string" where
  "basename p = rev (takeWhile (\<lambda>c. c \<noteq> CHR ''/'') (rev p))"

definition scheme_char :: "char \<Rightarrow> bool" where
  "scheme_char c \<longleftrightarrow>
     (let n = of_char c :: nat
      in 97 \<le> n \<and> n \<le> 122 \<or> 65 \<le> n \<and> n \<le> 90 \<or> 48 \<le> n \<and> n \<le> 57 \<or> c \<in> set ''+-.'')"

definition ascii_alpha :: "char \<Rightarrow> bool" where
  "ascii_alpha c \<longleftrightarrow> (let n = of_char c :: nat in 97 \<le> n \<and> n \<le> 122 \<or> 65 \<le> n \<and> n \<le> 90)"

text \<open>Scheme and rest: the scheme is empty when the text before the first colon is none.\<close>

definition split_scheme :: "string \<Rightarrow> string \<times> string" where
  "split_scheme url =
     (case find_idx (\<lambda>c. c = CHR '':'') url of
        None \<Rightarrow> ([], url)
      | Some i \<Rightarrow>
          if 0 < i \<and> ascii_alpha (hd url) \<and> list_all scheme_char (take i url)
          then (py_lower (take i url), drop (Suc i) url) else ([], url))"

text \<open>\<^verbatim>\<open>urlparse\<close>: the scheme and the network location, or \<open>None\<close> for its \<^verbatim>\<open>ValueError\<close>.\<close>

definition urlparse :: "string \<Rightarrow> (string \<times> string) option" where
  "urlparse raw =
     (let url = filter (\<lambda>c. c \<noteq> CHR 0x09 \<and> c \<noteq> CHR 0x0D \<and> c \<noteq> CHR 0x0A)
                  (dropWhile (\<lambda>c. (of_char c :: nat) \<le> 32) raw);
          (scheme, rest) = split_scheme url
      in if starts_with ''//'' rest
         then (let netloc = takeWhile (\<lambda>c. c \<notin> set ''/?#'') (drop 2 rest)
               in if (CHR ''['' \<in> set netloc) \<noteq> (CHR '']'' \<in> set netloc) then None
                  else Some (scheme, netloc))
         else Some (scheme, []))"

text \<open>\<^verbatim>\<open>netloc.split(":")[0].lower()\<close>.\<close>

definition host_of :: "string \<Rightarrow> string" where
  "host_of netloc = py_lower (takeWhile (\<lambda>c. c \<noteq> CHR '':'') netloc)"

text \<open>A URL of a plain web address: scheme, host, an optional port, and the rest.\<close>

definition port_text :: "string \<Rightarrow> bool" where
  "port_text p \<longleftrightarrow> (case p of [] \<Rightarrow> True | c # ds \<Rightarrow> c = CHR '':'' \<and> list_all scheme_char ds)"

lemma scheme_char_plain:
  "scheme_char c \<Longrightarrow> c \<noteq> CHR 0x09 \<and> c \<noteq> CHR 0x0D \<and> c \<noteq> CHR 0x0A \<and> c \<notin> set ''/?#[]:''"
  by (auto simp: scheme_char_def)

lemma split_scheme_plain:
  "s = ''http'' \<or> s = ''https'' \<Longrightarrow> split_scheme (s @ CHR '':'' # rest) = (s, rest)"
  by (auto simp: split_scheme_def ascii_alpha_def scheme_char_def py_lower_def lower_char_def)

lemma urlparse_plain:
  assumes s: "s = ''http'' \<or> s = ''https''" and h: "list_all scheme_char host" and p: "port_text port"
    and t: "tail = [] \<or> hd tail \<in> set ''/?#''"
  shows "urlparse (s @ ''://'' @ host @ port @ tail) = Some (s, host @ port)"
proof -
  let ?keep = "\<lambda>c. c \<noteq> CHR 0x09 \<and> c \<noteq> CHR 0x0D \<and> c \<noteq> CHR 0x0A"
  let ?stop = "\<lambda>c. c \<notin> set ''/?#''"
  have hp: "\<forall>c \<in> set (host @ port). ?keep c \<and> ?stop c \<and> c \<noteq> CHR ''['' \<and> c \<noteq> CHR '']''"
    using h p scheme_char_plain by (fastforce simp: port_text_def list_all_iff split: list.splits)
  have "filter ?keep (host @ port @ tail) = host @ port @ filter ?keep tail"
    using hp by (simp add: filter_id_conv)
  moreover have "takeWhile ?stop (filter ?keep tail) = []"
    using t by (cases tail) auto
  then have "takeWhile ?stop (host @ port @ filter ?keep tail) = host @ port"
    using hp by (simp add: takeWhile_append2)
  moreover have "dropWhile (\<lambda>c. (of_char c :: nat) \<le> 32) (s @ ''://'' @ host @ port @ tail) =
      s @ ''://'' @ host @ port @ tail" using s by auto
  moreover have "filter ?keep (s @ ''://'') = s @ ''://''" using s by auto
  ultimately show ?thesis
    using s hp by (auto simp: urlparse_def split_scheme_plain Let_def)
qed

lemma host_of_plain:
  "list_all scheme_char host \<Longrightarrow> port_text port \<Longrightarrow> host_of (host @ port) = py_lower host"
  using scheme_char_plain by (fastforce simp: host_of_def port_text_def list_all_iff takeWhile_append split: list.splits)

section \<open>Words\<close>

definition newline :: string where
  "newline = [CHR 0x0A]"

text \<open>The class \<^verbatim>\<open>\w\<close> of regular expressions.\<close>

definition word_char :: "char \<Rightarrow> bool" where
  "word_char c \<longleftrightarrow>
     (let n = of_char c :: nat
      in 48 \<le> n \<and> n \<le> 57 \<or> 65 \<le> n \<and> n \<le> 90 \<or> n = 95 \<or> 97 \<le> n \<and> n \<le> 122 \<or>
         n \<in> {170, 178, 179, 181, 185, 186, 188, 189, 190} \<or> 192 \<le> n \<and> n \<noteq> 215 \<and> n \<noteq> 247)"

definition word_starts :: "string \<Rightarrow> bool" where
  "word_starts s \<longleftrightarrow> (case s of [] \<Rightarrow> False | c # _ \<Rightarrow> word_char c)"

section \<open>Integers\<close>

fun digits_value :: "int \<Rightarrow> bool \<Rightarrow> string \<Rightarrow> int option" where
  "digits_value acc seen [] = (if seen then Some acc else None)"
| "digits_value acc seen (c # cs) =
     (let n = of_char c :: nat
      in if 48 \<le> n \<and> n \<le> 57 then digits_value (acc * 10 + int (n - 48)) True cs
         else if c = CHR ''_'' \<and> seen then digits_value acc False cs
         else None)"

definition py_int_of_string :: "string \<Rightarrow> int option" where
  "py_int_of_string s =
     (case py_strip s of
        [] \<Rightarrow> None
      | c # cs \<Rightarrow>
          if c = CHR ''-'' then map_option uminus (digits_value 0 False cs)
          else if c = CHR ''+'' then digits_value 0 False cs
          else digits_value 0 False (c # cs))"

fun json_to_int :: "json \<Rightarrow> int result" where
  "json_to_int (JInt i) = Inr i"
| "json_to_int (JBool b) = Inr (if b then 1 else 0)"
| "json_to_int (JReal r) = Inr (if 0 \<le> r then \<lfloor>r\<rfloor> else \<lceil>r\<rceil>)"
| "json_to_int (JStr s) =
     (case py_int_of_string s of None \<Rightarrow> Inl (ValueError ''invalid literal'') | Some i \<Rightarrow> Inr i)"
| "json_to_int _ = Inl (TypeError ''int() argument'')"

text \<open>\<^verbatim>\<open>list(value)\<close> of a JSON value: the items of a list, the keys of a dict, the characters of a string.\<close>

fun json_items :: "json \<Rightarrow> json list result" where
  "json_items (JList xs) = Inr xs"
| "json_items (JObj kvs) = Inr (map JStr (remdups (map fst kvs)))"
| "json_items (JStr s) = Inr (map (\<lambda>c. JStr [c]) s)"
| "json_items _ = Inl (TypeError ''not iterable'')"

text \<open>\<^verbatim>\<open>[value] if isinstance(value, str) else list(value)\<close>.\<close>

fun json_one_or_many :: "json \<Rightarrow> json list result" where
  "json_one_or_many (JStr s) = Inr [JStr s]"
| "json_one_or_many v = json_items v"

text \<open>\<^verbatim>\<open>str(value)\<close> of a JSON value; \<open>repr\<close> stands for the forms of a float, a list and a dict.\<close>

definition show_int :: "int \<Rightarrow> string" where
  "show_int i = (if i < 0 then CHR ''-'' # show_nat (nat (- i)) else show_nat (nat i))"

fun py_str :: "(json \<Rightarrow> string) \<Rightarrow> json \<Rightarrow> string" where
  "py_str repr (JStr s) = s"
| "py_str repr JNull = ''None''"
| "py_str repr (JBool b) = (if b then ''True'' else ''False'')"
| "py_str repr (JInt i) = show_int i"
| "py_str repr v = repr v"

section \<open>Floats\<close>

text \<open>\<^verbatim>\<open>float\<close> of a text.\<close>

datatype py_float = Finite real | Infinite | Minus_infinite | Not_a_number

definition digit_block :: "string \<Rightarrow> int option" where
  "digit_block s = (if s = [] then Some 0 else digits_value 0 False s)"

definition mantissa :: "string \<Rightarrow> real option" where
  "mantissa m =
     (let whole = takeWhile (\<lambda>c. c \<noteq> CHR ''.'') m; frac = drop (Suc (length whole)) m
      in if whole = [] \<and> frac = [] then None
         else case (digit_block whole, digit_block frac) of
                (Some a, Some b) \<Rightarrow> Some (real_of_int a + real_of_int b / 10 ^ length (filter (\<lambda>c. c \<noteq> CHR ''_'') frac))
              | _ \<Rightarrow> None)"

definition scaled :: "real \<Rightarrow> int \<Rightarrow> real" where
  "scaled x e = (if 0 \<le> e then x * 10 ^ nat e else x / 10 ^ nat (- e))"

definition unsigned_float :: "string \<Rightarrow> py_float option" where
  "unsigned_float s =
     (if py_lower s = ''inf'' \<or> py_lower s = ''infinity'' then Some Infinite
      else if py_lower s = ''nan'' then Some Not_a_number
      else let m = takeWhile (\<lambda>c. c \<noteq> CHR ''e'' \<and> c \<noteq> CHR ''E'') s; rest = drop (length m) s;
               e = (case rest of
                      [] \<Rightarrow> Some 0
                    | _ # ds \<Rightarrow>
                        (if starts_with ''-'' ds then map_option uminus (digits_value 0 False (tl ds))
                         else digits_value 0 False (if starts_with ''+'' ds then tl ds else ds)))
           in case (mantissa m, e) of (Some x, Some n) \<Rightarrow> Some (Finite (scaled x n)) | _ \<Rightarrow> None)"

fun negated :: "py_float \<Rightarrow> py_float" where
  "negated (Finite x) = Finite (- x)"
| "negated Infinite = Minus_infinite"
| "negated Minus_infinite = Infinite"
| "negated Not_a_number = Not_a_number"

definition py_float_of_string :: "string \<Rightarrow> py_float option" where
  "py_float_of_string s =
     (let t = py_strip s
      in if starts_with ''-'' t then map_option negated (unsigned_float (tl t))
         else unsigned_float (if starts_with ''+'' t then tl t else t))"

text \<open>\<^verbatim>\<open>float\<close> of a JSON value; an integer that rounds beyond the largest float raises.\<close>

fun json_to_float :: "json \<Rightarrow> py_float result" where
  "json_to_float (JInt i) =
     (if 2 ^ 1024 - 2 ^ 970 \<le> \<bar>i\<bar> then Inl (ExternalError ''OverflowError'') else Inr (Finite (real_of_int i)))"
| "json_to_float (JReal r) = Inr (Finite r)"
| "json_to_float (JBool b) = Inr (Finite (if b then 1 else 0))"
| "json_to_float (JStr s) =
     (case py_float_of_string s of None \<Rightarrow> Inl (ValueError ''could not convert string to float'') | Some x \<Rightarrow> Inr x)"
| "json_to_float _ = Inl (TypeError ''float() argument'')"

text \<open>\<^verbatim>\<open>round(x, 4)\<close>, with ties to the even digit.\<close>

definition round_even :: "real \<Rightarrow> int" where
  "round_even x =
     (let n = \<lfloor>x\<rfloor>; d = x - real_of_int n
      in if d < 1 / 2 \<or> d = 1 / 2 \<and> even n then n else n + 1)"

definition round4 :: "real \<Rightarrow> real" where
  "round4 x = real_of_int (round_even (x * 10000)) / 10000"

lemma round_even_between:
  "real_of_int k \<le> x \<Longrightarrow> k \<le> round_even x" "x \<le> real_of_int k \<Longrightarrow> round_even x \<le> k"
proof -
  have e: "round_even x = \<lfloor>x\<rfloor> \<or> round_even x = \<lfloor>x\<rfloor> + 1 \<and> real_of_int \<lfloor>x\<rfloor> < x"
    by (auto simp: round_even_def Let_def)
  show "k \<le> round_even x" if "real_of_int k \<le> x"
    using that e le_floor_iff [of k x] by auto
  show "round_even x \<le> k" if x: "x \<le> real_of_int k"
  proof (cases "\<lfloor>x\<rfloor> < k")
    case True
    with e show ?thesis by auto
  next
    case False
    with x have "real_of_int \<lfloor>x\<rfloor> = x" using of_int_floor_le [of x] by linarith
    with e x show ?thesis by (metis less_irrefl of_int_le_iff)
  qed
qed

lemma round4_between:
  "real_of_int k / 10000 \<le> x \<Longrightarrow> real_of_int k / 10000 \<le> round4 x"
  "x \<le> real_of_int k / 10000 \<Longrightarrow> round4 x \<le> real_of_int k / 10000"
  using round_even_between(1) [of k "x * 10000"] round_even_between(2) [of "x * 10000" k] by (simp_all add: round4_def field_simps)

section \<open>Joining and quoting\<close>

text \<open>\<^verbatim>\<open>sep.join\<close>, and \<^verbatim>\<open>json.dumps\<close> of a list of texts with compact separators.\<close>

fun py_join :: "string \<Rightarrow> string list \<Rightarrow> string" where
  "py_join sep [] = []"
| "py_join sep [s] = s"
| "py_join sep (s # t # ts) = s @ sep @ py_join sep (t # ts)"

definition hex_digit :: "nat \<Rightarrow> char" where
  "hex_digit n = ''0123456789abcdef'' ! (n mod 16)"

definition json_char :: "char \<Rightarrow> string" where
  "json_char c =
     (let n = of_char c :: nat
      in if c = CHR 0x22 then [CHR 0x5C, CHR 0x22] else if n = 92 then [CHR 0x5C, CHR 0x5C]
         else if n = 10 then [CHR 0x5C, CHR ''n''] else if n = 13 then [CHR 0x5C, CHR ''r'']
         else if n = 9 then [CHR 0x5C, CHR ''t''] else if n = 8 then [CHR 0x5C, CHR ''b'']
         else if n = 12 then [CHR 0x5C, CHR ''f'']
         else if n < 32 \<or> 126 < n then [CHR 0x5C, CHR ''u'', CHR ''0'', CHR ''0'', hex_digit (n div 16), hex_digit n]
         else [c])"

definition json_quote :: "string \<Rightarrow> string" where
  "json_quote s = CHR 0x22 # concat (map json_char s) @ [CHR 0x22]"

definition dumps_texts :: "string list \<Rightarrow> string" where
  "dumps_texts ts = ''['' @ py_join '','' (map json_quote ts) @ '']''"

lemma py_join_item: "x \<in> set xs \<Longrightarrow> \<exists>u v. py_join sep xs = u @ x @ v"
proof (induction sep xs rule: py_join.induct)
  case (2 sep s)
  then show ?case by (intro exI [of _ "[]"]) simp
next
  case (3 sep s t ts)
  show ?case
  proof (cases "x = s")
    case True
    then have "py_join sep (s # t # ts) = [] @ x @ (sep @ py_join sep (t # ts))" by simp
    then show ?thesis by blast
  next
    case False
    with 3 obtain u v where "py_join sep (t # ts) = u @ x @ v" by auto
    then have "py_join sep (s # t # ts) = (s @ sep @ u) @ x @ v" by simp
    then show ?thesis by blast
  qed
qed simp

end
