(* ===== verification/Planner.thy ===== *)
theory Planner
  imports Plan_Cycles Job_Queue Std_Text
begin

text \<open>
  \<^verbatim>\<open>backend/jobs/planner.py\<close>: the planner that turns a job into a list of node dicts. Complexity
  estimate, the four layers that extract a JSON array from a response, the validation of a plan, the
  fallback plan, and the quick and pipeline modes. Parameters are what is outside: \<open>generate\<close> is
  \<^verbatim>\<open>gemini_client.generate\<close> as a function of the prompt, \<open>loads\<close> and \<open>dumps\<close> are those of \<^verbatim>\<open>json\<close> on
  text, \<open>repr\<close> is \<^verbatim>\<open>str()\<close> of a JSON value that is neither text, number, bool nor \<^verbatim>\<open>None\<close>, and \<open>f\<close> is
  Python's recursion limit. A prompt is the record of the values the template of the source is filled
  with. A set of strings is tested like the list of its elements.
\<close>

section \<open>Constants\<close>

definition MAX_NODES_PER_JOB :: nat where
  "MAX_NODES_PER_JOB = 20"

definition TIMEOUT_BY_COMPLEXITY :: "(string \<times> nat) list" where
  "TIMEOUT_BY_COMPLEXITY = [(''simple'', 120), (''medium'', 300), (''complex'', 600)]"

definition SIMPLE_WORD_LIMIT :: nat where
  "SIMPLE_WORD_LIMIT = 12"

definition COMPLEX_WORD_LIMIT :: nat where
  "COMPLEX_WORD_LIMIT = 40"

definition MAX_NODES_BY_COMPLEXITY :: "(string \<times> nat) list" where
  "MAX_NODES_BY_COMPLEXITY = [(''simple'', 2), (''medium'', 4), (''complex'', 8)]"

text \<open>The required keys, in the sorted order in which an error lists them.\<close>

definition NODE_REQUIRED_KEYS :: "string list" where
  "NODE_REQUIRED_KEYS =
     [''depends_on'', ''expected_output'', ''instructions'', ''timeout_sec'', ''title'', ''tools_allowed'']"

section \<open>Complexity estimate\<close>

text \<open>\<^verbatim>\<open>str.split()\<close>: the words between white space.\<close>

fun words_from :: "string \<Rightarrow> string \<Rightarrow> string list" where
  "words_from w [] = (if w = [] then [] else [w])"
| "words_from w (c # s) =
     (if py_isspace c then (if w = [] then words_from [] s else w # words_from [] s)
      else words_from (w @ [c]) s)"

definition py_split :: "string \<Rightarrow> string list" where
  "py_split s = words_from [] s"

definition complex_keywords :: "string list" where
  "complex_keywords =
     [''refactor'', ''migrate'', ''pipeline'', ''integrate'', ''deploy'', ''analyse'', ''analyze'',
      ''audit'', ''compare'', ''benchmark'', ''architecture'', ''redesign'', ''orchestrate'']"

definition medium_keywords :: "string list" where
  "medium_keywords =
     [''research'', ''report'', ''test'', ''review'', ''summarize'', ''summarise'', ''edit'', ''update'',
      ''modify'', ''convert'', ''transform'', ''extract'', ''import'', ''export'']"

definition estimate_complexity :: "string \<Rightarrow> bool \<Rightarrow> string" where
  "estimate_complexity description has_files =
     (if description = [] then ''simple''
      else let word_count = length (py_split description);
               desc_lower = py_lower description;
               has_complex = list_ex (\<lambda>kw. contains kw desc_lower) complex_keywords;
               has_medium = list_ex (\<lambda>kw. contains kw desc_lower) medium_keywords
           in if has_complex \<or> word_count \<ge> COMPLEX_WORD_LIMIT \<or> has_files \<and> word_count \<ge> SIMPLE_WORD_LIMIT
              then ''complex''
              else if has_medium \<or> has_files \<or> word_count \<ge> SIMPLE_WORD_LIMIT then ''medium''
              else ''simple'')"

section \<open>Reading the response\<close>

definition try_parse :: "(string \<Rightarrow> json result) \<Rightarrow> string \<Rightarrow> json option result" where
  "try_parse loads text =
     (case loads text of
        Inr v \<Rightarrow> Inr (Some v)
      | Inl (ValueError s) \<Rightarrow> Inr None
      | Inl (TypeError s) \<Rightarrow> Inr None
      | Inl e \<Rightarrow> Inl e)"

text \<open>The text before and after the first occurrence of a mark.\<close>

fun split_at :: "string \<Rightarrow> string \<Rightarrow> (string \<times> string) option" where
  "split_at p [] = (if p = [] then Some ([], []) else None)"
| "split_at p (c # s) =
     (if starts_with p (c # s) then Some ([], drop (length p) (c # s))
      else map_option (\<lambda>(u, t). (c # u, t)) (split_at p s))"

text \<open>Layer 2: the body of the first fence.\<close>

definition fence_body :: "string \<Rightarrow> string option" where
  "fence_body text =
     (case split_at ''```'' text of
        None \<Rightarrow> None
      | Some (_, rest) \<Rightarrow>
          map_option (\<lambda>(body, _). py_strip body)
            (split_at ''```'' (if starts_with ''json'' rest then drop 4 rest else rest)))"

text \<open>Layer 3: the offset of the bracket that closes the first one, outside strings.\<close>

fun close_bracket :: "nat \<Rightarrow> int \<Rightarrow> bool \<Rightarrow> bool \<Rightarrow> string \<Rightarrow> nat option" where
  "close_bracket i depth in_string escape [] = None"
| "close_bracket i depth in_string escape (ch # s) =
     (if escape then close_bracket (Suc i) depth in_string False s
      else if ch = CHR 0x5C then close_bracket (Suc i) depth in_string True s
      else if ch = CHR 0x22 then close_bracket (Suc i) depth (\<not> in_string) False s
      else if in_string then close_bracket (Suc i) depth True False s
      else if ch = CHR ''['' then close_bracket (Suc i) (depth + 1) False False s
      else if ch = CHR '']'' then
        (if depth - 1 = 0 then Some i else close_bracket (Suc i) (depth - 1) False False s)
      else close_bracket (Suc i) depth False False s)"

definition from_bracket :: "string \<Rightarrow> string" where
  "from_bracket text = dropWhile (\<lambda>c. c \<noteq> CHR ''['') text"

definition bracket_block :: "string \<Rightarrow> string option" where
  "bracket_block text =
     map_option (\<lambda>e. take (Suc e) (from_bracket text)) (close_bracket 0 0 False False (from_bracket text))"

text \<open>Layer 4: Python's literals and trailing commas. \<^verbatim>\<open>re.sub(r"\bw\b", v, s)\<close> for a word \<open>w\<close>; \<open>inside\<close> says whether a word character precedes.\<close>

function sub_word :: "string \<Rightarrow> string \<Rightarrow> bool \<Rightarrow> string \<Rightarrow> string" where
  "sub_word w v inside [] = []"
| "sub_word w v inside (c # s) =
     (if \<not> inside \<and> w \<noteq> [] \<and> starts_with w (c # s) \<and> \<not> word_starts (drop (length w) (c # s))
      then v @ sub_word w v True (drop (length w) (c # s))
      else c # sub_word w v (word_char c) s)"
  by pat_completeness auto
termination
  by (relation "measure (\<lambda>(w, v, i, s). length s)") (auto simp: Suc_le_eq)

text \<open>\<^verbatim>\<open>re.sub(r",\s*([}\]])", r"\1", s)\<close>.\<close>

function drop_commas :: "string \<Rightarrow> string" where
  "drop_commas [] = []"
| "drop_commas (c # s) =
     (if c = CHR '','' \<and> dropWhile py_isspace s \<noteq> [] \<and> hd (dropWhile py_isspace s) \<in> set ''}]''
      then drop_commas (dropWhile py_isspace s)
      else c # drop_commas s)"
  by pat_completeness auto
termination
  by (relation "measure length") (auto intro: le_imp_less_Suc length_dropWhile_le)

definition fuzzy_repair :: "string \<Rightarrow> string" where
  "fuzzy_repair text =
     (let candidate = (if CHR ''['' \<in> set text then from_bracket text else text)
      in drop_commas
           (sub_word ''None'' ''null'' False
             (sub_word ''False'' ''false'' False (sub_word ''True'' ''true'' False candidate))))"

text \<open>The candidates in the order of the layers; the first that parses to a list is the plan.\<close>

definition plan_layers :: "string \<Rightarrow> string list" where
  "plan_layers text =
     [text] @ (case fence_body text of None \<Rightarrow> [] | Some b \<Rightarrow> [b]) @
     (case bracket_block text of None \<Rightarrow> [] | Some b \<Rightarrow> [b]) @ [fuzzy_repair text]"

fun first_list :: "(string \<Rightarrow> json result) \<Rightarrow> string \<Rightarrow> string list \<Rightarrow> json list result" where
  "first_list loads text [] = Inl (ParseError (take 120 text))"
| "first_list loads text (t # ts) =
     (case try_parse loads t of
        Inl e \<Rightarrow> Inl e
      | Inr (Some (JList xs)) \<Rightarrow> Inr xs
      | Inr _ \<Rightarrow> first_list loads text ts)"

definition parse_plan_response :: "(string \<Rightarrow> json result) \<Rightarrow> string \<Rightarrow> json list result" where
  "parse_plan_response loads response =
     (if py_strip response = [] then Inl (ParseError [])
      else first_list loads (py_strip response) (plan_layers (py_strip response)))"

section \<open>Validation\<close>

text \<open>The errors a validation can list, with the position of the node and the data of the message.\<close>

datatype plan_error =
    Plan_not_a_list
  | Plan_is_empty
  | Node_not_a_dict nat
  | Missing_keys nat "string list"
  | Bad_title nat
  | Duplicate_title nat string
  | Bad_instructions nat string
  | Bad_tools nat string
  | Unknown_tools nat string "json list"
  | Bad_depends_on nat string
  | Depends_on_itself nat string
  | Bad_timeout nat string
  | Unknown_dependency string string
  | No_entry_point
  | Circular_dependency "string list"

definition unnamed_title :: "nat \<Rightarrow> string" where
  "unnamed_title i = ''__unnamed_'' @ show_nat i @ ''__''"

definition checked_title :: "nat \<Rightarrow> (string \<times> json) list \<Rightarrow> string \<times> plan_error list" where
  "checked_title i node =
     (case get_or node ''title'' (JStr []) of
        JStr t \<Rightarrow> if py_strip t = [] then (unnamed_title i, [Bad_title i]) else (py_strip t, [])
      | _ \<Rightarrow> (unnamed_title i, [Bad_title i]))"

text \<open>\<^verbatim>\<open>t not in known_tools\<close>: a set of strings; a list or a dict has no hash.\<close>

fun unknown_tool :: "string list \<Rightarrow> json \<Rightarrow> bool result" where
  "unknown_tool known (JList xs) = Inl (TypeError ''unhashable type'')"
| "unknown_tool known (JObj kvs) = Inl (TypeError ''unhashable type'')"
| "unknown_tool known (JStr s) = Inr (s \<notin> set known)"
| "unknown_tool known _ = Inr True"

fun bad_tools :: "string list \<Rightarrow> json list \<Rightarrow> json list result" where
  "bad_tools known [] = Inr []"
| "bad_tools known (t # ts) =
     (case unknown_tool known t of
        Inl e \<Rightarrow> Inl e
      | Inr b \<Rightarrow> map_sum id (\<lambda>us. if b then t # us else us) (bad_tools known ts))"

definition checked_tools :: "string list \<Rightarrow> nat \<Rightarrow> string \<Rightarrow> (string \<times> json) list \<Rightarrow> plan_error list result" where
  "checked_tools known i title node =
     (case get_or node ''tools_allowed'' (JList []) of
        JList tools \<Rightarrow>
          if known = [] then Inr []
          else map_sum id (\<lambda>us. if us = [] then [] else [Unknown_tools i title us]) (bad_tools known tools)
      | _ \<Rightarrow> Inr [Bad_tools i title])"

definition checked_depends :: "nat \<Rightarrow> string \<Rightarrow> (string \<times> json) list \<Rightarrow> plan_error list" where
  "checked_depends i title node =
     (case get_or node ''depends_on'' (JList []) of
        JList deps \<Rightarrow> map (\<lambda>dep. Depends_on_itself i title) (filter (\<lambda>dep. dep = JStr title) deps)
      | _ \<Rightarrow> [Bad_depends_on i title])"

fun positive_number :: "json \<Rightarrow> bool" where
  "positive_number (JBool b) = b"
| "positive_number (JInt n) = (0 < n)"
| "positive_number (JReal r) = (0 < r)"
| "positive_number _ = False"

text \<open>The body of the first loop, with the titles seen so far: the title and the errors of one node.\<close>

definition check_node ::
  "string list \<Rightarrow> nat \<Rightarrow> (string \<times> json) list \<Rightarrow> string list \<Rightarrow> (string \<times> plan_error list) result" where
  "check_node known i node titles =
     (let missing = filter (\<lambda>k. k \<notin> fst ` set node) NODE_REQUIRED_KEYS;
          (title, title_errors) = checked_title i node
      in case checked_tools known i title node of
           Inl e \<Rightarrow> Inl e
         | Inr tool_errors \<Rightarrow>
             Inr (title,
               (if missing = [] then [] else [Missing_keys i missing]) @ title_errors @
               (if title \<in> set titles then [Duplicate_title i title] else []) @
               (case get_or node ''instructions'' (JStr []) of JStr s \<Rightarrow> [] | _ \<Rightarrow> [Bad_instructions i title]) @
               tool_errors @ checked_depends i title node @
               (if positive_number (get_or node ''timeout_sec'' JNull) then [] else [Bad_timeout i title])))"

fun check_nodes ::
  "string list \<Rightarrow> nat \<Rightarrow> json list \<Rightarrow> string list \<Rightarrow> (string list \<times> plan_error list) result" where
  "check_nodes known i [] titles = Inr (titles, [])"
| "check_nodes known i (JObj node # ns) titles =
     (case check_node known i node titles of
        Inl e \<Rightarrow> Inl e
      | Inr (title, errs) \<Rightarrow>
          map_sum id (\<lambda>(ts, es). (ts, errs @ es)) (check_nodes known (Suc i) ns (titles @ [title])))"
| "check_nodes known i (_ # ns) titles =
     map_sum id (\<lambda>(ts, es). (ts, Node_not_a_dict i # es)) (check_nodes known (Suc i) ns titles)"

text \<open>\<^verbatim>\<open>(node.get("title") or dflt).strip()\<close>: only text has the method.\<close>

definition title_or :: "(string \<times> json) list \<Rightarrow> string \<Rightarrow> string result" where
  "title_or node dflt =
     (let v = get_or node ''title'' JNull
      in if \<not> truthy v then Inr (py_strip dflt)
         else case v of JStr t \<Rightarrow> Inr (py_strip t) | _ \<Rightarrow> Inl (AttributeError ''strip''))"

text \<open>The strings of a list of JSON values: \<^verbatim>\<open>isinstance(d, str)\<close>.\<close>

fun strings_of :: "json list \<Rightarrow> string list" where
  "strings_of [] = []"
| "strings_of (JStr s # vs) = s # strings_of vs"
| "strings_of (_ # vs) = strings_of vs"

fun check_references :: "string list \<Rightarrow> nat \<Rightarrow> json list \<Rightarrow> plan_error list result" where
  "check_references titles i [] = Inr []"
| "check_references titles i (JObj node # ns) =
     (case get_or node ''depends_on'' (JList []) of
        JList deps \<Rightarrow>
          (case title_or node (unnamed_title i) of
             Inl e \<Rightarrow> Inl e
           | Inr node_title \<Rightarrow>
               map_sum id
                 (\<lambda>es. map (Unknown_dependency node_title) (filter (\<lambda>d. d \<notin> set titles) (strings_of deps)) @ es)
                 (check_references titles (Suc i) ns))
      | _ \<Rightarrow> check_references titles (Suc i) ns)"
| "check_references titles i (_ # ns) = check_references titles (Suc i) ns"

fun is_entry_point :: "json \<Rightarrow> bool" where
  "is_entry_point (JObj node) = (\<not> truthy (get_or node ''depends_on'' JNull))"
| "is_entry_point _ = False"

text \<open>The adjacency dict of \<^verbatim>\<open>_detect_cycles\<close>.\<close>

fun plan_adj :: "json list \<Rightarrow> (string \<times> string list) list \<Rightarrow> (string \<times> string list) list result" where
  "plan_adj [] adj = Inr adj"
| "plan_adj (JObj node # ns) adj =
     (case title_or node [] of
        Inl e \<Rightarrow> Inl e
      | Inr title \<Rightarrow>
          (let depends = get_or node ''depends_on'' (JList [])
           in case (if truthy depends then json_items depends else Inr []) of
                Inl e \<Rightarrow> Inl e
              | Inr ds \<Rightarrow> plan_adj ns (dict_put title (strings_of ds) adj)))"
| "plan_adj (_ # ns) adj = plan_adj ns adj"

definition plan_cycles :: "nat \<Rightarrow> json list \<Rightarrow> plan_error list result" where
  "plan_cycles f nodes =
     (case plan_adj nodes [] of
        Inl e \<Rightarrow> Inl e
      | Inr adj \<Rightarrow> map_sum id (map Circular_dependency) (detect_cycles f adj))"

text \<open>The tools of the registry, if there is one: their names.\<close>

definition known_tools :: "string list option \<Rightarrow> string list" where
  "known_tools registry = (case registry of None \<Rightarrow> [] | Some names \<Rightarrow> names)"

definition validate_plan :: "nat \<Rightarrow> string list option \<Rightarrow> json \<Rightarrow> plan_error list result" where
  "validate_plan f registry plan =
     (case plan of
        JList nodes \<Rightarrow>
          if nodes = [] then Inr [Plan_is_empty]
          else (case check_nodes (known_tools registry) 0 nodes [] of
                  Inl e \<Rightarrow> Inl e
                | Inr (titles, errors1) \<Rightarrow>
                    (case check_references titles 0 nodes of
                       Inl e \<Rightarrow> Inl e
                     | Inr errors2 \<Rightarrow>
                         map_sum id
                           (\<lambda>errors3. errors1 @ errors2 @
                              (if list_ex is_entry_point nodes then [] else [No_entry_point]) @ errors3)
                           (plan_cycles f nodes)))
      | _ \<Rightarrow> Inr [Plan_not_a_list])"

section \<open>Plans\<close>

definition list_or_empty :: "json \<Rightarrow> json" where
  "list_or_empty v = (case v of JList xs \<Rightarrow> JList xs | _ \<Rightarrow> JList [])"

definition normalise_node :: "(json \<Rightarrow> string) \<Rightarrow> (string \<times> json) list \<Rightarrow> json result" where
  "normalise_node repr node =
     (let timeout = get_or node ''timeout_sec'' JNull
      in map_sum id
           (\<lambda>t. JObj
             [(''title'', JStr (py_strip (py_str repr (get_or node ''title'' (JStr ''Unnamed node''))))),
              (''instructions'', JStr (py_str repr (get_or node ''instructions'' (JStr [])))),
              (''tools_allowed'', list_or_empty (get_or node ''tools_allowed'' JNull)),
              (''expected_output'', JStr (py_str repr (get_or node ''expected_output'' (JStr [])))),
              (''depends_on'', list_or_empty (get_or node ''depends_on'' JNull)),
              (''timeout_sec'', JInt t)])
           (json_to_int (if truthy timeout then timeout else JInt 300)))"

definition cap_nodes :: "json list \<Rightarrow> json list" where
  "cap_nodes nodes = (if length nodes > MAX_NODES_PER_JOB then take MAX_NODES_PER_JOB nodes else nodes)"

definition fallback_single_node :: "string list option \<Rightarrow> job \<Rightarrow> json list" where
  "fallback_single_node registry job =
     (let description =
            (case jo_description job of
               Some s \<Rightarrow> if s = [] then (if jo_title job = [] then ''Complete the task.'' else jo_title job) else s
             | None \<Rightarrow> if jo_title job = [] then ''Complete the task.'' else jo_title job)
      in [JObj
            [(''title'', JStr ''Execute task''),
             (''instructions'', JStr
                (''Complete the following task using whatever tools are available:'' @ newline @ newline @
                 description @ newline @ newline @
                 ''Work autonomously, verify your results, and report what was done.'')),
             (''tools_allowed'', JList (map JStr (known_tools registry))),
             (''expected_output'', JStr ''Task completed successfully, results documented.''),
             (''depends_on'', JList []),
             (''timeout_sec'', JInt (int (min (MAX_NODES_PER_JOB * 120) 1800)))]])"

section \<open>Prompts\<close>

record file_line =
  fl_filename :: string
  fl_file_type :: string
  fl_mime_type :: string
  fl_size_kb :: int
  fl_metadata :: "json option"

record plan_request =
  pq_job_id :: ident
  pq_title :: string
  pq_description :: "string option"
  pq_priority :: int
  pq_requester :: string
  pq_complexity :: string
  pq_max_nodes :: nat
  pq_default_timeout :: nat
  pq_files :: "file_line list"
  pq_tools :: "(string \<times> string) list option"

datatype prompt =
    Plan_prompt plan_request
  | Retry_validation prompt "json list" "plan_error list"
  | Retry_format prompt

definition or_else :: "string option \<Rightarrow> string \<Rightarrow> string" where
  "or_else v dflt = (case v of None \<Rightarrow> dflt | Some s \<Rightarrow> if s = [] then dflt else s)"

definition file_line_of :: "(ident \<times> (string \<times> json) list) list \<Rightarrow> file_row \<Rightarrow> file_line" where
  "file_line_of file_metadata f =
     (let meta = (case map_of file_metadata (fr_id f) of None \<Rightarrow> [] | Some m \<Rightarrow> m)
      in \<lparr>fl_filename = fr_filename f, fl_file_type = fr_file_type f,
          fl_mime_type = or_else (fr_mime_type f) ''unknown'',
          fl_size_kb = (case fr_size_bytes f of None \<Rightarrow> 0 | Some b \<Rightarrow> b) div 1024,
          fl_metadata = (if meta = [] then None else Some (JObj meta))\<rparr>)"

definition build_planner_prompt ::
  "(string \<times> string) list option \<Rightarrow> job \<Rightarrow> file_row list \<Rightarrow> (ident \<times> (string \<times> json) list) list \<Rightarrow> string \<Rightarrow> prompt" where
  "build_planner_prompt tools job input_files file_metadata complexity =
     Plan_prompt
       \<lparr>pq_job_id = jo_id job, pq_title = jo_title job,
        pq_description = (if or_else (jo_description job) [] = [] then None else jo_description job),
        pq_priority = jo_priority job, pq_requester = or_else (jo_requester job) ''system'',
        pq_complexity = complexity,
        pq_max_nodes =
          min (case map_of MAX_NODES_BY_COMPLEXITY complexity of None \<Rightarrow> 4 | Some n \<Rightarrow> n) MAX_NODES_PER_JOB,
        pq_default_timeout =
          (case map_of TIMEOUT_BY_COMPLEXITY complexity of None \<Rightarrow> 300 | Some n \<Rightarrow> n),
        pq_files = map (file_line_of file_metadata) input_files,
        pq_tools = tools\<rparr>"

section \<open>Planning\<close>

record planner =
  pl_tools :: "(string \<times> string) list option"
  pl_deployment_mode :: string
  pl_available :: bool
  pl_generate :: "prompt \<Rightarrow> string result"
  pl_loads :: "string \<Rightarrow> json result"
  pl_dumps :: "json \<Rightarrow> string"
  pl_repr :: "json \<Rightarrow> string"
  pl_recursion_limit :: nat

definition tool_names :: "planner \<Rightarrow> string list option" where
  "tool_names p = map_option (map fst) (pl_tools p)"

text \<open>One attempt: generate, parse and validate.\<close>

definition plan_attempt :: "planner \<Rightarrow> prompt \<Rightarrow> (json list \<times> plan_error list) result" where
  "plan_attempt p pr =
     (case pl_generate p pr of
        Inl e \<Rightarrow> Inl e
      | Inr raw \<Rightarrow>
          (case parse_plan_response (pl_loads p) raw of
             Inl e \<Rightarrow> Inl e
           | Inr nodes \<Rightarrow> map_sum id (Pair nodes) (validate_plan (pl_recursion_limit p) (tool_names p) (JList nodes))))"

text \<open>The second attempt catches every exception.\<close>

definition plan_retry :: "planner \<Rightarrow> job \<Rightarrow> prompt \<Rightarrow> json list" where
  "plan_retry p job pr =
     (case plan_attempt p pr of
        Inr (nodes, []) \<Rightarrow> cap_nodes nodes
      | _ \<Rightarrow> fallback_single_node (tool_names p) job)"

definition plan_quick ::
  "planner \<Rightarrow> job \<Rightarrow> file_row list \<Rightarrow> (ident \<times> (string \<times> json) list) list \<Rightarrow> json list result" where
  "plan_quick p job input_files file_metadata =
     (if pl_deployment_mode p = ''strict-local'' then Inr (fallback_single_node (tool_names p) job)
      else if \<not> pl_available p then Inr (fallback_single_node (tool_names p) job)
      else
        let complexity = estimate_complexity (or_else (jo_description job) (jo_title job)) (input_files \<noteq> []);
            pr = build_planner_prompt (pl_tools p) job input_files file_metadata complexity
        in case plan_attempt p pr of
             Inr (nodes, errors) \<Rightarrow>
               if errors = [] then Inr (cap_nodes nodes)
               else Inr (plan_retry p job (Retry_validation pr nodes errors))
           | Inl (ParseError s) \<Rightarrow> Inr (plan_retry p job (Retry_format pr))
           | Inl e \<Rightarrow> Inl e)"

text \<open>
  A node definition of a template, as the dict its JSON text decodes to: \<^verbatim>\<open>save_as_template\<close>, which
  writes it, stores a missing value as null.
\<close>

fun retry_json_value :: "retry_json \<Rightarrow> json" where
  "retry_json_value Not_a_dict = JNull"
| "retry_json_value (Retry_dict attempts backoff) =
     JObj ((case attempts of None \<Rightarrow> [] | Some n \<Rightarrow> [(''max_attempts'', JInt n)]) @
           (case backoff of None \<Rightarrow> [] | Some ms \<Rightarrow> [(''backoff_ms'', JList (map JInt ms))]))"

fun list_field_json :: "(json \<Rightarrow> string) \<Rightarrow> list_field \<Rightarrow> json" where
  "list_field_json dumps (As_list xs) = JList (map JStr xs)"
| "list_field_json dumps (As_text (Json xs)) = JStr (dumps (JList (map JStr xs)))"
| "list_field_json dumps (As_text (Bad_json s)) = JStr s"

definition or_null :: "json option \<Rightarrow> json" where
  "or_null v = (case v of None \<Rightarrow> JNull | Some j \<Rightarrow> j)"

definition node_def_json :: "(json \<Rightarrow> string) \<Rightarrow> node_def \<Rightarrow> (string \<times> json) list" where
  "node_def_json dumps nd =
     [(''title'', opt_str (nd_title nd)),
      (''instructions'', opt_str (nd_instructions nd)),
      (''tools_allowed'', or_null (map_option (list_field_json dumps) (nd_tools_allowed nd))),
      (''expected_output'', opt_str (nd_expected_output nd)),
      (''input_schema_json'', opt_str (nd_input_schema_json nd)),
      (''output_schema_json'', opt_str (nd_output_schema_json nd)),
      (''depends_on'', or_null (map_option (list_field_json dumps) (nd_depends_on nd))),
      (''timeout_sec'', opt_int (nd_timeout_sec nd)),
      (''retry_policy_json'',
       or_null (map_option (\<lambda>r. JStr (case r of Json v \<Rightarrow> dumps (retry_json_value v) | Bad_json s \<Rightarrow> s))
         (nd_retry_policy_json nd)))]"

text \<open>Everything in pipeline mode is caught; a plan with validation errors is still used.\<close>

definition plan_pipeline :: "planner \<Rightarrow> db \<Rightarrow> job \<Rightarrow> json list" where
  "plan_pipeline p d job =
     (let fallback = fallback_single_node (tool_names p) job
      in if or_else (jo_template_id job) [] = [] then fallback
         else case fetchone (filter (\<lambda>r. Some (tr_id r) = jo_template_id job) (db_templates d)) of
                None \<Rightarrow> fallback
              | Some row \<Rightarrow>
                  (let template = template_from_row row
                   in if te_nodes template = [] then fallback
                      else case sequence_results
                                  (map (normalise_node (pl_repr p) \<circ> node_def_json (pl_dumps p)) (te_nodes template)) of
                             Inl e \<Rightarrow> fallback
                           | Inr normalised \<Rightarrow>
                               (case validate_plan (pl_recursion_limit p) (tool_names p) (JList normalised) of
                                  Inl e \<Rightarrow> fallback
                                | Inr errors \<Rightarrow> cap_nodes normalised)))"

definition plan ::
  "planner \<Rightarrow> db \<Rightarrow> job \<Rightarrow> file_row list \<Rightarrow> (ident \<times> (string \<times> json) list) list \<Rightarrow> json list result" where
  "plan p d job input_files file_metadata =
     (if jo_mode job = ''pipeline'' then Inr (plan_pipeline p d job)
      else plan_quick p job input_files file_metadata)"

section \<open>What a valid plan is\<close>

text \<open>The specification, with the values of a node read once.\<close>

fun pn_title :: "json \<Rightarrow> string" where
  "pn_title (JObj node) = (case get_or node ''title'' JNull of JStr t \<Rightarrow> py_strip t | _ \<Rightarrow> [])"
| "pn_title _ = []"

fun pn_depends :: "json \<Rightarrow> json list" where
  "pn_depends (JObj node) = (case get_or node ''depends_on'' JNull of JList ds \<Rightarrow> ds | _ \<Rightarrow> [])"
| "pn_depends _ = []"

definition tool_ok :: "string list \<Rightarrow> json \<Rightarrow> bool" where
  "tool_ok known t \<longleftrightarrow> (\<exists>s \<in> set known. t = JStr s)"

text \<open>A well-typed node: the required keys, with values of the right shape.\<close>

fun node_typed :: "string list \<Rightarrow> json \<Rightarrow> bool" where
  "node_typed known (JObj node) \<longleftrightarrow>
     set NODE_REQUIRED_KEYS \<subseteq> fst ` set node \<and>
     (\<exists>t. get_or node ''title'' JNull = JStr t \<and> py_strip t \<noteq> []) \<and>
     (\<exists>t. get_or node ''instructions'' JNull = JStr t) \<and>
     (\<exists>ts. get_or node ''tools_allowed'' JNull = JList ts \<and> (known \<noteq> [] \<longrightarrow> (\<forall>t \<in> set ts. tool_ok known t))) \<and>
     (\<exists>ds. get_or node ''depends_on'' JNull = JList ds) \<and>
     positive_number (get_or node ''timeout_sec'' JNull)"
| "node_typed known _ \<longleftrightarrow> False"

definition plan_edges :: "json list \<Rightarrow> (string \<times> string) set" where
  "plan_edges nodes =
     {(t, d). \<exists>n \<in> set nodes. t = pn_title n \<and> JStr d \<in> set (pn_depends n) \<and> d \<in> pn_title ` set nodes}"

definition valid_plan :: "string list \<Rightarrow> json list \<Rightarrow> bool" where
  "valid_plan known nodes \<longleftrightarrow>
     nodes \<noteq> [] \<and> (\<forall>n \<in> set nodes. node_typed known n) \<and> distinct (map pn_title nodes) \<and>
     (\<forall>n \<in> set nodes. \<forall>d. JStr d \<in> set (pn_depends n) \<longrightarrow> d \<in> pn_title ` set nodes) \<and>
     (\<exists>n \<in> set nodes. pn_depends n = []) \<and> acyclic (plan_edges nodes)"

section \<open>Validation implements it\<close>

declare map_sum_Inr_iff [simp]

lemma obj_get_None: "obj_get kvs k = None \<longleftrightarrow> k \<notin> fst ` set kvs"
  by (simp add: obj_get_def map_of_eq_None_iff)

lemma get_or_key: "k \<in> fst ` set kvs \<Longrightarrow> get_or kvs k a = get_or kvs k b"
  using obj_get_None [of kvs k] by (auto simp: get_or_def split: option.split)

lemma unknown_tool_False: "unknown_tool known t = Inr False \<longleftrightarrow> tool_ok known t"
  by (cases t) (auto simp: tool_ok_def)

lemma bad_tools_Nil: "bad_tools known ts = Inr [] \<longleftrightarrow> (\<forall>t \<in> set ts. tool_ok known t)"
  by (induction ts) (auto simp: unknown_tool_False [symmetric] split: sum.splits if_splits)

lemma in_strings_of [simp]: "s \<in> set (strings_of vs) \<longleftrightarrow> JStr s \<in> set vs"
  by (induction vs rule: strings_of.induct) auto

lemma missing_Nil: "filter (\<lambda>k. k \<notin> A) ks = [] \<longleftrightarrow> set ks \<subseteq> A"
  by (auto simp: filter_empty_conv)

lemma checked_tools_Nil:
  "checked_tools known i t node = Inr [] \<longleftrightarrow>
     (\<exists>ts. get_or node ''tools_allowed'' (JList []) = JList ts \<and>
        (known \<noteq> [] \<longrightarrow> (\<forall>t \<in> set ts. tool_ok known t)))"
  by (cases "get_or node ''tools_allowed'' (JList [])")
     (auto simp: checked_tools_def bad_tools_Nil [symmetric] split: if_splits)

lemma checked_title_Nil:
  "checked_title i node = (t, []) \<longleftrightarrow>
     (\<exists>s. get_or node ''title'' (JStr []) = JStr s \<and> py_strip s \<noteq> [] \<and> t = py_strip s)"
  by (cases "get_or node ''title'' (JStr [])") (auto simp: checked_title_def)

lemma checked_depends_Nil:
  "checked_depends i t node = [] \<longleftrightarrow>
     (\<exists>ds. get_or node ''depends_on'' (JList []) = JList ds \<and> JStr t \<notin> set ds)"
  by (cases "get_or node ''depends_on'' (JList [])") (auto simp: checked_depends_def filter_empty_conv)

lemma check_node_clean:
  "check_node known i node titles = Inr (t, []) \<longleftrightarrow>
     node_typed known (JObj node) \<and> t = pn_title (JObj node) \<and> t \<notin> set titles \<and>
     JStr t \<notin> set (pn_depends (JObj node))"
proof -
  let ?A = "set NODE_REQUIRED_KEYS \<subseteq> fst ` set node"
  have keys: "get_or node ''title'' (JStr []) = get_or node ''title'' JNull"
     "get_or node ''tools_allowed'' (JList []) = get_or node ''tools_allowed'' JNull"
     "get_or node ''depends_on'' (JList []) = get_or node ''depends_on'' JNull"
     "get_or node ''instructions'' (JStr []) = get_or node ''instructions'' JNull" if ?A
    using that by (auto simp: NODE_REQUIRED_KEYS_def intro: get_or_key)
  have "check_node known i node titles = Inr (t, []) \<longleftrightarrow>
      ?A \<and> checked_title i node = (t, []) \<and> t \<notin> set titles \<and>
      (\<exists>s. get_or node ''instructions'' (JStr []) = JStr s) \<and> checked_tools known i t node = Inr [] \<and>
      checked_depends i t node = [] \<and> positive_number (get_or node ''timeout_sec'' JNull)"
    by (auto simp: check_node_def Let_def missing_Nil split: sum.splits if_splits json.splits prod.splits)
  also have "\<dots> \<longleftrightarrow> node_typed known (JObj node) \<and> t = pn_title (JObj node) \<and> t \<notin> set titles \<and>
     JStr t \<notin> set (pn_depends (JObj node))"
    by (cases ?A) (auto simp: keys checked_title_Nil checked_tools_Nil checked_depends_Nil)
  finally show ?thesis .
qed

lemma check_nodes_step:
  "check_nodes known i (JObj node # ns) titles = Inr (ts, []) \<longleftrightarrow>
     (\<exists>t. check_node known i node titles = Inr (t, []) \<and> check_nodes known (Suc i) ns (titles @ [t]) = Inr (ts, []))"
  by (auto split: sum.splits)

lemma check_nodes_clean:
  "check_nodes known i ns titles = Inr (ts, []) \<longleftrightarrow>
     ts = titles @ map pn_title ns \<and> (\<forall>n \<in> set ns. node_typed known n \<and> JStr (pn_title n) \<notin> set (pn_depends n)) \<and>
     distinct (map pn_title ns) \<and> set titles \<inter> pn_title ` set ns = {}"
proof (induction ns arbitrary: i titles)
  case Nil
  then show ?case by auto
next
  case (Cons n ns)
  show ?case
  proof (cases "\<exists>node. n = JObj node")
    case True
    then obtain node where n: "n = JObj node" by blast
    show ?thesis
      unfolding n check_nodes_step check_node_clean Cons.IH
      by (simp del: pn_title.simps pn_depends.simps node_typed.simps) blast
  next
    case False
    then have "check_nodes known i (n # ns) titles \<noteq> Inr (ts, [])" "\<not> node_typed known n"
      by (cases n; auto)+
    then show ?thesis by simp
  qed
qed

lemma node_typedD:
  assumes "node_typed known n"
  obtains node where "n = JObj node" "title_or node dflt = Inr (pn_title n)" "pn_title n \<noteq> []"
    "get_or node ''depends_on'' (JList []) = JList (pn_depends n)"
    "get_or node ''depends_on'' JNull = JList (pn_depends n)"
proof -
  from assms obtain node where n: "n = JObj node" by (cases n) auto
  with assms obtain t ds where t: "get_or node ''title'' JNull = JStr t" "py_strip t \<noteq> []"
    and ds: "get_or node ''depends_on'' JNull = JList ds" and keys: "''depends_on'' \<in> fst ` set node"
    by (auto simp: NODE_REQUIRED_KEYS_def)
  have "t \<noteq> []" using t(2) by (auto simp: py_strip_def)
  with t have "title_or node dflt = Inr (pn_title n)" by (simp add: title_or_def n)
  moreover have "get_or node ''depends_on'' (JList []) = JList ds" using get_or_key [OF keys] ds by metis
  ultimately show thesis using that [of node] n t ds by simp
qed

lemma check_references_clean:
  assumes "\<forall>n \<in> set ns. node_typed known n"
  shows "check_references titles i ns = Inr [] \<longleftrightarrow>
    (\<forall>n \<in> set ns. \<forall>d. JStr d \<in> set (pn_depends n) \<longrightarrow> d \<in> set titles)"
  using assms
proof (induction ns arbitrary: i)
  case Nil
  then show ?case by simp
next
  case (Cons n ns)
  from Cons.prems obtain node where n: "n = JObj node" "title_or node (unnamed_title i) = Inr (pn_title n)"
    "get_or node ''depends_on'' (JList []) = JList (pn_depends n)"
    by (metis list.set_intros(1) node_typedD)
  have "check_references titles i (n # ns) = Inr [] \<longleftrightarrow>
      check_references titles (Suc i) ns = Inr [] \<and> filter (\<lambda>d. d \<notin> set titles) (strings_of (pn_depends n)) = []"
    using n by (auto simp del: pn_title.simps pn_depends.simps)
  with Cons show ?case by (auto simp: filter_empty_conv)
qed

lemma is_entry_point_typed: "node_typed known n \<Longrightarrow> is_entry_point n \<longleftrightarrow> pn_depends n = []"
  by (erule node_typedD) (simp del: pn_title.simps pn_depends.simps)

definition adj_of :: "json list \<Rightarrow> (string \<times> string list) list" where
  "adj_of ns = map (\<lambda>n. (pn_title n, strings_of (pn_depends n))) ns"

lemma plan_adj_typed:
  assumes "\<forall>n \<in> set ns. node_typed known n" "distinct (map pn_title ns)"
    "fst ` set adj \<inter> pn_title ` set ns = {}"
  shows "plan_adj ns adj = Inr (adj @ adj_of ns)"
  using assms
proof (induction ns arbitrary: adj)
  case Nil
  then show ?case by (simp add: adj_of_def)
next
  case (Cons n ns)
  from Cons.prems obtain node where n: "n = JObj node" "title_or node [] = Inr (pn_title n)"
    "get_or node ''depends_on'' (JList []) = JList (pn_depends n)"
    by (metis list.set_intros(1) node_typedD)
  have new: "dict_put (pn_title n) v adj = adj @ [(pn_title n, v)]" for v
    using Cons.prems(3) by (auto simp: dict_put_def)
  have "plan_adj (n # ns) adj = plan_adj ns (adj @ [(pn_title n, strings_of (pn_depends n))])"
    using n(2,3) unfolding n(1) by (auto simp: new [unfolded n(1)] Let_def simp del: pn_title.simps pn_depends.simps)
  also have "\<dots> = Inr ((adj @ [(pn_title n, strings_of (pn_depends n))]) @ adj_of ns)"
    using Cons.prems by (intro Cons.IH) auto
  finally show ?case by (simp add: adj_of_def)
qed

lemma adj_get_adj_of:
  "distinct (map pn_title ns) \<Longrightarrow> n \<in> set ns \<Longrightarrow> adj_get (adj_of ns) (pn_title n) = strings_of (pn_depends n)"
  unfolding adj_get_def adj_of_def by (subst map_of_is_SomeI [of _ _ "strings_of (pn_depends n)"])
    (auto simp: comp_def)

lemma dep_edges_plan:
  assumes "distinct (map pn_title ns)"
  shows "dep_edges (fst ` set (adj_of ns)) (adj_get (adj_of ns)) = plan_edges ns"
proof -
  have "fst ` set (adj_of ns) = pn_title ` set ns" by (auto simp: adj_of_def image_image)
  then show ?thesis using adj_get_adj_of [OF assms] by (auto simp: dep_edges_def plan_edges_def)
qed

lemma plan_cycles_typed:
  assumes "\<forall>n \<in> set ns. node_typed known n" "distinct (map pn_title ns)"
  shows "plan_cycles f ns = map_sum id (map Circular_dependency) (detect_cycles f (adj_of ns))"
    and "detect_cycles f (adj_of ns) = Inr es \<Longrightarrow> es = [] \<longleftrightarrow> acyclic (plan_edges ns)"
    and "length ns \<le> f \<Longrightarrow> \<exists>es. detect_cycles f (adj_of ns) = Inr es"
  using plan_adj_typed [OF assms, of "[]"] detect_cycles_correct [of f "adj_of ns" es]
    detect_cycles_returns [of "adj_of ns" f] dep_edges_plan [OF assms(2)]
  by (simp_all add: plan_cycles_def adj_of_def)

lemma validate_plan_Nil:
  "validate_plan f registry (JList nodes) = Inr [] \<longleftrightarrow>
     valid_plan (known_tools registry) nodes \<and> detect_cycles f (adj_of nodes) = Inr []"
    (is "?L \<longleftrightarrow> ?R")
proof (cases "nodes \<noteq> [] \<and> (\<forall>n \<in> set nodes. node_typed (known_tools registry) n) \<and> distinct (map pn_title nodes)")
  case True
  then have ne: "nodes \<noteq> []" and typed: "\<forall>n \<in> set nodes. node_typed (known_tools registry) n"
    and dist: "distinct (map pn_title nodes)" by blast+
  note cycles = plan_cycles_typed [OF typed dist, of f]
  have self: "JStr (pn_title n) \<notin> set (pn_depends n)" if "acyclic (plan_edges nodes)" "n \<in> set nodes" for n
    using that by (auto simp: acyclic_def plan_edges_def)
  have entry: "list_ex is_entry_point nodes \<longleftrightarrow> (\<exists>n \<in> set nodes. pn_depends n = [])"
    using typed is_entry_point_typed by (auto simp: list_ex_iff)
  have L: "?L \<longleftrightarrow> (\<exists>ts. check_nodes (known_tools registry) 0 nodes [] = Inr (ts, []) \<and>
      check_references ts 0 nodes = Inr [] \<and> list_ex is_entry_point nodes \<and> detect_cycles f (adj_of nodes) = Inr [])"
    using ne by (auto simp: validate_plan_def cycles(1) split: sum.splits if_splits)
  show ?thesis
    unfolding L check_nodes_clean check_references_clean [OF typed] entry valid_plan_def
    using ne typed dist self cycles(2) by auto
next
  case False
  have "\<not> ?L" using False check_nodes_clean [of "known_tools registry" 0 nodes "[]"]
    by (auto simp: validate_plan_def split: sum.splits if_splits)
  with False show ?thesis by (auto simp: valid_plan_def)
qed


section \<open>Planning\<close>

lemma cap_nodes_take: "cap_nodes ns = take MAX_NODES_PER_JOB ns"
  by (simp add: cap_nodes_def)

lemma plan_attempt_clean:
  "plan_attempt p pr = Inr (nodes, []) \<Longrightarrow> valid_plan (known_tools (tool_names p)) nodes"
  by (auto simp: plan_attempt_def validate_plan_Nil split: sum.splits)

definition plan_shape :: "planner \<Rightarrow> job \<Rightarrow> json list \<Rightarrow> bool" where
  "plan_shape p job ns \<longleftrightarrow> ns = fallback_single_node (tool_names p) job \<or>
     (\<exists>full. valid_plan (known_tools (tool_names p)) full \<and> ns = cap_nodes full)"

lemma plan_shapeI [intro]:
  "plan_shape p job (fallback_single_node (tool_names p) job)"
  "plan_attempt p pr = Inr (full, []) \<Longrightarrow> plan_shape p job (cap_nodes full)"
  by (auto simp: plan_shape_def dest: plan_attempt_clean)

lemma plan_retry_shape [intro]: "plan_shape p job (plan_retry p job pr)"
  unfolding plan_retry_def by (auto split: sum.split prod.split list.split)

text \<open>A plan of quick mode is the fallback or a valid plan, cut to the cap; it is never empty.\<close>

theorem quick_plan_valid_or_fallback:
  assumes "plan_quick p job files metadata = Inr nodes"
  shows "(nodes = fallback_single_node (tool_names p) job \<or>
      (\<exists>full. valid_plan (known_tools (tool_names p)) full \<and> nodes = cap_nodes full)) \<and>
    nodes \<noteq> [] \<and> length nodes \<le> MAX_NODES_PER_JOB"
proof -
  have "plan_shape p job nodes"
    using assms
    by (auto simp: plan_quick_def Let_def split: if_splits sum.splits prod.splits py_error.splits)
  then show ?thesis
    by (auto simp: plan_shape_def cap_nodes_take fallback_single_node_def Let_def valid_plan_def MAX_NODES_PER_JOB_def)
qed

lemma py_strip_idem [simp]: "py_strip (py_strip s) = py_strip s"
proof -
  let ?u = "dropWhile py_isspace s"
  let ?v = "dropWhile py_isspace (rev ?u)"
  have "rev ?v @ rev (takeWhile py_isspace (rev ?u)) = ?u"
    by (metis rev_append rev_rev_ident takeWhile_dropWhile_id)
  then have "hd (rev ?v) = hd ?u" if "rev ?v \<noteq> []" using that by (metis hd_append)
  moreover have "\<not> py_isspace (hd ?u)" if "rev ?v \<noteq> []"
    using that hd_dropWhile [of py_isspace s] by (cases "?u = []") auto
  ultimately have "dropWhile py_isspace (rev ?v) = rev ?v"
    by (metis dropWhile.simps(1) dropWhile_eq_self_iff)
  then show ?thesis by (simp add: py_strip_def)
qed


section \<open>What goes wrong\<close>

text \<open>An exception of the first attempt other than a parse error is no fallback: it leaves \<^verbatim>\<open>plan\<close>.\<close>

lemma first_attempt_raises:
  assumes "jo_mode job \<noteq> ''pipeline''" "pl_deployment_mode p \<noteq> ''strict-local''" "pl_available p"
    and "pl_generate p = (\<lambda>_. Inl (ExternalError s))"
  shows "plan p d job files metadata = Inl (ExternalError s)"
  using assms by (simp add: plan_def plan_quick_def plan_attempt_def Let_def)

text \<open>A title that is a number is reported by the first loop and raises in the second.\<close>

lemma numeric_title_raises:
  "validate_plan f None (JList [JObj [(''title'', JInt 1), (''depends_on'', JList [])]]) =
     Inl (AttributeError ''strip'')"
  by (simp add: validate_plan_def check_node_def checked_title_def checked_tools_def checked_depends_def
      NODE_REQUIRED_KEYS_def title_or_def get_or_def obj_get_def Let_def known_tools_def)

text \<open>The normal form of a saved node without instructions tells the executor to do "None", and drops the
  schemas and the retry policy.\<close>

lemma normalised_template_node:
  "normalise_node repr (node_def_json dumps
     \<lparr>nd_title = Some ''A'', nd_instructions = None, nd_tools_allowed = None, nd_expected_output = Some ''x'',
      nd_input_schema_json = Some s1, nd_output_schema_json = Some s2, nd_depends_on = None,
      nd_timeout_sec = Some 60, nd_retry_policy_json = Some r\<rparr>) =
   Inr (JObj [(''title'', JStr ''A''), (''instructions'', JStr ''None''), (''tools_allowed'', JList []),
      (''expected_output'', JStr ''x''), (''depends_on'', JList []), (''timeout_sec'', JInt 60)])"
  by (simp add: normalise_node_def node_def_json_def get_or_def obj_get_def opt_str_def opt_int_def
      or_null_def list_or_empty_def py_strip_def py_isspace_def)

text \<open>The cap comes after the validation: a valid plan whose first node depends on the one after the last
  that is kept is no valid plan any more.\<close>

definition cap_node :: "nat \<Rightarrow> json list \<Rightarrow> json" where
  "cap_node i ds = JObj [(''title'', JStr (replicate (Suc i) CHR ''a'')), (''instructions'', JStr []),
     (''tools_allowed'', JList []), (''expected_output'', JStr []), (''depends_on'', JList ds), (''timeout_sec'', JInt 60)]"

definition cap_plan :: "json list" where
  "cap_plan = cap_node 0 [JStr (replicate (Suc MAX_NODES_PER_JOB) CHR ''a'')] #
     map (\<lambda>i. cap_node i []) [1..<Suc MAX_NODES_PER_JOB]"

lemma cap_node_simps [simp]:
  "pn_title (cap_node i ds) = replicate (Suc i) CHR ''a''" "pn_depends (cap_node i ds) = ds"
  "node_typed known (cap_node i ds)"
proof -
  have strip: "py_strip (replicate (Suc i) CHR ''a'') = replicate (Suc i) CHR ''a''"
    unfolding py_strip_def rev_replicate dropWhile_replicate
    by (simp add: py_isspace_def dropWhile_replicate del: replicate_Suc)
  show "pn_title (cap_node i ds) = replicate (Suc i) CHR ''a''"
    unfolding cap_node_def using strip by (simp add: get_or_def obj_get_def del: replicate_Suc)
  show "pn_depends (cap_node i ds) = ds" by (simp add: cap_node_def get_or_def obj_get_def)
  show "node_typed known (cap_node i ds)"
    unfolding cap_node_def using strip
    by (simp add: get_or_def obj_get_def NODE_REQUIRED_KEYS_def del: replicate_Suc)
qed

lemma cap_plan_titles: "map pn_title cap_plan = map (\<lambda>i. replicate (Suc i) CHR ''a'') [0..<Suc MAX_NODES_PER_JOB]"
  by (simp add: cap_plan_def upt_conv_Cons [of 0] del: upt_Suc replicate_Suc)

lemma set_cap_plan: "set cap_plan = insert (cap_node 0 [JStr (replicate (Suc MAX_NODES_PER_JOB) CHR ''a'')])
    ((\<lambda>i. cap_node i []) ` {1..MAX_NODES_PER_JOB})"
  by (auto simp: cap_plan_def)

theorem cap_can_break_a_valid_plan:
  "valid_plan known cap_plan \<and> \<not> valid_plan known (cap_nodes cap_plan)"
proof
  let ?t = "\<lambda>i. replicate (Suc i) CHR ''a''"
  have titles: "pn_title ` set cap_plan = ?t ` {0..<Suc MAX_NODES_PER_JOB}"
    using arg_cong [OF cap_plan_titles, of set] by (simp del: upt_Suc replicate_Suc)
  have last: "?t MAX_NODES_PER_JOB \<in> pn_title ` set cap_plan"
    unfolding titles by (rule imageI) simp
  have typed: "\<forall>n \<in> set cap_plan. node_typed known n" by (auto simp: set_cap_plan simp del: replicate_Suc)
  have dist: "distinct (map pn_title cap_plan)"
    unfolding cap_plan_titles by (simp add: distinct_map inj_on_def del: upt_Suc replicate_Suc)
  have known: "d \<in> pn_title ` set cap_plan" if "n \<in> set cap_plan" "JStr d \<in> set (pn_depends n)" for n d
  proof -
    have "d = ?t MAX_NODES_PER_JOB" using that unfolding set_cap_plan by (auto simp del: replicate_Suc)
    with last show ?thesis by simp
  qed
  have "cap_node 1 [] \<in> set cap_plan" by (auto simp: set_cap_plan MAX_NODES_PER_JOB_def simp del: replicate_Suc)
  then have entry: "\<exists>n \<in> set cap_plan. pn_depends n = []" by (metis cap_node_simps(2))
  have "plan_edges cap_plan \<subseteq> {(?t 0, ?t MAX_NODES_PER_JOB)}"
    by (auto simp: plan_edges_def set_cap_plan simp del: replicate_Suc)
  moreover have "acyclic {(?t 0, ?t MAX_NODES_PER_JOB)}"
    by (simp add: acyclic_insert MAX_NODES_PER_JOB_def acyclic_def [of "{}"] del: replicate_Suc)
  ultimately have "acyclic (plan_edges cap_plan)" using acyclic_subset by blast
  with typed dist known entry show "valid_plan known cap_plan"
    by (auto simp: valid_plan_def cap_plan_def simp del: replicate_Suc upt_Suc)
next
  let ?t = "\<lambda>i. replicate (Suc i) CHR ''a''" and ?n = "cap_node 0 [JStr (replicate (Suc MAX_NODES_PER_JOB) CHR ''a'')]"
  have "map pn_title (cap_nodes cap_plan) = take MAX_NODES_PER_JOB (map pn_title cap_plan)"
    by (simp only: cap_nodes_take take_map)
  then have "map pn_title (cap_nodes cap_plan) = map ?t [0..<MAX_NODES_PER_JOB]"
    by (simp add: cap_plan_titles take_map take_upt del: upt_Suc replicate_Suc)
  then have "pn_title ` set (cap_nodes cap_plan) = ?t ` {0..<MAX_NODES_PER_JOB}"
    using arg_cong [of _ _ set] by (metis list.set_map set_upt)
  then have "?t MAX_NODES_PER_JOB \<notin> pn_title ` set (cap_nodes cap_plan)"
    by (auto simp del: replicate_Suc)
  moreover have "?n \<in> set (cap_nodes cap_plan)"
    by (simp add: cap_nodes_take cap_plan_def MAX_NODES_PER_JOB_def)
  moreover have "JStr (?t MAX_NODES_PER_JOB) \<in> set (pn_depends ?n)" by (simp del: replicate_Suc)
  ultimately show "\<not> valid_plan known (cap_nodes cap_plan)" unfolding valid_plan_def by blast
qed

section \<open>An example\<close>

definition example_node :: "string \<Rightarrow> string list \<Rightarrow> json" where
  "example_node t deps = JObj [(''title'', JStr t), (''instructions'', JStr ''do it''), (''tools_allowed'', JList []),
     (''expected_output'', JStr ''a file''), (''depends_on'', JList (map JStr deps)), (''timeout_sec'', JInt 60)]"

definition example_plan :: "json list" where
  "example_plan = [example_node ''B'' [''A''], example_node ''A'' []]"

lemma example_plan_validates: "validate_plan 5 None (JList example_plan) = Inr []"
  by code_simp


definition example_planner :: planner where
  "example_planner =
     \<lparr>pl_tools = None, pl_deployment_mode = ''hybrid'', pl_available = True,
      pl_generate = (\<lambda>pr. Inr ''```json [1] ```''), pl_loads = (\<lambda>t. if t = ''[1]'' then Inr (JList example_plan) else Inl (ValueError t)),
      pl_dumps = (\<lambda>v. []), pl_repr = (\<lambda>v. []), pl_recursion_limit = 5\<rparr>"

definition example_request :: job where
  "example_request = job_from_row (plain_job ''j'' ''pending'')"

theorem quick_plan_valid_or_fallback_witness:
  "plan_quick example_planner example_request [] [] = Inr example_plan \<and> example_plan \<noteq> []"
proof -
  have "plan_quick example_planner example_request [] [] = Inr example_plan" by code_simp
  with quick_plan_valid_or_fallback [OF this] show ?thesis by blast
qed


end
