(* ===== verification/Plan_Execution.thy ===== *)
theory Plan_Execution
  imports Job_Queue
begin

text \<open>
  From a plan to its execution: the nodes that \<^verbatim>\<open>create_nodes\<close> makes from definitions whose dependencies
  are titles of the plan and form no cycle all run, whatever order they are listed in, each after the
  nodes it depends on. The graph is read off the rows of \<^verbatim>\<open>job_nodes\<close>.
\<close>

definition node_edges :: "db \<Rightarrow> ident \<Rightarrow> (ident \<times> ident) set" where
  "node_edges d j = {(dep, nr_id r) |dep r. r \<in> set (db_nodes d) \<and> nr_job_id r = j \<and>
     dep \<in> set (parse_json_field (nr_depends_on r) [])}"

definition node_ids :: "db \<Rightarrow> ident \<Rightarrow> ident set" where
  "node_ids d j = nr_id ` {r \<in> set (db_nodes d). nr_job_id r = j}"

definition with_status :: "db \<Rightarrow> ident \<Rightarrow> string \<Rightarrow> node_row set" where
  "with_status d j s = {r \<in> set (db_nodes d). nr_job_id r = j \<and> nr_status r = s}"

text \<open>A job whose nodes are pending or completed and whose dependencies are its own nodes, without cycle.\<close>

definition runnable :: "db \<Rightarrow> ident \<Rightarrow> bool" where
  "runnable d j \<longleftrightarrow> db_wf d \<and> (\<forall>r \<in> set (db_nodes d). nr_job_id r = j \<longrightarrow> nr_status r \<in> {''pending'', ''completed''}) \<and>
     Domain (node_edges d j) \<subseteq> node_ids d j \<and> acyclic (node_edges d j)"

lemma finite_node_edges: "finite (node_edges d j)"
proof -
  have "node_edges d j \<subseteq>
      (\<Union>r \<in> set (db_nodes d). set (parse_json_field (nr_depends_on r) [])) \<times> nr_id ` set (db_nodes d)"
    by (auto simp: node_edges_def)
  then show ?thesis by (rule finite_subset) auto
qed

text \<open>Among the pending nodes one depends on none of them, so it is the turn of one.\<close>

lemma runnable_progress:
  assumes R: "runnable d j" and p: "with_status d j ''pending'' \<noteq> {}"
  shows "\<exists>n. get_next_pending_node d j = Some n"
proof -
  let ?P = "nr_id ` with_status d j ''pending''"
  have "wf (node_edges d j)" using R finite_node_edges finite_acyclic_wf by (auto simp: runnable_def)
  then obtain i where i: "i \<in> ?P" "\<And>k. (k, i) \<in> node_edges d j \<Longrightarrow> k \<notin> ?P"
    using p unfolding wf_eq_minimal by (metis image_is_empty all_not_in_conv)
  then obtain r where r: "r \<in> set (db_nodes d)" "nr_job_id r = j" "nr_status r = ''pending''" "nr_id r = i"
    by (auto simp: with_status_def)
  have "\<exists>q \<in> set (db_nodes d). nr_id q = dep \<and> nr_job_id q = j \<and> nr_status q = ''completed''"
    if dep: "dep \<in> set (parse_json_field (nr_depends_on r) [])" for dep
  proof -
    have e: "(dep, i) \<in> node_edges d j" using r dep by (auto simp: node_edges_def)
    then have "dep \<in> node_ids d j" using R by (auto simp: runnable_def)
    then obtain q where q: "q \<in> set (db_nodes d)" "nr_job_id q = j" "nr_id q = dep"
      by (auto simp: node_ids_def)
    with i(2) [OF e] have "nr_status q \<noteq> ''pending''" by (auto simp: with_status_def)
    with q R show ?thesis by (auto simp: runnable_def)
  qed
  with r have "eligible d j r" by (simp add: eligible_def)
  with get_next_pending_node_None [of d j] R show ?thesis by (auto simp: runnable_def)
qed

lemma next_is_pending:
  assumes "db_wf d" "get_next_pending_node d j = Some n"
  shows "\<exists>r \<in> with_status d j ''pending''. nr_id r = no_id n \<and>
    (\<forall>dep. (dep, no_id n) \<in> node_edges d j \<longrightarrow> dep \<in> nr_id ` with_status d j ''completed'')"
proof -
  from get_next_pending_node_Some [OF assms] obtain r where r: "n = node_from_row r" "eligible d j r" by blast
  have "dep \<in> nr_id ` with_status d j ''completed''" if e: "(dep, no_id n) \<in> node_edges d j" for dep
  proof -
    from e obtain q where q: "q \<in> set (db_nodes d)" "nr_job_id q = j" "nr_id q = nr_id r"
      "dep \<in> set (parse_json_field (nr_depends_on q) [])" by (auto simp: node_edges_def r(1))
    have "q = r" using assms(1) q r(2) by (auto simp: db_wf_def eligible_def intro: unique_key_eq)
    with q r(2) show ?thesis by (fastforce simp: eligible_def with_status_def)
  qed
  with r show ?thesis by (auto simp: with_status_def eligible_def intro!: bexI [of _ r])
qed

section \<open>Completing a node\<close>

definition set_node :: "ident \<Rightarrow> (node_row \<Rightarrow> node_row) \<Rightarrow> db \<Rightarrow> db" where
  "set_node i f d = d\<lparr>db_nodes := sql_update (\<lambda>r. nr_id r = i) f (db_nodes d)\<rparr>"

text \<open>What an update of a node's columns leaves as it is.\<close>

definition keeps_graph :: "(node_row \<Rightarrow> node_row) \<Rightarrow> bool" where
  "keeps_graph f \<longleftrightarrow> (\<forall>r. nr_id (f r) = nr_id r \<and> nr_job_id (f r) = nr_job_id r \<and> nr_depends_on (f r) = nr_depends_on r)"

lemma update_node_set:
  obtains f where "\<And>d. update_node i st ip ou er now d = set_node i f d" "keeps_graph f"
    "\<And>r. nr_status (f r) = (case st of None \<Rightarrow> nr_status r | Some s \<Rightarrow> s)"
    "\<And>r. nr_sequence (f r) = nr_sequence r"
proof
  let ?f = "\<lambda>r. r\<lparr>nr_updated_at := now,
      nr_status := (case st of None \<Rightarrow> nr_status r | Some s \<Rightarrow> s),
      nr_input_json := (case ip of None \<Rightarrow> nr_input_json r | Some x \<Rightarrow> Some x),
      nr_output_json := (case ou of None \<Rightarrow> nr_output_json r | Some x \<Rightarrow> Some x),
      nr_error := (case er of None \<Rightarrow> nr_error r | Some x \<Rightarrow> Some x)\<rparr>"
  show "update_node i st ip ou er now d = set_node i ?f d" for d
    by (simp add: update_node_def set_node_def Let_def)
qed (simp_all add: keeps_graph_def)

lemma set_node_graph [simp]:
  assumes "keeps_graph f"
  shows "node_edges (set_node i f d) j = node_edges d j" "node_ids (set_node i f d) j = node_ids d j"
proof -
  have f: "nr_id (f r) = nr_id r" "nr_job_id (f r) = nr_job_id r" "nr_depends_on (f r) = nr_depends_on r" for r
    using assms by (auto simp: keeps_graph_def)
  show "node_edges (set_node i f d) j = node_edges d j"
    by (auto simp: node_edges_def set_node_def in_sql_update f split: if_splits) (metis f)+
  show "node_ids (set_node i f d) j = node_ids d j"
    by (auto simp: node_ids_def set_node_def in_sql_update f image_iff split: if_splits) (metis f)+
qed

definition ids_with :: "db \<Rightarrow> ident \<Rightarrow> string \<Rightarrow> ident set" where
  "ids_with d j s = nr_id ` with_status d j s"

lemma in_ids_with:
  "x \<in> ids_with d j s \<longleftrightarrow> (\<exists>r \<in> set (db_nodes d). nr_job_id r = j \<and> nr_status r = s \<and> nr_id r = x)"
  by (auto simp: ids_with_def with_status_def)

lemma bex_sql_update: "(\<exists>r \<in> set (sql_update P f t). Q r) \<longleftrightarrow> (\<exists>q \<in> set t. Q (if P q then f q else q))"
  by (auto simp: set_sql_update)

lemma ids_with_set_node:
  assumes "keeps_graph f" "\<And>r. nr_status (f r) = st" "i \<in> node_ids d j"
  shows "ids_with (set_node i f d) j s = (ids_with d j s - {i}) \<union> (if s = st then {i} else {})"
proof -
  have f: "nr_id (f r) = nr_id r" "nr_job_id (f r) = nr_job_id r" for r
    using assms(1) by (auto simp: keeps_graph_def)
  have "x \<in> ids_with (set_node i f d) j s \<longleftrightarrow> x \<noteq> i \<and> x \<in> ids_with d j s \<or> x = i \<and> s = st" for x
  proof -
    have "x \<in> ids_with (set_node i f d) j s \<longleftrightarrow>
        (\<exists>q \<in> set (db_nodes d). nr_job_id q = j \<and> nr_id q = x \<and> (if x = i then s = st else nr_status q = s))"
      unfolding in_ids_with set_node_def
      by (simp add: bex_sql_update, intro bex_cong refl) (auto simp: f assms(2))
    with assms(3) show ?thesis by (auto simp: in_ids_with node_ids_def)
  qed
  then show ?thesis by auto
qed

lemma set_node_wf: "keeps_graph f \<Longrightarrow> (\<And>r. nr_sequence (f r) = nr_sequence r) \<Longrightarrow> db_wf d \<Longrightarrow> db_wf (set_node i f d)"
  unfolding set_node_def by (intro db_wf_nodes_update) (auto simp: keeps_graph_def)

text \<open>What a job's nodes are to the lemmas: a well-formed database and the rows of the job.\<close>

definition node_view :: "db \<Rightarrow> ident \<Rightarrow> node_row list" where
  "node_view d j = filter (\<lambda>r. nr_job_id r = j) (db_nodes d)"

lemma in_node_view: "r \<in> set (node_view d j) \<longleftrightarrow> r \<in> set (db_nodes d) \<and> nr_job_id r = j"
  by (auto simp: node_view_def)

lemma node_view_simps:
  "node_edges d j = {(dep, nr_id r) |dep r. r \<in> set (node_view d j) \<and> dep \<in> set (parse_json_field (nr_depends_on r) [])}"
  "node_ids d j = nr_id ` set (node_view d j)"
  "ids_with d j s = nr_id ` {r \<in> set (node_view d j). nr_status r = s}"
  "with_status d j s = {r \<in> set (node_view d j). nr_status r = s}"
  by (auto simp: node_edges_def node_ids_def ids_with_def with_status_def in_node_view)

lemma runnable_view:
  "runnable d j \<longleftrightarrow> db_wf d \<and> (\<forall>r \<in> set (node_view d j). nr_status r \<in> {''pending'', ''completed''}) \<and>
     Domain (node_edges d j) \<subseteq> node_ids d j \<and> acyclic (node_edges d j)"
  by (auto simp: runnable_def in_node_view)

lemma node_view_cong:
  assumes "node_view d' j = node_view d j"
  shows "node_edges d' j = node_edges d j" "node_ids d' j = node_ids d j" "ids_with d' j s = ids_with d j s"
  using assms by (simp_all add: node_view_simps)

lemma runnable_cong: "node_view d' j = node_view d j \<Longrightarrow> db_wf d' \<Longrightarrow> runnable d j \<Longrightarrow> runnable d' j"
  using node_view_cong [of d' j d] by (simp add: runnable_view)

lemma node_view_set_node:
  "keeps_graph f \<Longrightarrow> node_view (set_node i f d) j = sql_update (\<lambda>r. nr_id r = i) f (node_view d j)"
  unfolding node_view_def set_node_def by (simp add: filter_sql_update_same keeps_graph_def)

lemma complete_set_node:
  assumes R: "runnable d j" and i: "i \<in> ids_with d j ''pending''"
    and f: "keeps_graph f" "\<And>r. nr_status (f r) = ''completed''" "\<And>r. nr_sequence (f r) = nr_sequence r"
  shows "runnable (set_node i f d) j \<and> ids_with (set_node i f d) j ''pending'' = ids_with d j ''pending'' - {i} \<and>
     ids_with (set_node i f d) j ''completed'' = insert i (ids_with d j ''completed'')"
proof -
  from i have node: "i \<in> node_ids d j" by (auto simp: in_ids_with node_ids_def)
  have "nr_status r \<in> {''pending'', ''completed''}"
    if "r \<in> set (db_nodes (set_node i f d))" "nr_job_id r = j" for r
  proof -
    from that obtain q where "q \<in> set (db_nodes d)" "r = (if nr_id q = i then f q else q)"
      by (auto simp: set_node_def in_sql_update)
    with R f(1,2) that(2) show ?thesis by (auto simp: runnable_def keeps_graph_def split: if_splits)
  qed
  then have "runnable (set_node i f d) j"
    using R f(1,3) set_node_wf [of f d i] by (simp add: runnable_def)
  with ids_with_set_node [OF f(1,2) node] show ?thesis by auto
qed

lemma next_pending_id:
  assumes "db_wf d" "get_next_pending_node d j = Some n"
  shows "no_id n \<in> ids_with d j ''pending''"
    and "(dep, no_id n) \<in> node_edges d j \<Longrightarrow> dep \<in> ids_with d j ''completed''"
  using next_is_pending [OF assms] unfolding ids_with_def by (metis imageI, blast)

lemma finite_ids_with [simp]: "finite (ids_with d j s)"
  by (simp add: ids_with_def with_status_def)

section \<open>From a plan to a runnable job\<close>

definition def_edges :: "(ident \<times> node_def) list \<Rightarrow> (string \<times> string) set" where
  "def_edges defs = {(dep, node_def_title nd) |dep nd. nd \<in> snd ` set defs \<and> dep \<in> set (declared_deps nd)}"

text \<open>Distinct non-empty titles, dependencies that are titles, and no cycle.\<close>

definition acyclic_defs :: "(ident \<times> node_def) list \<Rightarrow> bool" where
  "acyclic_defs defs \<longleftrightarrow>
     distinct (map (node_def_title \<circ> snd) defs) \<and> (\<forall>nd \<in> snd ` set defs. node_def_title nd \<noteq> []) \<and>
     Domain (def_edges defs) \<subseteq> node_def_title ` snd ` set defs \<and> acyclic (def_edges defs)"

lemma title_to_id_mem:
  assumes "acyclic_defs defs" "(i, nd) \<in> set defs"
  shows "title_to_id defs (node_def_title nd) = Some i"
proof -
  let ?f = "\<lambda>(i, nd). (node_def_title nd, i)"
  have all: "filter (\<lambda>(i, nd). node_def_title nd \<noteq> []) defs = defs"
    using assms(1) by (intro filter_True) (fastforce simp: acyclic_defs_def)
  have "map fst (map ?f defs) = map (node_def_title \<circ> snd) defs" by auto
  then have "distinct (map fst (rev (map ?f defs)))"
    using assms(1) by (simp add: acyclic_defs_def rev_map [symmetric] del: map_map)
  moreover have "(node_def_title nd, i) \<in> set (rev (map ?f defs))" using assms(2) by force
  ultimately show ?thesis unfolding title_to_id_def all by simp
qed

lemma finite_def_edges: "finite (def_edges defs)"
proof -
  have "def_edges defs \<subseteq> (\<Union>nd \<in> snd ` set defs. set (declared_deps nd)) \<times> node_def_title ` snd ` set defs"
    by (auto simp: def_edges_def)
  then show ?thesis by (rule finite_subset) auto
qed

lemma create_nodes_runnable:
  assumes wf: "db_wf d" and create: "create_nodes j defs now d = Inr (ns, d')"
    and new: "\<forall>r \<in> set (db_nodes d). nr_job_id r \<noteq> j" and A: "acyclic_defs defs"
  shows "runnable d' j \<and> ids_with d' j ''pending'' = fst ` set defs \<and> ids_with d' j ''completed'' = {} \<and>
     node_ids d' j = fst ` set defs"
proof -
  note C = create_nodes_InrD [OF create]
  from create_nodes_pipeline [OF wf create new] have P: "pipeline_at j defs 0 d'" .
  then have wf': "db_wf d'" by (simp add: pipeline_at_def)
  have shape: "\<exists>nd. (nr_id r, nd) \<in> set defs \<and> nr_depends_on r = Some (Json (resolve_deps (title_to_id defs) nd)) \<and>
      nr_status r = ''pending''" if "r \<in> set (db_nodes d')" "nr_job_id r = j" for r
  proof -
    from P that obtain i where "i < length defs" "nr_id r = fst (defs ! i)"
      "nr_depends_on r = Some (Json (resolve_deps (title_to_id defs) (snd (defs ! i))))" "nr_status r = ''pending''"
      unfolding pipeline_at_def by fastforce
    then show ?thesis by (metis nth_mem prod.collapse)
  qed
  have ids: "distinct (map fst defs)" using C(3) .
  have row: "\<exists>r \<in> set (db_nodes d'). nr_job_id r = j \<and> nr_id r = i" if "i \<in> fst ` set defs" for i
    using P that unfolding pipeline_at_def by (metis (no_types, lifting) in_set_conv_nth length_map nth_map list.set_map)
  have dep: "\<exists>t \<in> set (declared_deps nd). \<exists>nd'. (dep, nd') \<in> set defs \<and> node_def_title nd' = t"
    if "(i, nd) \<in> set defs" "dep \<in> set (resolve_deps (title_to_id defs) nd)" for i nd dep
  proof -
    from that(2) obtain t where t: "t \<in> set (declared_deps nd)"
      "dep = (case title_to_id defs t of None \<Rightarrow> t | Some k \<Rightarrow> k)" by (auto simp: resolve_deps_def)
    have "(t, node_def_title nd) \<in> def_edges defs" using that(1) t(1) by (force simp: def_edges_def)
    with A obtain k nd' where "(k, nd') \<in> set defs" "node_def_title nd' = t" by (force simp: acyclic_defs_def)
    with title_to_id_mem [OF A, of k nd'] t show ?thesis by auto
  qed
  let ?h = "\<lambda>i. node_def_title (the (map_of defs i))"
  have h: "?h i = node_def_title nd" if "(i, nd) \<in> set defs" for i nd
    using that ids by simp
  have sub: "(a, b) \<in> inv_image (def_edges defs) ?h \<and> a \<in> fst ` set defs" if "(a, b) \<in> node_edges d' j" for a b
  proof -
    from that obtain r where r: "r \<in> set (db_nodes d')" "nr_job_id r = j" "nr_id r = b"
      "a \<in> set (parse_json_field (nr_depends_on r) [])" by (auto simp: node_edges_def)
    from shape [OF r(1,2)] r(3,4) obtain nd where nd: "(b, nd) \<in> set defs"
      "a \<in> set (resolve_deps (title_to_id defs) nd)" by auto
    from dep [OF this] obtain nd' where "(a, nd') \<in> set defs" "node_def_title nd' \<in> set (declared_deps nd)" by blast
    with nd(1) h show ?thesis by (force simp: def_edges_def in_inv_image)
  qed
  have "wf (def_edges defs)" using A finite_def_edges finite_acyclic_wf by (auto simp: acyclic_defs_def)
  then have "wf (inv_image (def_edges defs) ?h)" by (rule wf_inv_image)
  moreover have "node_edges d' j \<subseteq> inv_image (def_edges defs) ?h"
    by (rule subrelI) (drule sub, erule conjunct1)
  ultimately have "wf (node_edges d' j)" by (rule wf_subset)
  then have "acyclic (node_edges d' j)" by (rule wf_acyclic)
  moreover have sub1: "nr_id r \<in> fst ` set defs \<and> nr_status r = ''pending''"
    if "r \<in> set (db_nodes d')" "nr_job_id r = j" for r
    using shape [OF that] by (metis fst_conv imageI)
  have row': "i \<in> node_ids d' j \<and> i \<in> ids_with d' j ''pending''" if "i \<in> fst ` set defs" for i
  proof -
    from row [OF that] obtain r where "r \<in> set (db_nodes d')" "nr_job_id r = j" "nr_id r = i" by blast
    with sub1 [of r] show ?thesis by (auto simp: node_ids_def in_ids_with)
  qed
  have all: "node_ids d' j = fst ` set defs"
  proof
    show "node_ids d' j \<subseteq> fst ` set defs"
    proof
      fix x assume "x \<in> node_ids d' j"
      then obtain r where "r \<in> set (db_nodes d')" "nr_job_id r = j" "x = nr_id r" by (auto simp: node_ids_def)
      with sub1 [of r] show "x \<in> fst ` set defs" by simp
    qed
  qed (use row' in blast)
  have "ids_with d' j ''pending'' \<subseteq> node_ids d' j" by (auto simp: in_ids_with node_ids_def)
  then have pend: "ids_with d' j ''pending'' = fst ` set defs" using row' all by blast
  have "x \<notin> ids_with d' j ''completed''" for x using sub1 by (auto simp: in_ids_with)
  moreover have "Domain (node_edges d' j) \<subseteq> node_ids d' j" unfolding all using sub by blast
  ultimately show ?thesis using wf' sub1 all pend by (auto simp: runnable_def)
qed

end
