(* ===== verification/Coroutine.thy ===== *)
theory Coroutine
  imports Prelude
begin

text \<open>
  Coroutines as actions: from a world to \<open>None\<close>, when the fuel of a loop runs out, or to a result and the new
  world. The result is an exception or a value, and the world keeps what was done before the exception.
  Then the reasoning the components share: relations every outcome keeps, triples on returned values, and
  triples that say what holds after an exception too.
\<close>

section \<open>Actions\<close>

type_synonym ('s, 'a) coroutine = "'s \<Rightarrow> ('a result \<times> 's) option"

definition ret :: "'a \<Rightarrow> ('s, 'a) coroutine" where
  "ret x = (\<lambda>s. Some (Inr x, s))"

definition bind_act :: "('s, 'a) coroutine \<Rightarrow> ('a \<Rightarrow> ('s, 'b) coroutine) \<Rightarrow> ('s, 'b) coroutine" where
  "bind_act m k = (\<lambda>s. case m s of
       None \<Rightarrow> None
     | Some (Inl e, s') \<Rightarrow> Some (Inl e, s')
     | Some (Inr x, s') \<Rightarrow> k x s')"

definition seq_act :: "('s, unit) coroutine \<Rightarrow> ('s, 'b) coroutine \<Rightarrow> ('s, 'b) coroutine" where
  "seq_act m k = bind_act m (\<lambda>_. k)"

text \<open>\<^verbatim>\<open>try: m except Exception as exc: h(exc)\<close>.\<close>

definition try_act :: "('s, 'a) coroutine \<Rightarrow> (py_error \<Rightarrow> ('s, 'a) coroutine) \<Rightarrow> ('s, 'a) coroutine" where
  "try_act m h = (\<lambda>s. case m s of
       None \<Rightarrow> None
     | Some (Inl e, s') \<Rightarrow> h e s'
     | Some (Inr x, s') \<Rightarrow> Some (Inr x, s'))"

text \<open>\<^verbatim>\<open>try: m finally: f\<close>.\<close>

definition finally_act :: "('s, 'a) coroutine \<Rightarrow> ('s, unit) coroutine \<Rightarrow> ('s, 'a) coroutine" where
  "finally_act m f = (\<lambda>s. case m s of
       None \<Rightarrow> None
     | Some (r, s') \<Rightarrow> (case f s' of
           None \<Rightarrow> None | Some (Inl e, s'') \<Rightarrow> Some (Inl e, s'') | Some (Inr _, s'') \<Rightarrow> Some (r, s'')))"

definition reads :: "('s \<Rightarrow> 'a) \<Rightarrow> ('s, 'a) coroutine" where
  "reads f = (\<lambda>s. Some (Inr (f s), s))"

definition changes :: "('s \<Rightarrow> 's) \<Rightarrow> ('s, unit) coroutine" where
  "changes f = (\<lambda>s. Some (Inr (), f s))"

definition lift_result :: "'a result \<Rightarrow> ('s, 'a) coroutine" where
  "lift_result r = (\<lambda>s. Some (r, s))"

section \<open>Reasoning about actions\<close>

named_theorems act_defs \<open>definitions of the basic actions\<close>
named_theorems keeps_rules \<open>introduction rules for kept relations\<close>

lemmas [act_defs] = ret_def bind_act_def seq_act_def try_act_def reads_def changes_def lift_result_def

text \<open>\<open>keeps R m\<close>: whatever comes of the action, the world after it is related to the one before.
  \<open>hoare P m Q\<close>: started in \<open>P\<close>, if it returns a value, then with \<open>Q\<close>.\<close>

definition keeps :: "('s \<Rightarrow> 's \<Rightarrow> bool) \<Rightarrow> ('s, 'a) coroutine \<Rightarrow> bool" where
  "keeps R m \<longleftrightarrow> (\<forall>s r s'. m s = Some (r, s') \<longrightarrow> R s s')"

definition hoare :: "('s \<Rightarrow> bool) \<Rightarrow> ('s, 'a) coroutine \<Rightarrow> ('a \<Rightarrow> 's \<Rightarrow> bool) \<Rightarrow> bool" where
  "hoare P m Q \<longleftrightarrow> (\<forall>s x s'. P s \<longrightarrow> m s = Some (Inr x, s') \<longrightarrow> Q x s')"

lemma keeps_cases [keeps_rules]:
  "(c \<Longrightarrow> keeps R a) \<Longrightarrow> (\<not> c \<Longrightarrow> keeps R b) \<Longrightarrow> keeps R (if c then a else b)"
  "keeps R a \<Longrightarrow> (\<And>x. keeps R (k x)) \<Longrightarrow> keeps R (case v of None \<Rightarrow> a | Some x \<Rightarrow> k x)"
  "(\<And>x y. keeps R (g x y)) \<Longrightarrow> keeps R (case p of (x, y) \<Rightarrow> g x y)"
  by (auto split: option.split prod.split)

lemma hoareI: "(\<And>s x s'. P s \<Longrightarrow> m s = Some (Inr x, s') \<Longrightarrow> Q x s') \<Longrightarrow> hoare P m Q"
  by (simp add: hoare_def)

lemma hoareD: "hoare P m Q \<Longrightarrow> P s \<Longrightarrow> m s = Some (Inr x, s') \<Longrightarrow> Q x s'"
  by (simp add: hoare_def)

lemma hoare_bind:
  "hoare P m R \<Longrightarrow> (\<And>x. hoare (R x) (k x) Q) \<Longrightarrow> hoare P (bind_act m k) Q"
  unfolding hoare_def bind_act_def by (auto split: option.splits sum.splits prod.splits)

lemma hoare_seq: "hoare P m (\<lambda>_. R) \<Longrightarrow> hoare R k Q \<Longrightarrow> hoare P (seq_act m k) Q"
  unfolding seq_act_def by (rule hoare_bind)

text \<open>When only the last action matters.\<close>

lemma hoare_bind_last: "(\<And>x. hoare (\<lambda>_. True) (k x) Q) \<Longrightarrow> hoare P (bind_act m k) Q"
  by (rule hoare_bind [of _ _ "\<lambda>_ _. True"]) (auto simp: hoare_def)

lemma hoare_seq_last: "hoare (\<lambda>_. True) k Q \<Longrightarrow> hoare P (seq_act m k) Q"
  unfolding seq_act_def by (rule hoare_bind_last)

lemma hoare_try:
  "hoare P m Q \<Longrightarrow> (\<And>e. hoare (\<lambda>_. True) (h e) Q) \<Longrightarrow> hoare P (try_act m h) Q"
  unfolding hoare_def try_act_def by (auto split: option.splits sum.splits prod.splits)

lemma hoare_finally: "hoare P m Q \<Longrightarrow> keeps R f \<Longrightarrow> (\<And>x s s'. Q x s \<Longrightarrow> R s s' \<Longrightarrow> Q x s') \<Longrightarrow> hoare P (finally_act m f) Q"
  unfolding hoare_def finally_act_def keeps_def
  by (auto split: option.splits sum.splits prod.splits)

lemma hoare_ret: "(\<And>s. P s \<Longrightarrow> Q x s) \<Longrightarrow> hoare P (ret x) Q"
  by (simp add: hoare_def ret_def)

lemma hoare_keeps: "keeps R m \<Longrightarrow> (\<And>s s' x. P s \<Longrightarrow> R s s' \<Longrightarrow> Q x s') \<Longrightarrow> hoare P m Q"
  unfolding hoare_def keeps_def by blast

lemma hoare_weaken: "hoare P' m Q' \<Longrightarrow> (\<And>s. P s \<Longrightarrow> P' s) \<Longrightarrow> (\<And>x s. Q' x s \<Longrightarrow> Q x s) \<Longrightarrow> hoare P m Q"
  unfolding hoare_def by blast

text \<open>A triple with the condition that holds after an exception.\<close>

definition triple ::
  "('s \<Rightarrow> bool) \<Rightarrow> ('s, 'a) coroutine \<Rightarrow> ('a \<Rightarrow> 's \<Rightarrow> bool) \<Rightarrow> (py_error \<Rightarrow> 's \<Rightarrow> bool) \<Rightarrow> bool" where
  "triple P m Q E \<longleftrightarrow>
     (\<forall>s r s'. P s \<longrightarrow> m s = Some (r, s') \<longrightarrow> (case r of Inl e \<Rightarrow> E e s' | Inr x \<Rightarrow> Q x s'))"

lemma triple_bind:
  "triple P m R E \<Longrightarrow> (\<And>x. triple (R x) (k x) Q E) \<Longrightarrow> triple P (bind_act m k) Q E"
  unfolding triple_def bind_act_def by (auto split: option.splits sum.splits prod.splits) fastforce+

lemma triple_seq: "triple P m (\<lambda>_. R) E \<Longrightarrow> triple R k Q E \<Longrightarrow> triple P (seq_act m k) Q E"
  unfolding seq_act_def by (rule triple_bind)

lemma triple_try: "triple P m Q R \<Longrightarrow> (\<And>e. triple (R e) (h e) Q E) \<Longrightarrow> triple P (try_act m h) Q E"
  unfolding triple_def try_act_def by (auto split: option.splits sum.splits prod.splits) fastforce+

lemma triple_basic:
  "(\<And>s. P s \<Longrightarrow> Q x s) \<Longrightarrow> triple P (ret x) Q E"
  "(\<And>s. P s \<Longrightarrow> R (g s) s) \<Longrightarrow> triple P (reads g) R E"
  "(\<And>s. P s \<Longrightarrow> U () (f s)) \<Longrightarrow> triple P (changes f) U E"
  by (auto simp: triple_def act_defs)

lemma triple_lift: "(\<And>s x. P s \<Longrightarrow> r = Inr x \<Longrightarrow> Q x s) \<Longrightarrow> (\<And>s e. P s \<Longrightarrow> r = Inl e \<Longrightarrow> E e s) \<Longrightarrow> triple P (lift_result r) Q E"
  by (auto simp: triple_def act_defs split: sum.split)

lemma triple_weaken:
  "triple P' m Q' E' \<Longrightarrow> (\<And>s. P s \<Longrightarrow> P' s) \<Longrightarrow> (\<And>x s. Q' x s \<Longrightarrow> Q x s) \<Longrightarrow> (\<And>e s. E' e s \<Longrightarrow> E e s) \<Longrightarrow>
   triple P m Q E"
  unfolding triple_def by (fastforce split: sum.splits)

text \<open>What an action keeps needs no triple of its own.\<close>

lemma triple_keeps: "keeps R m \<Longrightarrow> (\<And>s s'. P s \<Longrightarrow> R s s' \<Longrightarrow> P s') \<Longrightarrow> triple P m (\<lambda>_. P) (\<lambda>_. P)"
  unfolding triple_def keeps_def by (auto split: sum.split)

lemma triple_if: "(b \<Longrightarrow> triple P m Q E) \<Longrightarrow> (\<not> b \<Longrightarrow> triple P k Q E) \<Longrightarrow> triple P (if b then m else k) Q E"
  by simp

lemma triple_post: "triple P m Q E \<Longrightarrow> P s \<Longrightarrow> m s = Some (r, s') \<Longrightarrow> (\<And>x s. Q x s \<Longrightarrow> T s) \<Longrightarrow> (\<And>e s. E e s \<Longrightarrow> T s) \<Longrightarrow> T s'"
  unfolding triple_def by (cases r) fastforce+

text \<open>Actions that always come to an end.\<close>

named_theorems returns_rules \<open>introduction rules for actions that return\<close>

definition returns :: "('s, 'a) coroutine \<Rightarrow> bool" where
  "returns m \<longleftrightarrow> (\<forall>s. m s \<noteq> None)"

lemma returnsE: "returns m \<Longrightarrow> (\<And>r s'. m s = Some (r, s') \<Longrightarrow> thesis) \<Longrightarrow> thesis"
  unfolding returns_def by (cases "m s") fastforce+

lemma returns_basic [returns_rules]: "returns (ret x)" "returns (reads f)" "returns (changes g)" "returns (lift_result r)"
  by (simp_all add: returns_def act_defs)

lemma returns_bind [returns_rules]: "returns m \<Longrightarrow> (\<And>x. returns (k x)) \<Longrightarrow> returns (bind_act m k)"
  unfolding returns_def bind_act_def by (auto split: option.split sum.split)

lemma returns_seq [returns_rules]: "returns m \<Longrightarrow> returns k \<Longrightarrow> returns (seq_act m k)"
  unfolding seq_act_def by (rule returns_bind)

lemma returns_try [returns_rules]: "returns m \<Longrightarrow> (\<And>e. returns (h e)) \<Longrightarrow> returns (try_act m h)"
  unfolding returns_def try_act_def by (auto split: option.split sum.split)

lemma returns_cases [returns_rules]:
  "(c \<Longrightarrow> returns a) \<Longrightarrow> (\<not> c \<Longrightarrow> returns b) \<Longrightarrow> returns (if c then a else b)"
  "returns a \<Longrightarrow> (\<And>x. returns (k x)) \<Longrightarrow> returns (case v of None \<Rightarrow> a | Some x \<Rightarrow> k x)"
  "(\<And>x y. returns (g x y)) \<Longrightarrow> returns (case p of (x, y) \<Rightarrow> g x y)"
  "(\<And>x. returns (u x)) \<Longrightarrow> (\<And>x. returns (v' x)) \<Longrightarrow> returns (case w of Inl x \<Rightarrow> u x | Inr x \<Rightarrow> v' x)"
  by (auto split: option.split prod.split sum.split)

text \<open>A reflexive and transitive relation is kept by what is built from actions that keep it.\<close>

locale kept_preorder =
  fixes R :: "'s \<Rightarrow> 's \<Rightarrow> bool"
  assumes refl: "R s s" and trans: "R s t \<Longrightarrow> R t u \<Longrightarrow> R s u"
begin

lemma keeps_pure [keeps_rules]: "keeps R (ret x)" "keeps R (reads f)" "keeps R (lift_result r)"
  by (auto simp: keeps_def act_defs refl)

lemma keeps_bind [keeps_rules]: "keeps R m \<Longrightarrow> (\<And>x. keeps R (k x)) \<Longrightarrow> keeps R (bind_act m k)"
  unfolding keeps_def bind_act_def by (auto split: option.splits sum.splits prod.splits) (blast intro: trans)+

lemma keeps_seq [keeps_rules]: "keeps R m \<Longrightarrow> keeps R k \<Longrightarrow> keeps R (seq_act m k)"
  unfolding seq_act_def by (rule keeps_bind)

lemma keeps_try [keeps_rules]: "keeps R m \<Longrightarrow> (\<And>e. keeps R (h e)) \<Longrightarrow> keeps R (try_act m h)"
  unfolding keeps_def try_act_def by (auto split: option.splits sum.splits prod.splits) (blast intro: trans)+

lemma keeps_finally [keeps_rules]: "keeps R m \<Longrightarrow> keeps R f \<Longrightarrow> keeps R (finally_act m f)"
  unfolding keeps_def finally_act_def by (auto split: option.splits sum.splits prod.splits) (blast intro: trans)+

end

end
