(* ===== verification/Policy.thy ===== *)
theory Policy
  imports Job_Models Std_Text
begin

text \<open>
  \<^verbatim>\<open>backend/core/policy.py\<close>: the policy engine, the single gate before every tool call, with its
  tables \<^verbatim>\<open>approval_policies\<close> and \<^verbatim>\<open>approvals\<close>. Tool arguments, conditions and actions are JSON
  objects. The reason of a decision is a datatype: which message, with the data it is built from.
\<close>

definition EGRESS_TOOLS :: "string list" where
  "EGRESS_TOOLS = [''web_search'', ''browser'', ''gmail'', ''gemini'']"

definition DELETE_TOOLS :: "string list" where
  "DELETE_TOOLS = [''delete_file'', ''remove_file'', ''file_delete'', ''unlink'']"

definition URL_TOOLS :: "string list" where
  "URL_TOOLS = [''browser'', ''web_search'']"

definition WRITE_TOOLS :: "string list" where
  "WRITE_TOOLS = [''write_file'', ''save_file'', ''file_write'', ''create_file'', ''append_file'']"

definition URL_ARG_KEYS :: "string list" where
  "URL_ARG_KEYS = [''url'', ''query'', ''href'', ''uri'', ''navigate'']"

definition PATH_ARG_KEYS :: "string list" where
  "PATH_ARG_KEYS = [''path'', ''file_path'', ''filepath'', ''filename'', ''dest'', ''destination'']"

definition MAX_TOOL_CALLS_PER_NODE :: int where
  "MAX_TOOL_CALLS_PER_NODE = 100"

definition MAX_DELETES_PER_NODE :: int where
  "MAX_DELETES_PER_NODE = 10"

datatype policy_result = ALLOW | DENY | REQUIRE_APPROVAL | DRY_RUN

datatype reason =
    Rate_limit int ident
  | Bulk_delete int ident
  | Egress_blocked string
  | Ssrf_blocked string string
  | Write_outside string ident
  | Db_error
  | Default_allow
  | Matched_policy string
  | Given_reason json

record policy_decision =
  pd_result :: policy_result
  pd_policy_id :: "ident option"
  pd_reason :: reason
  pd_approval_id :: "ident option"

record policy_context =
  pc_workspace_id :: ident
  pc_deployment_mode :: string
  pc_job_id :: ident
  pc_node_id :: ident
  pc_job_classification :: "string option"
  pc_tool_call_count :: int
  pc_delete_count :: int

record policy_row =
  po_id :: ident
  po_workspace_id :: ident
  po_name :: string
  po_description :: string
  po_conditions_json :: json_text
  po_actions_json :: json_text
  po_priority :: int
  po_enabled :: bool
  po_created_at :: timestamp

record approval_row =
  ap_id :: ident
  ap_policy_id :: "ident option"
  ap_job_id :: ident
  ap_node_id :: ident
  ap_tool_call_json :: json_text
  ap_status :: string
  ap_requested_at :: timestamp
  ap_decided_by :: "ident option"
  ap_decided_at :: "timestamp option"
  ap_expires_at :: timestamp
  ap_reason :: "string option"

record policy_state =
  ps_workspaces :: "ident list"
  ps_users :: "ident list"
  ps_policies :: "policy_row list"
  ps_approvals :: "approval_row list"

section \<open>Built-in policies\<close>

text \<open>The first of the given keys whose value is a non-empty string.\<close>

fun first_string :: "string list \<Rightarrow> (string \<times> json) list \<Rightarrow> string option" where
  "first_string [] args = None"
| "first_string (k # ks) args =
     (case obj_get args k of
        Some (JStr s) \<Rightarrow> if s \<noteq> [] then Some s else first_string ks args
      | _ \<Rightarrow> first_string ks args)"

fun nested_path :: "(string \<times> json) list \<Rightarrow> string option" where
  "nested_path [] = None"
| "nested_path ((k, v) # kvs) =
     (case v of
        JObj inner \<Rightarrow> (case first_string PATH_ARG_KEYS inner of None \<Rightarrow> nested_path kvs | Some p \<Rightarrow> Some p)
      | _ \<Rightarrow> nested_path kvs)"

definition extract_path :: "(string \<times> json) list \<Rightarrow> string option" where
  "extract_path args =
     (case first_string PATH_ARG_KEYS args of Some p \<Rightarrow> Some p | None \<Rightarrow> nested_path args)"

definition extract_url :: "(string \<times> json) list \<Rightarrow> string option" where
  "extract_url args = first_string URL_ARG_KEYS args"

definition is_ssrf_url :: "string \<Rightarrow> bool" where
  "is_ssrf_url url =
     (case urlparse url of
        None \<Rightarrow> False
      | Some (scheme, netloc) \<Rightarrow>
          scheme = ''file'' \<or>
          (let host = host_of netloc
           in host = ''localhost'' \<or> host = ''127.0.0.1'' \<or> starts_with ''169.254.'' host))"

definition deny :: "reason \<Rightarrow> policy_decision" where
  "deny r = \<lparr>pd_result = DENY, pd_policy_id = None, pd_reason = r, pd_approval_id = None\<rparr>"

definition ssrf_decision :: "string \<Rightarrow> (string \<times> json) list \<Rightarrow> policy_decision option" where
  "ssrf_decision tool args =
     (if tool \<in> set URL_TOOLS
      then (case extract_url args of
              None \<Rightarrow> None
            | Some url \<Rightarrow> if is_ssrf_url url then Some (deny (Ssrf_blocked tool url)) else None)
      else None)"

definition path_inside :: "ident \<Rightarrow> string \<Rightarrow> bool" where
  "path_inside job path =
     (let norm = map (\<lambda>c. if c = CHR 0x5C then CHR ''/'' else c) path
      in contains (''/jobs/'' @ job) norm \<or> contains ''LocalMind_Workspace'' norm)"

definition write_decision :: "string \<Rightarrow> (string \<times> json) list \<Rightarrow> policy_context \<Rightarrow> policy_decision option" where
  "write_decision tool args ctx =
     (if tool \<in> set WRITE_TOOLS
      then (case extract_path args of
              None \<Rightarrow> None
            | Some path \<Rightarrow>
                if path_inside (pc_job_id ctx) path then None
                else Some (deny (Write_outside path (pc_job_id ctx))))
      else None)"

definition check_builtin_policies ::
    "string \<Rightarrow> (string \<times> json) list \<Rightarrow> policy_context \<Rightarrow> policy_decision option" where
  "check_builtin_policies tool args ctx =
     (if MAX_TOOL_CALLS_PER_NODE \<le> pc_tool_call_count ctx
      then Some (deny (Rate_limit (pc_tool_call_count ctx) (pc_node_id ctx)))
      else if tool \<in> set DELETE_TOOLS \<and> MAX_DELETES_PER_NODE \<le> pc_delete_count ctx
      then Some (deny (Bulk_delete (pc_delete_count ctx) (pc_node_id ctx)))
      else if pc_deployment_mode ctx = ''strict-local'' \<and> tool \<in> set EGRESS_TOOLS
      then Some (deny (Egress_blocked tool))
      else (case ssrf_decision tool args of
              Some dec \<Rightarrow> Some dec
            | None \<Rightarrow> write_decision tool args ctx))"

section \<open>Conditions\<close>

text \<open>\<^verbatim>\<open>str(value)\<close> of a pattern; for numbers, lists and dicts, whose text is never a useful pattern, it is left
  to an argument.\<close>

definition pattern_text :: "(json \<Rightarrow> string) \<Rightarrow> json \<Rightarrow> string" where
  "pattern_text str v = (case v of JStr s \<Rightarrow> s | _ \<Rightarrow> str v)"

fun domain_listed :: "string \<Rightarrow> json list \<Rightarrow> bool result" where
  "domain_listed host [] = Inr False"
| "domain_listed host (JStr name # ds) = (if host = py_lower name then Inr True else domain_listed host ds)"
| "domain_listed host (_ # ds) = Inl (AttributeError ''lower'')"

definition condition_domain_not_in :: "json \<Rightarrow> (string \<times> json) list \<Rightarrow> bool result" where
  "condition_domain_not_in v args =
     (case json_items v of
        Inl e \<Rightarrow> Inl e
      | Inr domains \<Rightarrow>
          (case extract_url args of
             None \<Rightarrow> Inr True
           | Some url \<Rightarrow>
               (case domain_listed
                       (case urlparse url of None \<Rightarrow> [] | Some (_, netloc) \<Rightarrow> host_of netloc) domains of
                  Inl e \<Rightarrow> Inl e | Inr listed \<Rightarrow> Inr (\<not> listed))))"

text \<open>One condition: true when the loop goes on, false when the policy does not match.\<close>

definition condition_holds ::
  "(json \<Rightarrow> string) \<Rightarrow> string \<Rightarrow> (string \<times> json) list \<Rightarrow> policy_context \<Rightarrow> string \<Rightarrow> json \<Rightarrow> bool result" where
  "condition_holds str tool args ctx key v =
     (if key = ''tool'' then map_sum id (\<lambda>xs. JStr tool \<in> set xs) (json_one_or_many v)
      else if key = ''tool_not'' then map_sum id (\<lambda>xs. JStr tool \<notin> set xs) (json_one_or_many v)
      else if key = ''deployment_mode''
      then map_sum id (\<lambda>xs. JStr (pc_deployment_mode ctx) \<in> set xs) (json_one_or_many v)
      else if key = ''job_classification''
      then map_sum id (\<lambda>xs. opt_str (pc_job_classification ctx) \<in> set xs) (json_one_or_many v)
      else if key = ''path_matches''
      then (let path = (case extract_path args of None \<Rightarrow> [] | Some p \<Rightarrow> p); pat = pattern_text str v
            in Inr (fnmatch pat path \<or> fnmatch pat (basename path)))
      else if key = ''domain_not_in'' then condition_domain_not_in v args
      else if key = ''tool_requires_egress'' then Inr (truthy v = (tool \<in> set EGRESS_TOOLS))
      else Inr True)"

text \<open>The loop over the items, in order; a value that is no dict has no \<^verbatim>\<open>items\<close>.\<close>

fun all_conditions ::
  "(json \<Rightarrow> string) \<Rightarrow> string \<Rightarrow> (string \<times> json) list \<Rightarrow> policy_context \<Rightarrow> (string \<times> json) list \<Rightarrow> bool result" where
  "all_conditions str tool args ctx [] = Inr True"
| "all_conditions str tool args ctx ((k, v) # kvs) =
     (case condition_holds str tool args ctx k v of
        Inl e \<Rightarrow> Inl e
      | Inr b \<Rightarrow> if b then all_conditions str tool args ctx kvs else Inr False)"

definition evaluate_conditions ::
  "(json \<Rightarrow> string) \<Rightarrow> json \<Rightarrow> string \<Rightarrow> (string \<times> json) list \<Rightarrow> policy_context \<Rightarrow> bool result" where
  "evaluate_conditions str conditions tool args ctx =
     (if \<not> truthy conditions then Inr True
      else (case conditions of
              JObj kvs \<Rightarrow> all_conditions str tool args ctx kvs
            | _ \<Rightarrow> Inl (AttributeError ''items'')))"

section \<open>Approvals\<close>

definition create_approval ::
  "ident option \<Rightarrow> ident \<Rightarrow> ident \<Rightarrow> json \<Rightarrow> int \<Rightarrow> ident \<Rightarrow> timestamp \<Rightarrow> policy_state \<Rightarrow>
   (ident \<times> policy_state) result" where
  "create_approval policy_id job node tool_call expires_minutes approval_id now s =
     (if approval_id \<in> set (map ap_id (ps_approvals s)) then Inl (IntegrityError ''UNIQUE approvals.id'')
      else if policy_id \<noteq> None \<and> the policy_id \<notin> set (map po_id (ps_policies s))
      then Inl (IntegrityError ''FOREIGN KEY approvals.policy_id'')
      else Inr (approval_id, s\<lparr>ps_approvals := ps_approvals s @
             [\<lparr>ap_id = approval_id, ap_policy_id = policy_id, ap_job_id = job, ap_node_id = node,
               ap_tool_call_json = json_dumps tool_call, ap_status = ''pending'',
               ap_requested_at = now, ap_decided_by = None, ap_decided_at = None,
               ap_expires_at = now + expires_minutes * 60000000, ap_reason = None\<rparr>]\<rparr>))"

definition mark_expired :: "ident \<Rightarrow> policy_state \<Rightarrow> policy_state" where
  "mark_expired i s =
     s\<lparr>ps_approvals := sql_update (\<lambda>a. ap_id a = i) (\<lambda>a. a\<lparr>ap_status := ''expired''\<rparr>) (ps_approvals s)\<rparr>"

definition check_approval :: "ident \<Rightarrow> timestamp \<Rightarrow> policy_state \<Rightarrow> (string \<times> policy_state) result" where
  "check_approval i now s =
     (case fetchone (filter (\<lambda>a. ap_id a = i) (ps_approvals s)) of
        None \<Rightarrow> Inl (ValueError ''Approval not found'')
      | Some a \<Rightarrow>
          if ap_status a = ''pending'' \<and> ap_expires_at a \<le> now
          then Inr (''expired'', mark_expired i s)
          else Inr (ap_status a, s))"

text \<open>
  \<open>decide_approval\<close> checks in one transaction and updates in a second; the state is the one it
  leaves, also when it raises.
\<close>

definition decide_approval ::
  "ident \<Rightarrow> ident \<Rightarrow> bool \<Rightarrow> string \<Rightarrow> timestamp \<Rightarrow> timestamp \<Rightarrow> policy_state \<Rightarrow>
   py_error option \<times> policy_state" where
  "decide_approval i who approved why now now2 s =
     (case check_approval i now s of
        Inl e \<Rightarrow> (Some e, s)
      | Inr (status, s1) \<Rightarrow>
          if status \<noteq> ''pending'' then (Some (ValueError ''Cannot decide approval''), s1)
          else if who \<notin> set (ps_users s1)
          then (Some (IntegrityError ''FOREIGN KEY approvals.decided_by''), s1)
          else (None, s1\<lparr>ps_approvals := sql_update (\<lambda>a. ap_id a = i)
                 (\<lambda>a. a\<lparr>ap_status := (if approved then ''approved'' else ''denied''),
                         ap_decided_by := Some who, ap_decided_at := Some now2, ap_reason := Some why\<rparr>)
                 (ps_approvals s1)\<rparr>))"

definition stale :: "timestamp \<Rightarrow> approval_row \<Rightarrow> bool" where
  "stale now a \<longleftrightarrow> ap_status a = ''pending'' \<and> ap_expires_at a \<le> now"

definition expire_stale_approvals :: "timestamp \<Rightarrow> policy_state \<Rightarrow> nat \<times> policy_state" where
  "expire_stale_approvals now s =
     (sql_rowcount (stale now) (ps_approvals s),
      s\<lparr>ps_approvals := sql_update (stale now) (\<lambda>a. a\<lparr>ap_status := ''expired''\<rparr>) (ps_approvals s)\<rparr>)"

section \<open>Policies\<close>

definition create_policy ::
  "ident \<Rightarrow> string \<Rightarrow> string \<Rightarrow> json \<Rightarrow> json \<Rightarrow> int \<Rightarrow> ident \<Rightarrow> timestamp \<Rightarrow> policy_state \<Rightarrow>
   (ident \<times> policy_state) result" where
  "create_policy workspace name description conditions actions priority policy_id now s =
     (if policy_id \<in> set (map po_id (ps_policies s))
      then Inl (IntegrityError ''UNIQUE approval_policies.id'')
      else if workspace \<notin> set (ps_workspaces s)
      then Inl (IntegrityError ''FOREIGN KEY approval_policies.workspace_id'')
      else Inr (policy_id, s\<lparr>ps_policies := ps_policies s @
             [\<lparr>po_id = policy_id, po_workspace_id = workspace, po_name = name,
               po_description = description, po_conditions_json = json_dumps conditions,
               po_actions_json = json_dumps actions, po_priority = priority, po_enabled = True,
               po_created_at = now\<rparr>]\<rparr>))"

text \<open>\<^verbatim>\<open>ORDER BY priority DESC, created_at ASC\<close>: two stable sorts, the minor key first.\<close>

definition by_priority :: "policy_row list \<Rightarrow> policy_row list" where
  "by_priority rows = order_by_desc po_priority (order_by po_created_at rows)"

definition list_policies :: "ident \<Rightarrow> policy_state \<Rightarrow> policy_row list" where
  "list_policies workspace s = by_priority (filter (\<lambda>p. po_workspace_id p = workspace) (ps_policies s))"

definition update_policy :: "ident \<Rightarrow> bool \<Rightarrow> policy_state \<Rightarrow> policy_state" where
  "update_policy i enabled s =
     s\<lparr>ps_policies := sql_update (\<lambda>p. po_id p = i) (\<lambda>p. p\<lparr>po_enabled := enabled\<rparr>) (ps_policies s)\<rparr>"

definition delete_policy :: "ident \<Rightarrow> policy_state \<Rightarrow> policy_state result" where
  "delete_policy i s =
     (if \<exists>a \<in> set (ps_approvals s). ap_policy_id a = Some i \<and> i \<in> set (map po_id (ps_policies s))
      then Inl (IntegrityError ''FOREIGN KEY approvals.policy_id'')
      else Inr (s\<lparr>ps_policies := sql_delete (\<lambda>p. po_id p = i) (ps_policies s)\<rparr>))"

definition load_workspace_policies :: "ident \<Rightarrow> policy_state \<Rightarrow> policy_row list" where
  "load_workspace_policies workspace s =
     by_priority (filter (\<lambda>p. po_workspace_id p = workspace \<and> po_enabled p) (ps_policies s))"

text \<open>\<^verbatim>\<open>json.loads(column or "{}")\<close>; \<open>None\<close> when it does not parse.\<close>

fun load_column :: "json_text \<Rightarrow> json option" where
  "load_column (Encoded v) = Some v"
| "load_column (Malformed []) = Some (JObj [])"
| "load_column (Malformed _) = None"

text \<open>What a matching policy decides; its actions must be a dict and their type a string.\<close>

definition apply_action ::
  "policy_row \<Rightarrow> json \<Rightarrow> string \<Rightarrow> (string \<times> json) list \<Rightarrow> policy_context \<Rightarrow> ident \<Rightarrow> timestamp \<Rightarrow>
   policy_state \<Rightarrow> (policy_decision \<times> policy_state) result" where
  "apply_action p actions tool args ctx approval_id now s =
     (case actions of
        JObj kvs \<Rightarrow>
          (case get_or kvs ''type'' (JStr ''allow'') of
             JStr t \<Rightarrow>
               (let action = py_lower t;
                    why = (case obj_get kvs ''reason'' of
                             None \<Rightarrow> Matched_policy (po_name p) | Some v \<Rightarrow> Given_reason v);
                    decision = (\<lambda>r a. \<lparr>pd_result = r, pd_policy_id = Some (po_id p), pd_reason = why,
                                       pd_approval_id = a\<rparr>)
                in if action = ''deny'' then Inr (decision DENY None, s)
                   else if action = ''require_approval'' then
                     (case json_to_int (get_or kvs ''expires_minutes'' (JInt 30)) of
                        Inl e \<Rightarrow> Inl e
                      | Inr minutes \<Rightarrow>
                          (case create_approval (Some (po_id p)) (pc_job_id ctx) (pc_node_id ctx)
                                  (JObj [(''name'', JStr tool), (''args'', JObj args)]) minutes
                                  approval_id now s of
                             Inl e \<Rightarrow> Inl e
                           | Inr (a, s') \<Rightarrow> Inr (decision REQUIRE_APPROVAL (Some a), s')))
                   else if action = ''dry_run'' then Inr (decision DRY_RUN None, s)
                   else Inr (decision ALLOW None, s))
           | _ \<Rightarrow> Inl (AttributeError ''lower''))
      | _ \<Rightarrow> Inl (AttributeError ''get''))"

definition allow_by_default :: "reason \<Rightarrow> policy_decision" where
  "allow_by_default r = \<lparr>pd_result = ALLOW, pd_policy_id = None, pd_reason = r, pd_approval_id = None\<rparr>"

fun first_match ::
  "(json \<Rightarrow> string) \<Rightarrow> policy_row list \<Rightarrow> string \<Rightarrow> (string \<times> json) list \<Rightarrow> policy_context \<Rightarrow> ident \<Rightarrow> timestamp \<Rightarrow>
   policy_state \<Rightarrow> (policy_decision \<times> policy_state) result" where
  "first_match str [] tool args ctx approval_id now s = Inr (allow_by_default Default_allow, s)"
| "first_match str (p # ps) tool args ctx approval_id now s =
     (case (load_column (po_conditions_json p), load_column (po_actions_json p)) of
        (Some conditions, Some actions) \<Rightarrow>
          (case evaluate_conditions str conditions tool args ctx of
             Inl e \<Rightarrow> Inl e
           | Inr b \<Rightarrow>
               if b then apply_action p actions tool args ctx approval_id now s
               else first_match str ps tool args ctx approval_id now s)
      | _ \<Rightarrow> first_match str ps tool args ctx approval_id now s)"

text \<open>\<open>loads_ok\<close> tells whether the query for the workspace policies succeeds.\<close>

definition evaluate ::
  "(json \<Rightarrow> string) \<Rightarrow> bool \<Rightarrow> string \<Rightarrow> (string \<times> json) list \<Rightarrow> policy_context \<Rightarrow> ident \<Rightarrow> timestamp \<Rightarrow>
   policy_state \<Rightarrow> (policy_decision \<times> policy_state) result" where
  "evaluate str loads_ok tool args ctx approval_id now s =
     (case check_builtin_policies tool args ctx of
        Some dec \<Rightarrow> Inr (dec, s)
      | None \<Rightarrow>
          if \<not> loads_ok then Inr (allow_by_default Db_error, s)
          else first_match str (load_workspace_policies (pc_workspace_id ctx) s) tool args ctx
                 approval_id now s)"

section \<open>The order of evaluation\<close>

lemma set_by_priority [simp]: "set (by_priority rows) = set rows"
  by (simp add: by_priority_def)

lemma by_priority_sorted: "sorted (map (\<lambda>p. - po_priority p) (by_priority rows))"
  by (simp add: by_priority_def order_by_desc_def)

text \<open>A policy applies when both its columns parse and its conditions hold.\<close>

definition applies :: "(json \<Rightarrow> string) \<Rightarrow> string \<Rightarrow> (string \<times> json) list \<Rightarrow> policy_context \<Rightarrow> policy_row \<Rightarrow> bool" where
  "applies str tool args ctx p \<longleftrightarrow>
     (\<exists>conditions actions.
        load_column (po_conditions_json p) = Some conditions \<and> load_column (po_actions_json p) = Some actions \<and>
        evaluate_conditions str conditions tool args ctx = Inr True)"

lemma apply_action_policy:
  "apply_action p actions tool args ctx i now s = Inr (dec, s') \<Longrightarrow> pd_policy_id dec = Some (po_id p)"
  by (auto simp: apply_action_def Let_def split: json.splits if_splits sum.splits)

lemma first_match_Cons:
  "(\<not> applies str tool args ctx p \<and>
      first_match str (p # ps) tool args ctx i now s = first_match str ps tool args ctx i now s) \<or>
   (applies str tool args ctx p \<and>
      (\<exists>actions. first_match str (p # ps) tool args ctx i now s = apply_action p actions tool args ctx i now s)) \<or>
   (\<exists>e. first_match str (p # ps) tool args ctx i now s = Inl e)"
  by (auto simp: applies_def split: option.split sum.split)

lemma first_match_split:
  assumes "first_match str ps tool args ctx i now s = Inr (dec, s')"
  shows "(dec = allow_by_default Default_allow \<and> s' = s \<and> (\<forall>p \<in> set ps. \<not> applies str tool args ctx p)) \<or>
    (\<exists>pre p post. ps = pre @ p # post \<and> (\<forall>q \<in> set pre. \<not> applies str tool args ctx q) \<and>
       applies str tool args ctx p \<and> pd_policy_id dec = Some (po_id p))"
  using assms
proof (induction ps)
  case Nil
  then show ?case by simp
next
  case (Cons p ps)
  consider (skip) "\<not> applies str tool args ctx p" "first_match str ps tool args ctx i now s = Inr (dec, s')"
    | (act) actions where "applies str tool args ctx p" "apply_action p actions tool args ctx i now s = Inr (dec, s')"
    using first_match_Cons [of str tool args ctx p ps i now s] Cons.prems by auto
  then show ?case
  proof cases
    case skip
    from Cons.IH [OF skip(2)] show ?thesis
    proof (elim disjE exE conjE)
      fix pre q post
      assume "ps = pre @ q # post" "\<forall>x \<in> set pre. \<not> applies str tool args ctx x"
        "applies str tool args ctx q" "pd_policy_id dec = Some (po_id q)"
      with skip(1) show ?thesis by (intro disjI2 exI [of _ "p # pre"] exI [of _ q] exI [of _ post]) auto
    qed (use skip(1) in simp)
  next
    case act
    then show ?thesis
      by (intro disjI2 exI [of _ "[]"] exI [of _ p] exI [of _ ps]) (auto dest: apply_action_policy)
  qed
qed

section \<open>The life of an approval\<close>

definition final_status :: "string \<Rightarrow> bool" where
  "final_status st \<longleftrightarrow> st \<in> {''approved'', ''denied'', ''expired''}"

datatype policy_command =
    P_create ident string string json json int ident timestamp
  | P_update ident bool
  | P_delete ident
  | P_request "ident option" ident ident json int ident timestamp
  | P_check ident timestamp
  | P_decide ident ident bool string timestamp timestamp
  | P_expire timestamp

fun policy_step :: "policy_command \<Rightarrow> policy_state \<Rightarrow> policy_state" where
  "policy_step (P_create ws n dsc c a pr i now) s =
     (case create_policy ws n dsc c a pr i now s of Inl _ \<Rightarrow> s | Inr (_, s') \<Rightarrow> s')"
| "policy_step (P_update i b) s = update_policy i b s"
| "policy_step (P_delete i) s = (case delete_policy i s of Inl _ \<Rightarrow> s | Inr s' \<Rightarrow> s')"
| "policy_step (P_request p j n call m i now) s =
     (case create_approval p j n call m i now s of Inl _ \<Rightarrow> s | Inr (_, s') \<Rightarrow> s')"
| "policy_step (P_check i now) s = (case check_approval i now s of Inl _ \<Rightarrow> s | Inr (_, s') \<Rightarrow> s')"
| "policy_step (P_decide i who b why now now2) s = snd (decide_approval i who b why now now2 s)"
| "policy_step (P_expire now) s = snd (expire_stale_approvals now s)"

text \<open>Approval ids are unique and one given approval row, no longer pending, is in the table.\<close>

definition settled_approval :: "approval_row \<Rightarrow> policy_state \<Rightarrow> bool" where
  "settled_approval a s \<longleftrightarrow>
     distinct (map ap_id (ps_approvals s)) \<and> a \<in> set (ps_approvals s) \<and> ap_status a \<noteq> ''pending''"

lemma settled_approval_update:
  assumes "settled_approval a s" "\<And>b. ap_id (f b) = ap_id b" "\<not> P a"
  shows "settled_approval a (s\<lparr>ps_approvals := sql_update P f (ps_approvals s)\<rparr>)"
  using assms by (auto simp: settled_approval_def map_sql_update in_sql_update)

lemma settled_approval_key:
  "settled_approval a s \<Longrightarrow> fetchone (filter (\<lambda>b. ap_id b = ap_id a) (ps_approvals s)) = Some a"
  by (simp add: settled_approval_def fetchone_key)

lemma check_settled:
  assumes "settled_approval a s" "check_approval i now s = Inr (st, s')"
  shows "settled_approval a s'" "i = ap_id a \<Longrightarrow> st = ap_status a"
proof -
  show "i = ap_id a \<Longrightarrow> st = ap_status a"
    using assms settled_approval_key [OF assms(1)]
    by (auto simp: check_approval_def settled_approval_def)
  from assms(2) obtain b where b: "fetchone (filter (\<lambda>x. ap_id x = i) (ps_approvals s)) = Some b"
    by (auto simp: check_approval_def split: option.splits)
  show "settled_approval a s'"
  proof (cases "ap_status b = ''pending'' \<and> ap_expires_at b \<le> now")
    case True
    then have "ap_id a \<noteq> i" using b settled_approval_key [OF assms(1)] assms(1)
      by (auto simp: settled_approval_def)
    with True b assms show ?thesis
      by (auto simp: check_approval_def mark_expired_def intro: settled_approval_update)
  next
    case False
    with b assms show ?thesis by (auto simp: check_approval_def)
  qed
qed

lemma decide_settled:
  assumes "settled_approval a s"
  shows "settled_approval a (snd (decide_approval i who b why now now2 s))"
proof (cases "check_approval i now s")
  case (Inl e)
  with assms show ?thesis by (simp add: decide_approval_def)
next
  case (Inr p)
  then obtain st s1 where c: "check_approval i now s = Inr (st, s1)" by (cases p) simp
  note S = check_settled [OF assms c]
  show ?thesis
  proof (cases "st = ''pending'' \<and> who \<in> set (ps_users s1)")
    case True
    with S(2) assms have "i \<noteq> ap_id a" by (auto simp: settled_approval_def)
    with True c S(1) show ?thesis by (auto simp: decide_approval_def intro: settled_approval_update)
  next
    case False
    with c S(1) show ?thesis by (auto simp: decide_approval_def)
  qed
qed

lemma policy_step_settled: "settled_approval a s \<Longrightarrow> settled_approval a (policy_step c s)"
proof (cases c)
  case (P_check i now)
  assume "settled_approval a s"
  with P_check check_settled(1) show ?thesis by (auto split: sum.split)
next
  case (P_expire now)
  assume "settled_approval a s"
  moreover from this have "\<not> stale now a" by (simp add: settled_approval_def stale_def)
  ultimately show ?thesis using P_expire by (simp add: expire_stale_approvals_def settled_approval_update)
next
  case (P_decide i who b why now now2)
  assume "settled_approval a s"
  with P_decide decide_settled show ?thesis by simp
qed (auto simp: settled_approval_def create_policy_def update_policy_def delete_policy_def
      create_approval_def split: sum.splits if_splits)

interpretation approval_machine: store_machine policy_step "settled_approval a" for a
  by unfold_locales (rule policy_step_settled)

section \<open>Properties\<close>

definition example_context :: policy_context where
  "example_context = \<lparr>pc_workspace_id = ''w'', pc_deployment_mode = ''hybrid'', pc_job_id = ''j1'',
     pc_node_id = ''n1'', pc_job_classification = None, pc_tool_call_count = 0, pc_delete_count = 0\<rparr>"

definition example_policies :: policy_state where
  "example_policies = snd (projr (create_policy ''w'' ''no shell'' '''' (JObj [(''tool'', JStr ''shell'')])
     (JObj [(''type'', JStr ''deny'')]) 5 ''p1'' 0
     \<lparr>ps_workspaces = [''w''], ps_users = [''u''], ps_policies = [], ps_approvals = []\<rparr>))"

text \<open>Built-in policies come first and cannot be overridden: when one fires, the decision is a denial,
  whatever policies the workspace has and whether or not they can be loaded, and nothing is stored.\<close>

theorem builtin_denial_stands:
  assumes "check_builtin_policies tool args ctx = Some dec"
  shows "evaluate str loads_ok tool args ctx i now s = Inr (dec, s) \<and> pd_result dec = DENY"
proof -
  have "pd_result dec = DENY"
    using assms by (auto simp: check_builtin_policies_def ssrf_decision_def write_decision_def deny_def
        split: if_splits option.splits)
  with assms show ?thesis by (simp add: evaluate_def)
qed

theorem builtin_denial_stands_witness:
  "evaluate (\<lambda>v. '''') True ''shell'' [] (example_context\<lparr>pc_tool_call_count := 100\<rparr>) ''a'' 0 example_policies =
     Inr (deny (Rate_limit 100 ''n1''), example_policies)"
  using builtin_denial_stands [of "''shell''" "[]" "example_context\<lparr>pc_tool_call_count := 100\<rparr>"
      "deny (Rate_limit 100 ''n1'')"]
  by (simp add: check_builtin_policies_def MAX_TOOL_CALLS_PER_NODE_def example_context_def)



text \<open>C19. A decided approval stays decided: once a row is approved, denied or expired, it stays in the
  table as it is, through every sequence of checks, decisions, expiries and policy changes, and
  another decision on it is refused.\<close>

theorem approval_decision_final:
  assumes "distinct (map ap_id (ps_approvals s))" "a \<in> set (ps_approvals s)" "ap_status a \<noteq> ''pending''"
  shows "let s' = run_commands policy_step cs s in
     a \<in> set (ps_approvals s') \<and> check_approval (ap_id a) now s' = Inr (ap_status a, s') \<and>
     fst (decide_approval (ap_id a) who approved why now now2 s') = Some (ValueError ''Cannot decide approval'')"
proof -
  have "settled_approval a s" using assms by (simp add: settled_approval_def)
  then have a: "settled_approval a (run_commands policy_step cs s)" by (rule approval_machine.run_inv)
  then have "check_approval (ap_id a) now (run_commands policy_step cs s) =
      Inr (ap_status a, run_commands policy_step cs s)"
    using settled_approval_key [OF a] by (simp add: check_approval_def settled_approval_def)
  with a show ?thesis by (simp add: Let_def decide_approval_def settled_approval_def)
qed

definition decided_state :: policy_state where
  "decided_state = run_commands policy_step
     [P_request None ''j1'' ''n1'' JNull 30 ''a1'' 0, P_decide ''a1'' ''u'' True '''' 5 5]
     \<lparr>ps_workspaces = [''w''], ps_users = [''u''], ps_policies = [], ps_approvals = []\<rparr>"

theorem approval_decision_final_witness:
  "fst (decide_approval ''a1'' ''u'' False '''' 7 7 (run_commands policy_step [P_expire 9999999999] decided_state)) =
     Some (ValueError ''Cannot decide approval'')"
proof -
  let ?a = "hd (ps_approvals decided_state)"
  have "distinct (map ap_id (ps_approvals decided_state))" "?a \<in> set (ps_approvals decided_state)"
    "ap_status ?a \<noteq> ''pending''" "ap_id ?a = ''a1''"
    by (simp_all add: decided_state_def create_approval_def decide_approval_def check_approval_def)
  with approval_decision_final [of decided_state ?a "[P_expire 9999999999]"] show ?thesis
    unfolding Let_def by metis
qed

text \<open>An approval cannot be given after it has expired: from its expiry on, a decision on a pending
  approval is refused and leaves it expired, so it can never become approved.\<close>

theorem expired_approval_cannot_be_decided:
  assumes "distinct (map ap_id (ps_approvals s))" "a \<in> set (ps_approvals s)"
    and "ap_status a = ''pending''" "ap_expires_at a \<le> now"
  shows "decide_approval (ap_id a) who approved why now now2 s =
      (Some (ValueError ''Cannot decide approval''), mark_expired (ap_id a) s) \<and>
    a\<lparr>ap_status := ''expired''\<rparr> \<in> set (ps_approvals (mark_expired (ap_id a) s))"
  using fetchone_key [OF assms(1,2)] assms
  by (auto simp: decide_approval_def check_approval_def mark_expired_def in_sql_update)

theorem expired_approval_cannot_be_decided_witness:
  "fst (decide_approval ''a1'' ''u'' True '''' 1800000000 1800000000
     (policy_step (P_request None ''j1'' ''n1'' JNull 30 ''a1'' 0) example_policies)) =
     Some (ValueError ''Cannot decide approval'')"
proof -
  let ?s = "policy_step (P_request None ''j1'' ''n1'' JNull 30 ''a1'' 0) example_policies"
  let ?a = "hd (ps_approvals ?s)"
  have "distinct (map ap_id (ps_approvals ?s))" "?a \<in> set (ps_approvals ?s)" "ap_status ?a = ''pending''"
    "ap_expires_at ?a \<le> 1800000000" "ap_id ?a = ''a1''"
    by (simp_all add: example_policies_def create_policy_def create_approval_def)
  with expired_approval_cannot_be_decided [of ?s ?a 1800000000] show ?thesis by (metis fst_conv)
qed

text \<open>The engine keeps URL tools off the machine's own addresses: a plain \<^verbatim>\<open>http\<close> or \<^verbatim>\<open>https\<close> URL
  whose host is \<^verbatim>\<open>localhost\<close>, \<^verbatim>\<open>127.0.0.1\<close> or a link-local \<^verbatim>\<open>169.254.\<close> address, in any case and with any
  port and path, is denied, whatever the workspace policies say.\<close>

theorem internal_addresses_denied:
  assumes "tool \<in> set URL_TOOLS" and "s = ''http'' \<or> s = ''https''"
    and "extract_url args = Some (s @ ''://'' @ host @ port @ rest)"
    and "list_all scheme_char host" "port_text port" "rest = [] \<or> hd rest \<in> set ''/?#''"
    and "py_lower host \<in> {''localhost'', ''127.0.0.1''} \<or> starts_with ''169.254.'' (py_lower host)"
  shows "\<exists>dec. evaluate str loads_ok tool args ctx i now st = Inr (dec, st) \<and> pd_result dec = DENY"
proof -
  have "is_ssrf_url (s @ ''://'' @ host @ port @ rest)"
    using assms by (auto simp: is_ssrf_url_def urlparse_plain host_of_plain Let_def simp del: append_Cons)
  with assms(1,3) have "ssrf_decision tool args = Some (deny (Ssrf_blocked tool (s @ ''://'' @ host @ port @ rest)))"
    by (simp add: ssrf_decision_def)
  then have "\<exists>dec. check_builtin_policies tool args ctx = Some dec \<and> pd_result dec = DENY"
    by (simp add: check_builtin_policies_def deny_def)
  then show ?thesis by (auto simp: evaluate_def)
qed

theorem internal_addresses_denied_witness:
  "\<exists>dec. evaluate (\<lambda>v. '''') True ''browser'' [(''url'', JStr ''http://LocalHost:8000/admin'')] example_context
     ''a'' 0 example_policies = Inr (dec, example_policies) \<and> pd_result dec = DENY"
  by (rule internal_addresses_denied [where s = "''http''" and host = "''LocalHost''" and port = "'':8000''"
        and rest = "''/admin''"]) code_simp+

text \<open>What the two textual checks miss: the host is cut at the first colon with the user part still in it,
  so \<^verbatim>\<open>http://u@127.0.0.1/\<close> passes; a write anywhere passes when its path only mentions the workspace,
  and a write to a plain relative path, which the file tools resolve inside the workspace, is denied.\<close>

theorem textual_checks_are_not_containment:
  "check_builtin_policies ''browser'' [(''url'', JStr ''http://u@127.0.0.1/'')] example_context = None \<and>
   check_builtin_policies ''write_file'' [(''path'', JStr (u @ ''LocalMind_Workspace'' @ v))] example_context = None \<and>
   check_builtin_policies ''write_file'' [(''path'', JStr ''notes.txt'')] example_context =
     Some (deny (Write_outside ''notes.txt'' (pc_job_id example_context)))"
proof (intro conjI)
  have "contains ''LocalMind_Workspace'' (map f u @ ''LocalMind_Workspace'' @ map f v)" for f
    unfolding contains_iff by blast
  then have "path_inside j (u @ ''LocalMind_Workspace'' @ v)" for j
    by (simp add: path_inside_def Let_def)
  then show "check_builtin_policies ''write_file'' [(''path'', JStr (u @ ''LocalMind_Workspace'' @ v))]
      example_context = None"
    by (simp add: check_builtin_policies_def ssrf_decision_def write_decision_def extract_path_def
        PATH_ARG_KEYS_def obj_get_def DELETE_TOOLS_def URL_TOOLS_def MAX_TOOL_CALLS_PER_NODE_def
        example_context_def)
qed code_simp+

end
