(* ===== verification/Py_Regex.thy ===== *)
theory Py_Regex
  imports Std_Text
begin

text \<open>
  The regular expressions of Python's \<^verbatim>\<open>re\<close> that the modelled code uses, as a backtracking matcher: the
  ends of the matches at a position are listed in the order in which \<^verbatim>\<open>re\<close> tries them, so that the head
  of the list is the match it takes. A position is the text before it, reversed, and the text after it.
  Repetition is of a class of characters, which is what the patterns need; \<^verbatim>\<open>re.IGNORECASE\<close> is the choice
  of the classes. The matcher is shown to find exactly the matches of a declarative relation.
\<close>

section \<open>Patterns\<close>

type_synonym position = "string \<times> string"

datatype regex =
    Empty
  | Class "char \<Rightarrow> bool"
  | Seq regex regex
  | Alt regex regex
  | Greedy nat "nat option" "char \<Rightarrow> bool"
  | Lazy "char \<Rightarrow> bool"
  | Look "string \<Rightarrow> string \<Rightarrow> bool"

text \<open>The letters of ASCII and their other case, on the bits of a character; a text, and a text in either case.\<close>

fun letter :: "char \<Rightarrow> bool" where
  "letter (Char b0 b1 b2 b3 b4 b5 b6 b7) \<longleftrightarrow>
     b6 \<and> \<not> b7 \<and> (b0 \<or> b1 \<or> b2 \<or> b3 \<or> b4) \<and> \<not> (b4 \<and> b3 \<and> (b2 \<or> b1 \<and> b0))"

fun other_case :: "char \<Rightarrow> char" where
  "other_case (Char b0 b1 b2 b3 b4 b5 b6 b7) = Char b0 b1 b2 b3 b4 (\<not> b5) b6 b7"

fun lit :: "string \<Rightarrow> regex" where
  "lit [] = Empty"
| "lit (c # s) = Seq (Class (\<lambda>d. d = c)) (lit s)"

fun lit_ci :: "string \<Rightarrow> regex" where
  "lit_ci [] = Empty"
| "lit_ci (c # s) =
     (let u = (if letter c then other_case c else c) in Seq (Class (\<lambda>d. d = c \<or> d = u)) (lit_ci s))"

fun seqs :: "regex list \<Rightarrow> regex" where
  "seqs [] = Empty"
| "seqs (r # rs) = Seq r (seqs rs)"

fun alts :: "regex list \<Rightarrow> regex" where
  "alts [] = Look (\<lambda>u s. False)"
| "alts (r # rs) = Alt r (alts rs)"

definition optional :: "regex \<Rightarrow> regex" where
  "optional r = Alt r Empty"

definition spaces :: regex where
  "spaces = Greedy 1 None py_isspace"

definition any_spaces :: regex where
  "any_spaces = Greedy 0 None py_isspace"

definition digit :: "char \<Rightarrow> bool" where
  "digit c \<longleftrightarrow> (let n = of_char c :: nat in 48 \<le> n \<and> n \<le> 57)"

text \<open>\<^verbatim>\<open>^\<close>, \<^verbatim>\<open>$\<close>, and the word boundary.\<close>

definition at_start :: regex where
  "at_start = Look (\<lambda>u s. u = [])"

definition at_end :: regex where
  "at_end = Look (\<lambda>u s. s = [] \<or> s = [CHR 0x0A])"

definition boundary :: regex where
  "boundary = Look (\<lambda>u s. word_starts u \<noteq> word_starts s)"

section \<open>The matcher\<close>

definition advance :: "nat \<Rightarrow> position \<Rightarrow> position" where
  "advance n z = (rev (take n (snd z)) @ fst z, drop n (snd z))"

definition run_of :: "(char \<Rightarrow> bool) \<Rightarrow> string \<Rightarrow> nat" where
  "run_of P s = length (takeWhile P s)"

definition most :: "nat option \<Rightarrow> nat \<Rightarrow> nat" where
  "most n k = (case n of None \<Rightarrow> k | Some m \<Rightarrow> min m k)"

fun ends :: "regex \<Rightarrow> position \<Rightarrow> position list" where
  "ends Empty z = [z]"
| "ends (Class P) z = (case snd z of [] \<Rightarrow> [] | c # t \<Rightarrow> if P c then [(c # fst z, t)] else [])"
| "ends (Seq r q) z = concat (map (ends q) (ends r z))"
| "ends (Alt r q) z = ends r z @ ends q z"
| "ends (Greedy m n P) z = map (\<lambda>k. advance k z) (rev [m..<Suc (most n (run_of P (snd z)))])"
| "ends (Lazy P) z = map (\<lambda>k. advance k z) [0..<Suc (run_of P (snd z))]"
| "ends (Look t) z = (if t (fst z) (snd z) then [z] else [])"

text \<open>\<^verbatim>\<open>bool(r.search(s))\<close>, from a position on.\<close>

fun search_from :: "regex \<Rightarrow> string \<Rightarrow> string \<Rightarrow> bool" where
  "search_from r u [] = (ends r (u, []) \<noteq> [])"
| "search_from r u (c # s) = (ends r (u, c # s) \<noteq> [] \<or> search_from r (c # u) s)"

definition search :: "regex \<Rightarrow> string \<Rightarrow> bool" where
  "search r s = search_from r [] s"

text \<open>\<^verbatim>\<open>r.search(s).group(1)\<close> for a pattern with one group: what comes before, in and after the group.\<close>

fun group_at :: "regex \<Rightarrow> regex \<Rightarrow> regex \<Rightarrow> position \<Rightarrow> string option" where
  "group_at pre body post z =
     map_option fst (fetchone (filter (\<lambda>(g, w). ends post w \<noteq> [])
       (concat (map (\<lambda>x. map (\<lambda>y. (take (length (snd x) - length (snd y)) (snd x), y)) (ends body x)) (ends pre z)))))"

fun group_from :: "regex \<Rightarrow> regex \<Rightarrow> regex \<Rightarrow> string \<Rightarrow> string \<Rightarrow> string option" where
  "group_from pre body post u [] = group_at pre body post (u, [])"
| "group_from pre body post u (c # s) =
     (case group_at pre body post (u, c # s) of
        Some g \<Rightarrow> Some g
      | None \<Rightarrow> group_from pre body post (c # u) s)"

definition search_group :: "regex \<Rightarrow> regex \<Rightarrow> regex \<Rightarrow> string \<Rightarrow> string option" where
  "search_group pre body post s = group_from pre body post [] s"

text \<open>\<^verbatim>\<open>r.sub(f, s)\<close>: the first matches, from the left, replaced by what \<open>f\<close> makes of their text. No pattern it
  is used for matches the empty text.\<close>

function sub_from :: "regex \<Rightarrow> (string \<Rightarrow> string) \<Rightarrow> string \<Rightarrow> string \<Rightarrow> string" where
  "sub_from r f u [] = []"
| "sub_from r f u (c # s) =
     (case ends r (u, c # s) of
        [] \<Rightarrow> c # sub_from r f (c # u) s
      | (v, t) # _ \<Rightarrow>
          if length t \<le> length s then f (take (Suc (length s) - length t) (c # s)) @ sub_from r f v t
          else c # sub_from r f (c # u) s)"
  by pat_completeness auto
termination
  by (relation "measure (\<lambda>(r, f, u, s). length s)") auto

definition sub_all :: "regex \<Rightarrow> (string \<Rightarrow> string) \<Rightarrow> string \<Rightarrow> string" where
  "sub_all r f s = sub_from r f [] s"

text \<open>The texts \<^verbatim>\<open>sub\<close> replaces.\<close>

function found_from :: "regex \<Rightarrow> string \<Rightarrow> string \<Rightarrow> string list" where
  "found_from r u [] = []"
| "found_from r u (c # s) =
     (case ends r (u, c # s) of
        [] \<Rightarrow> found_from r (c # u) s
      | (v, t) # _ \<Rightarrow>
          if length t \<le> length s then take (Suc (length s) - length t) (c # s) # found_from r v t
          else found_from r (c # u) s)"
  by pat_completeness auto
termination
  by (relation "measure (\<lambda>(r, u, s). length s)") auto

definition found_all :: "regex \<Rightarrow> string \<Rightarrow> string list" where
  "found_all r s = found_from r [] s"

section \<open>What the matcher finds\<close>

text \<open>\<open>matches r u v w\<close>: \<open>r\<close> matches \<open>v\<close> between the text \<open>u\<close>, reversed, and the text \<open>w\<close>.\<close>

fun matches :: "regex \<Rightarrow> string \<Rightarrow> string \<Rightarrow> string \<Rightarrow> bool" where
  "matches Empty u v w \<longleftrightarrow> v = []"
| "matches (Class P) u v w \<longleftrightarrow> (\<exists>c. v = [c] \<and> P c)"
| "matches (Seq r q) u v w \<longleftrightarrow> (\<exists>x y. v = x @ y \<and> matches r u x (y @ w) \<and> matches q (rev x @ u) y w)"
| "matches (Alt r q) u v w \<longleftrightarrow> matches r u v w \<or> matches q u v w"
| "matches (Greedy m n P) u v w \<longleftrightarrow> list_all P v \<and> m \<le> length v \<and> (\<forall>k. n = Some k \<longrightarrow> length v \<le> k)"
| "matches (Lazy P) u v w \<longleftrightarrow> list_all P v"
| "matches (Look t) u v w \<longleftrightarrow> v = [] \<and> t u w"

lemma run_of_iff: "k \<le> run_of P s \<longleftrightarrow> k \<le> length s \<and> list_all P (take k s)"
proof (induction s arbitrary: k)
  case Nil
  then show ?case by (simp add: run_of_def)
next
  case (Cons c s)
  show ?case
  proof (cases k)
    case (Suc j)
    have "run_of P (c # s) = (if P c then Suc (run_of P s) else 0)" by (simp add: run_of_def)
    with Suc Cons.IH [of j] show ?thesis by auto
  qed simp
qed

lemma most_iff: "k \<le> most n l \<longleftrightarrow> k \<le> l \<and> (\<forall>m. n = Some m \<longrightarrow> k \<le> m)"
  by (auto simp: most_def split: option.split)

lemma in_advance:
  "(\<exists>k. Q k \<and> k \<le> length s \<and> (u', w) = advance k (u, s)) \<longleftrightarrow> (\<exists>v. s = v @ w \<and> u' = rev v @ u \<and> Q (length v))"
proof
  assume "\<exists>k. Q k \<and> k \<le> length s \<and> (u', w) = advance k (u, s)"
  then obtain k where "Q k" "k \<le> length s" "u' = rev (take k s) @ u" "w = drop k s" by (auto simp: advance_def)
  then show "\<exists>v. s = v @ w \<and> u' = rev v @ u \<and> Q (length v)" by (intro exI [of _ "take k s"]) simp
next
  assume "\<exists>v. s = v @ w \<and> u' = rev v @ u \<and> Q (length v)"
  then show "\<exists>k. Q k \<and> k \<le> length s \<and> (u', w) = advance k (u, s)" by (auto simp: advance_def)
qed

theorem ends_correct:
  "(u', w) \<in> set (ends r (u, s)) \<longleftrightarrow> (\<exists>v. s = v @ w \<and> u' = rev v @ u \<and> matches r u v w)"
proof (induction r arbitrary: u s u' w)
  case (Class P)
  then show ?case by (cases s) auto
next
  case (Seq r q)
  have "(u', w) \<in> set (ends (Seq r q) (u, s)) \<longleftrightarrow> (\<exists>z. z \<in> set (ends r (u, s)) \<and> (u', w) \<in> set (ends q z))"
    by auto
  also have "\<dots> \<longleftrightarrow> (\<exists>a t. (a, t) \<in> set (ends r (u, s)) \<and> (u', w) \<in> set (ends q (a, t)))"
    by (rule split_paired_Ex)
  also have "\<dots> \<longleftrightarrow> (\<exists>x t. s = x @ t \<and> matches r u x t \<and> (u', w) \<in> set (ends q (rev x @ u, t)))"
    unfolding Seq.IH(1) by blast
  also have "\<dots> \<longleftrightarrow> (\<exists>x y. s = x @ y @ w \<and> u' = rev y @ rev x @ u \<and> matches r u x (y @ w) \<and> matches q (rev x @ u) y w)"
    unfolding Seq.IH(2) by blast
  also have "\<dots> \<longleftrightarrow> (\<exists>v. s = v @ w \<and> u' = rev v @ u \<and> (\<exists>x y. v = x @ y \<and> matches r u x (y @ w) \<and> matches q (rev x @ u) y w))"
    by (metis append.assoc rev_append)
  finally show ?case unfolding matches.simps .
next
  case (Greedy m n P)
  have "(u', w) \<in> set (ends (Greedy m n P) (u, s)) \<longleftrightarrow>
      (\<exists>k. (m \<le> k \<and> list_all P (take k s) \<and> (\<forall>l. n = Some l \<longrightarrow> k \<le> l)) \<and> k \<le> length s \<and> (u', w) = advance k (u, s))"
    by (auto simp: image_iff less_Suc_eq_le most_iff run_of_iff simp del: upt_Suc)
  also have "\<dots> \<longleftrightarrow> (\<exists>v. s = v @ w \<and> u' = rev v @ u \<and>
      (m \<le> length v \<and> list_all P (take (length v) s) \<and> (\<forall>l. n = Some l \<longrightarrow> length v \<le> l)))"
    by (rule in_advance)
  finally show ?case by auto
next
  case (Lazy P)
  have "(u', w) \<in> set (ends (Lazy P) (u, s)) \<longleftrightarrow>
      (\<exists>k. list_all P (take k s) \<and> k \<le> length s \<and> (u', w) = advance k (u, s))"
    by (auto simp: image_iff less_Suc_eq_le run_of_iff simp del: upt_Suc)
  also have "\<dots> \<longleftrightarrow> (\<exists>v. s = v @ w \<and> u' = rev v @ u \<and> list_all P (take (length v) s))"
    by (rule in_advance)
  finally show ?case by auto
qed auto

lemma ends_Nil_iff: "ends r (u, s) = [] \<longleftrightarrow> (\<forall>v w. s = v @ w \<longrightarrow> \<not> matches r u v w)"
proof -
  have "ends r (u, s) \<noteq> [] \<longleftrightarrow> (\<exists>u' w. (u', w) \<in> set (ends r (u, s)))"
    by (cases "ends r (u, s)") force+
  then show ?thesis by (auto simp: ends_correct)
qed

lemma search_from_iff: "search_from r u s \<longleftrightarrow> (\<exists>x v w. s = x @ v @ w \<and> matches r (rev x @ u) v w)"
proof (induction r u s rule: search_from.induct)
  case (1 r u)
  then show ?case by (simp add: ends_Nil_iff)
next
  case (2 r u c s)
  have split: "(\<exists>x. Q x) \<longleftrightarrow> Q [] \<or> (\<exists>a y. Q (a # y))" for Q :: "string \<Rightarrow> bool"
    by (metis neq_Nil_conv)
  have "(\<exists>x v w. c # s = x @ v @ w \<and> matches r (rev x @ u) v w) \<longleftrightarrow>
      (\<exists>v w. c # s = v @ w \<and> matches r u v w) \<or> (\<exists>x v w. s = x @ v @ w \<and> matches r (rev x @ c # u) v w)"
    by (subst split) simp
  then show ?case using 2 by (simp add: ends_Nil_iff)
qed

theorem search_correct: "search r s \<longleftrightarrow> (\<exists>x v w. s = x @ v @ w \<and> matches r (rev x) v w)"
  by (simp add: search_def search_from_iff)

lemma search_from_Nil: "\<not> search_from r u [] \<Longrightarrow> ends r (u, []) = []"
  by simp

lemma sub_from_unchanged: "\<not> search_from r u s \<Longrightarrow> sub_from r f u s = s"
  by (induction r f u s rule: sub_from.induct) auto

text \<open>A text without a match is left as it is.\<close>

lemma sub_all_unchanged: "\<not> search r s \<Longrightarrow> sub_all r f s = s"
  by (simp add: search_def sub_all_def sub_from_unchanged)

text \<open>The classes every match needs a character of: a text that has none of one of them is not matched.\<close>

fun needed :: "regex \<Rightarrow> (char \<Rightarrow> bool) list" where
  "needed (Class P) = [P]"
| "needed (Seq r q) = needed r @ needed q"
| "needed (Greedy (Suc m) n P) = [P]"
| "needed r = []"

definition absent :: "string \<Rightarrow> regex \<Rightarrow> bool" where
  "absent s r \<longleftrightarrow> list_ex (\<lambda>P. list_all (\<lambda>c. \<not> P c) s) (needed r)"

lemma needed_matched: "matches r u v w \<Longrightarrow> P \<in> set (needed r) \<Longrightarrow> \<exists>c \<in> set v. P c"
proof (induction r arbitrary: u v w)
  case (Seq r q)
  from Seq.prems(1) obtain x y where "v = x @ y" "matches r u x (y @ w)" "matches q (rev x @ u) y w" by auto
  with Seq show ?case by fastforce
next
  case (Greedy m n Q)
  then show ?case by (cases m; cases v) auto
qed auto

lemma absent_no_match: "absent s r \<Longrightarrow> \<not> search r s"
  unfolding search_correct by (fastforce simp: absent_def list_ex_iff list_all_iff dest: needed_matched)

end
