(* ===== verification/Paths.thy ===== *)
theory Paths
  imports Std_Text
begin

text \<open>
  \<^verbatim>\<open>backend/security/paths.py\<close>: the jail for untrusted paths, the cleaning of file names and the checks of
  an upload, on POSIX. The file system is a parameter: \<open>resolve\<close> is \<^verbatim>\<open>str(Path(text).resolve())\<close>, with
  \<open>None\<close> for an \<^verbatim>\<open>OSError\<close>; what \<^verbatim>\<open>mimetypes\<close> guesses is an argument. Texts are over code points below 256.
\<close>

section \<open>Constants\<close>

definition ALLOWED_EXTENSIONS :: "string list" where
  "ALLOWED_EXTENSIONS =
     [''.pptx'', ''.xlsx'', ''.docx'', ''.pdf'', ''.txt'', ''.csv'', ''.json'', ''.png'', ''.jpg'', ''.jpeg'', ''.gif'']"

definition MIME_TYPE_MAP :: "(string \<times> string) list" where
  "MIME_TYPE_MAP =
     [(''.pptx'', ''application/vnd.openxmlformats-officedocument.presentationml.presentation''),
      (''.xlsx'', ''application/vnd.openxmlformats-officedocument.spreadsheetml.sheet''),
      (''.docx'', ''application/vnd.openxmlformats-officedocument.wordprocessingml.document''),
      (''.pdf'', ''application/pdf''), (''.txt'', ''text/plain''), (''.csv'', ''text/csv''),
      (''.json'', ''application/json''), (''.png'', ''image/png''), (''.jpg'', ''image/jpeg''),
      (''.jpeg'', ''image/jpeg''), (''.gif'', ''image/gif'')]"

definition MAX_FILENAME_BYTES :: nat where
  "MAX_FILENAME_BYTES = 255"

text \<open>The class of \<^verbatim>\<open>_DANGEROUS_CHARS_RE\<close>, and the categories Cc and Cf.\<close>

definition dangerous_char :: "char \<Rightarrow> bool" where
  "dangerous_char c \<longleftrightarrow> (let n = of_char c :: nat in n \<le> 31 \<or> 127 \<le> n \<and> n \<le> 159)"

definition other_category :: "char \<Rightarrow> bool" where
  "other_category c \<longleftrightarrow> (let n = of_char c :: nat in n \<le> 31 \<or> 127 \<le> n \<and> n \<le> 159 \<or> n = 173)"

definition path_sep :: "char \<Rightarrow> bool" where
  "path_sep c \<longleftrightarrow> c = CHR ''/'' \<or> c = CHR 0x5C"

section \<open>File names\<close>

text \<open>\<^verbatim>\<open>Path(name).suffixes\<close> and \<^verbatim>\<open>Path(name).suffix\<close> of a name without separators.\<close>

fun split_on :: "char \<Rightarrow> string \<Rightarrow> string \<Rightarrow> string list" where
  "split_on x w [] = [w]"
| "split_on x w (c # s) = (if c = x then w # split_on x [] s else split_on x (w @ [c]) s)"

definition suffixes :: "string \<Rightarrow> string list" where
  "suffixes name =
     (if name \<noteq> [] \<and> last name = CHR ''.'' then []
      else map (\<lambda>w. CHR ''.'' # w) (tl (split_on (CHR ''.'') [] (dropWhile (\<lambda>c. c = CHR ''.'') name))))"

definition suffix_of :: "string \<Rightarrow> string" where
  "suffix_of name =
     (case find_idx (\<lambda>c. c = CHR ''.'') (rev name) of
        None \<Rightarrow> []
      | Some k \<Rightarrow> if k = 0 \<or> Suc k = length name then [] else drop (length name - Suc k) name)"

definition has_double_extension :: "string \<Rightarrow> bool" where
  "has_double_extension name \<longleftrightarrow> 2 \<le> length (suffixes name)"

section \<open>The jail\<close>

definition alpha :: "char \<Rightarrow> bool" where
  "alpha c \<longleftrightarrow> ascii_alpha c"

definition strip_drive :: "string \<Rightarrow> string" where
  "strip_drive p =
     (case p of
        a # b # c # rest \<Rightarrow> if alpha a \<and> b = CHR '':'' \<and> path_sep c then rest else p
      | _ \<Rightarrow> p)"

definition strip_root :: "string \<Rightarrow> string" where
  "strip_root p = dropWhile path_sep (strip_drive p)"

text \<open>\<^verbatim>\<open>base / p\<close> for a relative path.\<close>

definition join_path :: "string \<Rightarrow> string \<Rightarrow> string" where
  "join_path base p =
     (if p = [] then base else if base \<noteq> [] \<and> last base = CHR ''/'' then base @ p else base @ CHR ''/'' # p)"

definition rstrip_sep :: "string \<Rightarrow> string" where
  "rstrip_sep p = rev (dropWhile (\<lambda>c. c = CHR ''/'') (rev p))"

definition jailed :: "string \<Rightarrow> string \<Rightarrow> bool" where
  "jailed base p \<longleftrightarrow> p = rstrip_sep base \<or> starts_with (rstrip_sep base @ ''/'') p"

definition safe_resolve :: "(string \<Rightarrow> string option) \<Rightarrow> string \<Rightarrow> string \<Rightarrow> string result" where
  "safe_resolve resolve base_dir user_path =
     (if CHR 0x00 \<in> set user_path then Inl (SecurityError ''null byte'')
      else case resolve base_dir of
             None \<Rightarrow> Inl (SecurityError ''base directory'')
           | Some base \<Rightarrow>
               (case resolve (join_path base (strip_root user_path)) of
                  None \<Rightarrow> Inl (SecurityError ''candidate path'')
                | Some p \<Rightarrow> if jailed base p then Inr p else Inl (SecurityError ''escapes the jail'')))"

section \<open>Cleaning a file name\<close>

text \<open>\<^verbatim>\<open>encode("utf-8")\<close> and \<^verbatim>\<open>decode("utf-8")\<close> for code points below 256.\<close>

definition utf8_char :: "char \<Rightarrow> nat list" where
  "utf8_char c = (let n = of_char c :: nat in if n < 128 then [n] else [192 + n div 64, 128 + n mod 64])"

definition utf8_encode :: "string \<Rightarrow> nat list" where
  "utf8_encode s = concat (map utf8_char s)"

fun utf8_decode :: "nat list \<Rightarrow> string option" where
  "utf8_decode [] = Some []"
| "utf8_decode (b # bs) =
     (if b < 128 then map_option (Cons (char_of b)) (utf8_decode bs)
      else case bs of
             [] \<Rightarrow> None
           | d # ds \<Rightarrow> map_option (Cons (char_of ((b - 192) * 64 + (d - 128)))) (utf8_decode ds))"

function decode_prefix :: "nat list \<Rightarrow> string option" where
  "decode_prefix bs =
     (if bs = [] then None
      else case utf8_decode bs of Some s \<Rightarrow> Some s | None \<Rightarrow> decode_prefix (butlast bs))"
  by pat_completeness auto
termination
  by (relation "measure length") auto

declare decode_prefix.simps [simp del]

definition cleaned_name :: "string \<Rightarrow> string" where
  "cleaned_name filename =
     filter (\<lambda>c. \<not> other_category c) (filter (\<lambda>c. \<not> dangerous_char c) (filter (\<lambda>c. \<not> path_sep c) filename))"

definition sanitize_filename :: "string \<Rightarrow> string result" where
  "sanitize_filename filename =
     (if CHR 0x00 \<in> set filename then Inl (SecurityError ''null byte'')
      else let cleaned = cleaned_name filename
           in if cleaned = [] then Inl (SecurityError ''empty'')
              else if has_double_extension cleaned then Inl (SecurityError ''double extension'')
              else let encoded = utf8_encode cleaned
                   in if length encoded > MAX_FILENAME_BYTES
                      then (case decode_prefix (take MAX_FILENAME_BYTES encoded) of
                              None \<Rightarrow> Inl (SecurityError ''truncation'') | Some s \<Rightarrow> Inr s)
                      else Inr cleaned)"

section \<open>Uploads\<close>

text \<open>What the file system says of the path: nothing there, or whether it is a regular file, and its size.\<close>

definition validate_upload ::
  "(string \<Rightarrow> (bool \<times> nat) option) \<Rightarrow> (string \<Rightarrow> string option) \<Rightarrow> string \<Rightarrow> nat \<Rightarrow> unit result" where
  "validate_upload stat guess_type filepath max_size_mb =
     (case stat filepath of
        None \<Rightarrow> Inl (SecurityError ''does not exist'')
      | Some (is_file, bytes) \<Rightarrow>
          if \<not> is_file then Inl (SecurityError ''not a regular file'')
          else if bytes > max_size_mb * 1024 * 1024 then Inl (SecurityError ''too large'')
          else let name = basename filepath; suffix = py_lower (suffix_of name)
               in if has_double_extension name then Inl (SecurityError ''double extension'')
                  else if suffix \<notin> set ALLOWED_EXTENSIONS then Inl (SecurityError ''extension'')
                  else (case map_of MIME_TYPE_MAP suffix of
                          None \<Rightarrow> Inl (SecurityError ''no MIME mapping'')
                        | Some expected \<Rightarrow>
                            (case guess_type filepath of
                               None \<Rightarrow> Inr ()
                             | Some guessed \<Rightarrow>
                                 if guessed \<noteq> expected then Inl (SecurityError ''MIME mismatch'') else Inr ())))"

section \<open>The jail holds\<close>

lemma starts_with_slash: "starts_with (b @ ''/'') p \<Longrightarrow> \<exists>r. p = b @ CHR ''/'' # r"
  by (auto simp: starts_with_iff)

text \<open>C7. Whatever the path and wherever symbolic links lead: a path that is accepted is the resolved base
  itself or lies below it, behind a separator.\<close>

theorem safe_resolve_stays_inside:
  assumes "safe_resolve resolve base_dir user_path = Inr p"
  shows "\<exists>base. resolve base_dir = Some base \<and>
    (p = rstrip_sep base \<or> (\<exists>r. p = rstrip_sep base @ CHR ''/'' # r)) \<and>
    resolve (join_path base (strip_root user_path)) = Some p"
  using assms
  by (auto simp: safe_resolve_def jailed_def dest!: starts_with_slash split: option.splits if_splits)

theorem safe_resolve_stays_inside_witness:
  "safe_resolve (\<lambda>t. Some t) ''/jobs/1'' ''C:/notes'' = Inr ''/jobs/1/notes'' \<and>
   (\<exists>r. ''/jobs/1/notes'' = rstrip_sep ''/jobs/1'' @ CHR ''/'' # r)"
proof -
  have "safe_resolve (\<lambda>t. Some t) ''/jobs/1'' ''C:/notes'' = Inr ''/jobs/1/notes''" by code_simp
  with safe_resolve_stays_inside [OF this] show ?thesis by (auto simp: rstrip_sep_def)
qed

section \<open>Cleaned names\<close>

lemma utf8_char_cases: "utf8_char c = [of_char c] \<and> of_char c < (128::nat) \<or>
   (\<exists>a b. utf8_char c = [a, b] \<and> 192 \<le> a \<and> (a - 192) * 64 + (b - 128) = of_char c)"
  by (auto simp: utf8_char_def Let_def)

lemma utf8_decode_char: "utf8_decode (utf8_char c @ bs) = map_option (Cons c) (utf8_decode bs)"
  using utf8_char_cases [of c] by auto

lemma utf8_decode_encode [simp]: "utf8_decode (utf8_encode s @ bs) = map_option (append s) (utf8_decode bs)"
  by (induction s) (simp_all add: utf8_encode_def utf8_decode_char option.map_comp comp_def map_option_idI)

lemma utf8_encode_Nil [simp]: "utf8_encode s = [] \<longleftrightarrow> s = []"
  by (cases s) (auto simp: utf8_encode_def utf8_char_def Let_def)

text \<open>The longest prefix whose encoding fits.\<close>

fun fit :: "nat \<Rightarrow> string \<Rightarrow> string" where
  "fit n [] = []"
| "fit n (c # s) = (if length (utf8_char c) \<le> n then c # fit (n - length (utf8_char c)) s else [])"

lemma fit_prefix: "\<exists>t. s = fit n s @ t"
  by (induction n s rule: fit.induct) auto

lemma fit_length: "length (utf8_encode (fit n s)) \<le> n"
proof (induction n s rule: fit.induct)
  case (2 n c s)
  then show ?case by (auto simp: utf8_encode_def)
qed (simp add: utf8_encode_def)

lemma take_utf8: "\<exists>b. take n (utf8_encode s) = utf8_encode (fit n s) @ b \<and> (b = [] \<or> (\<exists>a. b = [a] \<and> 128 \<le> a))"
proof (induction n s rule: fit.induct)
  case (1 n)
  then show ?case by (simp add: utf8_encode_def)
next
  case (2 n c s)
  show ?case
  proof (cases "length (utf8_char c) \<le> n")
    case True
    with 2 show ?thesis by (auto simp: utf8_encode_def)
  next
    case False
    have enc: "utf8_encode (c # s) = utf8_char c @ utf8_encode s" by (simp add: utf8_encode_def)
    show ?thesis
    proof (cases n)
      case 0
      then show ?thesis using False by (simp add: utf8_encode_def)
    next
      case (Suc m)
      with False utf8_char_cases [of c] obtain a b where "utf8_char c = [a, b]" "192 \<le> a" "m = 0" by auto
      with Suc False show ?thesis unfolding enc by (auto simp: utf8_encode_def)
    qed
  qed
qed

lemma decode_prefix_fit: "decode_prefix (take n (utf8_encode s)) = (if fit n s = [] then None else Some (fit n s))"
proof -
  obtain b where b: "take n (utf8_encode s) = utf8_encode (fit n s) @ b" "b = [] \<or> (\<exists>a. b = [a] \<and> 128 \<le> a)"
    using take_utf8 by blast
  have whole: "decode_prefix (utf8_encode t) = (if t = [] then None else Some t)" for t
    using utf8_decode_encode [of t "[]"] by (subst decode_prefix.simps) auto
  from b(2) show ?thesis
  proof
    assume "b = []"
    with b(1) whole show ?thesis by simp
  next
    assume "\<exists>a. b = [a] \<and> 128 \<le> a"
    then obtain a where a: "b = [a]" "128 \<le> a" by blast
    then have "decode_prefix (take n (utf8_encode s)) = decode_prefix (utf8_encode (fit n s))"
      unfolding b(1) by (subst decode_prefix.simps) (simp add: butlast_append)
    with whole show ?thesis by simp
  qed
qed

lemma fit_all: "length (utf8_encode s) \<le> n \<Longrightarrow> fit n s = s"
  by (induction n s rule: fit.induct) (auto simp: utf8_encode_def)

lemma sanitize_filename_fit:
  "sanitize_filename filename = Inr name \<Longrightarrow>
     name = fit MAX_FILENAME_BYTES (cleaned_name filename) \<and> cleaned_name filename \<noteq> [] \<and>
     \<not> has_double_extension (cleaned_name filename) \<and> CHR 0x00 \<notin> set filename \<and> name \<noteq> []"
  by (auto simp: sanitize_filename_def Let_def decode_prefix_fit fit_all split: if_splits)

text \<open>A cleaned name is not empty, has neither separators nor control characters, and takes at most 255 bytes:
  it is the longest prefix of what cleaning keeps that does.\<close>

theorem sanitized_name_safe:
  assumes "sanitize_filename filename = Inr name"
  shows "name \<noteq> [] \<and> length (utf8_encode name) \<le> 255 \<and> name = fit 255 (cleaned_name filename) \<and>
    (\<forall>c \<in> set name. c \<in> set filename \<and> \<not> path_sep c \<and> \<not> other_category c)"
proof -
  from sanitize_filename_fit [OF assms] have name: "name = fit 255 (cleaned_name filename)" "name \<noteq> []"
    by (auto simp: MAX_FILENAME_BYTES_def)
  moreover have "set name \<subseteq> set (cleaned_name filename)"
    unfolding name(1) using fit_prefix [of "cleaned_name filename" 255] by (metis set_append Un_upper1)
  ultimately show ?thesis using fit_length [of 255 "cleaned_name filename"] by (auto simp: cleaned_name_def)
qed

theorem sanitized_name_safe_witness: "length (utf8_encode ''ab.pdf'') \<le> 255"
proof -
  have "sanitize_filename (''a/b'' @ [CHR 0x07] @ ''.pdf'') = Inr ''ab.pdf''" by code_simp
  from sanitized_name_safe [OF this] show ?thesis by blast
qed

text \<open>A trailing dot hides the extensions before it.\<close>

lemma trailing_dot_hides_extensions:
  "sanitize_filename ''report.docx.exe.'' = Inr ''report.docx.exe.'' \<and>
   sanitize_filename ''report.docx.exe'' = Inl (SecurityError ''double extension'')"
  by code_simp

section \<open>Accepted uploads\<close>

lemma allowed_mapped: "e \<in> set ALLOWED_EXTENSIONS \<Longrightarrow> map_of MIME_TYPE_MAP e \<noteq> None"
  by (auto simp: ALLOWED_EXTENSIONS_def MIME_TYPE_MAP_def)

text \<open>An upload is accepted exactly when it is a regular file within the limit, with one extension, from the
  list, and the type guessed for it, if any, is the one of the extension.\<close>

theorem upload_accepted_iff:
  "validate_upload stat guess_type filepath max_size_mb = Inr () \<longleftrightarrow>
     (\<exists>bytes. stat filepath = Some (True, bytes) \<and> bytes \<le> max_size_mb * 1024 * 1024) \<and>
     \<not> has_double_extension (basename filepath) \<and>
     py_lower (suffix_of (basename filepath)) \<in> set ALLOWED_EXTENSIONS \<and>
     (\<forall>t. guess_type filepath = Some t \<longrightarrow> map_of MIME_TYPE_MAP (py_lower (suffix_of (basename filepath))) = Some t)"
  using allowed_mapped [of "py_lower (suffix_of (basename filepath))"]
  by (auto simp: validate_upload_def Let_def split: option.splits if_splits)

end
