(* ===== verification/Tool_Dispatcher.thy ===== *)
theory Tool_Dispatcher
  imports Py_Regex
begin

text \<open>
  \<^verbatim>\<open>backend/logic/tool_dispatcher.py\<close>: tool calls found in the text of a model, and inferred from a request.
  \<open>loads\<close> is \<^verbatim>\<open>json.loads\<close>; a text that starts with a brace decodes to a dict or not at all. A registry is
  the list of the names of its tools. Whether an emulator is attached, which the code asks \<^verbatim>\<open>adb\<close>, is an
  argument.
\<close>

type_synonym args = "(string \<times> json) list"

record tool_request =
  tr_name :: string
  tr_arguments :: json

definition name_mark :: string where
  "name_mark = [CHR 0x22] @ ''name'' @ [CHR 0x22]"

section \<open>Objects in text\<close>

text \<open>The offset of the brace that closes the one at the start, outside strings.\<close>

fun close_brace :: "nat \<Rightarrow> int \<Rightarrow> bool \<Rightarrow> bool \<Rightarrow> string \<Rightarrow> nat option" where
  "close_brace i depth in_string escape [] = None"
| "close_brace i depth in_string escape (c # s) =
     (if escape then close_brace (Suc i) depth in_string False s
      else if c = CHR 0x5C \<and> in_string then close_brace (Suc i) depth in_string True s
      else if c = CHR 0x22 then close_brace (Suc i) depth (\<not> in_string) False s
      else if in_string then close_brace (Suc i) depth True False s
      else if c = CHR ''{'' then close_brace (Suc i) (depth + 1) False False s
      else if c = CHR ''}'' then
        (if depth - 1 = 0 then Some i else close_brace (Suc i) (depth - 1) False False s)
      else close_brace (Suc i) depth False False s)"

definition object_end :: "string \<Rightarrow> nat \<Rightarrow> nat option" where
  "object_end t start = close_brace start 0 False False (drop start t)"

lemma close_brace_bounds: "close_brace i d q e s = Some j \<Longrightarrow> i \<le> j \<and> j < i + length s"
  by (induction i d q e s arbitrary: j rule: close_brace.induct) (fastforce split: if_splits)+

lemma object_end_bounds: "object_end t start = Some j \<Longrightarrow> start \<le> j \<and> j < length t"
  unfolding object_end_def by (cases "start \<le> length t") (auto dest: close_brace_bounds)

definition extract_json_object :: "(string \<Rightarrow> json result) \<Rightarrow> string \<Rightarrow> nat \<Rightarrow> args option" where
  "extract_json_object loads t start =
     (case object_end t start of
        None \<Rightarrow> None
      | Some j \<Rightarrow> (case loads (take (Suc j - start) (drop start t)) of Inr (JObj kvs) \<Rightarrow> Some kvs | _ \<Rightarrow> None))"

text \<open>\<^verbatim>\<open>t.find(p, i)\<close> and \<^verbatim>\<open>t.rfind('{', max(0, idx - 10), idx)\<close>.\<close>

fun find_in :: "string \<Rightarrow> string \<Rightarrow> nat option" where
  "find_in p [] = (if p = [] then Some 0 else None)"
| "find_in p (c # s) = (if starts_with p (c # s) then Some 0 else map_option Suc (find_in p s))"

definition find_at :: "string \<Rightarrow> string \<Rightarrow> nat \<Rightarrow> nat option" where
  "find_at p t i = map_option (\<lambda>k. i + k) (find_in p (drop i t))"

definition brace_before :: "string \<Rightarrow> nat \<Rightarrow> nat option" where
  "brace_before t idx =
     map_option (\<lambda>k. idx - Suc k) (find_idx (\<lambda>c. c = CHR ''{'') (rev (take (idx - (idx - 10)) (drop (idx - 10) t))))"

lemma find_in_bounds: "p \<noteq> [] \<Longrightarrow> find_in p s = Some k \<Longrightarrow> k < length s"
  by (induction p s arbitrary: k rule: find_in.induct) (auto split: if_splits)

lemma find_at_bounds: "p \<noteq> [] \<Longrightarrow> find_at p t i = Some k \<Longrightarrow> i \<le> k \<and> k < length t"
  by (auto simp: find_at_def dest!: find_in_bounds)

lemma name_mark_ne [simp]: "name_mark \<noteq> []"
  by (simp add: name_mark_def)

section \<open>Tool calls in text\<close>

definition looks_like_tool_template :: "string \<Rightarrow> bool" where
  "looks_like_tool_template t \<longleftrightarrow>
     (contains name_mark t \<or> contains ([CHR 0x27] @ ''name'' @ [CHR 0x27]) t) \<and>
     list_ex (\<lambda>ind. contains ind t)
       [''<function-name>'', ''<function_name>'', ''<tool-name>'', ''<tool_name>'', ''// Arguments'', ''// arguments'',
        ''// JSON'', ''// json'', [CHR 0x22, CHR ''<''], ''function-name'', ''tool-name'']"

definition fence_mark :: string where
  "fence_mark = [CHR 0x60, CHR 0x60, CHR 0x60]"

definition strip_markdown_fences :: "string \<Rightarrow> string" where
  "strip_markdown_fences t = sub_all (seqs [lit fence_mark, optional (lit ''json''), any_spaces]) (\<lambda>m. []) t"

definition placeholder_value :: "json \<Rightarrow> bool" where
  "placeholder_value v = (case v of JStr s \<Rightarrow> contains ''//'' s \<or> CHR ''<'' \<in> set s | _ \<Rightarrow> False)"

text \<open>\<^verbatim>\<open>"<" in name or "function" in name.lower()\<close> of a JSON value.\<close>

fun placeholder_name :: "json \<Rightarrow> bool result" where
  "placeholder_name (JStr s) = Inr (CHR ''<'' \<in> set s \<or> contains ''function'' (py_lower s))"
| "placeholder_name (JList xs) = (if JStr ''<'' \<in> set xs then Inr True else Inl (AttributeError ''lower''))"
| "placeholder_name (JObj kvs) = (if ''<'' \<in> fst ` set kvs then Inr True else Inl (AttributeError ''lower''))"
| "placeholder_name _ = Inl (TypeError ''not iterable'')"

definition is_template_placeholder :: "args \<Rightarrow> bool result" where
  "is_template_placeholder obj =
     (case placeholder_name (get_or obj ''name'' (JStr [])) of
        Inl e \<Rightarrow> Inl e
      | Inr True \<Rightarrow> Inr True
      | Inr False \<Rightarrow>
          Inr (case get_or obj ''arguments'' (JObj []) of
                 JObj kvs \<Rightarrow> list_ex (\<lambda>(k, v). placeholder_value v) kvs
               | _ \<Rightarrow> False))"

text \<open>The call an object stands for, if its tool is registered and its arguments are a dict.\<close>

definition decoded_arguments :: "(string \<Rightarrow> json result) \<Rightarrow> json \<Rightarrow> json" where
  "decoded_arguments loads v =
     (case v of JStr s \<Rightarrow> (case loads s of Inr w \<Rightarrow> w | Inl e \<Rightarrow> v) | _ \<Rightarrow> v)"

definition object_call :: "(string \<Rightarrow> json result) \<Rightarrow> string list \<Rightarrow> args \<Rightarrow> tool_request list" where
  "object_call loads registry obj =
     (case get_or obj ''name'' JNull of
        JStr name \<Rightarrow>
          if name \<in> set registry then
            (case decoded_arguments loads (get_or obj ''arguments'' JNull) of
               JObj kvs \<Rightarrow> [\<lparr>tr_name = name, tr_arguments = JObj kvs\<rparr>]
             | _ \<Rightarrow> [])
          else []
      | _ \<Rightarrow> [])"

definition has_call_keys :: "args \<Rightarrow> bool" where
  "has_call_keys obj \<longleftrightarrow> ''name'' \<in> fst ` set obj \<and> ''arguments'' \<in> fst ` set obj"

function parse_from :: "(string \<Rightarrow> json result) \<Rightarrow> string list \<Rightarrow> string \<Rightarrow> nat \<Rightarrow> tool_request list result" where
  "parse_from loads registry t i =
     (case find_at name_mark t i of
        None \<Rightarrow> Inr []
      | Some idx \<Rightarrow>
          (let next_calls = parse_from loads registry t (Suc idx)
           in case Option.bind (brace_before t idx) (extract_json_object loads t) of
                None \<Rightarrow> next_calls
              | Some obj \<Rightarrow>
                  if has_call_keys obj then
                    (case is_template_placeholder obj of
                       Inl e \<Rightarrow> Inl e
                     | Inr True \<Rightarrow> next_calls
                     | Inr False \<Rightarrow> map_sum id (\<lambda>calls. object_call loads registry obj @ calls) next_calls)
                  else next_calls))"
  by pat_completeness auto
termination
  by (relation "measure (\<lambda>(loads, registry, t, i). length t - i)") (auto dest!: find_at_bounds [OF name_mark_ne])

declare parse_from.simps [simp del]

definition parse_text_tools :: "(string \<Rightarrow> json result) \<Rightarrow> string list \<Rightarrow> string \<Rightarrow> tool_request list result" where
  "parse_text_tools loads registry t = parse_from loads registry (strip_markdown_fences t) 0"

text \<open>Removing the calls from the text.\<close>

definition fenced_call :: regex where
  "fenced_call =
     seqs [lit fence_mark, optional (lit ''json''), any_spaces, lit ''{'', Greedy 0 None (\<lambda>c. c \<noteq> CHR ''}''), lit name_mark,
           Greedy 0 None (\<lambda>c. c \<noteq> CHR ''}''), lit ([CHR 0x22] @ ''arguments'' @ [CHR 0x22]), Lazy (\<lambda>c. True), lit ''}'',
           any_spaces, lit fence_mark]"

function strip_from :: "(string \<Rightarrow> json result) \<Rightarrow> string \<Rightarrow> nat \<Rightarrow> string" where
  "strip_from loads t i =
     (case find_at name_mark t i of
        None \<Rightarrow> t
      | Some idx \<Rightarrow>
          (case brace_before t idx of
             None \<Rightarrow> strip_from loads t (Suc idx)
           | Some start \<Rightarrow>
               (case (extract_json_object loads t start, object_end t start) of
                  (Some obj, Some j) \<Rightarrow>
                    if has_call_keys obj then strip_from loads (take start t @ drop (Suc j) t) start
                    else strip_from loads t (Suc idx)
                | _ \<Rightarrow> strip_from loads t (Suc idx))))"
  by pat_completeness auto
termination
proof (relation "measures [\<lambda>(loads, t, i). length t, \<lambda>(loads, t, i). length t - i]")
qed (auto dest!: find_at_bounds [OF name_mark_ne] object_end_bounds [OF sym])

declare strip_from.simps [simp del]

definition strip_tool_json :: "(string \<Rightarrow> json result) \<Rightarrow> string \<Rightarrow> string" where
  "strip_tool_json loads t = strip_from loads (sub_all fenced_call (\<lambda>m. []) t) 0"

section \<open>Search queries\<close>

text \<open>A pattern repeated up to \<open>n\<close> times; with \<open>n\<close> the length of the text this is \<^verbatim>\<open>+\<close> and \<^verbatim>\<open>*\<close> of a group that
  matches no empty text.\<close>

fun up_to :: "nat \<Rightarrow> regex \<Rightarrow> regex" where
  "up_to 0 r = Empty"
| "up_to (Suc n) r = optional (Seq r (up_to n r))"

definition words :: "string list \<Rightarrow> regex" where
  "words ws = seqs (concat (map (\<lambda>w. [lit_ci w, spaces]) (butlast ws)) @ [lit_ci (last ws)])"

definition search_prefix :: regex where
  "search_prefix =
     alts
      [seqs [lit_ci ''search'', spaces,
         optional (alts [lit_ci ''for'', lit_ci ''about'', lit_ci ''on'', words [''the'', ''web'', ''for'']]), any_spaces],
       seqs [lit_ci ''look'', spaces, alts [lit_ci ''up'', lit_ci ''into'', lit_ci ''over'', words [''at'', ''what'']], any_spaces],
       seqs [lit_ci ''google'', any_spaces],
       seqs [words [''find'', ''out''], spaces, optional (Alt (lit_ci ''about'') (lit_ci ''what'')), any_spaces],
       seqs [lit_ci ''research'', any_spaces],
       seqs [lit_ci ''what'', spaces, optional (Seq (lit_ci ''do'') spaces), lit_ci ''people'', spaces,
         Alt (lit_ci ''say'') (lit_ci ''think''), spaces, optional (lit_ci ''about''), any_spaces],
       seqs [words [''what'', ''are'', ''people'', ''saying''], spaces, optional (lit_ci ''about''), any_spaces],
       seqs [lit_ci ''opinion'', optional (lit_ci ''s''), spaces, lit_ci ''on'', any_spaces],
       seqs [lit_ci ''review'', optional (lit_ci ''s''), spaces, Alt (lit_ci ''of'') (lit_ci ''for''), any_spaces],
       seqs [words [''browse'', ''for''], any_spaces],
       seqs [words [''check'', ''out'', ''what''], any_spaces]]"

definition SEARCH_PREFIXES :: "nat \<Rightarrow> regex" where
  "SEARCH_PREFIXES n = seqs [at_start, search_prefix, up_to n search_prefix]"

definition rest_of_line :: regex where
  "rest_of_line = Seq (Greedy 0 None (\<lambda>c. c \<noteq> CHR 0x0A)) at_end"

definition TRAILING_NOISE :: regex where
  "TRAILING_NOISE =
     alts [seqs [any_spaces, Greedy 0 None (\<lambda>c. c \<in> set ''.,;:!?''), any_spaces, at_end],
           seqs [spaces, optional (Seq (lit_ci ''work'') spaces), lit_ci ''autonomously'', rest_of_line],
           seqs [spaces, words [''verify'', ''your'', ''results''], rest_of_line],
           seqs [spaces, words [''and'', ''report'', ''what'', ''was'', ''done''], rest_of_line]]"

definition extract_search_query :: "string \<Rightarrow> string" where
  "extract_search_query raw_message =
     (let message = py_strip raw_message;
          query = py_strip (sub_all (SEARCH_PREFIXES (length message)) (\<lambda>m. []) message);
          query = py_strip (sub_all TRAILING_NOISE (\<lambda>m. []) query);
          query = (if query = [] then
                     py_strip (sub_all
                       (seqs [at_start, alts [lit_ci ''search'', words [''look'', ''up''], lit_ci ''google'', lit_ci ''find'',
                          lit_ci ''research''], spaces]) (\<lambda>m. []) message)
                   else query)
      in if query = [] then message else query)"

section \<open>Inferred calls\<close>

definition request :: "string \<Rightarrow> args \<Rightarrow> tool_request" where
  "request name kvs = \<lparr>tr_name = name, tr_arguments = JObj kvs\<rparr>"

definition emulator :: "string \<Rightarrow> args \<Rightarrow> tool_request" where
  "emulator action extra = request ''android_emulator'' ((''action'', JStr action) # extra)"

definition mentions :: "string list \<Rightarrow> string \<Rightarrow> bool" where
  "mentions kws msg = list_ex (\<lambda>kw. contains kw msg) kws"

definition apk_path :: "string \<Rightarrow> string option" where
  "apk_path message =
     search_group (optional (Class (\<lambda>c. c = CHR 0x22 \<or> c = CHR 0x27)))
       (Seq (Greedy 1 None (\<lambda>c. \<not> py_isspace c \<and> c \<noteq> CHR 0x22 \<and> c \<noteq> CHR 0x27)) (lit_ci ''.apk''))
       Empty message"

text \<open>The first rule whose keywords occur.\<close>

fun first_rule :: "(string list \<times> 'a) list \<Rightarrow> 'a \<Rightarrow> string \<Rightarrow> 'a" where
  "first_rule [] dflt msg = dflt"
| "first_rule ((kws, x) # rules) dflt msg = (if mentions kws msg then x else first_rule rules dflt msg)"

definition press :: "string \<Rightarrow> tool_request" where
  "press key = emulator ''press_key'' [(''keycode'', JStr key)]"

definition infer_emulator_call :: "bool \<Rightarrow> string \<Rightarrow> string \<Rightarrow> tool_request" where
  "infer_emulator_call emulator_running user_message msg =
     (if mentions [''list avd'', ''list emulator'', ''available avd'', ''available emulator''] msg then emulator ''list_avds'' []
      else if \<not> emulator_running then emulator ''launch'' [(''avd_name'', JStr ''Pixel_Fold_API_35'')]
      else if mentions [''install'', ''apk''] msg then
        (case apk_path user_message of
           Some p \<Rightarrow> emulator ''install'' [(''apk_path'', JStr p)] | None \<Rightarrow> emulator ''list_packages'' [])
      else first_rule
        [([''scroll up'', ''swipe up''], emulator ''scroll_up'' []),
         ([''scroll down'', ''swipe down''], emulator ''scroll_down'' []),
         ([''scroll left'', ''swipe left''], emulator ''scroll_left'' []),
         ([''scroll right'', ''swipe right''], emulator ''scroll_right'' []),
         ([''read screen'', ''what'' @ [CHR 0x27] @ ''s on screen'', ''what is on screen'', ''read the screen'',
           ''what do you see'', ''describe screen''], emulator ''read_screen'' []),
         ([''screenshot'', ''screen'', ''show'', ''see'', ''look''], emulator ''screenshot'' []),
         ([''go home'', ''home screen'', ''press home''], press ''KEYCODE_HOME''),
         ([''go back'', ''press back'', ''back button''], press ''KEYCODE_BACK''),
         ([''launch'', ''start'', ''boot'', ''open emulator''], emulator ''list_avds'' []),
         ([''kill'', ''stop'', ''close'', ''shut''], emulator ''kill'' []),
         ([''list'', ''what app'', ''packages''], emulator ''list_packages'' []),
         ([''tap''], emulator ''screenshot'' [])]
        (emulator ''screenshot'' []) msg)"

definition infer_mail_call :: "string \<Rightarrow> tool_request" where
  "infer_mail_call msg =
     (let list_mail = (\<lambda>n. request ''gmail'' [(''action'', JStr ''list_messages''), (''max_results'', JInt n)])
      in first_rule
           [([''send'', ''write'', ''compose''], request ''gmail'' [(''action'', JStr ''draft'')]),
            ([''read'', ''open'', ''check''], list_mail 5),
            ([''search'', ''find''], list_mail 10)]
           (list_mail 5) msg)"

definition infer_tool_call :: "bool \<Rightarrow> string \<Rightarrow> tool_request option" where
  "infer_tool_call emulator_running user_message =
     (let msg = py_lower user_message
      in if mentions [''emulator'', ''android'', ''avd'', ''apk'', ''install app''] msg
         then Some (infer_emulator_call emulator_running user_message msg)
         else if mentions [''email'', ''gmail'', ''inbox'', ''mail''] msg then Some (infer_mail_call msg)
         else if mentions
             [''search'', ''look up'', ''look into'', ''look over'', ''look at what'', ''google'', ''find out'', ''research'',
              ''what do people say'', ''what people say'', ''what are people saying'', ''opinions on'', ''reviews of'',
              ''browse for'', ''check out what''] msg
         then Some (request ''web_search'' [(''query'', JStr (extract_search_query user_message))])
         else if contains ''screenshot'' msg then Some (request ''take_screenshot'' [])
         else None)"

section \<open>What is parsed\<close>

lemma object_call_cases:
  "object_call loads registry obj = [] \<or>
   (\<exists>name kvs. name \<in> set registry \<and> object_call loads registry obj = [request name kvs])"
  by (cases "get_or obj ''name'' JNull"; cases "decoded_arguments loads (get_or obj ''arguments'' JNull)")
     (simp_all add: object_call_def request_def)

lemma object_call_registered:
  "c \<in> set (object_call loads registry obj) \<Longrightarrow> tr_name c \<in> set registry \<and> (\<exists>kvs. tr_arguments c = JObj kvs)"
  using object_call_cases [of loads registry obj] by (auto simp: request_def)

lemma parse_from_registered:
  "parse_from loads registry t i = Inr calls \<Longrightarrow> c \<in> set calls \<Longrightarrow>
     tr_name c \<in> set registry \<and> (\<exists>kvs. tr_arguments c = JObj kvs)"
proof (induction loads registry t i arbitrary: calls rule: parse_from.induct)
  case (1 loads registry t i)
  show ?case
    using 1(2) [unfolded parse_from.simps [of loads registry t i]] 1(1) 1(3)
    by (auto simp: Let_def map_sum_Inr_iff dest: object_call_registered split: option.splits if_splits sum.splits bool.splits)
qed

text \<open>Whatever the text: a call parsed from it is of a registered tool, and its arguments are a dict.\<close>

lemma parsed_calls_registered:
  "parse_text_tools loads registry t = Inr calls \<Longrightarrow> c \<in> set calls \<Longrightarrow>
     tr_name c \<in> set registry \<and> (\<exists>kvs. tr_arguments c = JObj kvs)"
  unfolding parse_text_tools_def by (rule parse_from_registered)

end
