(* ===== verification/Executor.thy ===== *)
theory Executor
  imports Coroutine Policy Prompt_Guard Tool_Dispatcher
begin

text \<open>
  \<^verbatim>\<open>backend/jobs/executor.py\<close>: the agent loop that runs one node. It asks a model, checks each tool call of
  the answer with the prompt guard and the policy engine, runs the calls that pass, and goes on until the
  model answers with text, which is checked, parsed and validated.

  The outside is the record \<open>xenv\<close>, read at a tick: what the model answers to the messages, what a tool
  returns, the sampler, the model selector, clocks, fresh ids, and whether the timeout of the node strikes
  at an await, which raises \<open>CancelledError\<close> there. The effects on the outside, calls of the model and runs
  of tools, are kept in a trace. An answer is the record of the fields the code reads, which the chat API of
  Ollama documents. Messages and system prompts keep the data their texts are built from; progress
  callbacks only await. Arguments that are no object are taken to raise in the policy engine, as they do
  in the guard before it at the levels that validate tool calls.
\<close>

section \<open>Results, answers, messages\<close>

definition MAX_ITERATIONS :: nat where
  "MAX_ITERATIONS = 20"

record node_result =
  nx_success :: bool
  nx_output :: "(string \<times> json) list"
  nx_error :: "string option"
  nx_tokens_in :: nat
  nx_tokens_out :: nat
  nx_duration_ms :: int
  nx_tool_calls_made :: nat
  nx_model_used :: string

record llm_response =
  lr_error :: "string option"
  lr_prompt_eval_count :: nat
  lr_eval_count :: nat
  lr_content :: "string option"
  lr_tool_calls :: "tool_request list option"

datatype tool_note =
    Blocked_by_guard "guard_issue list"
  | Denied_by_policy reason
  | Dry_run_skipped string
  | Needs_approval string "ident option"
  | Tool_answer json

text \<open>The layers of the system prompt.\<close>

record system_prompt =
  sp_allowed_tools :: "string list"
  sp_job_dir :: string
  sp_instructions :: "string option"
  sp_expected_output :: "string option"
  sp_input_data :: "string option"

datatype message =
    System_message system_prompt
  | Assistant_message string "tool_request list"
  | Tool_message tool_note

datatype effect = Model_call | Tool_run string json

record xenv =
  xe_chat :: "nat \<Rightarrow> message list \<Rightarrow> string list \<Rightarrow> string \<Rightarrow> llm_response"
  xe_tool :: "nat \<Rightarrow> string \<Rightarrow> json \<Rightarrow> json result"
  xe_sample :: "(nat \<Rightarrow> message list \<Rightarrow> string \<Rightarrow> int \<Rightarrow> (string \<times> nat \<times> nat) result) option"
  xe_best_of_n_enabled :: bool
  xe_select_model :: "(node \<Rightarrow> job \<Rightarrow> (string \<times> int) result) option"
  xe_default_model :: string
  xe_credentials :: "nat \<Rightarrow> json option result"
  xe_emulator_running :: "nat \<Rightarrow> bool"
  xe_cancelled :: "nat \<Rightarrow> bool"
  xe_ms :: "nat \<Rightarrow> int"
  xe_now :: "nat \<Rightarrow> timestamp"
  xe_uuid :: "nat \<Rightarrow> ident"
  xe_resolve :: "string \<Rightarrow> string option"
  xe_loads :: "string \<Rightarrow> json result"
  xe_dumps :: "(string \<times> json) list \<Rightarrow> string"
  xe_str :: "json \<Rightarrow> string"
  xe_policies_load :: bool
  xe_error_text :: "py_error \<Rightarrow> string"
  xe_validator :: "(json \<Rightarrow> (string \<times> json) list \<Rightarrow> string list) option"
  xe_error_list_text :: "string list \<Rightarrow> string"
  xe_registry :: "string list"
  xe_jobs_dir :: string
  xe_deployment_mode :: string

record xstate =
  xs_guard :: guard
  xs_policies :: policy_state
  xs_ctx :: policy_context
  xs_messages :: "message list"
  xs_trace :: "effect list"
  xs_tokens_in :: nat
  xs_tokens_out :: nat
  xs_tool_calls_made :: nat
  xs_tick :: nat

type_synonym 'a xact = "(xstate, 'a) coroutine"

definition look :: "(nat \<Rightarrow> 'a) \<Rightarrow> 'a xact" where
  "look f = bind_act (reads (\<lambda>s. f (xs_tick s))) (\<lambda>x.
     seq_act (changes (\<lambda>s. s\<lparr>xs_tick := Suc (xs_tick s)\<rparr>)) (ret x))"

text \<open>An await, at which the timeout may strike.\<close>

definition pause :: "xenv \<Rightarrow> unit xact" where
  "pause env = bind_act (look (xe_cancelled env)) (\<lambda>c. if c then lift_result (Inl CancelledError) else ret ())"

definition say :: "message \<Rightarrow> unit xact" where
  "say m = changes (\<lambda>s. s\<lparr>xs_messages := xs_messages s @ [m]\<rparr>)"

text \<open>\<^verbatim>\<open>except Exception\<close>, which lets a cancellation through.\<close>

definition except_act :: "'a xact \<Rightarrow> (py_error \<Rightarrow> 'a xact) \<Rightarrow> 'a xact" where
  "except_act m h = try_act m (\<lambda>e. if e = CancelledError then lift_result (Inl e) else h e)"

definition guard_event :: "ident \<Rightarrow> guard_event \<Rightarrow> anomaly option xact" where
  "guard_event node ev =
     bind_act (reads (\<lambda>s. check_anomaly node ev (xs_guard s))) (\<lambda>(a, g).
       seq_act (changes (\<lambda>s. s\<lparr>xs_guard := g\<rparr>)) (ret a))"

definition job_dir :: "xenv \<Rightarrow> job \<Rightarrow> string" where
  "job_dir env job = join_path (xe_jobs_dir env) (jo_id job)"

section \<open>Prompt and tools\<close>

definition stripped :: "string option \<Rightarrow> string option" where
  "stripped v = (case v of None \<Rightarrow> None | Some t \<Rightarrow> if t = [] then None else Some (py_strip t))"

definition build_system_prompt :: "xenv \<Rightarrow> guard \<Rightarrow> node \<Rightarrow> job \<Rightarrow> (string \<times> json) list option \<Rightarrow> system_prompt" where
  "build_system_prompt env g node job input_data =
     \<lparr>sp_allowed_tools = no_tools_allowed node, sp_job_dir = job_dir env job,
      sp_instructions = stripped (no_instructions node), sp_expected_output = stripped (no_expected_output node),
      sp_input_data =
        (case input_data of
           None \<Rightarrow> None
         | Some d \<Rightarrow> if d = [] then None
                    else Some (wrap_untrusted g (sanitize_input g (xe_dumps env d)) ''previous_node_output''))\<rparr>"

text \<open>The names of the tools a node is given.\<close>

definition scope_tools :: "string list \<Rightarrow> string list \<Rightarrow> string list" where
  "scope_tools registry allowed_names =
     (if allowed_names = [] \<or> allowed_names = [''*''] then registry @ [''delegate'']
      else filter (\<lambda>t. t \<in> set allowed_names) registry @ [''delegate''])"

section \<open>Reading an answer\<close>

definition title_or_description :: "job \<Rightarrow> string" where
  "title_or_description job =
     (if jo_title job \<noteq> [] then jo_title job else case jo_description job of None \<Rightarrow> [] | Some d \<Rightarrow> d)"

text \<open>The content and the tool calls of an answer, with the calls found in the text of small models.\<close>

definition read_answer :: "xenv \<Rightarrow> job \<Rightarrow> llm_response \<Rightarrow> (string \<times> tool_request list) xact" where
  "read_answer env job response =
     (let content = (case lr_content response of None \<Rightarrow> [] | Some c \<Rightarrow> c);
          calls = (case lr_tool_calls response of None \<Rightarrow> [] | Some cs \<Rightarrow> cs)
      in if calls = [] \<and> py_strip content \<noteq> [] then
           bind_act (lift_result (parse_text_tools (xe_loads env) (xe_registry env) content)) (\<lambda>text_calls.
             if text_calls \<noteq> [] then ret (strip_tool_json (xe_loads env) content, text_calls)
             else if looks_like_tool_template content then
               bind_act (look (xe_emulator_running env)) (\<lambda>running.
                 ret (case infer_tool_call running (title_or_description job) of
                        None \<Rightarrow> (content, []) | Some c \<Rightarrow> ([], [c])))
             else ret (content, []))
         else ret (content, calls))"

definition loads_arguments :: "(string \<Rightarrow> json result) \<Rightarrow> json \<Rightarrow> json result" where
  "loads_arguments loads raw_args =
     (case raw_args of
        JStr t \<Rightarrow> (case loads t of Inr v \<Rightarrow> Inr v | Inl (ValueError s) \<Rightarrow> Inr (JObj []) | Inl e \<Rightarrow> Inl e)
      | _ \<Rightarrow> Inr (if truthy raw_args then raw_args else JObj []))"

section \<open>Final output\<close>

text \<open>The first fenced object or array.\<close>

definition fenced_json :: "string \<Rightarrow> string option" where
  "fenced_json t =
     search_group (seqs [lit fence_mark, optional (lit ''json''), any_spaces])
       (Alt (seqs [lit ''{'', Lazy (\<lambda>c. True), lit ''}'']) (seqs [lit ''['', Lazy (\<lambda>c. True), lit '']'']))
       (Seq any_spaces (lit fence_mark)) t"

fun as_output :: "json \<Rightarrow> (string \<times> json) list" where
  "as_output (JObj kvs) = kvs"
| "as_output v = [(''result'', v)]"

definition parse_output_json :: "(string \<Rightarrow> json result) \<Rightarrow> string \<Rightarrow> (string \<times> json) list result" where
  "parse_output_json loads t =
     (case loads (py_strip t) of
        Inr v \<Rightarrow> Inr (as_output v)
      | Inl (ValueError s) \<Rightarrow>
          (case fenced_json (py_strip t) of
             None \<Rightarrow> Inr [(''result'', JStr t)]
           | Some block \<Rightarrow>
               (case loads block of
                  Inr v \<Rightarrow> Inr (as_output v)
                | Inl (ValueError s) \<Rightarrow> Inr [(''result'', JStr t)]
                | Inl e \<Rightarrow> Inl e))
      | Inl e \<Rightarrow> Inl e)"

record agent_result =
  ar_output :: "(string \<times> json) list"
  ar_tokens_in :: nat
  ar_tokens_out :: nat
  ar_tool_calls_made :: nat

definition agent_return :: "(string \<times> json) list \<Rightarrow> agent_result xact" where
  "agent_return output = reads (\<lambda>s.
     \<lparr>ar_output = output, ar_tokens_in = xs_tokens_in s, ar_tokens_out = xs_tokens_out s,
      ar_tool_calls_made = xs_tool_calls_made s\<rparr>)"

definition add_tokens :: "nat \<Rightarrow> nat \<Rightarrow> unit xact" where
  "add_tokens i out = changes (\<lambda>s. s\<lparr>xs_tokens_in := xs_tokens_in s + i, xs_tokens_out := xs_tokens_out s + out\<rparr>)"

definition sampled_content :: "xenv \<Rightarrow> string \<Rightarrow> int \<Rightarrow> string \<Rightarrow> string xact" where
  "sampled_content env model best_of_n content =
     (case xe_sample env of
        None \<Rightarrow> ret content
      | Some sample \<Rightarrow>
          if best_of_n > 1 \<and> xe_best_of_n_enabled env then
            except_act
              (seq_act (pause env)
                (bind_act (reads xs_messages) (\<lambda>messages.
                 bind_act (look (\<lambda>n. sample n messages model best_of_n)) (\<lambda>r.
                 seq_act (pause env)
                 (bind_act (lift_result r) (\<lambda>(response, tokens_in, tokens_out).
                  seq_act (add_tokens tokens_in tokens_out) (seq_act (pause env) (ret response))))))))
              (\<lambda>exc. ret content)
          else ret content)"

definition final_output :: "xenv \<Rightarrow> node \<Rightarrow> string \<Rightarrow> int \<Rightarrow> string \<Rightarrow> agent_result xact" where
  "final_output env node model best_of_n content0 =
     bind_act (sampled_content env model best_of_n content0) (\<lambda>content.
     bind_act (guard_event (no_id node) (Output_text content)) (\<lambda>anomaly.
     bind_act (reads (\<lambda>s. (anomaly_halts_job (xs_guard s), validate_output (xs_guard s) content))) (\<lambda>(halts, cleaned).
     if anomaly \<noteq> None \<and> halts then lift_result (Inl (RuntimeError ''Anomaly detected in node output''))
     else bind_act (lift_result (parse_output_json (xe_loads env) (if cleaned \<noteq> [] then cleaned else content)))
            agent_return)))"

section \<open>Tool calls\<close>

definition delegate_output :: "(string \<times> json) list \<Rightarrow> (string \<times> json) list" where
  "delegate_output args =
     [(''delegate'', JObj
        [(''title'', get_or args ''title'' (JStr ''Delegated sub-task'')),
         (''description'', get_or args ''description'' (JStr [])),
         (''priority'', get_or args ''priority'' (JInt 5))]),
      (''result'', JStr ''Delegation requested.'')]"

definition injects_credentials :: "string \<Rightarrow> (string \<times> json) list \<Rightarrow> bool" where
  "injects_credentials tool args \<longleftrightarrow>
     (starts_with ''google_'' tool \<or> tool = ''gmail'') \<and> ''credentials'' \<notin> fst ` set args"

definition with_credentials :: "xenv \<Rightarrow> string \<Rightarrow> (string \<times> json) list \<Rightarrow> (string \<times> json) list xact" where
  "with_credentials env tool args =
     (if injects_credentials tool args then
        bind_act (look (xe_credentials env)) (\<lambda>r.
          ret (case r of Inr (Some c) \<Rightarrow> dict_put ''credentials'' c args | _ \<Rightarrow> args))
      else ret args)"

definition run_tool :: "xenv \<Rightarrow> string \<Rightarrow> (string \<times> json) list \<Rightarrow> unit xact" where
  "run_tool env tool args0 =
     bind_act (with_credentials env tool args0) (\<lambda>args.
     seq_act (changes (\<lambda>s. s\<lparr>xs_trace := xs_trace s @ [Tool_run tool (JObj args)]\<rparr>))
     (bind_act (look (\<lambda>n. xe_tool env n tool (JObj args))) (\<lambda>r.
      seq_act (pause env)
      (let answer = (case r of Inr v \<Rightarrow> v
                     | Inl e \<Rightarrow> JObj [(''success'', JBool False), (''error'', JStr (xe_error_text env e))])
       in seq_act (changes (\<lambda>s. s\<lparr>xs_tool_calls_made := Suc (xs_tool_calls_made s),
               xs_ctx := (if tool \<in> set DELETE_TOOLS
                          then (xs_ctx s)\<lparr>pc_delete_count := pc_delete_count (xs_ctx s) + 1\<rparr> else xs_ctx s)\<rparr>))
          (seq_act (say (Tool_message (Tool_answer answer)))
             (case answer of JObj kvs \<Rightarrow> pause env | _ \<Rightarrow> lift_result (Inl (AttributeError ''get''))))))))"

definition ask_policy :: "xenv \<Rightarrow> string \<Rightarrow> json \<Rightarrow> policy_decision xact" where
  "ask_policy env tool args =
     (case args of
        JObj kvs \<Rightarrow>
          bind_act (look (xe_uuid env)) (\<lambda>i. bind_act (look (xe_now env)) (\<lambda>now.
            bind_act (reads (\<lambda>s. evaluate (xe_str env) (xe_policies_load env) tool kvs (xs_ctx s) i now (xs_policies s))) (\<lambda>r.
            bind_act (lift_result r) (\<lambda>(decision, ps).
            seq_act (changes (\<lambda>s. s\<lparr>xs_policies := ps\<rparr>)) (ret decision)))))
      | _ \<Rightarrow> lift_result (Inl (AttributeError ''get'')))"

text \<open>What becomes of a call the guard lets through.\<close>

definition decided_call :: "xenv \<Rightarrow> string \<Rightarrow> json \<Rightarrow> unit xact" where
  "decided_call env tool args =
     seq_act (changes (\<lambda>s. s\<lparr>xs_ctx := (xs_ctx s)\<lparr>pc_tool_call_count := pc_tool_call_count (xs_ctx s) + 1\<rparr>\<rparr>))
     (bind_act (ask_policy env tool args) (\<lambda>decision.
      case pd_result decision of
        DENY \<Rightarrow> seq_act (say (Tool_message (Denied_by_policy (pd_reason decision)))) (pause env)
      | DRY_RUN \<Rightarrow> seq_act (say (Tool_message (Dry_run_skipped tool))) (pause env)
      | REQUIRE_APPROVAL \<Rightarrow>
          seq_act (say (Tool_message (Needs_approval tool (pd_approval_id decision)))) (pause env)
      | ALLOW \<Rightarrow> run_tool env tool (as_output args)))"

definition guarded_call :: "xenv \<Rightarrow> node \<Rightarrow> job \<Rightarrow> string list \<Rightarrow> string \<Rightarrow> json \<Rightarrow> unit xact" where
  "guarded_call env node job allowed tool args =
     bind_act (guard_event (no_id node) (Tool_call tool allowed)) (\<lambda>anomaly.
     bind_act (reads (\<lambda>s. anomaly_halts_job (xs_guard s))) (\<lambda>halts.
     if anomaly \<noteq> None \<and> halts then lift_result (Inl (RuntimeError ''Critical anomaly halts node''))
     else bind_act (reads (\<lambda>s. validate_tool_call (xs_guard s) (xe_resolve env) tool args allowed (job_dir env job))) (\<lambda>r.
     bind_act (lift_result r) (\<lambda>issues.
     if issues \<noteq> [] then
       bind_act (guard_event (no_id node) (Tool_blocked tool)) (\<lambda>a.
         seq_act (say (Tool_message (Blocked_by_guard issues))) (pause env))
     else decided_call env tool args))))"

text \<open>One call: the output of a delegation, which ends the loop, or nothing.\<close>

definition process_call ::
  "xenv \<Rightarrow> node \<Rightarrow> job \<Rightarrow> string list \<Rightarrow> tool_request \<Rightarrow> (string \<times> json) list option xact" where
  "process_call env node job allowed tc =
     bind_act (lift_result (loads_arguments (xe_loads env) (tr_arguments tc))) (\<lambda>args.
     seq_act (pause env)
     (if tr_name tc = ''delegate'' then
        (case args of
           JObj kvs \<Rightarrow> ret (Some (delegate_output kvs))
         | _ \<Rightarrow> lift_result (Inl (AttributeError ''get'')))
      else seq_act (guarded_call env node job allowed (tr_name tc) args) (ret None)))"

fun process_calls ::
  "xenv \<Rightarrow> node \<Rightarrow> job \<Rightarrow> string list \<Rightarrow> tool_request list \<Rightarrow> (string \<times> json) list option xact" where
  "process_calls env node job allowed [] = ret None"
| "process_calls env node job allowed (tc # tcs) =
     bind_act (process_call env node job allowed tc) (\<lambda>out.
       case out of None \<Rightarrow> process_calls env node job allowed tcs | Some d \<Rightarrow> ret (Some d))"

section \<open>The agent loop\<close>

definition call_ollama :: "xenv \<Rightarrow> string list \<Rightarrow> string \<Rightarrow> llm_response xact" where
  "call_ollama env tools model =
     seq_act (changes (\<lambda>s. s\<lparr>xs_trace := xs_trace s @ [Model_call]\<rparr>))
     (bind_act (reads xs_messages) (\<lambda>messages.
      bind_act (look (\<lambda>n. xe_chat env n messages tools model)) (\<lambda>response.
      seq_act (pause env) (ret response))))"

text \<open>From the number of iterations left.\<close>

fun agent_loop :: "nat \<Rightarrow> xenv \<Rightarrow> node \<Rightarrow> job \<Rightarrow> string list \<Rightarrow> string \<Rightarrow> int \<Rightarrow> agent_result xact" where
  "agent_loop 0 env node job tools model best_of_n =
     lift_result (Inl (RuntimeError ''exceeded max agent iterations''))"
| "agent_loop (Suc k) env node job tools model best_of_n =
     seq_act (pause env)
     (bind_act (call_ollama env tools model) (\<lambda>response.
      case lr_error response of
        Some e \<Rightarrow> lift_result (Inl (RuntimeError (''Ollama call failed: '' @ e)))
      | None \<Rightarrow>
          seq_act (add_tokens (lr_prompt_eval_count response) (lr_eval_count response))
          (bind_act (read_answer env job response) (\<lambda>(content, calls).
           if calls = [] then final_output env node model best_of_n content
           else seq_act (say (Assistant_message content calls))
                (bind_act (process_calls env node job tools calls) (\<lambda>out.
                 case out of
                   Some d \<Rightarrow> agent_return d
                 | None \<Rightarrow> agent_loop k env node job tools model best_of_n))))))"

section \<open>Validating the output\<close>

definition of_type :: "string \<Rightarrow> json \<Rightarrow> bool" where
  "of_type t v \<longleftrightarrow>
     (case v of
        JStr s \<Rightarrow> t = ''string''
      | JInt i \<Rightarrow> t = ''integer'' \<or> t = ''number''
      | JBool b \<Rightarrow> t = ''boolean'' \<or> t = ''integer'' \<or> t = ''number''
      | JReal r \<Rightarrow> t = ''number''
      | JList xs \<Rightarrow> t = ''array''
      | JObj kvs \<Rightarrow> t = ''object''
      | JNull \<Rightarrow> False)"

definition schema_types :: "string list" where
  "schema_types = [''string'', ''integer'', ''number'', ''boolean'', ''array'', ''object'']"

text \<open>The required keys that are missing; a key that is a list or a dict has no hash.\<close>

fun missing_keys :: "(string \<times> json) list \<Rightarrow> json list \<Rightarrow> json list result" where
  "missing_keys output [] = Inr []"
| "missing_keys output (k # ks) =
     (case k of
        JList xs \<Rightarrow> Inl (TypeError ''unhashable type'')
      | JObj kvs \<Rightarrow> Inl (TypeError ''unhashable type'')
      | JStr s \<Rightarrow> map_sum id (\<lambda>ms. if s \<in> fst ` set output then ms else k # ms) (missing_keys output ks)
      | _ \<Rightarrow> map_sum id (\<lambda>ms. k # ms) (missing_keys output ks))"

fun mistyped_keys :: "(string \<times> json) list \<Rightarrow> (string \<times> json) list \<Rightarrow> string list result" where
  "mistyped_keys output [] = Inr []"
| "mistyped_keys output ((k, schema) # props) =
     (case obj_get output k of
        None \<Rightarrow> mistyped_keys output props
      | Some v \<Rightarrow>
          (case schema of
             JObj kvs \<Rightarrow>
               (case get_or kvs ''type'' JNull of
                  JStr t \<Rightarrow> map_sum id (\<lambda>ms. if t \<in> set schema_types \<and> \<not> of_type t v then k # ms else ms)
                              (mistyped_keys output props)
                | JList xs \<Rightarrow> if xs = [] then mistyped_keys output props else Inl (TypeError ''unhashable type'')
                | JObj kvs \<Rightarrow> if kvs = [] then mistyped_keys output props else Inl (TypeError ''unhashable type'')
                | _ \<Rightarrow> mistyped_keys output props)
           | _ \<Rightarrow> Inl (AttributeError ''get'')))"

datatype output_error = Bad_schema | Schema_error string | Missing_key json | Wrong_type string

definition validate_by_hand :: "json \<Rightarrow> (string \<times> json) list \<Rightarrow> output_error list result" where
  "validate_by_hand schema output =
     (case schema of
        JObj kvs \<Rightarrow>
          (case json_items (get_or kvs ''required'' (JList [])) of
             Inl e \<Rightarrow> Inl e
           | Inr required_keys \<Rightarrow>
               (case missing_keys output required_keys of
                  Inl e \<Rightarrow> Inl e
                | Inr missing \<Rightarrow>
                    (case get_or kvs ''properties'' (JObj []) of
                       JObj props \<Rightarrow>
                         map_sum id (\<lambda>wrong. map Missing_key missing @ map Wrong_type wrong) (mistyped_keys output props)
                     | _ \<Rightarrow> Inl (AttributeError ''items''))))
      | _ \<Rightarrow> Inl (AttributeError ''get''))"

definition validate_node_output :: "xenv \<Rightarrow> (string \<times> json) list \<Rightarrow> node \<Rightarrow> output_error list result" where
  "validate_node_output env output node =
     (case no_output_schema_json node of
        None \<Rightarrow> Inr []
      | Some t \<Rightarrow>
          if t = [] then Inr []
          else case xe_loads env t of
                 Inl (ValueError s) \<Rightarrow> Inr [Bad_schema]
               | Inl e \<Rightarrow> Inl e
               | Inr schema \<Rightarrow>
                   (case xe_validator env of
                      Some errors \<Rightarrow> Inr (map Schema_error (errors schema output))
                    | None \<Rightarrow> validate_by_hand schema output))"

section \<open>Executing a node\<close>

definition chosen_model :: "xenv \<Rightarrow> node \<Rightarrow> job \<Rightarrow> string \<times> int" where
  "chosen_model env node job =
     (case xe_select_model env of
        None \<Rightarrow> (xe_default_model env, 1)
      | Some select \<Rightarrow> (case select node job of Inr (m, n) \<Rightarrow> (m, n) | Inl e \<Rightarrow> (xe_default_model env, 1)))"

definition new_policy_context :: "xenv \<Rightarrow> node \<Rightarrow> job \<Rightarrow> policy_context" where
  "new_policy_context env node job =
     \<lparr>pc_workspace_id = (case jo_workspace_id job of None \<Rightarrow> [] | Some w \<Rightarrow> w),
      pc_deployment_mode = xe_deployment_mode env, pc_job_id = jo_id job, pc_node_id = no_id node,
      pc_job_classification = None, pc_tool_call_count = 0, pc_delete_count = 0\<rparr>"

text \<open>The state in which the loop of a node starts.\<close>

definition start_loop :: "xenv \<Rightarrow> node \<Rightarrow> job \<Rightarrow> (string \<times> json) list option \<Rightarrow> xstate \<Rightarrow> xstate" where
  "start_loop env node job input_data s =
     s\<lparr>xs_guard := reset_job_counters (xs_guard s), xs_ctx := new_policy_context env node job,
       xs_messages := [System_message (build_system_prompt env (xs_guard s) node job input_data)],
       xs_tokens_in := 0, xs_tokens_out := 0, xs_tool_calls_made := 0\<rparr>"

definition failed_result :: "string \<Rightarrow> string \<Rightarrow> int \<Rightarrow> node_result" where
  "failed_result err model elapsed =
     \<lparr>nx_success = False, nx_output = [], nx_error = Some err, nx_tokens_in = 0, nx_tokens_out = 0,
      nx_duration_ms = elapsed, nx_tool_calls_made = 0, nx_model_used = model\<rparr>"

definition judge_output :: "xenv \<Rightarrow> node \<Rightarrow> string \<Rightarrow> int \<Rightarrow> agent_result \<Rightarrow> node_result xact" where
  "judge_output env node model start_ms raw =
     bind_act (look (xe_ms env)) (\<lambda>now_ms.
     bind_act (lift_result (validate_node_output env (ar_output raw) node)) (\<lambda>validation_errors.
     seq_act (pause env)
     (ret \<lparr>nx_success = (validation_errors = []), nx_output = ar_output raw,
           nx_error = (if validation_errors = [] then None else Some ''Output schema validation failed''),
           nx_tokens_in = ar_tokens_in raw, nx_tokens_out = ar_tokens_out raw, nx_duration_ms = now_ms - start_ms,
           nx_tool_calls_made = ar_tool_calls_made raw, nx_model_used = model\<rparr>)))"

definition execute_node_inner ::
  "xenv \<Rightarrow> node \<Rightarrow> job \<Rightarrow> (string \<times> json) list option \<Rightarrow> int \<Rightarrow> node_result xact" where
  "execute_node_inner env node job input_data start_ms =
     (let (model, best_of_n) = chosen_model env node job;
          tools = scope_tools (xe_registry env) (no_tools_allowed node)
      in seq_act (pause env)
         (seq_act (changes (start_loop env node job input_data))
         (bind_act
            (except_act
               (bind_act (agent_loop MAX_ITERATIONS env node job tools model best_of_n) (\<lambda>raw. ret (Inr raw)))
               (\<lambda>exc. bind_act (look (xe_ms env)) (\<lambda>now_ms. seq_act (pause env)
                  (ret (Inl (failed_result (xe_error_text env exc) model (now_ms - start_ms)))))))
            (\<lambda>outcome. case outcome of
               Inl result \<Rightarrow> ret result
             | Inr raw \<Rightarrow> judge_output env node model start_ms raw))))"

definition execute_node :: "xenv \<Rightarrow> node \<Rightarrow> job \<Rightarrow> (string \<times> json) list option \<Rightarrow> node_result xact" where
  "execute_node env node job input_data =
     bind_act (look (xe_ms env)) (\<lambda>start_ms.
     try_act (execute_node_inner env node job input_data start_ms)
       (\<lambda>e. if e = CancelledError then
              bind_act (look (xe_ms env)) (\<lambda>now_ms.
                ret (failed_result ''Node timed out'' [] (now_ms - start_ms)))
            else lift_result (Inl e)))"

end
