(* ===== verification/Reviewer.thy ===== *)
theory Reviewer
  imports Executor
begin

text \<open>
  \<^verbatim>\<open>backend/jobs/reviewer.py\<close>: the review gate after the nodes of a job have run. Tier 1 checks nodes and files,
  tier 2 asks Gemini for a critique and reads its answer, tier 3 decides on a flag for a human.

  The outside is the record \<open>renv\<close>: \<^verbatim>\<open>json.loads\<close> and \<^verbatim>\<open>json.dumps\<close>, the disk, Gemini, the reflection service
  and the layout of the feedback. The description of an issue keeps the data its text is built from, and so do the
  lines of the feedback. An \<open>OSError\<close> and a \<open>BadZipFile\<close> are external errors of these names.
\<close>

section \<open>Issues and results\<close>

definition TIER2_PASS_THRESHOLD :: real where
  "TIER2_PASS_THRESHOLD = 7 / 10"

definition TIER2_HUMAN_FLAG_THRESHOLD :: real where
  "TIER2_HUMAN_FLAG_THRESHOLD = 7 / 10"

definition OUTPUT_SUMMARY_MAX_CHARS :: nat where
  "OUTPUT_SUMMARY_MAX_CHARS = 800"

datatype finding =
    Not_completed string string
  | No_output string
  | Invalid_output string py_error
  | No_files_recorded string string
  | Scalar_output string json
  | Fields_missing string "json list"
  | File_missing string string
  | File_unreadable string py_error
  | File_empty string
  | Bad_member string string
  | Not_a_zip string string py_error
  | Zip_unreadable string py_error
  | Invalid_json_file string py_error
  | Json_file_unreadable string py_error
  | Critique string

record review_issue =
  ri_tier :: nat
  ri_severity :: string
  ri_category :: string
  ri_description :: finding
  ri_node_id :: "ident option"
  ri_suggestion :: json

record review_result =
  rv_passed :: bool
  rv_score :: real
  rv_feedback :: string
  rv_issues :: "review_issue list"
  rv_needs_human_review :: bool
  rv_tier1_passed :: bool
  rv_tier2_passed :: bool

datatype feedback_line =
    Verdict bool real
  | Flagged
  | Heading nat string nat
  | Bullet string finding
  | And_more nat
  | All_passed

record node_entry =
  ne_sequence :: nat
  ne_title :: string
  ne_status :: string
  ne_expected :: string
  ne_produced :: string

record critique_prompt =
  cp_task :: string
  cp_nodes :: "node_entry list"

record renv =
  re_loads :: "string \<Rightarrow> json result"
  re_dumps :: "json \<Rightarrow> string"
  re_repr :: "json \<Rightarrow> string"
  re_exists :: "string \<Rightarrow> bool"
  re_stat :: "string \<Rightarrow> nat result"
  re_testzip :: "string \<Rightarrow> string option result"
  re_read_text :: "string \<Rightarrow> string result"
  re_gemini_available :: bool
  re_generate :: "critique_prompt \<Rightarrow> string result"
  re_log_step_failure :: "(ident \<Rightarrow> review_issue \<Rightarrow> py_error option) option"
  re_layout :: "feedback_line list \<Rightarrow> string"

definition tier1_issue :: "string \<Rightarrow> string \<Rightarrow> finding \<Rightarrow> ident option \<Rightarrow> json \<Rightarrow> review_issue" where
  "tier1_issue severity category d nid suggestion =
     \<lparr>ri_tier = 1, ri_severity = severity, ri_category = category, ri_description = d, ri_node_id = nid,
      ri_suggestion = suggestion\<rparr>"

text \<open>\<^verbatim>\<open>except (json.JSONDecodeError, TypeError)\<close>.\<close>

fun decode_error :: "py_error \<Rightarrow> bool" where
  "decode_error (ValueError s) = True"
| "decode_error (TypeError s) = True"
| "decode_error e = False"

definition text_or :: "string option \<Rightarrow> string" where
  "text_or v = (case v of None \<Rightarrow> [] | Some t \<Rightarrow> t)"

section \<open>Tier 1: nodes\<close>

definition node_label :: "node \<Rightarrow> string" where
  "node_label node = (if no_title node \<noteq> [] then no_title node else ''Node '' @ show_nat (no_sequence node))"

definition missing_output_issues :: "node \<Rightarrow> review_issue list" where
  "missing_output_issues node =
     (let t = text_or (no_output_json node)
      in if t = [] \<or> py_strip t \<in> {'''', ''null'', ''{}''}
         then [tier1_issue ''critical'' ''completeness'' (No_output (node_label node)) (Some (no_id node))
                 (JStr ''Ensure the node writes a non-empty output_json.'')]
         else [])"

definition invalid_output_issues :: "renv \<Rightarrow> node \<Rightarrow> review_issue list result" where
  "invalid_output_issues env node =
     (let t = text_or (no_output_json node)
      in if t = [] then Inr []
         else case re_loads env t of
                Inr v \<Rightarrow> Inr []
              | Inl e \<Rightarrow>
                  if decode_error e
                  then Inr [tier1_issue ''critical'' ''format'' (Invalid_output (node_label node) e) (Some (no_id node))
                              (JStr ''Fix the node to produce well-formed JSON output.'')]
                  else Inl e)"

definition FILE_KEYWORDS :: "string list" where
  "FILE_KEYWORDS = [''file'', ''pptx'', ''xlsx'', ''csv'', ''pdf'', ''docx'', ''zip'']"

definition expected_file_issues :: "file_row list \<Rightarrow> node \<Rightarrow> review_issue list" where
  "expected_file_issues files node =
     (let expected = text_or (no_expected_output node)
      in if expected \<noteq> [] \<and> list_ex (\<lambda>kw. contains kw (py_lower expected)) FILE_KEYWORDS \<and>
            \<not> list_ex (\<lambda>f. fr_node_id f = Some (no_id node)) files
         then [tier1_issue ''warning'' ''format'' (No_files_recorded (node_label node) expected) (Some (no_id node))
                 (JStr ''Ensure the node registers produced files in job_files.'')]
         else [])"

definition scalar_output_issues :: "renv \<Rightarrow> node \<Rightarrow> review_issue list result" where
  "scalar_output_issues env node =
     (let t = text_or (no_output_json node)
      in if text_or (no_expected_output node) \<noteq> [] \<and> contains ''json'' (py_lower (text_or (no_expected_output node))) \<and> t \<noteq> []
         then case re_loads env t of
                Inr v \<Rightarrow>
                  (case v of
                     JObj kvs \<Rightarrow> Inr []
                   | JList xs \<Rightarrow> Inr []
                   | _ \<Rightarrow> Inr [tier1_issue ''warning'' ''format'' (Scalar_output (node_label node) v) (Some (no_id node))
                                 (JStr ''Return a JSON object or array, not a bare scalar.'')])
              | Inl e \<Rightarrow> if decode_error e then Inr [] else Inl e
         else Inr [])"

text \<open>\<^verbatim>\<open>', '.join(missing)\<close>, which only joins strings.\<close>

fun joined :: "json list \<Rightarrow> string result" where
  "joined [] = Inr []"
| "joined [JStr s] = Inr s"
| "joined (JStr s # vs) = map_sum id (\<lambda>t. s @ '', '' @ t) (joined vs)"
| "joined (v # vs) = Inl (TypeError ''sequence item: expected str instance'')"

definition validate_against_schema :: "renv \<Rightarrow> string \<Rightarrow> string \<Rightarrow> node \<Rightarrow> review_issue list result" where
  "validate_against_schema env output_json schema_json node =
     (case (re_loads env output_json, re_loads env schema_json) of
        (Inl e, _) \<Rightarrow> if decode_error e then Inr [] else Inl e
      | (_, Inl e) \<Rightarrow> if decode_error e then Inr [] else Inl e
      | (Inr (JObj output), Inr (JObj schema)) \<Rightarrow>
          (let required_fields = get_or schema ''required'' (JList [])
           in if \<not> truthy required_fields then Inr []
              else case json_items required_fields of
                     Inl e \<Rightarrow> Inl e
                   | Inr names \<Rightarrow>
                       (case missing_keys output names of
                          Inl e \<Rightarrow> Inl e
                        | Inr missing \<Rightarrow>
                            if missing = [] then Inr []
                            else map_sum id (\<lambda>listed.
                                   [tier1_issue ''warning'' ''schema'' (Fields_missing (node_label node) missing)
                                      (Some (no_id node)) (JStr (''Ensure the node produces these fields: '' @ listed))])
                                   (joined missing)))
      | _ \<Rightarrow> Inr [])"

definition schema_issues :: "renv \<Rightarrow> node \<Rightarrow> review_issue list result" where
  "schema_issues env node =
     (if text_or (no_output_schema_json node) \<noteq> [] \<and> text_or (no_output_json node) \<noteq> []
      then validate_against_schema env (text_or (no_output_json node)) (text_or (no_output_schema_json node)) node
      else Inr [])"

definition check_node :: "renv \<Rightarrow> file_row list \<Rightarrow> node \<Rightarrow> review_issue list result" where
  "check_node env files node =
     (if no_status node \<notin> {node_status_value NODE_COMPLETED, node_status_value NODE_SKIPPED}
      then Inr [tier1_issue (if no_status node = node_status_value NODE_FAILED then ''critical'' else ''warning'')
                  ''completeness'' (Not_completed (node_label node) (no_status node)) (Some (no_id node))
                  (JStr ''Re-run this node or check its error log.'')]
      else if no_status node = node_status_value NODE_SKIPPED then Inr []
      else map_sum id concat (sequence_results
             [Inr (missing_output_issues node), invalid_output_issues env node, Inr (expected_file_issues files node),
              scalar_output_issues env node, schema_issues env node]))"

section \<open>Tier 1: files\<close>

definition file_ext :: "file_row \<Rightarrow> string" where
  "file_ext jf = py_lower (suffix_of (basename (fr_file_path jf)))"

definition validate_zipfile :: "renv \<Rightarrow> file_row \<Rightarrow> review_issue list result" where
  "validate_zipfile env jf =
     (let kind = dropWhile (\<lambda>c. c = CHR ''.'') (file_ext jf)
      in case re_testzip env (fr_file_path jf) of
           Inr None \<Rightarrow> Inr []
         | Inr (Some bad) \<Rightarrow>
             Inr [tier1_issue ''critical'' ''format'' (Bad_member (fr_filename jf) bad) (fr_node_id jf)
                    (JStr (''Re-generate the '' @ kind @ '' file -- it may have been truncated or corrupted.''))]
         | Inl e \<Rightarrow>
             if e = ExternalError ''BadZipFile'' then
               Inr [tier1_issue ''critical'' ''format'' (Not_a_zip (fr_filename jf) kind e) (fr_node_id jf)
                      (JStr (''Re-generate the '' @ kind @ '' file from scratch.''))]
             else if e = ExternalError ''OSError'' then
               Inr [tier1_issue ''warning'' ''format'' (Zip_unreadable (fr_filename jf) e) (fr_node_id jf) JNull]
             else Inl e)"

definition validate_json_file :: "renv \<Rightarrow> file_row \<Rightarrow> review_issue list result" where
  "validate_json_file env jf =
     (case (case re_read_text env (fr_file_path jf) of Inl e \<Rightarrow> Inl e | Inr t \<Rightarrow> re_loads env t) of
        Inr v \<Rightarrow> Inr []
      | Inl e \<Rightarrow>
          if decode_error e then
            Inr [tier1_issue ''critical'' ''format'' (Invalid_json_file (fr_filename jf) e) (fr_node_id jf)
                   (JStr ''Ensure the node writes valid JSON to this file.'')]
          else if e = ExternalError ''OSError'' then
            Inr [tier1_issue ''warning'' ''format'' (Json_file_unreadable (fr_filename jf) e) (fr_node_id jf) JNull]
          else Inl e)"

definition check_output_file :: "renv \<Rightarrow> file_row \<Rightarrow> review_issue list result" where
  "check_output_file env jf =
     (if \<not> re_exists env (fr_file_path jf)
      then Inr [tier1_issue ''critical'' ''format'' (File_missing (fr_filename jf) (fr_file_path jf)) (fr_node_id jf)
                  (JStr ''Verify the node writes the file before completing.'')]
      else case re_stat env (fr_file_path jf) of
             Inl e \<Rightarrow>
               if e = ExternalError ''OSError''
               then Inr [tier1_issue ''warning'' ''format'' (File_unreadable (fr_filename jf) e) (fr_node_id jf) JNull]
               else Inl e
           | Inr bytes \<Rightarrow>
               map_sum id concat (sequence_results
                 [Inr (if bytes = 0
                       then [tier1_issue ''critical'' ''format'' (File_empty (fr_filename jf)) (fr_node_id jf)
                               (JStr ''Ensure the node writes actual content to the file.'')]
                       else []),
                  if file_ext jf \<in> {''.pptx'', ''.xlsx'', ''.docx'', ''.zip''} then validate_zipfile env jf else Inr [],
                  if file_ext jf = ''.json'' then validate_json_file env jf else Inr []]))"

definition tier1_format_checks :: "renv \<Rightarrow> node list \<Rightarrow> file_row list \<Rightarrow> review_issue list result" where
  "tier1_format_checks env nodes output_files =
     map_sum id concat (sequence_results
       (map (check_node env output_files) nodes @ map (check_output_file env) output_files))"

section \<open>Tier 2\<close>

definition node_output :: "renv \<Rightarrow> node \<Rightarrow> json result" where
  "node_output env node =
     (let t = text_or (no_output_json node)
      in if t = [] then Inr JNull
         else case re_loads env t of Inr v \<Rightarrow> Inr v | Inl e \<Rightarrow> if decode_error e then Inr (JStr t) else Inl e)"

definition node_outputs :: "renv \<Rightarrow> node list \<Rightarrow> (ident \<times> json) list result" where
  "node_outputs env nodes =
     sequence_results (map (\<lambda>node. map_sum id (\<lambda>v. (no_id node, v)) (node_output env node)) nodes)"

definition shortened :: "string \<Rightarrow> string" where
  "shortened t = (if length t > OUTPUT_SUMMARY_MAX_CHARS then take OUTPUT_SUMMARY_MAX_CHARS t @ ''...'' else t)"

fun output_summary :: "renv \<Rightarrow> json \<Rightarrow> string" where
  "output_summary env JNull = ''(no output)''"
| "output_summary env (JObj kvs) = shortened (re_dumps env (JObj kvs))"
| "output_summary env (JList xs) = shortened (re_dumps env (JList xs))"
| "output_summary env v = shortened (py_str (re_repr env) v)"

definition node_entry_of :: "renv \<Rightarrow> (ident \<times> json) list \<Rightarrow> node \<Rightarrow> node_entry" where
  "node_entry_of env outputs node =
     \<lparr>ne_sequence = no_sequence node, ne_title = (if no_title node \<noteq> [] then no_title node else ''(untitled)''),
      ne_status = no_status node,
      ne_expected = (if text_or (no_expected_output node) \<noteq> [] then text_or (no_expected_output node) else ''(not specified)''),
      ne_produced = output_summary env (get_or outputs (no_id node) JNull)\<rparr>"

definition build_tier2_prompt :: "renv \<Rightarrow> job \<Rightarrow> node list \<Rightarrow> (ident \<times> json) list \<Rightarrow> critique_prompt" where
  "build_tier2_prompt env job nodes outputs =
     \<lparr>cp_task = (if text_or (jo_description job) \<noteq> [] then text_or (jo_description job) else jo_title job),
      cp_nodes = map (node_entry_of env outputs) nodes\<rparr>"

text \<open>\<^verbatim>\<open>max(0.0, min(1.0, score))\<close>; a comparison with a NaN is false.\<close>

fun clipped :: "py_float \<Rightarrow> real" where
  "clipped (Finite x) = max 0 (min 1 x)"
| "clipped Infinite = 1"
| "clipped Minus_infinite = 0"
| "clipped Not_a_number = 1"

text \<open>The score in a response that does not parse.\<close>

definition salvaged_text :: "string \<Rightarrow> string option" where
  "salvaged_text t =
     search_group (seqs [lit (CHR 0x22 # ''score'' @ [CHR 0x22]), any_spaces, lit '':'', any_spaces])
       (Greedy 1 None (\<lambda>c. digit c \<or> c = CHR ''.'')) Empty t"

definition salvaged_score :: "string \<Rightarrow> real result" where
  "salvaged_score t =
     (case salvaged_text t of
        None \<Rightarrow> Inr 1
      | Some g \<Rightarrow> (case py_float_of_string g of
                     None \<Rightarrow> Inl (ValueError ''could not convert string to float'')
                   | Some x \<Rightarrow> Inr (clipped x)))"

definition cleaned_response :: "string \<Rightarrow> string" where
  "cleaned_response raw =
     py_strip (rev (dropWhile (\<lambda>c. c = CHR 0x60) (rev (py_strip (strip_markdown_fences raw)))))"

text \<open>\<^verbatim>\<open>v if v in {...} else dflt\<close>.\<close>

fun one_of_texts :: "string list \<Rightarrow> string \<Rightarrow> json \<Rightarrow> string result" where
  "one_of_texts ts dflt (JStr s) = Inr (if s \<in> set ts then s else dflt)"
| "one_of_texts ts dflt (JList xs) = Inl (TypeError ''unhashable type'')"
| "one_of_texts ts dflt (JObj kvs) = Inl (TypeError ''unhashable type'')"
| "one_of_texts ts dflt v = Inr dflt"

definition node_of_sequence :: "node list \<Rightarrow> json \<Rightarrow> ident option result" where
  "node_of_sequence nodes seq =
     (if seq = JNull then Inr None
      else map_sum id (map_of (rev (map (\<lambda>n. (int (no_sequence n), no_id n)) nodes))) (json_to_int seq))"

definition critique_issue :: "renv \<Rightarrow> node list \<Rightarrow> json \<Rightarrow> review_issue option result" where
  "critique_issue env nodes raw_issue =
     (case raw_issue of
        JObj kvs \<Rightarrow>
          (case node_of_sequence nodes (get_or kvs ''node_sequence'' JNull) of
             Inl e \<Rightarrow> Inl e
           | Inr nid \<Rightarrow>
               (case one_of_texts [''critical'', ''warning'', ''info''] ''info'' (get_or kvs ''severity'' (JStr ''info'')) of
                  Inl e \<Rightarrow> Inl e
                | Inr severity \<Rightarrow>
                    (case one_of_texts [''completeness'', ''accuracy'', ''formatting'', ''adherence''] ''completeness''
                            (get_or kvs ''category'' (JStr ''completeness'')) of
                       Inl e \<Rightarrow> Inl e
                     | Inr category \<Rightarrow>
                         (let description = py_strip (py_str (re_repr env) (get_or kvs ''description'' (JStr [])));
                              v = get_or kvs ''suggestion'' JNull;
                              t = py_strip (py_str (re_repr env) v);
                              suggestion = (if truthy v then if t = [] then JNull else JStr t else v)
                          in Inr (if description = [] then None
                                  else Some \<lparr>ri_tier = 2, ri_severity = severity, ri_category = category,
                                             ri_description = Critique description, ri_node_id = nid,
                                             ri_suggestion = suggestion\<rparr>)))))
      | _ \<Rightarrow> Inr None)"

definition parse_tier2_response :: "renv \<Rightarrow> string \<Rightarrow> node list \<Rightarrow> (review_issue list \<times> real) result" where
  "parse_tier2_response env raw nodes =
     (let cleaned = cleaned_response raw
      in case re_loads env cleaned of
           Inl e \<Rightarrow> if decode_error e then map_sum id (\<lambda>score. ([], score)) (salvaged_score cleaned) else Inl e
         | Inr (JObj data) \<Rightarrow>
             (case json_to_float (get_or data ''score'' (JInt 1)) of
                Inl e \<Rightarrow> Inl e
              | Inr x \<Rightarrow>
                  (case json_items (get_or data ''issues'' (JList [])) of
                     Inl e \<Rightarrow> Inl e
                   | Inr items \<Rightarrow>
                       map_sum id (\<lambda>issues. (List.map_filter id issues, clipped x))
                         (sequence_results (map (critique_issue env nodes) items))))
         | Inr v \<Rightarrow> Inl (AttributeError ''get''))"

definition tier2_llm_critique ::
  "renv \<Rightarrow> job \<Rightarrow> node list \<Rightarrow> (ident \<times> json) list \<Rightarrow> (review_issue list \<times> real) result" where
  "tier2_llm_critique env job nodes outputs =
     (if \<not> re_gemini_available env then Inr ([], 1)
      else case re_generate env (build_tier2_prompt env job nodes outputs) of
             Inl e \<Rightarrow> Inr ([], 1)
           | Inr raw \<Rightarrow> parse_tier2_response env raw nodes)"

section \<open>Tier 3, feedback, verdict\<close>

definition criticals :: "review_issue list \<Rightarrow> review_issue list" where
  "criticals issues = filter (\<lambda>i. ri_severity i = ''critical'') issues"

definition warnings :: "review_issue list \<Rightarrow> review_issue list" where
  "warnings issues = filter (\<lambda>i. ri_severity i = ''warning'') issues"

definition tier3_human_flag :: "job \<Rightarrow> review_issue list \<Rightarrow> real \<Rightarrow> bool" where
  "tier3_human_flag job tier1_issues tier2_score \<longleftrightarrow>
     criticals tier1_issues \<noteq> [] \<or> tier2_score < TIER2_HUMAN_FLAG_THRESHOLD \<or> 8 \<le> jo_priority job \<or>
     jo_max_reviews job - 1 \<le> jo_review_count job"

definition bullets :: "nat \<Rightarrow> string \<Rightarrow> nat \<Rightarrow> review_issue list \<Rightarrow> feedback_line list" where
  "bullets tier severity cap issues =
     (if issues = [] then []
      else Heading tier severity (length issues) #
           map (\<lambda>i. Bullet (ri_category i) (ri_description i)) (take cap issues))"

definition build_feedback ::
  "bool \<Rightarrow> real \<Rightarrow> review_issue list \<Rightarrow> review_issue list \<Rightarrow> bool \<Rightarrow> feedback_line list" where
  "build_feedback passed score tier1_issues tier2_issues needs_human_review =
     [Verdict passed score] @ (if needs_human_review then [Flagged] else []) @
     bullets 1 ''critical'' 5 (criticals tier1_issues) @
     (if length (criticals tier1_issues) > 5 then [And_more (length (criticals tier1_issues) - 5)] else []) @
     bullets 1 ''warning'' 3 (warnings tier1_issues) @
     bullets 2 ''critical'' 5 (criticals tier2_issues) @
     bullets 2 ''warning'' 3 (warnings tier2_issues) @
     (if passed \<and> tier1_issues = [] \<and> tier2_issues = [] then [All_passed] else [])"

fun log_issues :: "(ident \<Rightarrow> review_issue \<Rightarrow> py_error option) \<Rightarrow> ident \<Rightarrow> review_issue list \<Rightarrow> unit result" where
  "log_issues report job_id [] = Inr ()"
| "log_issues report job_id (i # rest) =
     (case report job_id i of None \<Rightarrow> log_issues report job_id rest | Some e \<Rightarrow> Inl e)"

definition tier1_score :: "review_issue list \<Rightarrow> real" where
  "tier1_score tier1_criticals =
     (if tier1_criticals = [] then 1 else max 0 (1 - 1 / 4 * real (length tier1_criticals)))"

definition verdict ::
  "renv \<Rightarrow> job \<Rightarrow> review_issue list \<Rightarrow> review_issue list \<Rightarrow> real \<Rightarrow> review_result" where
  "verdict env job tier1_issues tier2_issues tier2_score =
     (let tier1_passed = (criticals tier1_issues = []);
          tier2_passed = (TIER2_PASS_THRESHOLD \<le> tier2_score);
          needs_human_review = tier3_human_flag job tier1_issues tier2_score;
          score = round4 (3 / 10 * tier1_score (criticals tier1_issues) + 7 / 10 * tier2_score)
      in \<lparr>rv_passed = (tier1_passed \<and> tier2_passed), rv_score = score,
          rv_feedback = re_layout env
            (build_feedback (tier1_passed \<and> tier2_passed) score tier1_issues tier2_issues needs_human_review),
          rv_issues = tier1_issues @ tier2_issues, rv_needs_human_review = needs_human_review,
          rv_tier1_passed = tier1_passed, rv_tier2_passed = tier2_passed\<rparr>)"

definition review_job :: "renv \<Rightarrow> job \<Rightarrow> node list \<Rightarrow> file_row list \<Rightarrow> review_result result" where
  "review_job env job nodes output_files =
     (case tier1_format_checks env nodes output_files of
        Inl e \<Rightarrow> Inl e
      | Inr tier1_issues \<Rightarrow>
          (case node_outputs env nodes of
             Inl e \<Rightarrow> Inl e
           | Inr outputs \<Rightarrow>
               (case tier2_llm_critique env job nodes outputs of
                  Inl e \<Rightarrow> Inl e
                | Inr (tier2_issues, tier2_score) \<Rightarrow>
                    map_sum id (\<lambda>_. verdict env job tier1_issues tier2_issues tier2_score)
                      (case re_log_step_failure env of
                         None \<Rightarrow> Inr ()
                       | Some report \<Rightarrow> log_issues report (jo_id job) (tier1_issues @ tier2_issues)))))"

section \<open>What tier 1 finds\<close>

text \<open>What a node and a file have to satisfy so that tier 1 has no critical issue with them.\<close>

definition node_acceptable :: "renv \<Rightarrow> node \<Rightarrow> bool" where
  "node_acceptable env node \<longleftrightarrow>
     no_status node \<noteq> ''failed'' \<and>
     (no_status node = ''completed'' \<longrightarrow>
        (\<exists>t v. no_output_json node = Some t \<and> py_strip t \<notin> {'''', ''null'', ''{}''} \<and> re_loads env t = Inr v))"

definition file_acceptable :: "renv \<Rightarrow> file_row \<Rightarrow> bool" where
  "file_acceptable env jf \<longleftrightarrow>
     re_exists env (fr_file_path jf) \<and>
     (\<forall>bytes. re_stat env (fr_file_path jf) = Inr bytes \<longrightarrow>
        0 < bytes \<and>
        (file_ext jf \<in> {''.pptx'', ''.xlsx'', ''.docx'', ''.zip''} \<longrightarrow>
           re_testzip env (fr_file_path jf) \<in> {Inr None, Inl (ExternalError ''OSError'')}) \<and>
        (file_ext jf = ''.json'' \<longrightarrow>
           (\<forall>e. re_read_text env (fr_file_path jf) = Inl e \<or>
              (\<exists>t. re_read_text env (fr_file_path jf) = Inr t \<and> re_loads env t = Inl e) \<longrightarrow> \<not> decode_error e)))"

lemma criticals_append [simp]: "criticals (xs @ ys) = criticals xs @ criticals ys"
  by (simp add: criticals_def)

lemma criticals_simps [simp]:
  "criticals [] = []"
  "criticals (tier1_issue sev c d n u # xs) = (if sev = ''critical'' then [tier1_issue sev c d n u] else []) @ criticals xs"
  by (simp_all add: criticals_def tier1_issue_def)

lemma criticals_concat: "criticals (concat xss) = [] \<longleftrightarrow> (\<forall>xs \<in> set xss. criticals xs = [])"
  by (induction xss) auto

text \<open>A list of checks, each with its own issues.\<close>

lemma checks_clean:
  "map_sum id concat (sequence_results rs) = Inr issues \<Longrightarrow>
   criticals issues = [] \<longleftrightarrow> (\<forall>r \<in> set rs. \<exists>xs. r = Inr xs \<and> criticals xs = [])"
  by (auto simp: map_sum_Inr_iff criticals_concat dest!: sequence_results_InrD)

lemma checks_Inr: "map_sum id concat (sequence_results rs) = Inr issues \<Longrightarrow> r \<in> set rs \<Longrightarrow> \<exists>xs. r = Inr xs"
  by (auto simp: map_sum_Inr_iff dest!: sequence_results_InrD)

lemma only_warnings:
  "criticals (expected_file_issues files node) = []"
  "scalar_output_issues env node = Inr xs \<Longrightarrow> criticals xs = []"
  "schema_issues env node = Inr xs \<Longrightarrow> criticals xs = []"
  by (auto simp: expected_file_issues_def scalar_output_issues_def schema_issues_def validate_against_schema_def Let_def
      map_sum_Inr_iff split: if_splits sum.splits json.splits)

lemma missing_output_criticals:
  "criticals (missing_output_issues node) = [] \<longleftrightarrow>
     text_or (no_output_json node) \<noteq> [] \<and> py_strip (text_or (no_output_json node)) \<notin> {'''', ''null'', ''{}''}"
  by (simp add: missing_output_issues_def Let_def)

lemma invalid_output_criticals:
  "invalid_output_issues env node = Inr xs \<Longrightarrow> text_or (no_output_json node) \<noteq> [] \<Longrightarrow>
   criticals xs = [] \<longleftrightarrow> (\<exists>v. re_loads env (text_or (no_output_json node)) = Inr v)"
  by (auto simp: invalid_output_issues_def Let_def split: sum.splits if_splits)

lemma strip_Nil: "py_strip [] = []"
  by (simp add: py_strip_def)

lemma reviewed_node_clean:
  assumes "check_node env files node = Inr issues"
  shows "criticals issues = [] \<longleftrightarrow> node_acceptable env node"
proof (cases "no_status node = ''completed''")
  case True
  let ?rs = "[Inr (missing_output_issues node), invalid_output_issues env node, Inr (expected_file_issues files node),
      scalar_output_issues env node, schema_issues env node]"
  from True assms have run: "map_sum id concat (sequence_results ?rs) = Inr issues" by (simp add: check_node_def)
  obtain xs ys zs where parts: "invalid_output_issues env node = Inr xs" "scalar_output_issues env node = Inr ys"
      "schema_issues env node = Inr zs"
    using checks_Inr [OF run] by fastforce
  have "criticals issues = [] \<longleftrightarrow> criticals (missing_output_issues node) = [] \<and> criticals xs = []"
    unfolding checks_clean [OF run] using parts only_warnings(1) [of files node] only_warnings(2,3) [of env node]
    by auto
  also have "\<dots> \<longleftrightarrow> node_acceptable env node"
    using invalid_output_criticals [OF parts(1)] True
    by (cases "no_output_json node")
      (use strip_Nil in \<open>auto simp: missing_output_criticals node_acceptable_def text_or_def\<close>)
  finally show ?thesis .
next
  case False
  with assms show ?thesis by (auto simp: check_node_def node_acceptable_def split: if_splits)
qed

lemma check_file_clean:
  assumes "check_output_file env jf = Inr issues"
  shows "criticals issues = [] \<longleftrightarrow> file_acceptable env jf"
proof (cases "re_exists env (fr_file_path jf) \<and> is_ok (re_stat env (fr_file_path jf))")
  case False
  with assms show ?thesis
    by (cases "re_stat env (fr_file_path jf)") (auto simp: check_output_file_def file_acceptable_def split: if_splits)
next
  case True
  then obtain bytes where bytes: "re_exists env (fr_file_path jf)" "re_stat env (fr_file_path jf) = Inr bytes"
    by (cases "re_stat env (fr_file_path jf)") auto
  let ?empty = "if bytes = 0 then [tier1_issue ''critical'' ''format'' (File_empty (fr_filename jf)) (fr_node_id jf)
      (JStr ''Ensure the node writes actual content to the file.'')] else []"
  let ?zip = "if file_ext jf \<in> {''.pptx'', ''.xlsx'', ''.docx'', ''.zip''} then validate_zipfile env jf else Inr []"
  let ?json = "if file_ext jf = ''.json'' then validate_json_file env jf else Inr []"
  from assms bytes have run: "map_sum id concat (sequence_results [Inr ?empty, ?zip, ?json]) = Inr issues"
    by (simp add: check_output_file_def)
  obtain xs ys where parts: "?zip = Inr xs" "?json = Inr ys" using checks_Inr [OF run] by fastforce
  have z: "criticals xs = [] \<longleftrightarrow> (file_ext jf \<in> {''.pptx'', ''.xlsx'', ''.docx'', ''.zip''} \<longrightarrow>
      re_testzip env (fr_file_path jf) \<in> {Inr None, Inl (ExternalError ''OSError'')})"
    using parts(1) by (auto simp: validate_zipfile_def Let_def split: if_splits sum.splits option.splits)
  have j: "criticals ys = [] \<longleftrightarrow> (file_ext jf = ''.json'' \<longrightarrow>
      (\<forall>e. re_read_text env (fr_file_path jf) = Inl e \<or>
              (\<exists>t. re_read_text env (fr_file_path jf) = Inr t \<and> re_loads env t = Inl e) \<longrightarrow> \<not> decode_error e))"
    using parts(2) by (auto simp: validate_json_file_def Let_def split: if_splits sum.splits)
  show ?thesis unfolding checks_clean [OF run] using parts bytes z j by (simp add: file_acceptable_def)
qed

lemma tier1_clean:
  assumes "tier1_format_checks env nodes files = Inr issues"
  shows "criticals issues = [] \<longleftrightarrow> list_all (node_acceptable env) nodes \<and> list_all (file_acceptable env) files"
proof -
  note run = assms [unfolded tier1_format_checks_def]
  have "\<exists>xs. check_node env files n = Inr xs" if "n \<in> set nodes" for n using checks_Inr [OF run] that by auto
  moreover have "\<exists>xs. check_output_file env f = Inr xs" if "f \<in> set files" for f using checks_Inr [OF run] that by auto
  ultimately show ?thesis
    unfolding checks_clean [OF run] list_all_iff
    using reviewed_node_clean [of env files] check_file_clean [of env] by (auto; blast)
qed

section \<open>Scores and feedback\<close>

lemma clipped_between: "0 \<le> clipped x \<and> clipped x \<le> 1"
  by (cases x) auto

lemma tier2_score_between:
  assumes "tier2_llm_critique env job nodes outputs = Inr (issues, score)"
  shows "0 \<le> score \<and> score \<le> 1"
proof -
  have salvaged: "0 \<le> x \<and> x \<le> 1" if "salvaged_score t = Inr x" for t x
    using that clipped_between by (auto simp: salvaged_score_def split: option.splits)
  have "0 \<le> score \<and> score \<le> 1" if "parse_tier2_response env raw nodes = Inr (issues, score)" for raw
    using that clipped_between salvaged
    by (auto simp: parse_tier2_response_def Let_def map_sum_Inr_iff split: sum.splits json.splits if_splits)
  with assms show ?thesis by (auto simp: tier2_llm_critique_def split: if_splits sum.splits)
qed

lemma tier1_score_between: "0 \<le> tier1_score cs \<and> tier1_score cs \<le> 1"
  by (auto simp: tier1_score_def)

lemma build_feedback_length: "length (build_feedback passed score i1 i2 human) \<le> 23"
proof (cases "i1 = [] \<and> i2 = []")
  case True
  then show ?thesis by (simp add: build_feedback_def bullets_def criticals_def warnings_def)
next
  case False
  then show ?thesis by (auto simp: build_feedback_def bullets_def)
qed

text \<open>What a review that returns is made of.\<close>

lemma review_InrE:
  assumes "review_job env job nodes files = Inr r"
  obtains issues1 outputs issues2 score2 where "tier1_format_checks env nodes files = Inr issues1"
    "node_outputs env nodes = Inr outputs" "tier2_llm_critique env job nodes outputs = Inr (issues2, score2)"
    "r = verdict env job issues1 issues2 score2"
  using assms by (auto simp: review_job_def map_sum_Inr_iff split: sum.splits prod.splits)

section \<open>Properties\<close>

text \<open>C20. The review gate: tier 1 passes exactly when no node failed, every completed node has an output that is not empty and
  parses, and every output file is there, has content and, as far as it can be read, the format of its name; a job
  passes exactly when tier 1 does and the score of the critique is at least 0.7.\<close>

theorem review_gate:
  assumes "review_job env job nodes files = Inr r"
  shows "(rv_tier1_passed r \<longleftrightarrow> list_all (node_acceptable env) nodes \<and> list_all (file_acceptable env) files) \<and>
    (\<exists>outputs issues score. node_outputs env nodes = Inr outputs \<and>
       tier2_llm_critique env job nodes outputs = Inr (issues, score) \<and>
       (rv_passed r \<longleftrightarrow> rv_tier1_passed r \<and> 7 / 10 \<le> score))"
proof -
  from assms obtain issues1 outputs issues2 score2 where
    "tier1_format_checks env nodes files = Inr issues1" "node_outputs env nodes = Inr outputs"
    "tier2_llm_critique env job nodes outputs = Inr (issues2, score2)"
    "r = verdict env job issues1 issues2 score2" by (rule review_InrE)
  with tier1_clean [of env nodes files issues1] show ?thesis
    by (auto simp: verdict_def Let_def TIER2_PASS_THRESHOLD_def)
qed


definition sum_reviewer :: renv where
  "sum_reviewer =
     \<lparr>re_loads = (\<lambda>t. if t = ''7'' then Inr (JInt 7)
        else if t = ''R'' then Inr (JObj [(''score'', JReal (9 / 10)),
           (''issues'', JList [JObj [(''node_sequence'', JInt 1), (''description'', JStr ''ok '')]])])
        else Inl (ValueError t)),
      re_dumps = (\<lambda>v. []), re_repr = (\<lambda>v. []), re_exists = (\<lambda>p. True), re_stat = (\<lambda>p. Inr 10),
      re_testzip = (\<lambda>p. Inr None), re_read_text = (\<lambda>p. Inr ''7''), re_gemini_available = True,
      re_generate = (\<lambda>p. Inr ''R''), re_log_step_failure = None, re_layout = (\<lambda>ls. [])\<rparr>"

definition sum_node :: "string \<Rightarrow> node" where
  "sum_node output =
     \<lparr>no_id = ''n'', no_job_id = ''j'', no_sequence = 1, no_title = ''T'', no_instructions = None,
      no_tools_allowed = [], no_expected_output = None, no_status = ''completed'', no_input_json = None,
      no_output_json = Some output, no_error = None, no_auto_generated = False, no_input_schema_json = None,
      no_output_schema_json = None, no_side_effects_json = None, no_retry_policy = default_retry_policy,
      no_timeout_sec = 60, no_rollback_strategy = None, no_acceptance_tests_json = None, no_depends_on = [],
      no_created_at = 0, no_updated_at = 0\<rparr>"

definition sum_job :: job where
  "sum_job =
     \<lparr>jo_id = ''j'', jo_workspace_id = Some ''w'', jo_title = ''T'', jo_description = None, jo_source = ''web'',
      jo_source_ref = None, jo_status = ''reviewing'', jo_priority = 5, jo_requester = None, jo_mode = ''quick'',
      jo_template_id = None, jo_result_summary = None, jo_review_count = 0, jo_max_reviews = 2, jo_error = None,
      jo_cost_cents = 0, jo_created_at = 0, jo_updated_at = None, jo_parent_job_id = None, jo_tree_root_id = None\<rparr>"

definition sum_file :: file_row where
  "sum_file = \<lparr>fr_id = ''f'', fr_job_id = ''j'', fr_node_id = Some ''n'', fr_filename = ''a.json'',
     fr_file_path = ''/d/a.json'', fr_file_type = ''output'', fr_mime_type = None, fr_size_bytes = None\<rparr>"

lemma sum_review: "\<exists>r. review_job sum_reviewer sum_job [sum_node ''7''] [sum_file] = Inr r \<and> rv_passed r \<and> rv_score r = 93 / 100"
proof -
  have "case review_job sum_reviewer sum_job [sum_node ''7''] [sum_file] of
      Inl e \<Rightarrow> False | Inr r \<Rightarrow> rv_passed r \<and> rv_score r = 93 / 100" by code_simp
  then show ?thesis by (auto split: sum.splits)
qed

theorem review_gate_witness: "node_acceptable sum_reviewer (sum_node ''7'') \<and> file_acceptable sum_reviewer sum_file"
proof -
  obtain r where "review_job sum_reviewer sum_job [sum_node ''7''] [sum_file] = Inr r" "rv_passed r"
    using sum_review by blast
  with review_gate [OF this(1)] show ?thesis by auto
qed


text \<open>A response that parses but is no object makes the review raise, and so does a number with two points in one that
  does not parse: the docstring promises a full score for both.\<close>

lemma odd_critiques_raise:
  "re_loads env (cleaned_response raw) = Inr (JList xs) \<Longrightarrow>
   parse_tier2_response env raw nodes = Inl (AttributeError ''get'')"
  "salvaged_score (CHR 0x22 # ''score'' @ [CHR 0x22] @ '': 0.8.'') = Inl (ValueError ''could not convert string to float'')"
  by (simp add: parse_tier2_response_def) code_simp

text \<open>A node that never ran is only a warning: a job with no completed node passes when Gemini is not available.\<close>

lemma unstarted_job_passes:
  "\<exists>r. review_job (sum_reviewer\<lparr>re_gemini_available := False\<rparr>) sum_job [(sum_node '''')\<lparr>no_status := ''pending''\<rparr>] [] = Inr r \<and>
     rv_passed r \<and> rv_score r = 1"
proof -
  have "case review_job (sum_reviewer\<lparr>re_gemini_available := False\<rparr>) sum_job
      [(sum_node '''')\<lparr>no_status := ''pending''\<rparr>] [] of Inl e \<Rightarrow> False | Inr r \<Rightarrow> rv_passed r \<and> rv_score r = 1" by code_simp
  then show ?thesis by (auto split: sum.splits)
qed

end
