(* ===== verification/Worker.thy ===== *)
theory Worker
  imports Planner Plan_Execution Reviewer
begin

text \<open>
  \<^verbatim>\<open>backend/jobs/worker.py\<close>: the background loop that claims a pending job, plans it, executes its
  nodes, waits for delegated children, reviews the output and plans again, with a circuit breaker.

  A coroutine is an action of \<open>Coroutine\<close> on a world that holds the database, the worker, the events handed
  to the activity callback, and a tick that counts the readings of what is outside. The outside is the record \<open>env\<close>:
  clocks and fresh ids, the planner, the executor and the reviewer as what they answer at a tick, and
  what other tasks do to the database and to \<^verbatim>\<open>_running\<close> while the worker awaits. Audit details that
  hold formatted values are built by \<open>en_format\<close> from a name of the text and its data.
\<close>

section \<open>Constants\<close>

definition POLL_INTERVAL_SEC :: real where
  "POLL_INTERVAL_SEC = 2"

definition CIRCUIT_BREAKER_THRESHOLD :: nat where
  "CIRCUIT_BREAKER_THRESHOLD = 3"

definition CIRCUIT_OPEN_PAUSE_SEC :: real where
  "CIRCUIT_OPEN_PAUSE_SEC = 300"

definition ABSOLUTE_MAX_REVIEWS :: int where
  "ABSOLUTE_MAX_REVIEWS = 5"

definition MAX_JOB_TIMEOUT_SEC :: real where
  "MAX_JOB_TIMEOUT_SEC = 1800"

section \<open>World and environment\<close>

record worker =
  wk_running :: bool
  wk_current_job_id :: "ident option"
  wk_consecutive_failures :: nat
  wk_circuit_open_until :: real

definition new_worker :: worker where
  "new_worker = \<lparr>wk_running = False, wk_current_job_id = None, wk_consecutive_failures = 0,
     wk_circuit_open_until = 0\<rparr>"

record wstate =
  ws_db :: db
  ws_worker :: worker
  ws_events :: "(string \<times> ident option) list"
  ws_tick :: nat

text \<open>What comes of a node.\<close>

type_synonym dict = "(string \<times> json) list"

datatype node_outcome = Node_timeout | Node_raises string | Node_returns node_result

record env =
  en_now :: "nat \<Rightarrow> timestamp"
  en_monotonic :: "nat \<Rightarrow> real"
  en_uuid :: "nat \<Rightarrow> ident"
  en_plan :: "nat \<Rightarrow> db \<Rightarrow> job \<Rightarrow> file_row list \<Rightarrow> node_def list result"
  en_execute :: "nat \<Rightarrow> node \<Rightarrow> job \<Rightarrow> dict option \<Rightarrow> node_outcome"
  en_review :: "nat \<Rightarrow> job \<Rightarrow> node list \<Rightarrow> file_row list \<Rightarrow> review_result result"
  en_reflect :: "nat \<Rightarrow> py_error option"
  en_other_tasks :: "nat \<Rightarrow> db \<Rightarrow> db"
  en_stop :: "nat \<Rightarrow> bool"
  en_insert_job :: "job_row \<Rightarrow> db \<Rightarrow> db result"
  en_loads :: "string \<Rightarrow> dict result"
  en_dumps :: "dict \<Rightarrow> string"
  en_format :: "string \<Rightarrow> json list \<Rightarrow> string"
  en_error_text :: "py_error \<Rightarrow> string"
  en_bind_text :: "json \<Rightarrow> string result"
  en_bind_int :: "json \<Rightarrow> int result"
  en_recursion_limit :: nat

section \<open>Actions\<close>

type_synonym 'a act = "(wstate, 'a) coroutine"

definition change_worker :: "(worker \<Rightarrow> worker) \<Rightarrow> unit act" where
  "change_worker f = (\<lambda>s. Some (Inr (), s\<lparr>ws_worker := f (ws_worker s)\<rparr>))"

definition change_db :: "(db \<Rightarrow> db) \<Rightarrow> unit act" where
  "change_db f = (\<lambda>s. Some (Inr (), s\<lparr>ws_db := f (ws_db s)\<rparr>))"

text \<open>An operation of a store that may raise and leaves the database as it is then.\<close>

definition db_act :: "(db \<Rightarrow> ('a \<times> db) result) \<Rightarrow> 'a act" where
  "db_act f = (\<lambda>s. case f (ws_db s) of
       Inl e \<Rightarrow> Some (Inl e, s) | Inr (x, d) \<Rightarrow> Some (Inr x, s\<lparr>ws_db := d\<rparr>))"

text \<open>A reading of the outside.\<close>

definition ask :: "(nat \<Rightarrow> 'a) \<Rightarrow> 'a act" where
  "ask f = (\<lambda>s. Some (Inr (f (ws_tick s)), s\<lparr>ws_tick := Suc (ws_tick s)\<rparr>))"

text \<open>An \<^verbatim>\<open>await\<close>: the other tasks run.\<close>

definition await :: "env \<Rightarrow> unit act" where
  "await env = (\<lambda>s. Some (Inr (),
     s\<lparr>ws_db := en_other_tasks env (ws_tick s) (ws_db s),
       ws_worker := (if en_stop env (ws_tick s) then (ws_worker s)\<lparr>wk_running := False\<rparr> else ws_worker s),
       ws_tick := Suc (ws_tick s)\<rparr>))"

text \<open>The callback swallows its errors; an event is kept by its name and job.\<close>

definition emit :: "env \<Rightarrow> string \<Rightarrow> ident option \<Rightarrow> unit act" where
  "emit env event j =
     seq_act (\<lambda>s. Some (Inr (), s\<lparr>ws_events := ws_events s @ [(event, j)]\<rparr>)) (await env)"

section \<open>Operations of the queue, with the clock and fresh ids\<close>

definition set_status :: "env \<Rightarrow> ident \<Rightarrow> job_status \<Rightarrow> string option \<Rightarrow> string option \<Rightarrow> unit act" where
  "set_status env j st error summary =
     bind_act (ask (en_now env)) (\<lambda>now. change_db (update_job_status j (job_status_value st) error summary now))"

definition audit :: "env \<Rightarrow> ident \<Rightarrow> string \<Rightarrow> string option \<Rightarrow> ident option \<Rightarrow> unit act" where
  "audit env j action detail node =
     bind_act (ask (en_uuid env)) (\<lambda>i. bind_act (ask (en_now env)) (\<lambda>now.
       db_act (\<lambda>d. map_sum id (Pair ()) (add_audit j action detail (Some ''worker'') node i now d))))"

definition change_node ::
  "env \<Rightarrow> ident \<Rightarrow> node_status \<Rightarrow> string option \<Rightarrow> string option \<Rightarrow> string option \<Rightarrow> unit act" where
  "change_node env i st input output error =
     bind_act (ask (en_now env)) (\<lambda>now. change_db (update_node i (Some (node_status_value st)) input output error now))"

definition fresh_ids :: "env \<Rightarrow> nat \<Rightarrow> ident list act" where
  "fresh_ids env n = (\<lambda>s. Some (Inr (map (\<lambda>i. en_uuid env (ws_tick s + i)) [0..<n]), s\<lparr>ws_tick := ws_tick s + n\<rparr>))"

definition make_nodes :: "env \<Rightarrow> ident \<Rightarrow> node_def list \<Rightarrow> node list act" where
  "make_nodes env j defs =
     bind_act (ask (en_now env)) (\<lambda>now. bind_act (fresh_ids env (length defs)) (\<lambda>ids.
       db_act (create_nodes j (zip ids defs) now)))"

definition fetch_nodes :: "ident \<Rightarrow> node list act" where
  "fetch_nodes j = reads (\<lambda>s. get_nodes (ws_db s) j)"

section \<open>Failure handling\<close>

text \<open>A missing error, which only a stored node can have, raises when it is cut to 2000 characters.\<close>

definition handle_failure :: "env \<Rightarrow> job \<Rightarrow> string option \<Rightarrow> node option \<Rightarrow> unit act" where
  "handle_failure env job error node =
     seq_act (set_status env (jo_id job) JOB_FAILED error None)
     (seq_act
        (case error of
           None \<Rightarrow> lift_result (Inl (TypeError ''NoneType''))
         | Some text \<Rightarrow> audit env (jo_id job) ''failed'' (Some (take 2000 text)) (map_option no_id node))
     (seq_act (change_worker (\<lambda>w. w\<lparr>wk_consecutive_failures := Suc (wk_consecutive_failures w)\<rparr>))
     (seq_act
        (bind_act (reads (\<lambda>s. wk_consecutive_failures (ws_worker s))) (\<lambda>n.
           if n \<ge> CIRCUIT_BREAKER_THRESHOLD then
             bind_act (ask (en_monotonic env)) (\<lambda>now.
               seq_act (change_worker (\<lambda>w. w\<lparr>wk_circuit_open_until := now + CIRCUIT_OPEN_PAUSE_SEC\<rparr>))
                 (emit env ''worker_circuit_open'' None))
           else ret ()))
     (emit env ''job_failed'' (Some (jo_id job))))))"

definition is_cancelled :: "job \<Rightarrow> db \<Rightarrow> bool" where
  "is_cancelled job d =
     (case get_job d (jo_id job) of
        None \<Rightarrow> False
      | Some fresh \<Rightarrow>
          jo_status fresh = job_status_value JOB_CANCELLING \<or> jo_status fresh = job_status_value JOB_CANCELLED)"

definition aborted :: "job \<Rightarrow> wstate \<Rightarrow> bool" where
  "aborted job s \<longleftrightarrow> \<not> wk_running (ws_worker s) \<or> is_cancelled job (ws_db s)"

section \<open>Node execution\<close>

text \<open>\<^verbatim>\<open>merged.update(d)\<close> on dicts kept in the order of insertion.\<close>

definition dict_update :: "dict \<Rightarrow> dict \<Rightarrow> dict" where
  "dict_update d kvs = fold (\<lambda>(k, v). dict_put k v) kvs d"

definition some_dict :: "dict \<Rightarrow> dict option" where
  "some_dict d = (if d = [] then None else Some d)"

definition resolve_input :: "node \<Rightarrow> (ident \<times> dict) list \<Rightarrow> dict option" where
  "resolve_input node outs =
     (if no_depends_on node \<noteq> [] then
        some_dict (fold (\<lambda>dep merged. case map_of outs dep of None \<Rightarrow> merged | Some out \<Rightarrow> dict_update merged out)
          (no_depends_on node) [])
      else if no_sequence node > 1 then
        (if outs = [] then None else some_dict (snd (last outs)))
      else None)"

definition preload :: "env \<Rightarrow> node list \<Rightarrow> (ident \<times> dict) list" where
  "preload env nodes =
     fold (\<lambda>n outs.
        if no_status n = node_status_value NODE_COMPLETED \<and> no_output_json n \<noteq> None \<and> no_output_json n \<noteq> Some []
        then dict_put (no_id n)
               (case en_loads env (the (no_output_json n)) of Inl e \<Rightarrow> [] | Inr out \<Rightarrow> out) outs
        else outs) nodes []"

definition first_failed_node :: "node list \<Rightarrow> node option" where
  "first_failed_node nodes =
     find (\<lambda>n. no_status n = node_status_value NODE_FAILED) (sort_key no_sequence nodes)"

definition node_fails :: "env \<Rightarrow> job \<Rightarrow> node \<Rightarrow> string option \<Rightarrow> string \<Rightarrow> unit act" where
  "node_fails env job node output error =
     seq_act (change_node env (no_id node) NODE_FAILED None output (Some error))
     (seq_act (audit env (jo_id job) ''node_failed'' (Some error) (Some (no_id node)))
     (emit env ''node_failed'' (Some (jo_id job))))"

definition reflect :: "env \<Rightarrow> unit act" where
  "reflect env = bind_act (ask (en_reflect env)) (\<lambda>r. lift_result (case r of None \<Rightarrow> Inr () | Some e \<Rightarrow> Inl e))"

section \<open>Delegation\<close>

definition handle_delegation :: "env \<Rightarrow> job \<Rightarrow> json \<Rightarrow> unit act" where
  "handle_delegation env job spec =
     (case spec of
        JObj kvs \<Rightarrow>
          (let title = get_or kvs ''title'' (JStr ''Delegated sub-task'');
               description = get_or kvs ''description'' (JStr []);
               priority = get_or kvs ''priority'' (JInt (jo_priority job))
           in try_act
                (bind_act (lift_result (en_bind_text env title)) (\<lambda>t.
                 bind_act (lift_result (en_bind_text env description)) (\<lambda>descr.
                 bind_act (lift_result (en_bind_int env priority)) (\<lambda>prio.
                 bind_act (ask (en_now env)) (\<lambda>now.
                 bind_act (ask (en_uuid env)) (\<lambda>child.
                 bind_act (ask (en_uuid env)) (\<lambda>deleg.
                 bind_act (db_act (spawn_child_job (en_insert_job env) (jo_id job) t descr ''sub_task'' None prio now child deleg))
                   (\<lambda>delegation.
                 seq_act (audit env (jo_id job) ''delegated_child''
                            (Some (en_format env ''child={} title={!r}'' [JStr (dg_child_job_id delegation), title])) None)
                   (emit env ''job_delegated'' (Some (jo_id job)))))))))))
                (\<lambda>exc. ret ()))
      | _ \<Rightarrow> lift_result (Inl (AttributeError ''get'')))"

section \<open>Executing the nodes\<close>

text \<open>\<^verbatim>\<open>_emit_progress\<close>: what it computes from the rows, in microseconds; averages over the completed nodes
  that took time.\<close>

definition node_durations :: "node list \<Rightarrow> int list" where
  "node_durations nodes =
     filter (\<lambda>d. 0 < d) (map (\<lambda>n. no_updated_at n - no_created_at n)
       (filter (\<lambda>n. no_status n = node_status_value NODE_COMPLETED) nodes))"

definition completed_count :: "node list \<Rightarrow> nat" where
  "completed_count nodes = length (filter (\<lambda>n. no_status n = node_status_value NODE_COMPLETED) nodes)"

definition average_duration :: "node list \<Rightarrow> real" where
  "average_duration nodes =
     (let ds = node_durations nodes
      in if ds = [] then 0 else (real_of_int (sum_list ds) / 1000000) / real (length ds))"

definition estimated_remaining :: "node list \<Rightarrow> node option \<Rightarrow> real" where
  "estimated_remaining nodes current =
     (let remaining = int (length nodes) - int (completed_count nodes) - (if current = None then 0 else 1)
      in average_duration nodes * real_of_int (max remaining 0))"

definition emit_progress :: "env \<Rightarrow> job \<Rightarrow> node list \<Rightarrow> node option \<Rightarrow> unit act" where
  "emit_progress env job nodes current = emit env ''job_progress'' (Some (jo_id job))"

text \<open>One round of the loop for a node: what is done before, and for each outcome. \<open>None\<close>: go on.\<close>

definition start_node :: "env \<Rightarrow> job \<Rightarrow> node \<Rightarrow> dict option \<Rightarrow> unit act" where
  "start_node env job node input_data =
     seq_act (change_node env (no_id node) NODE_RUNNING (map_option (en_dumps env) input_data) None None)
     (seq_act (audit env (jo_id job) ''node_started''
        (Some (en_format env ''seq={} title={!r}'' [JInt (int (no_sequence node)), JStr (no_title node)])) (Some (no_id node)))
     (bind_act (fetch_nodes (jo_id job)) (\<lambda>all_nodes. emit_progress env job all_nodes (Some node))))"

definition node_succeeds :: "env \<Rightarrow> job \<Rightarrow> node \<Rightarrow> node_result \<Rightarrow> unit act" where
  "node_succeeds env job node result =
     seq_act (change_node env (no_id node) NODE_COMPLETED None (Some (en_dumps env (nx_output result))) None)
     (seq_act (audit env (jo_id job) ''node_completed''
        (Some (en_format env ''seq={} duration={:.1f}s tokens_in={} tokens_out={}''
           [JInt (int (no_sequence node)), JInt (int (nx_tokens_in result)), JInt (int (nx_tokens_out result))]))
        (Some (no_id node)))
     (bind_act (fetch_nodes (jo_id job)) (\<lambda>all_nodes.
      seq_act (emit_progress env job all_nodes None)
     (seq_act (emit env ''node_completed'' (Some (jo_id job)))
        (case obj_get (nx_output result) ''delegate'' of
           None \<Rightarrow> ret ()
         | Some spec \<Rightarrow> try_act (handle_delegation env job spec) (\<lambda>exc. ret ()))))))"

definition run_node :: "env \<Rightarrow> job \<Rightarrow> node \<Rightarrow> dict option \<Rightarrow> node_outcome act" where
  "run_node env job node input_data =
     bind_act (ask (\<lambda>n. en_execute env n node job input_data)) (\<lambda>outcome. seq_act (await env) (ret outcome))"

text \<open>What is done with the outcome: the result of a node that succeeded, or \<open>None\<close> after a failure.\<close>

definition settle_node :: "env \<Rightarrow> job \<Rightarrow> node \<Rightarrow> node_outcome \<Rightarrow> node_result option act" where
  "settle_node env job node outcome =
     (case outcome of
        Node_timeout \<Rightarrow>
          seq_act
            (node_fails env job node None
              (en_format env ''Node timed out after {}s.'' [JStr (no_title node), JInt (no_timeout_sec node)]))
            (ret None)
      | Node_raises msg \<Rightarrow>
          seq_act (reflect env)
            (seq_act
              (node_fails env job node None
                (en_format env ''Node raised exception: {}'' [JStr (no_title node), JStr msg]))
              (ret None))
      | Node_returns result \<Rightarrow>
          if nx_success result then seq_act (node_succeeds env job node result) (ret (Some result))
          else
            seq_act (reflect env)
              (seq_act
                (node_fails env job node (map_option (en_dumps env) (some_dict (nx_output result)))
                  (or_else (nx_error result) ''Node execution failed.''))
                (ret None)))"

text \<open>The \<^verbatim>\<open>while True\<close> loop, with the number of rounds as fuel.\<close>

fun execute_loop :: "nat \<Rightarrow> env \<Rightarrow> job \<Rightarrow> (ident \<times> dict) list \<Rightarrow> bool act" where
  "execute_loop 0 env job outs = (\<lambda>s. None)"
| "execute_loop (Suc f) env job outs =
     bind_act (reads (aborted job)) (\<lambda>stop.
     if stop then ret False
     else bind_act (reads (\<lambda>s. get_next_pending_node (ws_db s) (jo_id job))) (\<lambda>found.
       case found of
         None \<Rightarrow>
           bind_act (fetch_nodes (jo_id job)) (\<lambda>all_nodes.
             ret (\<not> list_ex (\<lambda>n. no_status n = node_status_value NODE_FAILED) all_nodes))
       | Some node \<Rightarrow>
           (let input_data = resolve_input node outs
            in seq_act (start_node env job node input_data)
               (bind_act (run_node env job node input_data) (\<lambda>outcome.
                bind_act (settle_node env job node outcome) (\<lambda>settled.
                case settled of
                  None \<Rightarrow> ret False
                | Some result \<Rightarrow> execute_loop f env job (dict_put (no_id node) (nx_output result) outs)))))))"

definition execute_nodes :: "nat \<Rightarrow> env \<Rightarrow> job \<Rightarrow> node list \<Rightarrow> bool act" where
  "execute_nodes f env job nodes = execute_loop f env job (preload env nodes)"

section \<open>Waiting for delegated jobs\<close>

definition CHILD_MAX_WAIT :: int where
  "CHILD_MAX_WAIT = 600"

definition CHILD_POLL_INTERVAL :: int where
  "CHILD_POLL_INTERVAL = 2"

function wait_loop :: "env \<Rightarrow> ident \<Rightarrow> int \<Rightarrow> bool act" where
  "wait_loop env j waited =
     (if waited < CHILD_MAX_WAIT then
        bind_act (\<lambda>s. Some (is_tree_complete (en_recursion_limit env) (ws_db s) j, s)) (\<lambda>complete.
          if complete then ret True
          else seq_act (await env) (wait_loop env j (waited + CHILD_POLL_INTERVAL)))
      else ret False)"
  by pat_completeness auto
termination
  by (relation "measure (\<lambda>(env, j, waited). nat (CHILD_MAX_WAIT - waited))")
     (auto simp: CHILD_MAX_WAIT_def CHILD_POLL_INTERVAL_def)

declare wait_loop.simps [simp del]

definition wait_for_children :: "env \<Rightarrow> ident \<Rightarrow> bool act" where
  "wait_for_children env j = wait_loop env j 0"

section \<open>Planning again\<close>

definition augmented_description :: "job \<Rightarrow> string \<Rightarrow> string" where
  "augmented_description job feedback =
     or_else (jo_description job) (jo_title job) @ newline @ newline @
     ''--- REVIEW FEEDBACK (attempt '' @ show_int (jo_review_count job) @ '') ---'' @ newline @
     feedback @ newline @
     ''--- END FEEDBACK ---'' @ newline @
     ''Please produce an improved plan that addresses the above issues.''"

definition build_retry_plan :: "env \<Rightarrow> job \<Rightarrow> string \<Rightarrow> node_def list act" where
  "build_retry_plan env job feedback =
     (let augmented_job = job\<lparr>jo_description := Some (augmented_description job feedback)\<rparr>
      in bind_act (reads (\<lambda>s. (ws_db s, get_files (ws_db s) (jo_id job) (Some ''input'')))) (\<lambda>(d, input_files).
         bind_act (ask (\<lambda>n. en_plan env n d augmented_job input_files)) (\<lambda>r.
         seq_act (await env) (lift_result r))))"

fun cancel_nodes :: "env \<Rightarrow> node list \<Rightarrow> unit act" where
  "cancel_nodes env [] = ret ()"
| "cancel_nodes env (n # ns) =
     seq_act
       (if no_status n \<noteq> node_status_value NODE_CANCELLED
        then change_node env (no_id n) NODE_CANCELLED None None None else ret ())
       (cancel_nodes env ns)"

definition reset_nodes_for_retry :: "env \<Rightarrow> job \<Rightarrow> node_def list \<Rightarrow> unit act" where
  "reset_nodes_for_retry env job new_node_defs =
     bind_act (fetch_nodes (jo_id job)) (\<lambda>existing_nodes.
     seq_act (cancel_nodes env existing_nodes)
     (seq_act (audit env (jo_id job) ''nodes_reset_for_retry''
        (Some (en_format env ''cancelled {} node(s), adding {} new''
           [JInt (int (length existing_nodes)), JInt (int (length new_node_defs))])) None)
     (bind_act (make_nodes env (jo_id job) new_node_defs) (\<lambda>nodes. ret ()))))"

section \<open>The pipeline of a job\<close>

text \<open>Planning: the nodes definitions, or \<open>None\<close> when the failure has been handled.\<close>

definition plan_phase :: "env \<Rightarrow> job \<Rightarrow> node_def list option act" where
  "plan_phase env job =
     seq_act (set_status env (jo_id job) JOB_PLANNING None None)
     (seq_act (audit env (jo_id job) ''planning'' (Some (''mode='' @ jo_mode job)) None)
     (seq_act (emit env ''job_planning'' (Some (jo_id job)))
     (bind_act
        (try_act
           (bind_act (reads (\<lambda>s. (ws_db s, get_files (ws_db s) (jo_id job) (Some ''input'')))) (\<lambda>(d, input_files).
            bind_act (ask (\<lambda>n. en_plan env n d job input_files)) (\<lambda>r.
            seq_act (await env) (bind_act (lift_result r) (\<lambda>node_defs. ret (Some node_defs))))))
           (\<lambda>exc. seq_act (handle_failure env job (Some (''Planning error: '' @ en_error_text env exc)) None) (ret None)))
        (\<lambda>planned. case planned of
           None \<Rightarrow> ret None
         | Some node_defs \<Rightarrow>
             if node_defs = [] then
               seq_act (handle_failure env job (Some ''Planner returned no nodes.'') None) (ret None)
             else ret (Some node_defs)))))"

definition create_phase :: "env \<Rightarrow> job \<Rightarrow> node_def list \<Rightarrow> bool act" where
  "create_phase env job node_defs =
     bind_act
       (try_act (bind_act (make_nodes env (jo_id job) node_defs) (\<lambda>nodes. ret True))
          (\<lambda>exc. seq_act
             (handle_failure env job (Some (''Node creation error: '' @ en_error_text env exc)) None) (ret False)))
       (\<lambda>created. if created then seq_act (emit env ''job_nodes_created'' (Some (jo_id job))) (ret True) else ret False)"

datatype round_result = Job_finished | Next_round

definition finish :: "unit act \<Rightarrow> round_result act" where
  "finish m = seq_act m (ret Job_finished)"

definition review_phase :: "env \<Rightarrow> job \<Rightarrow> node list \<Rightarrow> nat \<Rightarrow> review_result option act" where
  "review_phase env job nodes attempt =
     seq_act (set_status env (jo_id job) JOB_REVIEWING None None)
     (seq_act (audit env (jo_id job) ''reviewing'' (Some (''review_attempt='' @ show_nat (Suc attempt))) None)
     (seq_act (emit env ''job_reviewing'' (Some (jo_id job)))
     (bind_act
        (try_act
           (bind_act (reads (\<lambda>s. get_files (ws_db s) (jo_id job) (Some ''output''))) (\<lambda>output_files.
            bind_act (ask (\<lambda>n. en_review env n job nodes output_files)) (\<lambda>r.
            seq_act (await env) (bind_act (lift_result r) (\<lambda>review. ret (Some review))))))
           (\<lambda>exc. seq_act (handle_failure env job (Some (''Review error: '' @ en_error_text env exc)) None) (ret None)))
        (\<lambda>reviewed. case reviewed of
           None \<Rightarrow> ret None
         | Some review \<Rightarrow>
             seq_act (audit env (jo_id job) ''review_result''
               (Some (en_format env ''passed={} score={:.3f} attempt={}''
                  [JBool (rv_passed review), JReal (rv_score review), JInt (int (Suc attempt))])) None)
             (seq_act (emit env ''job_review_result'' (Some (jo_id job))) (ret (Some review)))))))"

definition job_passes :: "env \<Rightarrow> job \<Rightarrow> review_result \<Rightarrow> unit act" where
  "job_passes env job review =
     seq_act (change_worker (\<lambda>w. w\<lparr>wk_consecutive_failures := 0\<rparr>))
     (seq_act (set_status env (jo_id job) JOB_DONE None (Some (rv_feedback review)))
     (seq_act (audit env (jo_id job) ''done''
        (Some (en_format env ''score={:.3f}'' [JReal (rv_score review)])) None)
     (emit env ''job_done'' (Some (jo_id job)))))"

text \<open>After a failed review: give up, or plan again.\<close>

definition review_fails :: "env \<Rightarrow> job \<Rightarrow> int \<Rightarrow> review_result \<Rightarrow> round_result act" where
  "review_fails env job max_reviews review =
     bind_act (ask (en_now env)) (\<lambda>now.
     bind_act (db_act (\<lambda>d. Inr (increment_review_count (jo_id job) now d))) (\<lambda>review_count.
     if review_count \<ge> max_reviews then
       finish (seq_act (reflect env) (seq_act (await env)
         (handle_failure env job
            (Some (en_format env ''Review failed after {} attempt(s). Last feedback: {}''
               [JInt review_count, JStr (rv_feedback review)])) None)))
     else
       seq_act (emit env ''job_replanning'' (Some (jo_id job)))
         (try_act
            (bind_act (build_retry_plan env job (rv_feedback review)) (\<lambda>retry_node_defs.
             seq_act (reset_nodes_for_retry env job retry_node_defs) (ret Next_round)))
            (\<lambda>exc. finish
               (handle_failure env job (Some (''Re-planning error: '' @ en_error_text env exc)) None)))))"

text \<open>Children are waited for when there are any; \<open>False\<close> when that timed out.\<close>

definition children_phase :: "env \<Rightarrow> job \<Rightarrow> bool act" where
  "children_phase env job =
     bind_act (reads (\<lambda>s. get_children (ws_db s) (jo_id job))) (\<lambda>children.
     if children = [] then ret True
     else seq_act (emit env ''job_waiting_children'' (Some (jo_id job))) (wait_for_children env (jo_id job)))"

definition attempt_round :: "nat \<Rightarrow> env \<Rightarrow> job \<Rightarrow> real \<Rightarrow> int \<Rightarrow> nat \<Rightarrow> round_result act" where
  "attempt_round f env job job_start max_reviews attempt =
     bind_act (ask (en_monotonic env)) (\<lambda>now.
     if now - job_start \<ge> MAX_JOB_TIMEOUT_SEC then
       finish (handle_failure env job (Some ''Job exceeded maximum timeout of 1800s.'') None)
     else bind_act (reads (aborted job)) (\<lambda>stop.
     if stop then
       finish
         (seq_act (set_status env (jo_id job) JOB_CANCELLED None None)
         (seq_act (audit env (jo_id job) ''cancelled'' None None)
         (emit env ''job_cancelled'' (Some (jo_id job)))))
     else
       seq_act (set_status env (jo_id job) JOB_EXECUTING None None)
       (seq_act (audit env (jo_id job) ''executing'' (Some (''attempt='' @ show_nat (Suc attempt))) None)
       (seq_act (emit env ''job_executing'' (Some (jo_id job)))
       (bind_act (fetch_nodes (jo_id job)) (\<lambda>nodes.
        bind_act (execute_nodes f env job nodes) (\<lambda>all_succeeded.
        if \<not> all_succeeded then
          (let failed_node = first_failed_node nodes
           in finish
                (handle_failure env job
                   (case failed_node of None \<Rightarrow> Some ''One or more nodes failed.'' | Some n \<Rightarrow> no_error n) failed_node))
        else bind_act (children_phase env job) (\<lambda>children_done.
        if \<not> children_done then
          finish (handle_failure env job (Some ''Timed out waiting for delegated child jobs to complete.'') None)
        else bind_act (review_phase env job nodes attempt) (\<lambda>reviewed.
        case reviewed of
          None \<Rightarrow> ret Job_finished
        | Some review \<Rightarrow>
            if rv_passed review then finish (job_passes env job review)
            else review_fails env job max_reviews review)))))))))"

text \<open>\<^verbatim>\<open>for attempt in range(max_reviews + 1)\<close>, from the number of rounds left.\<close>

fun attempt_rounds :: "nat \<Rightarrow> env \<Rightarrow> job \<Rightarrow> real \<Rightarrow> int \<Rightarrow> nat \<Rightarrow> nat \<Rightarrow> unit act" where
  "attempt_rounds f env job job_start max_reviews attempt 0 =
     handle_failure env job (Some ''Exceeded max review cycles.'') None"
| "attempt_rounds f env job job_start max_reviews attempt (Suc left) =
     bind_act (attempt_round f env job job_start max_reviews attempt) (\<lambda>r.
       case r of
         Job_finished \<Rightarrow> ret ()
       | Next_round \<Rightarrow> attempt_rounds f env job job_start max_reviews (Suc attempt) left)"

definition run_job :: "nat \<Rightarrow> env \<Rightarrow> job \<Rightarrow> unit act" where
  "run_job f env job =
     bind_act (ask (en_monotonic env)) (\<lambda>job_start.
     bind_act (plan_phase env job) (\<lambda>planned.
     case planned of
       None \<Rightarrow> ret ()
     | Some node_defs \<Rightarrow>
         bind_act (create_phase env job node_defs) (\<lambda>created.
         if \<not> created then ret ()
         else (let max_reviews = min (jo_max_reviews job) ABSOLUTE_MAX_REVIEWS
               in attempt_rounds f env job job_start max_reviews 0 (nat (max_reviews + 1))))))"

section \<open>Polling\<close>

text \<open>Another process may work on the database between the two connections.\<close>

definition other_process :: "env \<Rightarrow> unit act" where
  "other_process env = (\<lambda>s. Some (Inr (),
     s\<lparr>ws_db := en_other_tasks env (ws_tick s) (ws_db s), ws_tick := Suc (ws_tick s)\<rparr>))"

definition oldest_pending :: "db \<Rightarrow> job_row option" where
  "oldest_pending d =
     fetchone (order_by_desc jr_priority (order_by jr_created_at
       (filter (\<lambda>r. jr_status r = job_status_value JOB_PENDING) (db_jobs d))))"

definition claim_pending :: "ident \<Rightarrow> timestamp \<Rightarrow> db \<Rightarrow> nat \<times> db" where
  "claim_pending j now d =
     (let P = (\<lambda>r. jr_id r = j \<and> jr_status r = job_status_value JOB_PENDING)
      in (sql_rowcount P (db_jobs d),
          d\<lparr>db_jobs := sql_update P
              (\<lambda>r. r\<lparr>jr_status := job_status_value JOB_PLANNING, jr_updated_at := Some now\<rparr>) (db_jobs d)\<rparr>))"

definition dequeue_next_pending :: "env \<Rightarrow> job option act" where
  "dequeue_next_pending env =
     bind_act (reads (\<lambda>s. oldest_pending (ws_db s))) (\<lambda>row.
     case row of
       None \<Rightarrow> ret None
     | Some r \<Rightarrow>
         (let job = job_from_row r
          in seq_act (other_process env)
             (bind_act (ask (en_now env)) (\<lambda>now.
              bind_act (db_act (\<lambda>d. Inr (claim_pending (jo_id job) now d))) (\<lambda>rowcount.
              ret (if rowcount = 0 then None else Some job))))))"

definition set_current :: "ident option \<Rightarrow> unit act" where
  "set_current j = change_worker (\<lambda>w. w\<lparr>wk_current_job_id := j\<rparr>)"

definition poll_and_execute :: "nat \<Rightarrow> env \<Rightarrow> unit act" where
  "poll_and_execute f env =
     bind_act (ask (en_monotonic env)) (\<lambda>now.
     bind_act (reads (\<lambda>s. wk_circuit_open_until (ws_worker s))) (\<lambda>open_until.
     if open_until > now then ret ()
     else bind_act (dequeue_next_pending env) (\<lambda>found.
     case found of
       None \<Rightarrow> ret ()
     | Some job \<Rightarrow>
         seq_act (set_current (Some (jo_id job)))
           (finally_act
              (try_act (run_job f env job) (\<lambda>exc. handle_failure env job (Some (en_error_text env exc)) None))
              (set_current None)))))"

section \<open>Resuming, starting and stopping\<close>

fun reset_running :: "env \<Rightarrow> ident \<Rightarrow> node list \<Rightarrow> unit act" where
  "reset_running env j [] = ret ()"
| "reset_running env j (n # ns) =
     seq_act
       (if no_status n = node_status_value NODE_RUNNING then
          seq_act (change_node env (no_id n) NODE_PENDING None None None)
            (audit env j ''node_reset_for_resume'' (Some (''seq='' @ show_nat (no_sequence n))) (Some (no_id n)))
        else ret ())
       (reset_running env j ns)"

definition resume_job :: "nat \<Rightarrow> env \<Rightarrow> job \<Rightarrow> unit act" where
  "resume_job f env job =
     bind_act (fetch_nodes (jo_id job)) (\<lambda>nodes.
     seq_act (reset_running env (jo_id job) nodes)
     (seq_act (audit env (jo_id job) ''resuming'' (Some ''worker restart'') None)
     (seq_act (emit env ''job_resuming'' (Some (jo_id job)))
     (bind_act (reads (\<lambda>s. get_job (ws_db s) (jo_id job))) (\<lambda>refreshed.
      case refreshed of
        None \<Rightarrow> ret ()
      | Some job' \<Rightarrow>
          seq_act (set_current (Some (jo_id job')))
            (finally_act
               (try_act (run_job f env job')
                  (\<lambda>exc. handle_failure env job' (Some (''Resume failed: '' @ en_error_text env exc)) None))
               (set_current None)))))))"

fun resume_all :: "nat \<Rightarrow> env \<Rightarrow> job list \<Rightarrow> unit act" where
  "resume_all f env [] = ret ()"
| "resume_all f env (job # jobs) =
     bind_act (reads (\<lambda>s. wk_running (ws_worker s))) (\<lambda>running.
     if running then seq_act (resume_job f env job) (resume_all f env jobs) else ret ())"

fun poll_loop :: "nat \<Rightarrow> nat \<Rightarrow> env \<Rightarrow> unit act" where
  "poll_loop 0 f env = (\<lambda>s. None)"
| "poll_loop (Suc n) f env =
     bind_act (reads (\<lambda>s. wk_running (ws_worker s))) (\<lambda>running.
     if running then seq_act (poll_and_execute f env) (seq_act (await env) (poll_loop n f env)) else ret ())"

definition worker_start :: "nat \<Rightarrow> nat \<Rightarrow> env \<Rightarrow> unit act" where
  "worker_start n f env =
     seq_act (change_worker (\<lambda>w. w\<lparr>wk_running := True\<rparr>))
     (bind_act (reads (\<lambda>s. get_interrupted_jobs (ws_db s))) (\<lambda>interrupted.
      seq_act (resume_all f env interrupted) (poll_loop n f env)))"

definition worker_stop :: "worker \<Rightarrow> worker" where
  "worker_stop w = w\<lparr>wk_running := False\<rparr>"

end
