(* ===== verification/Worker_Logic.thy ===== *)
theory Worker_Logic
  imports Worker
begin

text \<open>
  What the worker guarantees. Actions are reasoned about by relations every outcome keeps and by
  triples on returned values; the locale of kept relations lifts the first from the basic actions to
  whatever is built from them and is interpreted on the row of a job and on its nodes. Other tasks may
  do anything that leaves that row, or those nodes, alone.
\<close>

section \<open>Reasoning about actions\<close>

lemmas [act_defs] = change_worker_def change_db_def db_act_def ask_def await_def emit_def

text \<open>A relation that only looks at the database.\<close>

locale kept_relation = kept_preorder R for R :: "wstate \<Rightarrow> wstate \<Rightarrow> bool" +
  assumes same_db: "ws_db t = ws_db s \<Longrightarrow> R s t"
begin

lemma keeps_ask [keeps_rules]: "keeps R (ask h)"
  by (auto simp: keeps_def ask_def intro: same_db)

lemma keeps_fresh_ids [keeps_rules]: "keeps R (fresh_ids env n)"
  by (auto simp: keeps_def fresh_ids_def intro: same_db)

lemma keeps_change_worker [keeps_rules]: "keeps R (change_worker g)"
  by (auto simp: keeps_def change_worker_def intro: same_db)

lemma keeps_emit: "keeps R (await env) \<Longrightarrow> keeps R (emit env ev j)"
proof -
  assume a: "keeps R (await env)"
  have "keeps R (\<lambda>s. Some (Inr (), s\<lparr>ws_events := ws_events s @ [(ev, j)]\<rparr>))"
    by (auto simp: keeps_def intro: same_db)
  with a show ?thesis unfolding emit_def by (rule keeps_seq [rotated])
qed

lemma keeps_audit:
  assumes "\<And>s d. add_audit i action detail actor node e now (ws_db s) = Inr d \<Longrightarrow> R s (s\<lparr>ws_db := d\<rparr>)"
  shows "keeps R (db_act (\<lambda>d. map_sum id (Pair ()) (add_audit i action detail actor node e now d)))"
  using assms refl by (auto simp: keeps_def db_act_def split: sum.splits)

end

section \<open>The row of a job\<close>

definition job_rows :: "ident \<Rightarrow> wstate \<Rightarrow> job_row list" where
  "job_rows j s = filter (\<lambda>r. jr_id r = j) (db_jobs (ws_db s))"

definition same_job :: "ident \<Rightarrow> wstate \<Rightarrow> wstate \<Rightarrow> bool" where
  "same_job j s t \<longleftrightarrow> job_rows j t = job_rows j s"

text \<open>The other tasks leave the row of the job alone, and an insertion of a job only adds it.\<close>

definition quiet :: "env \<Rightarrow> ident \<Rightarrow> bool" where
  "quiet env j \<longleftrightarrow> job_table (en_insert_job env) \<and>
     (\<forall>n d. filter (\<lambda>r. jr_id r = j) (db_jobs (en_other_tasks env n d)) = filter (\<lambda>r. jr_id r = j) (db_jobs d))"

interpretation jobs: kept_relation "same_job j" for j
  by unfold_locales (auto simp: same_job_def job_rows_def)

lemma same_job_await [keeps_rules]: "quiet env j \<Longrightarrow> keeps (same_job j) (await env)"
  by (simp add: keeps_def await_def same_job_def job_rows_def quiet_def)

lemma same_job_emit [keeps_rules]: "quiet env j \<Longrightarrow> keeps (same_job j) (emit env ev k)"
  by (intro jobs.keeps_emit same_job_await)

lemma same_job_audit [keeps_rules]: "keeps (same_job j) (audit env k action detail node)"
  unfolding audit_def
  by (intro jobs.keeps_bind jobs.keeps_ask jobs.keeps_audit)
     (auto simp: same_job_def job_rows_def add_audit_def insert_audit_def split: if_splits)

lemma same_job_change_node [keeps_rules]: "keeps (same_job j) (change_node env i st ip ou er)"
  unfolding change_node_def
  by (intro jobs.keeps_bind jobs.keeps_ask)
     (auto simp: keeps_def change_db_def same_job_def job_rows_def update_node_def Let_def)

lemma same_job_make_nodes [keeps_rules]: "keeps (same_job j) (make_nodes env k defs)"
  unfolding make_nodes_def
  by (intro jobs.keeps_bind jobs.keeps_ask jobs.keeps_fresh_ids)
     (auto simp: keeps_def db_act_def same_job_def job_rows_def split: sum.splits dest!: create_nodes_InrD(1))

lemma same_job_delegation [keeps_rules]:
  assumes "quiet env (jo_id job)"
  shows "keeps (same_job (jo_id job)) (handle_delegation env job spec)"
proof -
  have table: "job_table (en_insert_job env)" using assms by (simp add: quiet_def)
  have "keeps (same_job (jo_id job)) (db_act (spawn_child_job (en_insert_job env) (jo_id job) t descr dt ctx prio now c i))"
    for t descr dt ctx prio now c i
    unfolding keeps_def
  proof (intro allI impI)
    fix s r s' assume run: "db_act (spawn_child_job (en_insert_job env) (jo_id job) t descr dt ctx prio now c i) s = Some (r, s')"
    show "same_job (jo_id job) s s'"
    proof (cases "spawn_child_job (en_insert_job env) (jo_id job) t descr dt ctx prio now c i (ws_db s)")
      case (Inl e)
      with run show ?thesis by (auto simp: db_act_def jobs.refl)
    next
      case (Inr p)
      then obtain row d where p: "spawn_child_job (en_insert_job env) (jo_id job) t descr dt ctx prio now c i (ws_db s) = Inr (row, d)"
        by (cases p) auto
      from job_table.spawn_InrD [OF table p]
      have "c \<noteq> jo_id job" "db_jobs d = db_jobs (ws_db s) @ [spawned_job c t descr prio now]" by auto
      with run p show ?thesis by (auto simp: db_act_def same_job_def job_rows_def spawned_job_def)
    qed
  qed
  then show ?thesis
    unfolding handle_delegation_def Let_def using assms
    by (cases spec) (simp_all, (intro keeps_rules assms)+)
qed

text \<open>The value of the columns the worker writes.\<close>

definition job_has :: "ident \<Rightarrow> job_status \<Rightarrow> string option \<Rightarrow> string option \<Rightarrow> wstate \<Rightarrow> bool" where
  "job_has j st error summary s \<longleftrightarrow>
     (\<forall>r \<in> set (job_rows j s). jr_status r = job_status_value st \<and> jr_error r = error \<and> jr_result_summary r = summary)"

lemma job_has_kept: "keeps (same_job j) m \<Longrightarrow> hoare (job_has j st er su) m (\<lambda>_. job_has j st er su)"
  by (erule hoare_keeps) (simp add: job_has_def same_job_def)

lemma set_status_has: "hoare P (set_status env j st er su) (\<lambda>_. job_has j st er su)"
proof (rule hoareI)
  fix s x s' assume "set_status env j st er su s = Some (Inr x, s')"
  then have "s' = s\<lparr>ws_tick := Suc (ws_tick s),
      ws_db := update_job_status j (job_status_value st) er su (en_now env (ws_tick s)) (ws_db s)\<rparr>"
    by (simp add: set_status_def act_defs)
  then have jobs: "db_jobs (ws_db s') = sql_update (\<lambda>r. jr_id r = j)
      (\<lambda>r. r\<lparr>jr_status := job_status_value st, jr_error := er, jr_result_summary := su,
              jr_updated_at := Some (en_now env (ws_tick s))\<rparr>) (db_jobs (ws_db s))"
    by (simp add: update_job_status_def)
  show "job_has j st er su s'"
  proof -
    have "jr_status r = job_status_value st \<and> jr_error r = er \<and> jr_result_summary r = su"
      if "r \<in> set (job_rows j s')" for r
      using that unfolding job_rows_def jobs by (simp add: in_sql_update) (metis (no_types, lifting) job_row.select_convs job_row.surjective job_row.update_convs)
    then show ?thesis by (simp add: job_has_def)
  qed
qed

lemma set_status_then:
  "keeps (same_job j) k \<Longrightarrow> hoare P (seq_act (set_status env j st er su) k) (\<lambda>_. job_has j st er su)"
  by (rule hoare_seq [OF set_status_has job_has_kept])

lemma handle_failure_fails:
  assumes "quiet env (jo_id job)"
  shows "hoare P (handle_failure env job error node) (\<lambda>_. job_has (jo_id job) JOB_FAILED error None)"
  unfolding handle_failure_def by (intro set_status_then keeps_rules assms)

text \<open>The end of a job: failed, cancelled, or done after a review that passed, with its feedback.\<close>

definition job_ended :: "env \<Rightarrow> job \<Rightarrow> wstate \<Rightarrow> bool" where
  "job_ended env job s \<longleftrightarrow>
     (\<exists>error. job_has (jo_id job) JOB_FAILED error None s) \<or> job_has (jo_id job) JOB_CANCELLED None None s \<or>
     (\<exists>n nodes files review. en_review env n job nodes files = Inr review \<and> rv_passed review \<and>
        job_has (jo_id job) JOB_DONE None (Some (rv_feedback review)) s)"

lemma failure_ends:
  assumes "quiet env (jo_id job)"
  shows "hoare P (handle_failure env job error node) (\<lambda>_. job_ended env job)"
  by (rule hoare_weaken [OF handle_failure_fails [OF assms]]) (auto simp: job_ended_def)

lemma failure_ends_ret:
  assumes "quiet env (jo_id job)" "\<And>s. job_ended env job s \<Longrightarrow> Q x s"
  shows "hoare P (seq_act (handle_failure env job error node) (ret x)) Q"
  by (rule hoare_seq [OF failure_ends [OF assms(1)] hoare_ret]) (rule assms(2))

lemma hoare_finish: "hoare P m (\<lambda>_. R) \<Longrightarrow> (\<And>s. R s \<Longrightarrow> Q Job_finished s) \<Longrightarrow> hoare P (finish m) Q"
  unfolding finish_def by (rule hoare_seq [OF _ hoare_ret])

lemma hoare_any: "(\<And>x s. Q x s) \<Longrightarrow> hoare P m Q"
  by (simp add: hoare_def)

section \<open>How a job ends\<close>

lemma hoare_option:
  "(v = None \<Longrightarrow> hoare P a Q) \<Longrightarrow> (\<And>x. v = Some x \<Longrightarrow> hoare P (k x) Q) \<Longrightarrow>
     hoare P (case v of None \<Rightarrow> a | Some x \<Rightarrow> k x) Q"
  by (cases v) auto

lemma hoare_if:
  "(c \<Longrightarrow> hoare P a Q) \<Longrightarrow> (\<not> c \<Longrightarrow> hoare P b Q) \<Longrightarrow> hoare P (if c then a else b) Q"
  by simp

lemma hoare_prod: "(\<And>x y. p = (x, y) \<Longrightarrow> hoare P (g x y) Q) \<Longrightarrow> hoare P (case p of (x, y) \<Rightarrow> g x y) Q"
  by (cases p) auto

lemma plan_phase_ends:
  assumes "quiet env (jo_id job)"
  shows "hoare P (plan_phase env job) (\<lambda>x s. x = None \<longrightarrow> job_ended env job s)"
  unfolding plan_phase_def
  by (rule hoare_seq_last hoare_bind [where R = "\<lambda>x s. x = None \<longrightarrow> job_ended env job s"] hoare_try
       hoare_bind_last hoare_prod hoare_option hoare_if failure_ends_ret [OF assms] hoare_ret | simp)+

lemma create_phase_ends:
  assumes "quiet env (jo_id job)"
  shows "hoare P (create_phase env job defs) (\<lambda>x s. \<not> x \<longrightarrow> job_ended env job s)"
  unfolding create_phase_def
  by (rule hoare_seq_last hoare_bind [where R = "\<lambda>x s. \<not> x \<longrightarrow> job_ended env job s"] hoare_try
       hoare_bind_last hoare_if failure_ends_ret [OF assms] hoare_ret | simp)+

definition reviewed_by :: "env \<Rightarrow> job \<Rightarrow> review_result \<Rightarrow> bool" where
  "reviewed_by env job review \<longleftrightarrow> (\<exists>n nodes files. en_review env n job nodes files = Inr review)"

lemma ask_review:
  "hoare P (bind_act (ask (\<lambda>n. en_review env n job nodes files)) (\<lambda>r.
      seq_act (await env) (bind_act (lift_result r) (\<lambda>review. ret (Some review)))))
     (\<lambda>x s. case x of None \<Rightarrow> job_ended env job s | Some review \<Rightarrow> reviewed_by env job review)"
  by (auto simp: hoare_def act_defs reviewed_by_def split: sum.splits)

lemma review_phase_ends:
  assumes "quiet env (jo_id job)"
  shows "hoare P (review_phase env job nodes attempt)
     (\<lambda>x s. case x of None \<Rightarrow> job_ended env job s | Some review \<Rightarrow> reviewed_by env job review)"
    (is "hoare P _ ?Q")
proof -
  have handled: "hoare (\<lambda>_. True) (seq_act (handle_failure env job er None) (ret None)) ?Q" for er
    by (rule failure_ends_ret [OF assms]) simp
  have after: "hoare (?Q x) (case x of None \<Rightarrow> ret None | Some review \<Rightarrow>
      seq_act (audit env (jo_id job) ''review_result'' (detail review) None)
        (seq_act (emit env ''job_review_result'' (Some (jo_id job))) (ret (Some review)))) ?Q" for x detail
  proof (cases x)
    case None
    then show ?thesis by (auto intro: hoare_ret)
  next
    case (Some review)
    show ?thesis
    proof (rule hoareI)
      fix s y s'
      assume pre: "?Q x s" and "(case x of None \<Rightarrow> ret None | Some review \<Rightarrow>
          seq_act (audit env (jo_id job) ''review_result'' (detail review) None)
            (seq_act (emit env ''job_review_result'' (Some (jo_id job))) (ret (Some review)))) s = Some (Inr y, s')"
      then have "y = Some review" using Some by (auto simp: seq_act_def bind_act_def ret_def split: option.splits sum.splits prod.splits)
      with pre Some show "?Q y s'" by simp
    qed
  qed
  show ?thesis
    unfolding review_phase_def
    by (rule hoare_seq_last hoare_bind [OF hoare_try after] hoare_bind_last [OF ask_review] handled | simp)+
qed

lemma job_passes_ends:
  assumes "quiet env (jo_id job)" "reviewed_by env job review" "rv_passed review"
  shows "hoare P (job_passes env job review) (\<lambda>_. job_ended env job)"
proof -
  have passes: "hoare P (job_passes env job review) (\<lambda>_. job_has (jo_id job) JOB_DONE None (Some (rv_feedback review)))"
    unfolding job_passes_def by (intro hoare_seq_last set_status_then keeps_rules assms)
  have "job_ended env job s" if "job_has (jo_id job) JOB_DONE None (Some (rv_feedback review)) s" for s
    using that assms(2,3) unfolding reviewed_by_def job_ended_def by blast
  then show ?thesis using passes unfolding hoare_def by blast
qed

definition round_ends :: "env \<Rightarrow> job \<Rightarrow> round_result \<Rightarrow> wstate \<Rightarrow> bool" where
  "round_ends env job r s \<longleftrightarrow> r = Job_finished \<longrightarrow> job_ended env job s"

lemma finish_ends: "hoare P m (\<lambda>_. job_ended env job) \<Longrightarrow> hoare P (finish m) (round_ends env job)"
  by (erule hoare_finish) (simp add: round_ends_def)

lemma review_fails_ends:
  assumes "quiet env (jo_id job)"
  shows "hoare P (review_fails env job m review) (round_ends env job)"
  unfolding review_fails_def
  by (rule hoare_bind_last hoare_seq_last hoare_if finish_ends failure_ends [OF assms] hoare_try hoare_ret
      | simp add: round_ends_def)+

lemma cancelled_ends:
  assumes "quiet env (jo_id job)"
  shows "hoare P (seq_act (set_status env (jo_id job) JOB_CANCELLED None None)
      (seq_act (audit env (jo_id job) ''cancelled'' None None) (emit env ''job_cancelled'' (Some (jo_id job)))))
      (\<lambda>_. job_ended env job)"
  by (rule hoare_weaken [OF set_status_then [where st = JOB_CANCELLED and P = "\<lambda>_. True"]])
     (auto intro!: keeps_rules assms simp: job_ended_def)

lemma attempt_round_ends:
  assumes "quiet env (jo_id job)"
  shows "hoare P (attempt_round f env job start m attempt) (round_ends env job)"
proof -
  have last: "hoare ((case_option (job_ended env job) (\<lambda>review _. reviewed_by env job review)) x)
      (case x of None \<Rightarrow> ret Job_finished | Some review \<Rightarrow>
         if rv_passed review then finish (job_passes env job review) else review_fails env job m review)
      (round_ends env job)" for x
  proof (cases x)
    case None
    then show ?thesis by (simp add: hoare_def ret_def round_ends_def)
  next
    case (Some review)
    show ?thesis
    proof (cases "reviewed_by env job review")
      case True
      with Some show ?thesis
        by (auto intro: finish_ends job_passes_ends review_fails_ends assms)
    qed (simp add: Some hoare_def)
  qed
  have review: "hoare P (review_phase env job nodes attempt) (case_option (job_ended env job) (\<lambda>review _. reviewed_by env job review))"
    for P nodes
    by (rule hoare_weaken [OF review_phase_ends [OF assms]]) (auto split: option.splits)
  show ?thesis
    unfolding attempt_round_def Let_def
    by (rule hoare_bind [OF review last] hoare_bind_last hoare_seq_last hoare_if finish_ends failure_ends [OF assms]
        cancelled_ends [OF assms] | simp)+
qed

lemma attempt_rounds_end:
  assumes "quiet env (jo_id job)"
  shows "hoare P (attempt_rounds f env job start m attempt left) (\<lambda>_. job_ended env job)"
proof (induction left arbitrary: P attempt)
  case 0
  then show ?case by (simp add: failure_ends [OF assms])
next
  case (Suc left)
  have "hoare (round_ends env job r) (case r of Job_finished \<Rightarrow> ret () | Next_round \<Rightarrow>
      attempt_rounds f env job start m (Suc attempt) left) (\<lambda>_. job_ended env job)" for r
    using Suc by (cases r) (auto simp: hoare_def ret_def round_ends_def)
  then show ?case by (simp add: hoare_bind [OF attempt_round_ends [OF assms]])
qed

lemma run_job_ends:
  assumes "quiet env (jo_id job)"
  shows "hoare P (run_job f env job) (\<lambda>_. job_ended env job)"
proof -
  have "hoare (\<lambda>s. \<not> created \<longrightarrow> job_ended env job s)
      (if \<not> created then ret () else
         let max_reviews = min (jo_max_reviews job) ABSOLUTE_MAX_REVIEWS
         in attempt_rounds f env job start max_reviews 0 (nat (max_reviews + 1))) (\<lambda>_. job_ended env job)" for created start
    by (auto simp: Let_def hoare_ret intro!: attempt_rounds_end [OF assms])
  from hoare_bind [OF create_phase_ends [OF assms] this]
  have create: "hoare P (bind_act (create_phase env job defs) (\<lambda>created. if \<not> created then ret () else
         let max_reviews = min (jo_max_reviews job) ABSOLUTE_MAX_REVIEWS
         in attempt_rounds f env job start max_reviews 0 (nat (max_reviews + 1)))) (\<lambda>_. job_ended env job)"
    for P defs start .
  show ?thesis
    unfolding run_job_def
    by (rule hoare_bind_last hoare_bind [OF plan_phase_ends [OF assms]])+
       (auto split: option.split intro: hoare_ret create)
qed


section \<open>The nodes of a job\<close>

definition same_nodes :: "ident \<Rightarrow> wstate \<Rightarrow> wstate \<Rightarrow> bool" where
  "same_nodes j s t \<longleftrightarrow> db_wf (ws_db s) \<longrightarrow> db_wf (ws_db t) \<and> node_view (ws_db t) j = node_view (ws_db s) j"

text \<open>The other tasks leave the nodes of the job alone, and the database well-formed.\<close>

definition quiet_nodes :: "env \<Rightarrow> ident \<Rightarrow> bool" where
  "quiet_nodes env j \<longleftrightarrow> job_table (en_insert_job env) \<and>
     (\<forall>n d. db_wf d \<longrightarrow> db_wf (en_other_tasks env n d) \<and> node_view (en_other_tasks env n d) j = node_view d j)"

interpretation nodes: kept_relation "same_nodes j" for j
  by unfold_locales (auto simp: same_nodes_def)

lemma same_nodes_await [keeps_rules]: "quiet_nodes env j \<Longrightarrow> keeps (same_nodes j) (await env)"
  by (simp add: keeps_def await_def same_nodes_def quiet_nodes_def)

lemma same_nodes_emit [keeps_rules]: "quiet_nodes env j \<Longrightarrow> keeps (same_nodes j) (emit env ev k)"
  by (intro nodes.keeps_emit same_nodes_await)

lemma same_nodes_audit [keeps_rules]: "keeps (same_nodes j) (audit env k action detail node)"
  unfolding audit_def
proof (intro nodes.keeps_bind nodes.keeps_ask nodes.keeps_audit)
  fix i now d and s :: wstate assume a: "add_audit k action detail (Some ''worker'') node i now (ws_db s) = Inr d"
  then have "db_nodes d = db_nodes (ws_db s)" by (auto simp: add_audit_def insert_audit_def split: if_splits)
  moreover have "db_wf (ws_db s) \<Longrightarrow> db_wf d" using a by (auto simp: add_audit_def dest: insert_wf(4))
  ultimately show "same_nodes j s (s\<lparr>ws_db := d\<rparr>)" by (simp add: same_nodes_def node_view_def)
qed

lemma spawn_keeps_nodes:
  assumes "job_table ins" "spawn_child_job ins p t descr dt ctx prio now c i d = Inr (r, d')" "db_wf d"
  shows "db_wf d' \<and> node_view d' j = node_view d j"
  using job_table.spawn_InrD [OF assms(1,2)] assms(3)
  by (auto simp: db_wf_def node_view_def spawned_job_def)

lemma same_nodes_delegation [keeps_rules]:
  assumes "quiet_nodes env j"
  shows "keeps (same_nodes j) (handle_delegation env job spec)"
proof -
  have "keeps (same_nodes j) (db_act (spawn_child_job (en_insert_job env) (jo_id job) t descr dt ctx prio now c i))"
    for t descr dt ctx prio now c i
    using assms spawn_keeps_nodes
    by (auto simp: keeps_def db_act_def same_nodes_def quiet_nodes_def split: sum.splits)
  then show ?thesis
    unfolding handle_delegation_def Let_def using assms
    by (cases spec) (simp_all, (intro keeps_rules assms)+)
qed

text \<open>Node \<open>i\<close> of the rows \<open>N\<close> now has the status \<open>st\<close>.\<close>

definition marked :: "ident \<Rightarrow> ident \<Rightarrow> string \<Rightarrow> node_row list \<Rightarrow> wstate \<Rightarrow> bool" where
  "marked j i st N s \<longleftrightarrow> db_wf (ws_db s) \<and>
     (\<exists>f. keeps_graph f \<and> (\<forall>r. nr_status (f r) = st) \<and> (\<forall>r. nr_sequence (f r) = nr_sequence r) \<and>
        node_view (ws_db s) j = sql_update (\<lambda>r. nr_id r = i) f N)"

lemma marked_kept: "keeps (same_nodes j) m \<Longrightarrow> hoare (marked j i st N) m (\<lambda>_. marked j i st N)"
  by (erule hoare_keeps) (simp add: marked_def same_nodes_def)

lemma set_node_state:
  assumes "change_node env i st ip ou er s = Some (Inr x, s')"
  shows "\<exists>f. ws_db s' = set_node i f (ws_db s) \<and> keeps_graph f \<and> (\<forall>r. nr_status (f r) = node_status_value st) \<and>
     (\<forall>r. nr_sequence (f r) = nr_sequence r)"
proof -
  obtain f where f: "\<And>d. update_node i (Some (node_status_value st)) ip ou er (en_now env (ws_tick s)) d = set_node i f d"
    "keeps_graph f" "\<And>r. nr_status (f r) = node_status_value st" "\<And>r. nr_sequence (f r) = nr_sequence r"
    by (rule update_node_set [of i "Some (node_status_value st)" ip ou er "en_now env (ws_tick s)"]) simp
  from assms have "ws_db s' = set_node i f (ws_db s)"
    by (auto simp: change_node_def act_defs f(1))
  with f(2-4) show ?thesis by blast
qed

lemma change_node_marks:
  "hoare (\<lambda>s. db_wf (ws_db s) \<and> node_view (ws_db s) j = N) (change_node env i st ip ou er)
     (\<lambda>_. marked j i (node_status_value st) N)"
proof (rule hoareI)
  fix s x s' assume pre: "db_wf (ws_db s) \<and> node_view (ws_db s) j = N"
    and run: "change_node env i st ip ou er s = Some (Inr x, s')"
  from set_node_state [OF run] obtain f where f: "ws_db s' = set_node i f (ws_db s)" "keeps_graph f"
    "\<forall>r. nr_status (f r) = node_status_value st" "\<forall>r. nr_sequence (f r) = nr_sequence r" by blast
  then show "marked j i (node_status_value st) N s'"
    using pre set_node_wf [of f "ws_db s" i] node_view_set_node [of f i "ws_db s" j] by (auto simp: marked_def)
qed

lemma change_node_remarks:
  "hoare (marked j i st0 N) (change_node env i st ip ou er) (\<lambda>_. marked j i (node_status_value st) N)"
proof (rule hoareI)
  fix s x s' assume pre: "marked j i st0 N s" and run: "change_node env i st ip ou er s = Some (Inr x, s')"
  from pre obtain g where g: "keeps_graph g" "\<forall>r. nr_sequence (g r) = nr_sequence r"
    "node_view (ws_db s) j = sql_update (\<lambda>r. nr_id r = i) g N" and wf: "db_wf (ws_db s)"
    unfolding marked_def by blast
  from set_node_state [OF run] obtain f where f: "ws_db s' = set_node i f (ws_db s)" "keeps_graph f"
    "\<forall>r. nr_status (f r) = node_status_value st" "\<forall>r. nr_sequence (f r) = nr_sequence r" by blast
  have "node_view (ws_db s') j = sql_update (\<lambda>r. nr_id r = i) (f \<circ> g) N"
    using f(1,2) g(1,3) by (simp add: node_view_set_node) (auto simp: sql_update_def keeps_graph_def)
  moreover have "keeps_graph (f \<circ> g)" using f(2) g(1) by (simp add: keeps_graph_def)
  ultimately show "marked j i (node_status_value st) N s'"
    using f(1,3,4) g(2) set_node_wf [OF f(2) _ wf] unfolding marked_def by (metis comp_apply)
qed

lemma runnable_marked:
  assumes "runnable d j" "i \<in> ids_with d j ''pending''" "marked j i ''completed'' (node_view d j) s"
  shows "runnable (ws_db s) j \<and> ids_with (ws_db s) j ''pending'' = ids_with d j ''pending'' - {i} \<and>
     ids_with (ws_db s) j ''completed'' = insert i (ids_with d j ''completed'') \<and> node_ids (ws_db s) j = node_ids d j"
proof -
  from assms(3) obtain f where f: "keeps_graph f" "\<forall>r. nr_status (f r) = ''completed''"
    "\<forall>r. nr_sequence (f r) = nr_sequence r"
    "node_view (ws_db s) j = sql_update (\<lambda>r. nr_id r = i) f (node_view d j)" "db_wf (ws_db s)"
    unfolding marked_def by blast
  then have "node_view (ws_db s) j = node_view (set_node i f d) j" by (simp add: node_view_set_node)
  with complete_set_node [OF assms(1,2), of f] f runnable_cong [of "ws_db s" j "set_node i f d"]
    node_view_cong [of "ws_db s" j "set_node i f d"] set_node_graph(2) [OF f(1)] show ?thesis by simp
qed

lemma progress_kept: "quiet_nodes env j \<Longrightarrow> keeps (same_nodes j) (emit_progress env job ns current)"
  unfolding emit_progress_def by (intro keeps_rules)

text \<open>A round whose node succeeds moves exactly that node from pending to completed.\<close>

lemma start_node_marks:
  assumes "quiet_nodes env j"
  shows "hoare (\<lambda>s. db_wf (ws_db s) \<and> node_view (ws_db s) j = N) (start_node env job node inp)
    (\<lambda>_. marked j (no_id node) ''running'' N)"
  unfolding start_node_def fetch_nodes_def
  by (rule hoare_seq [OF change_node_marks [where st = NODE_RUNNING, simplified]])
     (intro marked_kept keeps_rules progress_kept assms)

lemma run_node_marked:
  assumes "quiet_nodes env j"
  shows "hoare (marked j i st N) (run_node env job node inp) (\<lambda>_. marked j i st N)"
  unfolding run_node_def by (intro marked_kept keeps_rules assms)

lemma node_succeeds_marks:
  assumes "quiet_nodes env j"
  shows "hoare (marked j (no_id node) st N) (node_succeeds env job node result)
    (\<lambda>_. marked j (no_id node) ''completed'' N)"
  unfolding node_succeeds_def fetch_nodes_def
  by (rule hoare_seq [OF change_node_remarks [where st = NODE_COMPLETED, simplified]])
     (intro marked_kept keeps_rules progress_kept assms)

lemma settle_node_marks:
  assumes "quiet_nodes env j"
  shows "hoare (marked j (no_id node) st N) (settle_node env job node outcome)
    (\<lambda>r s. r \<noteq> None \<longrightarrow> marked j (no_id node) ''completed'' N s)"
proof -
  have "hoare (marked j (no_id node) st N) (seq_act (node_succeeds env job node result) (ret (Some result)))
      (\<lambda>r s. r \<noteq> None \<longrightarrow> marked j (no_id node) ''completed'' N s)" for result
    by (rule hoare_seq [OF node_succeeds_marks [OF assms] hoare_ret]) simp
  then show ?thesis
    unfolding settle_node_def by (auto split: node_outcome.split intro!: hoare_seq_last hoare_ret)
qed

lemma bind_reads [simp]: "bind_act (reads g) k s = k (g s) s"
  by (simp add: bind_act_def reads_def)

lemma ret_apply [simp]: "ret x s = Some (Inr x, s)"
  by (simp add: ret_def)

definition loop_rest :: "nat \<Rightarrow> env \<Rightarrow> job \<Rightarrow> (ident \<times> dict) list \<Rightarrow> node \<Rightarrow> bool act" where
  "loop_rest f env job outs node =
     seq_act (start_node env job node (resolve_input node outs))
       (bind_act (run_node env job node (resolve_input node outs)) (\<lambda>outcome.
        bind_act (settle_node env job node outcome) (\<lambda>settled.
        case settled of
          None \<Rightarrow> ret False
        | Some result \<Rightarrow> execute_loop f env job (dict_put (no_id node) (nx_output result) outs))))"

lemma execute_loop_Suc:
  "execute_loop (Suc f) env job outs s =
     (if aborted job s then Some (Inr False, s)
      else case get_next_pending_node (ws_db s) (jo_id job) of
        None \<Rightarrow> Some (Inr (\<not> list_ex (\<lambda>n. no_status n = node_status_value NODE_FAILED) (get_nodes (ws_db s) (jo_id job))), s)
      | Some node \<Rightarrow> loop_rest f env job outs node s)"
  by (simp add: fetch_nodes_def loop_rest_def Let_def split: option.split)

declare execute_loop.simps(2) [simp del]

lemma execute_loop_completes:
  assumes q: "quiet_nodes env (jo_id job)"
  shows "hoare (\<lambda>s. runnable (ws_db s) (jo_id job) \<and> node_ids (ws_db s) (jo_id job) = A) (execute_loop f env job outs)
    (\<lambda>b s. b \<longrightarrow> runnable (ws_db s) (jo_id job) \<and> node_ids (ws_db s) (jo_id job) = A \<and>
       ids_with (ws_db s) (jo_id job) ''pending'' = {})"
    (is "hoare _ _ ?Q")
proof (induction f arbitrary: outs)
  case 0
  then show ?case by (simp add: hoare_def)
next
  case (Suc f)
  let ?j = "jo_id job"
  show ?case
  proof (rule hoareI)
    fix s :: wstate and b s' assume "runnable (ws_db s) ?j \<and> node_ids (ws_db s) ?j = A"
    then have R: "runnable (ws_db s) ?j" and A: "node_ids (ws_db s) ?j = A" by blast+
    assume run: "execute_loop (Suc f) env job outs s = Some (Inr b, s')"
    have wf: "db_wf (ws_db s)" using R by (simp add: runnable_def)
    show "?Q b s'"
    proof (cases "get_next_pending_node (ws_db s) ?j")
      case None
      with runnable_progress [OF R] have "ids_with (ws_db s) ?j ''pending'' = {}" by (auto simp: ids_with_def)
      with run R A None show ?thesis by (auto simp: execute_loop_Suc split: if_splits)
    next
      case (Some node)
      let ?N = "node_view (ws_db s) ?j"
      from next_pending_id(1) [OF wf Some] have pending: "no_id node \<in> ids_with (ws_db s) ?j ''pending''" .
      have "hoare (\<lambda>s. r \<noteq> None \<longrightarrow> marked ?j (no_id node) ''completed'' ?N s)
          (case r of None \<Rightarrow> ret False
           | Some result \<Rightarrow> execute_loop f env job (dict_put (no_id node) (nx_output result) outs)) ?Q" for r
        using runnable_marked [OF R pending] A
        by (cases r) (auto simp: hoare_ret intro: hoare_weaken [OF Suc.IH])
      then have "hoare (\<lambda>s. db_wf (ws_db s) \<and> node_view (ws_db s) ?j = ?N) (loop_rest f env job outs node) ?Q"
        unfolding loop_rest_def
        by (intro hoare_seq [OF start_node_marks [OF q]] hoare_bind [OF run_node_marked [OF q]]
            hoare_bind [OF settle_node_marks [OF q]])
      moreover from run Some have "b = False \<or> loop_rest f env job outs node s = Some (Inr b, s')"
        by (auto simp: execute_loop_Suc split: if_splits)
      ultimately show ?thesis using wf by (auto dest: hoareD)
    qed
  qed
qed

text \<open>
  When the nodes of a job form no cycle and depend only on each other, and the execution reports success,
  the nodes are the same and every one of them is completed. Without that hypothesis it does not follow:
  a node that never becomes ready is left pending, and the execution still reports success.
\<close>

lemma executed_plan_is_complete:
  assumes "quiet_nodes env (jo_id job)" "runnable (ws_db s) (jo_id job)"
    and "execute_nodes f env job nodes s = Some (Inr True, s')"
  shows "node_ids (ws_db s') (jo_id job) = node_ids (ws_db s) (jo_id job) \<and>
    (\<forall>r \<in> set (db_nodes (ws_db s')). nr_job_id r = jo_id job \<longrightarrow> nr_status r = ''completed'')"
proof -
  have "runnable (ws_db s') (jo_id job)" "ids_with (ws_db s') (jo_id job) ''pending'' = {}"
    "node_ids (ws_db s') (jo_id job) = node_ids (ws_db s) (jo_id job)"
    using hoareD [OF execute_loop_completes [OF assms(1)] _ assms(3) [unfolded execute_nodes_def]] assms(2) by blast+
  then show ?thesis by (fastforce simp: runnable_def in_ids_with)
qed

text \<open>The other way round: when no node is ready and none has failed, execution reports success.\<close>

lemma stuck_execution_succeeds:
  assumes "\<not> aborted job s" "db_wf (ws_db s)" "\<forall>r \<in> set (db_nodes (ws_db s)). nr_job_id r = jo_id job \<longrightarrow>
      nr_status r = ''pending'' \<and> (\<exists>dep \<in> set (parse_json_field (nr_depends_on r) []). dep \<notin> node_ids (ws_db s) (jo_id job))"
  shows "execute_nodes (Suc f) env job nodes s = Some (Inr True, s)"
proof -
  have "\<not> eligible (ws_db s) (jo_id job) r" for r
    using assms(3) by (fastforce simp: eligible_def node_ids_def)
  then have "get_next_pending_node (ws_db s) (jo_id job) = None"
    by (simp add: get_next_pending_node_None [OF assms(2)])
  moreover have "\<not> list_ex (\<lambda>n. no_status n = ''failed'') (get_nodes (ws_db s) (jo_id job))"
    using assms(3) by (auto simp: get_nodes_def list_ex_iff set_job_nodes)
  ultimately show ?thesis using assms(1) by (simp add: execute_nodes_def execute_loop_Suc)
qed

text \<open>A stop or a cancellation between nodes makes the execution report failure, so that the job fails.\<close>

lemma aborted_execution_fails: "aborted job s \<Longrightarrow> execute_nodes (Suc f) env job nodes s = Some (Inr False, s)"
  by (simp add: execute_nodes_def execute_loop_Suc)

text \<open>
  A resumed job goes through planning and the creation of nodes again: the nodes it has stay, completed or
  not, and every planned node is added once more.
\<close>

definition extended :: "ident \<Rightarrow> nat \<Rightarrow> node_row list \<Rightarrow> wstate \<Rightarrow> bool" where
  "extended j n N s \<longleftrightarrow> db_wf (ws_db s) \<and> (\<exists>rows. length rows = n \<and> node_view (ws_db s) j = N @ rows)"

lemma create_nodes_wf:
  "db_wf d \<Longrightarrow> create_nodes j defs now d = Inr (ns, d') \<Longrightarrow> db_wf d'"
proof -
  have "insert_nodes j ts now sq defs d = Inr (ns, d') \<Longrightarrow> db_wf d \<Longrightarrow> db_wf d'" for ts sq defs d ns d'
    by (induction j ts now sq defs d arbitrary: ns d' rule: insert_nodes.induct)
       (auto split: sum.splits option.splits dest: insert_wf(2))
  then show "db_wf d \<Longrightarrow> create_nodes j defs now d = Inr (ns, d') \<Longrightarrow> db_wf d'"
    by (simp add: create_nodes_def)
qed

lemma make_nodes_extends:
  "hoare (\<lambda>s. db_wf (ws_db s) \<and> node_view (ws_db s) j = N) (make_nodes env j defs) (\<lambda>_. extended j (length defs) N)"
proof (rule hoareI)
  fix s :: wstate and ns s'
  assume pre: "db_wf (ws_db s) \<and> node_view (ws_db s) j = N" and "make_nodes env j defs s = Some (Inr ns, s')"
  then obtain ids now where c: "create_nodes j (zip ids defs) now (ws_db s) = Inr (ns, ws_db s')" "length ids = length defs"
    by (auto simp: make_nodes_def fresh_ids_def act_defs split: sum.splits)
  let ?rows = "node_rows j (title_to_id (zip ids defs)) now 1 (zip ids defs)"
  have "\<forall>r \<in> set ?rows. nr_job_id r = j"
    by (metis in_set_conv_nth new_node_row_sel(2) node_rows_nth node_rows_sel(1))
  then have "filter (\<lambda>r. nr_job_id r = j) ?rows = ?rows" by (simp add: filter_True)
  with create_nodes_InrD(1) [OF c(1)] pre c(2) show "extended j (length defs) N s'"
    using create_nodes_wf [OF _ c(1)] by (auto simp: extended_def node_view_def)
qed

lemma creation_adds_nodes:
  assumes "quiet_nodes env (jo_id job)" "db_wf (ws_db s)" "create_phase env job defs s = Some (Inr True, s')"
  shows "\<exists>rows. length rows = length defs \<and> node_view (ws_db s') (jo_id job) = node_view (ws_db s) (jo_id job) @ rows"
proof -
  let ?j = "jo_id job" and ?N = "node_view (ws_db s) (jo_id job)"
  have kept: "hoare (extended ?j n ?N) m (\<lambda>_. extended ?j n ?N)" if "keeps (same_nodes ?j) m" for n and m :: "unit act"
    using that by (rule hoare_keeps) (auto simp: extended_def same_nodes_def)
  have "hoare (\<lambda>s. db_wf (ws_db s) \<and> node_view (ws_db s) ?j = ?N) (create_phase env job defs)
      (\<lambda>b s. b \<longrightarrow> extended ?j (length defs) ?N s)"
    unfolding create_phase_def
  proof (rule hoare_bind [OF hoare_try])
    show "hoare (\<lambda>s. db_wf (ws_db s) \<and> node_view (ws_db s) ?j = ?N)
        (bind_act (make_nodes env ?j defs) (\<lambda>nodes. ret True)) (\<lambda>b s. b \<longrightarrow> extended ?j (length defs) ?N s)"
      by (rule hoare_bind [OF make_nodes_extends hoare_ret]) simp
  next
    fix e show "hoare (\<lambda>_. True) (seq_act (handle_failure env job (Some (''Node creation error: '' @ en_error_text env e)) None)
        (ret False)) (\<lambda>b s. b \<longrightarrow> extended ?j (length defs) ?N s)"
      by (intro hoare_seq_last hoare_ret) simp
  next
    fix b show "hoare (\<lambda>s. b \<longrightarrow> extended ?j (length defs) ?N s)
        (if b then seq_act (emit env ''job_nodes_created'' (Some ?j)) (ret True) else ret False)
        (\<lambda>b s. b \<longrightarrow> extended ?j (length defs) ?N s)"
      by (cases b) (auto intro: hoare_seq [OF kept] hoare_ret keeps_rules assms(1))
  qed
  from hoareD [OF this _ assms(3)] assms(2) show ?thesis by (auto simp: extended_def)
qed

section \<open>Claiming a job\<close>

lemma order_by_desc_head:
  assumes "fetchone (order_by_desc k (order_by k' rows)) = Some r"
  shows "r \<in> set rows \<and> (\<forall>q \<in> set rows. k q < k r \<or> k q = k r \<and> k' r \<le> k' q)"
proof -
  let ?xs = "sort_key (\<lambda>r. - k r) (sort_key k' rows)"
  from assms obtain xs where xs: "?xs = r # xs"
    by (auto simp: order_by_desc_def order_by_def fetchone_def split: list.splits)
  have mem: "r \<in> set rows" using arg_cong [OF xs, of set] by auto
  have "k q < k r \<or> k q = k r \<and> k' r \<le> k' q" if "q \<in> set rows" for q
  proof -
    have "sorted (map (\<lambda>r. - k r) (r # xs))" using sorted_sort_key [of "\<lambda>r. - k r" "sort_key k' rows"] xs by simp
    then have le: "k q \<le> k r" using that arg_cong [OF xs, of set] by auto
    moreover have "k' r \<le> k' q" if same: "k q = k r"
    proof -
      have stable: "filter (\<lambda>x. - k x = - k r) ?xs = filter (\<lambda>x. - k x = - k r) (sort_key k' rows)"
        by (rule sort_key_stable)
      have "filter (\<lambda>x. - k x = - k r) (sort_key k' rows) = sort_key k' (filter (\<lambda>x. - k x = - k r) rows)"
        by (rule filter_sort)
      with stable xs have ys: "sort_key k' (filter (\<lambda>x. - k x = - k r) rows) = r # filter (\<lambda>x. - k x = - k r) xs"
        by simp
      have "sorted (map k' (r # filter (\<lambda>x. - k x = - k r) xs))" using sorted_sort_key [of k' "filter (\<lambda>x. - k x = - k r) rows"] unfolding ys .
      moreover have "q \<in> set (r # filter (\<lambda>x. - k x = - k r) xs)" using \<open>q \<in> set rows\<close> same arg_cong [OF ys, of set] by auto
      ultimately show ?thesis by auto
    qed
    ultimately show ?thesis by auto
  qed
  with mem show ?thesis by blast
qed

text \<open>C12. 
  A job that is handed out was, when it was selected, a pending job of the highest priority and among
  those the oldest; whatever other processes do in between, it was still pending when it was claimed. It
  is planning afterwards, so that a second worker that had selected it too claims nothing.
\<close>

theorem claim_is_exclusive:
  assumes "dequeue_next_pending env s = Some (Inr (Some job), s')"
  shows "(\<exists>r \<in> set (db_jobs (ws_db s)). job = job_from_row r \<and> jr_status r = ''pending'' \<and>
      (\<forall>q \<in> set (db_jobs (ws_db s)). jr_status q = ''pending'' \<longrightarrow>
         jr_priority q < jr_priority r \<or> jr_priority q = jr_priority r \<and> jr_created_at r \<le> jr_created_at q)) \<and>
    (\<exists>q \<in> set (db_jobs (en_other_tasks env (ws_tick s) (ws_db s))). jr_id q = jo_id job \<and> jr_status q = ''pending'') \<and>
    (\<exists>q \<in> set (db_jobs (ws_db s')). jr_id q = jo_id job \<and> jr_status q = ''planning'') \<and>
    (\<forall>now. fst (claim_pending (jo_id job) now (ws_db s')) = 0)"
proof -
  let ?d = "en_other_tasks env (ws_tick s) (ws_db s)" and ?now = "en_now env (Suc (ws_tick s))"
  from assms obtain r where r: "oldest_pending (ws_db s) = Some r"
    by (cases "oldest_pending (ws_db s)") (auto simp: dequeue_next_pending_def)
  with assms have run: "job = job_from_row r" "fst (claim_pending (jr_id r) ?now ?d) \<noteq> 0"
      "ws_db s' = snd (claim_pending (jr_id r) ?now ?d)"
    by (auto simp: dequeue_next_pending_def other_process_def act_defs Let_def split: prod.splits if_splits)
  have sel: "r \<in> set (filter (\<lambda>r. jr_status r = ''pending'') (db_jobs (ws_db s))) \<and>
      (\<forall>q \<in> set (filter (\<lambda>r. jr_status r = ''pending'') (db_jobs (ws_db s))).
         jr_priority q < jr_priority r \<or> jr_priority q = jr_priority r \<and> jr_created_at r \<le> jr_created_at q)"
    by (rule order_by_desc_head) (use r in \<open>simp add: oldest_pending_def\<close>)
  from run(2) obtain q where q: "q \<in> set (db_jobs ?d)" "jr_id q = jr_id r" "jr_status q = ''pending''"
    by (auto simp: claim_pending_def Let_def sql_rowcount_0_iff)
  have jobs: "db_jobs (ws_db s') = sql_update (\<lambda>x. jr_id x = jr_id r \<and> jr_status x = ''pending'')
      (\<lambda>x. x\<lparr>jr_status := ''planning'', jr_updated_at := Some ?now\<rparr>) (db_jobs ?d)"
    by (simp add: run(3) claim_pending_def Let_def)
  have "\<exists>x \<in> set (db_jobs (ws_db s')). jr_id x = jr_id r \<and> jr_status x = ''planning''"
    unfolding jobs bex_sql_update using q by (intro bexI [of _ q]) auto
  moreover have "\<forall>x \<in> set (db_jobs (ws_db s')). \<not> (jr_id x = jr_id r \<and> jr_status x = ''pending'')"
    unfolding jobs set_sql_update by auto
  then have "fst (claim_pending (jr_id r) now (ws_db s')) = 0" for now
    by (auto simp: claim_pending_def Let_def sql_rowcount_0_iff)
  ultimately show ?thesis using sel q run(1) by auto
qed

section \<open>Children are waited for in vain\<close>

lemma wait_loop_not_True:
  assumes "quiet env j" "job_rows j s = [r]" "jr_status r \<notin> terminal_statuses"
  shows "wait_loop env j waited s \<noteq> Some (Inr True, s')"
  using assms
proof (induction env j waited arbitrary: s rule: wait_loop.induct)
  case (1 env j waited)
  have first: "is_tree_complete f (ws_db s) j = Inr False \<or> is_tree_complete f (ws_db s) j = Inl RecursionError" for f
    using 1(3,4) by (cases f) (auto simp: is_tree_complete_def job_rows_def)
  let ?s1 = "s\<lparr>ws_db := en_other_tasks env (ws_tick s) (ws_db s),
       ws_worker := (if en_stop env (ws_tick s) then (ws_worker s)\<lparr>wk_running := False\<rparr> else ws_worker s),
       ws_tick := Suc (ws_tick s)\<rparr>"
  have "job_rows j ?s1 = [r]" using 1(2,3) by (simp add: quiet_def job_rows_def)
  then have IH: "wait_loop env j (waited + CHILD_POLL_INTERVAL) ?s1 \<noteq> Some (Inr True, s')" if "waited < CHILD_MAX_WAIT"
    using 1(1) [OF that _ 1(2) _ 1(4)] by blast
  show ?case
    using first [of "en_recursion_limit env"] IH
    by (subst wait_loop.simps) (auto simp: bind_act_def seq_act_def await_def ret_def split: if_splits)
qed

text \<open>
  The worker waits for the tree of the job itself, whose own status is executing: as long as nobody else
  ends the job, the wait never succeeds, whatever becomes of the children.
\<close>

theorem children_wait_never_succeeds:
  assumes "quiet env j" "db_wf (ws_db s)" "r \<in> set (job_rows j s)" "jr_status r \<notin> terminal_statuses"
  shows "wait_for_children env j s \<noteq> Some (Inr True, s')"
proof -
  have "distinct (map jr_id (job_rows j s))" using assms(2) by (simp add: job_rows_def db_wf_def distinct_map_filter)
  moreover have "\<forall>q \<in> set (job_rows j s). jr_id q = j" by (simp add: job_rows_def)
  ultimately have "job_rows j s = [r]" using assms(3)
    by (cases "job_rows j s"; cases "tl (job_rows j s)") auto
  then show ?thesis unfolding wait_for_children_def by (rule wait_loop_not_True [OF assms(1) _ assms(4)])
qed

section \<open>The circuit breaker\<close>

text \<open>
  The third failure in a row opens the circuit for 300 seconds: until the clock reaches the end of the pause,
  a poll claims no job and changes nothing.
\<close>

theorem circuit_breaker_pauses:
  assumes "2 \<le> wk_consecutive_failures (ws_worker s)"
    and "handle_failure env job error node s = Some (Inr (), s1)"
  shows "\<exists>n. wk_circuit_open_until (ws_worker s1) = en_monotonic env n + 300 \<and>
     (\<forall>f s2. ws_worker s2 = ws_worker s1 \<and> en_monotonic env (ws_tick s2) < en_monotonic env n + 300 \<longrightarrow>
        poll_and_execute f env s2 = Some (Inr (), s2\<lparr>ws_tick := Suc (ws_tick s2)\<rparr>))"
proof -
  have "wk_circuit_open_until (ws_worker s1) = en_monotonic env (Suc (Suc (Suc (ws_tick s)))) + 300"
    using assms
    by (auto simp: handle_failure_def set_status_def audit_def act_defs CIRCUIT_BREAKER_THRESHOLD_def
        CIRCUIT_OPEN_PAUSE_SEC_def split: sum.splits option.splits if_splits)
  then show ?thesis
    by (intro exI [of _ "Suc (Suc (Suc (ws_tick s)))"]) (auto simp: poll_and_execute_def bind_act_def ask_def reads_def)
qed

section \<open>The loop ends\<close>

lemma returns_world [returns_rules]:
  "returns (ask h)" "returns (change_worker w)" "returns (change_db g2)" "returns (await env)" "returns (db_act k2)"
  "returns (emit env ev j)"
  by (auto simp: returns_def act_defs split: sum.splits prod.splits)

lemma returns_ops [returns_rules]:
  "returns (change_node env i st ip ou er)" "returns (audit env k action detail node)" "returns (fetch_nodes j)"
  "returns (emit_progress env job ns cur)" "returns (reflect env)"
  unfolding change_node_def audit_def fetch_nodes_def emit_progress_def reflect_def
  by (intro returns_rules)+

lemma returns_delegation [returns_rules]: "returns (handle_delegation env job spec)"
  unfolding handle_delegation_def Let_def
  by (cases spec) (simp_all, (intro returns_rules)+)

lemma returns_round [returns_rules]:
  "returns (start_node env job node inp)" "returns (run_node env job node inp)"
  "returns (settle_node env job node outcome)"
proof -
  have "returns (node_succeeds env job node result)" for result
    unfolding node_succeeds_def
    by (intro returns_rules)
  moreover have "returns (node_fails env job node out er)" for out er
    unfolding node_fails_def by (intro returns_rules)
  ultimately show "returns (settle_node env job node outcome)"
    unfolding settle_node_def
    by (auto split: node_outcome.split intro!: returns_rules)
  show "returns (start_node env job node inp)" "returns (run_node env job node inp)"
    unfolding start_node_def run_node_def by (intro returns_rules)+
qed

lemma pending_marked:
  assumes "i \<in> ids_with d j ''pending''" "marked j i ''completed'' (node_view d j) s"
  shows "ids_with (ws_db s) j ''pending'' = ids_with d j ''pending'' - {i}"
proof -
  from assms(2) obtain f where f: "keeps_graph f" "\<And>r. nr_status (f r) = ''completed''"
    "node_view (ws_db s) j = sql_update (\<lambda>r. nr_id r = i) f (node_view d j)"
    unfolding marked_def by blast
  then have "node_view (ws_db s) j = node_view (set_node i f d) j" by (simp add: node_view_set_node)
  moreover have "i \<in> node_ids d j" using assms(1) by (auto simp: in_ids_with node_ids_def)
  ultimately show ?thesis
    using ids_with_set_node [OF f(1,2), of i d j "''pending''"] node_view_cong(3) [of "ws_db s" j "set_node i f d" "''pending''"]
    by simp
qed

text \<open>
  Each round either ends the loop or completes a pending node: with more fuel than there are pending
  nodes the execution returns, whatever the executor does.
\<close>

lemma execute_loop_returns:
  assumes q: "quiet_nodes env (jo_id job)" and wf: "db_wf (ws_db s)"
    and fuel: "card (ids_with (ws_db s) (jo_id job) ''pending'') < f"
  shows "execute_loop f env job outs s \<noteq> None"
  using wf fuel
proof (induction f arbitrary: outs s)
  case 0
  then show ?case by simp
next
  case (Suc f)
  let ?j = "jo_id job" and ?N = "node_view (ws_db s) (jo_id job)"
  show ?case
  proof (cases "get_next_pending_node (ws_db s) ?j")
    case None
    then show ?thesis by (simp add: execute_loop_Suc)
  next
    case (Some node)
    from next_pending_id(1) [OF Suc.prems(1) Some] have pending: "no_id node \<in> ids_with (ws_db s) ?j ''pending''" .
    have smaller: "execute_loop f env job outs' t \<noteq> None" if "marked ?j (no_id node) ''completed'' ?N t" for outs' t
    proof (rule Suc.IH)
      show "db_wf (ws_db t)" using that by (simp add: marked_def)
      show "card (ids_with (ws_db t) ?j ''pending'') < f"
        unfolding pending_marked [OF pending that] using pending Suc.prems(2)
        by (metis Suc_less_eq card_Suc_Diff1 finite_ids_with)
    qed
    have "loop_rest f env job outs node s \<noteq> None"
    proof -
      have start: "hoare (\<lambda>s. db_wf (ws_db s) \<and> node_view (ws_db s) ?j = ?N)
          (seq_act (start_node env job node (resolve_input node outs))
            (bind_act (run_node env job node (resolve_input node outs)) (settle_node env job node)))
          (\<lambda>r s. r \<noteq> None \<longrightarrow> marked ?j (no_id node) ''completed'' ?N s)"
        by (intro hoare_seq [OF start_node_marks [OF q]] hoare_bind [OF run_node_marked [OF q]] settle_node_marks [OF q])
      let ?m = "seq_act (start_node env job node (resolve_input node outs))
            (bind_act (run_node env job node (resolve_input node outs)) (settle_node env job node))"
      have rest: "loop_rest f env job outs node s = bind_act ?m (\<lambda>settled. case settled of None \<Rightarrow> ret False
          | Some result \<Rightarrow> execute_loop f env job (dict_put (no_id node) (nx_output result) outs)) s"
        unfolding loop_rest_def seq_act_def bind_act_def by (auto split: option.splits sum.splits prod.splits)
      have "returns ?m"
        by (rule returns_seq [OF returns_round(1) returns_bind [OF returns_round(2) returns_round(3)]])
      then obtain r t where m: "?m s = Some (r, t)" by (rule returnsE)
      show ?thesis
      proof (cases r)
        case (Inl e)
        then show ?thesis using m unfolding rest by (simp add: bind_act_def)
      next
        case (Inr settled)
        with hoareD [OF start _ ] m Suc.prems(1) have "settled \<noteq> None \<longrightarrow> marked ?j (no_id node) ''completed'' ?N t" by blast
        then show ?thesis using m Inr smaller unfolding rest by (auto simp: bind_act_def split: option.splits)
      qed
    qed
    with Some show ?thesis by (simp add: execute_loop_Suc)
  qed
qed

lemma execution_returns:
  assumes "quiet_nodes env (jo_id job)" "db_wf (ws_db s)"
    and "card (ids_with (ws_db s) (jo_id job) ''pending'') < f"
  shows "\<exists>r s'. execute_nodes f env job nodes s = Some (r, s')"
  using execute_loop_returns [OF assms] by (simp add: execute_nodes_def)

end
