(* ===== verification/Worker_Runs.thy ===== *)
theory Worker_Runs
  imports Worker_Logic
begin

text \<open>
  Runs of the worker in concrete environments, the witnesses of what \<open>Worker_Logic\<close> shows, and the way
  from a valid plan over its rows to completed nodes. The environment \<open>run_env\<close> plans one node, succeeds
  at every node and passes every review; nothing else touches the database.
\<close>

section \<open>A run\<close>

definition run_env :: env where
  "run_env =
     \<lparr>en_now = (\<lambda>n. int n), en_monotonic = (\<lambda>n. real n), en_uuid = (\<lambda>n. replicate n (CHR ''i'')),
      en_plan = (\<lambda>n d job files. Inr [plain_def ''A'' []]),
      en_execute = (\<lambda>n node job inp. Node_returns
         \<lparr>nx_success = True, nx_output = [(''result'', JStr (no_title node))], nx_error = None,
          nx_tokens_in = 1, nx_tokens_out = 1, nx_duration_ms = 0, nx_tool_calls_made = 0, nx_model_used = ''m''\<rparr>),
      en_review = (\<lambda>n job nodes files. Inr
         \<lparr>rv_passed = True, rv_score = 1, rv_feedback = ''good'', rv_issues = [],
          rv_needs_human_review = False, rv_tier1_passed = True, rv_tier2_passed = True\<rparr>),
      en_reflect = (\<lambda>n. None), en_other_tasks = (\<lambda>n d. d), en_stop = (\<lambda>n. False),
      en_insert_job = insert_job, en_loads = (\<lambda>t. Inl (ValueError t)), en_dumps = (\<lambda>d. ''{}''),
      en_format = (\<lambda>t vs. t), en_error_text = (\<lambda>e. ''error''),
      en_bind_text = (\<lambda>v. Inr []), en_bind_int = (\<lambda>v. Inr 5), en_recursion_limit = 100\<rparr>"

definition run_state :: wstate where
  "run_state =
     \<lparr>ws_db = one_job_db\<lparr>db_jobs := map (\<lambda>r. r\<lparr>jr_status := ''pending''\<rparr>) (db_jobs one_job_db)\<rparr>,
      ws_worker = new_worker\<lparr>wk_running := True\<rparr>, ws_events = [], ws_tick = 0\<rparr>"

fun returned :: "('a result \<times> wstate) option \<Rightarrow> bool" where
  "returned (Some (Inr x, s)) = True"
| "returned r = False"

lemma returned_run: "returned (poll_and_execute 2 run_env run_state)"
  by code_simp

lemma run_quiet: "quiet run_env j" "quiet_nodes run_env j"
  by (simp_all add: quiet_def quiet_nodes_def run_env_def schema_jobs.job_table_axioms)


lemma run_dequeue:
  "dequeue_next_pending run_env run_state = Some (Inr (Some (job_from_row (plain_job ''j'' ''pending''))),
     run_state\<lparr>ws_db := one_job_db\<lparr>db_jobs := [(plain_job ''j'' ''pending'')\<lparr>jr_status := ''planning'', jr_updated_at := Some 1\<rparr>]\<rparr>,
                ws_tick := 2\<rparr>)"
  by (simp add: dequeue_next_pending_def oldest_pending_def run_state_def one_job_db_def empty_db_def
      order_by_desc_def order_by_def fetchone_def plain_job_def spawned_job_def other_process_def claim_pending_def
      act_defs Let_def sql_rowcount_def run_env_def)

theorem claim_is_exclusive_witness:
  "\<exists>s'. dequeue_next_pending run_env run_state = Some (Inr (Some (job_from_row (plain_job ''j'' ''pending''))), s') \<and>
     fst (claim_pending ''j'' 7 (ws_db s')) = 0"
  using claim_is_exclusive [OF run_dequeue] run_dequeue by (simp add: plain_job_def spawned_job_def)

theorem children_wait_never_succeeds_witness:
  "wait_for_children run_env ''j'' (run_state\<lparr>ws_db := one_job_db\<lparr>db_jobs := [plain_job ''j'' ''executing'']\<rparr>\<rparr>) \<noteq>
     Some (Inr True, run_state)"
  by (rule children_wait_never_succeeds [OF run_quiet(1), where r = "plain_job ''j'' ''executing''"])
     (simp_all add: db_wf_def one_job_db_def empty_db_def job_rows_def plain_job_def spawned_job_def terminal_statuses_def)

definition failing_state :: wstate where
  "failing_state = run_state\<lparr>ws_worker := new_worker\<lparr>wk_running := True, wk_consecutive_failures := 2\<rparr>\<rparr>"

theorem circuit_breaker_pauses_witness:
  "\<exists>s1. handle_failure run_env (job_from_row (plain_job ''j'' ''executing'')) (Some ''error'') None failing_state = Some (Inr (), s1) \<and>
     (\<exists>n. wk_circuit_open_until (ws_worker s1) = en_monotonic run_env n + 300)"
proof -
  have "\<exists>s1. handle_failure run_env (job_from_row (plain_job ''j'' ''executing'')) (Some ''error'') None failing_state = Some (Inr (), s1)"
    by (simp add: handle_failure_def set_status_def audit_def act_defs run_env_def add_audit_def insert_audit_def
        failing_state_def run_state_def one_job_db_def empty_db_def update_job_status_def)
  moreover have "2 \<le> wk_consecutive_failures (ws_worker failing_state)" by (simp add: failing_state_def)
  ultimately show ?thesis using circuit_breaker_pauses by blast
qed

section \<open>From a valid plan to completed nodes\<close>

text \<open>
  The definition that \<^verbatim>\<open>create_nodes\<close> reads from a planned dict whose lists hold text, as the planner
  documents them; \<open>None\<close> for a dict with another entry in a list, which the database model has no place for.
\<close>

definition text_value :: "json \<Rightarrow> string option" where
  "text_value v = (case v of JStr t \<Rightarrow> Some t | _ \<Rightarrow> None)"

definition list_value :: "json \<Rightarrow> list_field option" where
  "list_value v = (case v of JList vs \<Rightarrow> Some (As_list (strings_of vs)) | _ \<Rightarrow> None)"

definition holds_text :: "json \<Rightarrow> bool" where
  "holds_text v = (case v of JList vs \<Rightarrow> map JStr (strings_of vs) = vs | _ \<Rightarrow> True)"

fun node_def_of :: "json \<Rightarrow> node_def option" where
  "node_def_of (JObj kvs) =
     (if holds_text (get_or kvs ''tools_allowed'' JNull) \<and> holds_text (get_or kvs ''depends_on'' JNull) then
        Some \<lparr>nd_title = text_value (get_or kvs ''title'' JNull),
          nd_instructions = text_value (get_or kvs ''instructions'' JNull),
          nd_tools_allowed = list_value (get_or kvs ''tools_allowed'' JNull),
          nd_expected_output = text_value (get_or kvs ''expected_output'' JNull),
          nd_input_schema_json = text_value (get_or kvs ''input_schema_json'' JNull),
          nd_output_schema_json = text_value (get_or kvs ''output_schema_json'' JNull),
          nd_depends_on = list_value (get_or kvs ''depends_on'' JNull),
          nd_timeout_sec = (case json_to_int (get_or kvs ''timeout_sec'' (JInt 300)) of Inl e \<Rightarrow> None | Inr n \<Rightarrow> Some n),
          nd_retry_policy_json = None\<rparr>
      else None)"
| "node_def_of _ = None"

lemma node_def_of_typed:
  assumes "node_typed known n" "node_def_of n = Some nd"
  shows "node_def_title nd = pn_title n" "declared_deps nd = strings_of (pn_depends n)" "pn_title n \<noteq> []"
proof -
  from assms obtain node where n: "n = JObj node" by (cases n) auto
  with assms obtain t ds where "get_or node ''title'' JNull = JStr t" "py_strip t \<noteq> []"
    "get_or node ''depends_on'' JNull = JList ds" by auto
  with assms(2) show "node_def_title nd = pn_title n" "declared_deps nd = strings_of (pn_depends n)" "pn_title n \<noteq> []"
    by (auto simp: n node_def_title_def declared_deps_def text_value_def list_value_def split: if_splits)
qed

lemma valid_plan_acyclic_defs:
  assumes "valid_plan known ns" "map node_def_of ns = map Some nds" "length ids = length ns"
  shows "acyclic_defs (zip ids nds)"
proof -
  let ?defs = "zip ids nds"
  have len: "length nds = length ns" using assms(2) by (metis length_map)
  have typed: "\<forall>n \<in> set ns. node_typed known n" using assms(1) by (simp add: valid_plan_def)
  have nth: "node_def_of (ns ! k) = Some (nds ! k)" if "k < length ns" for k
    using that assms(2) len by (metis nth_map)
  have read: "node_def_title (nds ! k) = pn_title (ns ! k)" "declared_deps (nds ! k) = strings_of (pn_depends (ns ! k))"
    "pn_title (ns ! k) \<noteq> []" if "k < length ns" for k
    using node_def_of_typed [OF _ nth [OF that], of known] typed nth_mem [OF that] by blast+
  have snd: "map snd ?defs = nds" using assms(3) len by simp
  then have set: "snd ` set ?defs = set nds" by (metis list.set_map)
  have titles: "map (node_def_title \<circ> snd) ?defs = map pn_title ns"
  proof -
    have "map (node_def_title \<circ> snd) ?defs = map node_def_title nds" by (metis list.map_comp snd)
    also have "\<dots> = map pn_title ns" using len read(1) by (simp add: list_eq_iff_nth_eq)
    finally show ?thesis .
  qed
  have title_set: "node_def_title ` set nds = pn_title ` set ns"
    using arg_cong [OF titles, of set] by (metis list.map_comp list.set_map snd)
  have edge: "(dep, t) \<in> def_edges ?defs \<Longrightarrow> (t, dep) \<in> plan_edges ns" for dep t
  proof -
    assume "(dep, t) \<in> def_edges ?defs"
    then obtain nd where "nd \<in> set nds" "dep \<in> set (declared_deps nd)" "t = node_def_title nd"
      unfolding def_edges_def set by blast
    then obtain k where "k < length ns" "dep \<in> set (declared_deps (nds ! k))" "t = node_def_title (nds ! k)"
      using len by (metis in_set_conv_nth)
    with read have "ns ! k \<in> set ns" "JStr dep \<in> set (pn_depends (ns ! k))" "t = pn_title (ns ! k)" by auto
    with assms(1) show "(t, dep) \<in> plan_edges ns" unfolding plan_edges_def valid_plan_def by blast
  qed
  then have "def_edges ?defs \<subseteq> (plan_edges ns)\<inverse>" by auto
  moreover have "acyclic (plan_edges ns)" using assms(1) by (simp add: valid_plan_def)
  ultimately have "acyclic (def_edges ?defs)" by (metis acyclic_converse acyclic_subset)
  moreover have "Domain (def_edges ?defs) \<subseteq> node_def_title ` snd ` set ?defs"
  proof
    fix dep assume "dep \<in> Domain (def_edges ?defs)"
    with edge obtain t where "(t, dep) \<in> plan_edges ns" by blast
    then show "dep \<in> node_def_title ` snd ` set ?defs" unfolding set title_set by (auto simp: plan_edges_def)
  qed
  moreover have "\<forall>nd \<in> snd ` set ?defs. node_def_title nd \<noteq> []"
    unfolding set using read len by (metis in_set_conv_nth)
  ultimately show ?thesis using assms(1) by (simp add: acyclic_defs_def titles valid_plan_def)
qed


lemma example_valid: "valid_plan [] example_plan"
  using example_plan_validates by (simp add: validate_plan_Nil known_tools_def)

definition example_defs :: "node_def list" where
  "example_defs = map (\<lambda>n. the (node_def_of n)) example_plan"

lemma example_created:
  obtains created d where "create_nodes ''j'' (zip [''n1'', ''n2''] example_defs) 0 one_job_db = Inr (created, d)"
proof -
  have "is_ok (create_nodes ''j'' (zip [''n1'', ''n2''] example_defs) 0 one_job_db)" by code_simp
  then show thesis using that by (metis is_ok.simps(1) old.prod.exhaust sum.exhaust)
qed

lemma example_defs_of: "map node_def_of example_plan = map Some example_defs"
  by (simp add: example_defs_def example_plan_def example_node_def holds_text_def get_or_def obj_get_def)


text \<open>The nodes of this plan, listed out of order, all run in an undisturbed worker.\<close>

definition example_state :: wstate where
  "example_state = run_state\<lparr>ws_db := snd (projr (create_nodes ''j'' (zip [''n1'', ''n2''] example_defs) 0 one_job_db))\<rparr>"

definition example_job :: job where
  "example_job = job_from_row (plain_job ''j'' ''executing'')"

lemma example_runnable: "runnable (ws_db example_state) ''j'' \<and> db_wf (ws_db example_state) \<and>
   ids_with (ws_db example_state) ''j'' ''pending'' = {''n1'', ''n2''}"
proof -
  obtain created d where c: "create_nodes ''j'' (zip [''n1'', ''n2''] example_defs) 0 one_job_db = Inr (created, d)"
    by (rule example_created)
  have "db_wf one_job_db" "\<forall>r \<in> set (db_nodes one_job_db). nr_job_id r \<noteq> ''j''"
    using one_job_inv by (simp_all add: queue_inv_def one_job_db_def empty_db_def)
  moreover have "acyclic_defs (zip [''n1'', ''n2''] example_defs)"
    by (rule valid_plan_acyclic_defs [OF example_valid example_defs_of]) (simp add: example_plan_def)
  ultimately show ?thesis using create_nodes_runnable [OF _ c] c create_nodes_wf [OF _ c]
    by (auto simp: example_state_def example_defs_def example_plan_def)
qed

lemma example_execution_returns:
  "\<exists>r s'. execute_nodes 3 run_env example_job [] example_state = Some (r, s')"
proof -
  have j: "jo_id example_job = ''j''" by (simp add: example_job_def plain_job_def spawned_job_def)
  have "card {''n1'', ''n2''} < (3::nat)" by simp
  then show ?thesis
    using execution_returns [of run_env example_job example_state 3 "[]"] example_runnable run_quiet(2) j by simp
qed

lemma example_plan_completes:
  "\<exists>s'. execute_nodes 3 run_env example_job [] example_state = Some (Inr True, s') \<and>
     (\<forall>r \<in> set (db_nodes (ws_db s')). nr_job_id r = ''j'' \<longrightarrow> nr_status r = ''completed'')"
proof -
  have "case execute_nodes 3 run_env example_job [] example_state of Some (Inr b, s) \<Rightarrow> b | _ \<Rightarrow> False" by code_simp
  then obtain s' where s': "execute_nodes 3 run_env example_job [] example_state = Some (Inr True, s')"
    by (auto split: option.splits prod.splits sum.splits)
  have j: "jo_id example_job = ''j''" by (simp add: example_job_def plain_job_def spawned_job_def)
  show ?thesis
    using executed_plan_is_complete [of run_env example_job example_state, OF _ _ s'] s' example_runnable run_quiet(2) j
    by simp
qed

end
