(* ===== verification/Executor_Logic.thy ===== *)
theory Executor_Logic
  imports Executor
begin

text \<open>
  What holds of every run of a node (\<open>Executor\<close>): it comes to an end, it stays within the limits on model calls, tool
  runs and deletions, no tool runs that the prompt guard and the policy engine have not passed, and a success
  has an output that its schema accepts. The limits are an invariant of the guard, the policy context and the
  trace; the other actions keep these three, which \<open>quiet\<close> says, and need no triples.
\<close>

section \<open>Quiet actions\<close>

definition quiet :: "xstate \<Rightarrow> xstate \<Rightarrow> bool" where
  "quiet s s' \<longleftrightarrow> xs_guard s' = xs_guard s \<and> xs_ctx s' = xs_ctx s \<and> xs_trace s' = xs_trace s"

interpretation quiet: kept_preorder quiet
  by unfold_locales (auto simp: quiet_def)

lemma keeps_changes [keeps_rules]: "(\<And>s. R s (f s)) \<Longrightarrow> keeps R (changes f)"
  by (auto simp: keeps_def act_defs)

lemma quiet_basic [keeps_rules]:
  "keeps quiet (look f)" "keeps quiet (pause env)" "keeps quiet (say m)" "keeps quiet (add_tokens i out)"
  unfolding look_def pause_def say_def add_tokens_def
  by (intro keeps_rules; simp add: quiet_def)+

lemma quiet_except [keeps_rules]:
  "keeps quiet m \<Longrightarrow> (\<And>e. keeps quiet (h e)) \<Longrightarrow> keeps quiet (except_act m h)"
  unfolding except_act_def by (intro keeps_rules)

lemma quiet_parts [keeps_rules]:
  "keeps quiet (read_answer env job response)"
  "keeps quiet (sampled_content env model n content)"
  "keeps quiet (with_credentials env tool args)"
  "keeps quiet (judge_output env node model t raw)"
  "keeps quiet (agent_return output)"
  unfolding read_answer_def sampled_content_def with_credentials_def judge_output_def agent_return_def Let_def
  by (intro keeps_rules conjI | simp split: option.split)+

lemma quiet_ask_policy [keeps_rules]: "keeps quiet (ask_policy env tool args)"
  unfolding ask_policy_def
  by (cases args) (intro keeps_rules | simp | simp add: quiet_def)+

section \<open>Termination\<close>

lemma returns_small [returns_rules]:
  "returns (look f)" "returns (pause env)" "returns (say m)" "returns (add_tokens i out)" "returns (agent_return d)"
  "returns (guard_event node ev)"
  unfolding look_def pause_def say_def add_tokens_def agent_return_def guard_event_def
  by (intro returns_rules)+

lemma returns_except [returns_rules]: "returns m \<Longrightarrow> (\<And>e. returns (h e)) \<Longrightarrow> returns (except_act m h)"
  unfolding except_act_def by (intro returns_rules)

lemma returns_parts [returns_rules]:
  "returns (read_answer env job response)"
  "returns (final_output env node model n content)"
  "returns (with_credentials env tool args)"
  "returns (judge_output env node model t raw)"
  "returns (call_ollama env tools model)"
  unfolding read_answer_def final_output_def sampled_content_def with_credentials_def judge_output_def
    call_ollama_def Let_def
  by (intro returns_rules)+

lemma returns_ask_policy [returns_rules]: "returns (ask_policy env tool args)"
  unfolding ask_policy_def by (cases args) (intro returns_rules | simp)+

lemma returns_run_tool [returns_rules]: "returns (run_tool env tool args)"
proof -
  have "returns (case v of JObj kvs \<Rightarrow> pause env | _ \<Rightarrow> lift_result (Inl (AttributeError ''get'')))" for v
    by (cases v) (simp_all add: returns_rules)
  then show ?thesis unfolding run_tool_def Let_def by (intro returns_rules)
qed

lemma returns_guarded_call [returns_rules]: "returns (guarded_call env node job allowed tool args)"
proof -
  have "returns (decided_call env tool args)"
    unfolding decided_call_def
  proof (intro returns_rules)
    fix d
    show "returns (case pd_result d of
        DENY \<Rightarrow> seq_act (say (Tool_message (Denied_by_policy (pd_reason d)))) (pause env)
      | DRY_RUN \<Rightarrow> seq_act (say (Tool_message (Dry_run_skipped tool))) (pause env)
      | REQUIRE_APPROVAL \<Rightarrow> seq_act (say (Tool_message (Needs_approval tool (pd_approval_id d)))) (pause env)
      | ALLOW \<Rightarrow> run_tool env tool (as_output args))"
      by (cases "pd_result d") (simp_all add: returns_rules)
  qed
  then show ?thesis unfolding guarded_call_def by (intro returns_rules)
qed

lemma returns_process_calls [returns_rules]: "returns (process_calls env node job allowed tcs)"
proof -
  have "returns (case v of JObj kvs \<Rightarrow> ret (Some (delegate_output kvs)) | _ \<Rightarrow> lift_result (Inl (AttributeError ''get'')))"
    for v :: json by (cases v) (simp_all add: returns_rules)
  then have "returns (process_call env node job allowed tc)" for tc
    unfolding process_call_def by (intro returns_rules)
  then show ?thesis by (induction tcs) (auto intro!: returns_rules)
qed

lemma returns_agent_loop [returns_rules]: "returns (agent_loop k env node job tools model n)"
  by (induction k) (auto intro!: returns_rules split: option.split)

lemma returns_execute_node [returns_rules]: "returns (execute_node env node job input_data)"
  unfolding execute_node_def execute_node_inner_def Let_def
  by (intro returns_rules)

section \<open>The limits\<close>

fun is_run :: "effect \<Rightarrow> bool" where
  "is_run (Tool_run tool args) \<longleftrightarrow> True"
| "is_run Model_call \<longleftrightarrow> False"

fun is_deletion :: "effect \<Rightarrow> bool" where
  "is_deletion (Tool_run tool args) \<longleftrightarrow> tool \<in> set DELETE_TOOLS"
| "is_deletion Model_call \<longleftrightarrow> False"

definition how_many :: "('a \<Rightarrow> bool) \<Rightarrow> 'a list \<Rightarrow> int" where
  "how_many P xs = int (length (filter P xs))"

lemma how_many_simps [simp]:
  "how_many P [] = 0" "how_many P (xs @ ys) = how_many P xs + how_many P ys"
  "how_many P (x # xs) = (if P x then 1 else 0) + how_many P xs"
  by (simp_all add: how_many_def)

lemma how_many_pos [simp]: "0 \<le> how_many P xs"
  by (simp add: how_many_def)

text \<open>The context of a node, up to its counters.\<close>

definition context_of :: "xenv \<Rightarrow> node \<Rightarrow> job \<Rightarrow> policy_context \<Rightarrow> bool" where
  "context_of env node job ctx \<longleftrightarrow>
     ctx\<lparr>pc_tool_call_count := 0, pc_delete_count := 0\<rparr> = new_policy_context env node job"

lemma context_of_simps [simp]:
  "context_of env node job (new_policy_context env node job)"
  "context_of env node job (ctx\<lparr>pc_tool_call_count := n\<rparr>) = context_of env node job ctx"
  "context_of env node job (ctx\<lparr>pc_delete_count := n\<rparr>) = context_of env node job ctx"
  by (simp_all add: context_of_def new_policy_context_def)

lemma fresh_counts:
  "pc_tool_call_count (new_policy_context env node job) = 0" "pc_delete_count (new_policy_context env node job) = 0"
  by (simp_all add: new_policy_context_def)

text \<open>A tool run is cleared when the guard has no issue with the call, as it was made by the model, and the policy
  engine answered \<open>ALLOW\<close> to it in a context of the node. Only credentials are added in between.\<close>

definition cleared :: "xenv \<Rightarrow> node \<Rightarrow> job \<Rightarrow> guard_config \<Rightarrow> string \<Rightarrow> (string \<times> json) list \<Rightarrow> bool" where
  "cleared env node job cfg tool kvs \<longleftrightarrow>
     tool \<noteq> ''delegate'' \<and>
     (\<exists>g. pg_config g = cfg \<and>
        validate_tool_call g (xe_resolve env) tool (JObj kvs)
          (scope_tools (xe_registry env) (no_tools_allowed node)) (job_dir env job) = Inr []) \<and>
     (\<exists>ctx i now ps dec ps'. context_of env node job ctx \<and>
        evaluate (xe_str env) (xe_policies_load env) tool kvs ctx i now ps = Inr (dec, ps') \<and> pd_result dec = ALLOW)"

fun mediated :: "xenv \<Rightarrow> node \<Rightarrow> job \<Rightarrow> guard_config \<Rightarrow> effect \<Rightarrow> bool" where
  "mediated env node job cfg Model_call \<longleftrightarrow> True"
| "mediated env node job cfg (Tool_run tool args) \<longleftrightarrow>
     (\<exists>kvs. cleared env node job cfg tool kvs \<and>
        (args = JObj kvs \<or> (\<exists>c. injects_credentials tool kvs \<and> args = JObj (dict_put ''credentials'' c kvs))))"

definition halting :: "guard_config \<Rightarrow> bool" where
  "halting cfg \<longleftrightarrow> gc_check_anomaly cfg \<and> gc_anomaly_halts_job cfg"

definition within_limits :: "xenv \<Rightarrow> node \<Rightarrow> job \<Rightarrow> guard_config \<Rightarrow> effect list \<Rightarrow> bool" where
  "within_limits env node job cfg new \<longleftrightarrow>
     (\<forall>e \<in> set new. mediated env node job cfg e) \<and>
     how_many (\<lambda>e. e = Model_call) new \<le> 20 \<and> how_many is_run new \<le> 99 \<and> how_many is_deletion new \<le> 10 \<and>
     (halting cfg \<longrightarrow> how_many is_run new \<le> 50)"

definition stays_within :: "xenv \<Rightarrow> node \<Rightarrow> job \<Rightarrow> guard_config \<Rightarrow> effect list \<Rightarrow> xstate \<Rightarrow> bool" where
  "stays_within env node job cfg before s \<longleftrightarrow>
     (\<exists>new. xs_trace s = before @ new \<and> within_limits env node job cfg new)"

text \<open>The invariant of the loop: the counters of the policy context and of the guard are at least the numbers of runs
  they stand for. \<open>u\<close>, \<open>v\<close> tell how far the counters are ahead in the middle of a call, \<open>w\<close> how far the one
  of the deletions is behind, \<open>k\<close> how many calls of the model are left.\<close>

definition counted ::
  "xenv \<Rightarrow> node \<Rightarrow> job \<Rightarrow> guard_config \<Rightarrow> effect list \<Rightarrow> int \<Rightarrow> int \<Rightarrow> int \<Rightarrow> nat \<Rightarrow> xstate \<Rightarrow> bool" where
  "counted env node job cfg before u v w k s \<longleftrightarrow>
     pg_config (xs_guard s) = cfg \<and>
     context_of env node job (xs_ctx s) \<and>
     (\<exists>new. xs_trace s = before @ new \<and> within_limits env node job cfg new \<and>
        how_many (\<lambda>e. e = Model_call) new + int k \<le> 20 \<and>
        how_many is_run new + u \<le> pc_tool_call_count (xs_ctx s) \<and>
        how_many is_deletion new \<le> pc_delete_count (xs_ctx s) + w \<and>
        (halting cfg \<longrightarrow> how_many is_run new + v \<le>
           min 50 (int (count_of (pg_tool_call_counts (xs_guard s)) (no_id node @ ''::__total__'')))))"

lemma counted_within: "counted env node job cfg before u v w k s \<Longrightarrow> stays_within env node job cfg before s"
  by (auto simp: counted_def stays_within_def)

lemma counted_quiet: "counted env node job cfg before u v w k s \<Longrightarrow> quiet s s' \<Longrightarrow> counted env node job cfg before u v w k s'"
  by (simp add: counted_def quiet_def)

lemma counted_mono:
  "counted env node job cfg before u v w k s \<Longrightarrow> u' \<le> u \<Longrightarrow> v' \<le> v \<Longrightarrow> w \<le> w' \<Longrightarrow> k' \<le> k \<Longrightarrow>
   counted env node job cfg before u' v' w' k' s"
  unfolding counted_def by fastforce

lemma stays_quiet: "stays_within env node job cfg before s \<Longrightarrow> quiet s s' \<Longrightarrow> stays_within env node job cfg before s'"
  by (simp add: stays_within_def quiet_def)

text \<open>A quiet action keeps the counters, with more about them when that is about the three fields only.\<close>

lemma quiet_counted:
  "keeps quiet m \<Longrightarrow>
   triple (counted env node job cfg before u v w k) m (\<lambda>_. counted env node job cfg before u v w k)
     (\<lambda>_. stays_within env node job cfg before)"
  by (rule triple_weaken [OF triple_keeps [of quiet m "counted env node job cfg before u v w k"]])
     (auto intro: counted_within counted_quiet)

lemma quiet_stays:
  "keeps quiet m \<Longrightarrow>
   triple (stays_within env node job cfg before) m (\<lambda>_. stays_within env node job cfg before)
     (\<lambda>_. stays_within env node job cfg before)"
  by (rule triple_keeps [of quiet]) (auto intro: stays_quiet)

section \<open>One tool call\<close>

lemma count_of_bump: "count_of (bump k counts) j = (if j = k then Suc (count_of counts k) else count_of counts j)"
  by (simp add: count_of_def bump_def map_of_dict_put)

lemma bump_total: "count_of counts t \<le> count_of (bump t (bump k counts)) t"
  "Suc (count_of counts t) \<le> count_of (bump t (bump k counts)) t"
  by (auto simp: count_of_bump)

text \<open>The guard counts the call; where anomalies halt the node, it lets at most fifty through.\<close>

lemma check_anomaly_config: "pg_config (snd (check_anomaly n ev g)) = pg_config g"
  by (auto simp: check_anomaly_def Let_def split: guard_event.split)

lemma guard_event_counts:
  "triple (counted env node job cfg before 0 0 0 k) (guard_event (no_id node) (Tool_call tool allowed))
     (\<lambda>a s. counted env node job cfg before 0 (if a = None then 1 else 0) 0 k s)
     (\<lambda>_. stays_within env node job cfg before)"
proof -
  let ?C = "\<lambda>v s. counted env node job cfg before 0 v 0 k s"
  have "?C (if fst (check_anomaly (no_id node) (Tool_call tool allowed) (xs_guard s)) = None then 1 else 0)
      (s\<lparr>xs_guard := snd (check_anomaly (no_id node) (Tool_call tool allowed) (xs_guard s))\<rparr>)"
    if "?C 0 s" for s
  proof -
    from that have "pg_config (xs_guard s) = cfg" by (simp add: counted_def)
    with that bump_total [of "pg_tool_call_counts (xs_guard s)" "no_id node @ ''::__total__''" "no_id node @ ''::'' @ tool"]
    show ?thesis
      by (force simp: counted_def check_anomaly_config check_anomaly_def halting_def Let_def GUARD_MAX_TOOL_CALLS_def)
  qed
  then show ?thesis by (simp add: triple_def guard_event_def act_defs split_beta)
qed

lemma guard_event_other:
  assumes "\<And>t a. ev \<noteq> Tool_call t a"
  shows "keeps quiet (guard_event n ev)"
proof -
  have "snd (check_anomaly n ev g) = g" for g
    using assms by (auto simp: check_anomaly_def split: guard_event.split)
  then show ?thesis by (simp add: keeps_def guard_event_def act_defs quiet_def split_beta)
qed

definition runs_ok :: "xenv \<Rightarrow> node \<Rightarrow> job \<Rightarrow> guard_config \<Rightarrow> string \<Rightarrow> (string \<times> json) list \<Rightarrow> xstate \<Rightarrow> bool" where
  "runs_ok env node job cfg tool args s \<longleftrightarrow>
     mediated env node job cfg (Tool_run tool (JObj args)) \<and>
     pc_tool_call_count (xs_ctx s) \<le> 99 \<and> (tool \<in> set DELETE_TOOLS \<longrightarrow> pc_delete_count (xs_ctx s) \<le> 9)"

lemma logged_run_counted:
  assumes "counted env node job cfg before 1 1 0 k s" "runs_ok env node job cfg tool args s"
  shows "counted env node job cfg before 0 0 (if tool \<in> set DELETE_TOOLS then 1 else 0) k
    (s\<lparr>xs_trace := xs_trace s @ [Tool_run tool (JObj args)]\<rparr>)"
proof -
  from assms(1) obtain new where new: "xs_trace s = before @ new" "within_limits env node job cfg new"
      "how_many (\<lambda>e. e = Model_call) new + int k \<le> 20" "how_many is_run new + 1 \<le> pc_tool_call_count (xs_ctx s)"
      "how_many is_deletion new \<le> pc_delete_count (xs_ctx s)"
      "halting cfg \<longrightarrow> how_many is_run new + 1 \<le>
         min 50 (int (count_of (pg_tool_call_counts (xs_guard s)) (no_id node @ ''::__total__'')))"
    by (auto simp: counted_def)
  from new assms(2) have "within_limits env node job cfg (new @ [Tool_run tool (JObj args)])"
    by (auto simp: within_limits_def runs_ok_def simp del: mediated.simps)
  with new assms(1) show ?thesis
    unfolding counted_def by (intro conjI exI [of _ "new @ [Tool_run tool (JObj args)]"]) auto
qed

lemma with_credentials_value:
  "triple (\<lambda>s. P s) (with_credentials env tool args0)
     (\<lambda>args _. args = args0 \<or> (\<exists>c. injects_credentials tool args0 \<and> args = dict_put ''credentials'' c args0)) (\<lambda>_ _. True)"
  unfolding with_credentials_def
  by (intro triple_if triple_bind [where R = "\<lambda>_ _. True"] triple_basic)
     (auto simp: triple_def split: sum.split option.split)

text \<open>A value an action gives, with what it keeps.\<close>

lemma triple_conj:
  "triple P m Q E \<Longrightarrow> triple P m Q' (\<lambda>_ _. True) \<Longrightarrow> triple P m (\<lambda>x s. Q x s \<and> Q' x s) E"
  unfolding triple_def by (fastforce split: sum.splits)

lemma runs_ok_quiet: "runs_ok env node job cfg tool args s \<Longrightarrow> quiet s s' \<Longrightarrow> runs_ok env node job cfg tool args s'"
  by (simp add: runs_ok_def quiet_def)

definition clear_to_run :: "xenv \<Rightarrow> node \<Rightarrow> job \<Rightarrow> guard_config \<Rightarrow> string \<Rightarrow> (string \<times> json) list \<Rightarrow> xstate \<Rightarrow> bool" where
  "clear_to_run env node job cfg tool kvs s \<longleftrightarrow>
     cleared env node job cfg tool kvs \<and>
     pc_tool_call_count (xs_ctx s) \<le> 99 \<and> (tool \<in> set DELETE_TOOLS \<longrightarrow> pc_delete_count (xs_ctx s) \<le> 9)"

lemma with_credentials_counted:
  "triple (\<lambda>s. counted env node job cfg before 1 1 0 k s \<and> clear_to_run env node job cfg tool kvs s)
     (with_credentials env tool kvs)
     (\<lambda>args s. counted env node job cfg before 1 1 0 k s \<and> runs_ok env node job cfg tool args s)
     (\<lambda>_. stays_within env node job cfg before)"
proof -
  let ?P = "\<lambda>s. counted env node job cfg before 1 1 0 k s \<and> clear_to_run env node job cfg tool kvs s"
  have "triple ?P (with_credentials env tool kvs) (\<lambda>_. ?P) (\<lambda>_. ?P)"
    by (rule triple_keeps [of quiet])
      (auto intro: keeps_rules counted_quiet simp: clear_to_run_def quiet_def)
  from triple_conj [OF this with_credentials_value] show ?thesis
    by (rule triple_weaken) (auto simp: clear_to_run_def runs_ok_def intro: counted_within)
qed

lemma run_tool_counted:
  "triple (\<lambda>s. counted env node job cfg before 1 1 0 k s \<and> clear_to_run env node job cfg tool kvs s)
     (run_tool env tool kvs) (\<lambda>_. counted env node job cfg before 0 0 0 k) (\<lambda>_. stays_within env node job cfg before)"
proof -
  let ?w = "if tool \<in> set DELETE_TOOLS then 1 else 0 :: int"
  let ?f = "\<lambda>s. s\<lparr>xs_tool_calls_made := Suc (xs_tool_calls_made s),
      xs_ctx := (if tool \<in> set DELETE_TOOLS then (xs_ctx s)\<lparr>pc_delete_count := pc_delete_count (xs_ctx s) + 1\<rparr> else xs_ctx s)\<rparr>"
  have upd: "counted env node job cfg before 0 0 0 k (?f s)" if "counted env node job cfg before 0 0 ?w k s" for s
    using that unfolding counted_def by (cases "tool \<in> set DELETE_TOOLS") (auto 4 3)
  have last: "keeps quiet (case v of JObj kvs \<Rightarrow> pause env | _ \<Rightarrow> lift_result (Inl (AttributeError ''get'')))" for v
    by (cases v) (simp_all add: keeps_rules)
  show ?thesis
    unfolding run_tool_def Let_def
  proof (rule triple_bind [OF with_credentials_counted], goal_cases)
    case (1 args)
    show ?case
    proof (rule triple_seq [where R = "counted env node job cfg before 0 0 ?w k"], goal_cases)
      case 1
      show ?case by (rule triple_basic(3)) (rule logged_run_counted; blast)
    next
      case 2
      show ?case
      proof (rule triple_bind [OF quiet_counted [OF quiet_basic(1)]], rule triple_seq [OF quiet_counted [OF quiet_basic(2)]],
          rule triple_seq [where R = "counted env node job cfg before 0 0 0 k"], goal_cases)
        case (1 r)
        show ?case by (rule triple_basic(3)) (rule upd)
      next
        case (2 r)
        show ?case by (rule triple_seq [OF quiet_counted [OF quiet_basic(3)]]) (rule quiet_counted [OF last])
      qed
    qed
  qed
qed

lemma allowed_within:
  assumes "evaluate str loads_ok tool kvs ctx i now ps = Inr (dec, ps')" "pd_result dec = ALLOW"
  shows "pc_tool_call_count ctx \<le> 99" "tool \<in> set DELETE_TOOLS \<Longrightarrow> pc_delete_count ctx \<le> 9"
  using assms
  by (auto simp: evaluate_def check_builtin_policies_def deny_def MAX_TOOL_CALLS_PER_NODE_def MAX_DELETES_PER_NODE_def
      split: if_splits)

definition guard_passed :: "xenv \<Rightarrow> node \<Rightarrow> job \<Rightarrow> guard_config \<Rightarrow> string \<Rightarrow> json \<Rightarrow> bool" where
  "guard_passed env node job cfg tool args \<longleftrightarrow> tool \<noteq> ''delegate'' \<and>
     (\<exists>g. pg_config g = cfg \<and>
        validate_tool_call g (xe_resolve env) tool args
          (scope_tools (xe_registry env) (no_tools_allowed node)) (job_dir env job) = Inr [])"

lemma ask_policy_value:
  "triple P (ask_policy env tool args)
     (\<lambda>d s. \<exists>kvs i now ps ps'. args = JObj kvs \<and>
        evaluate (xe_str env) (xe_policies_load env) tool kvs (xs_ctx s) i now ps = Inr (d, ps'))
     (\<lambda>_ _. True)"
proof (cases args)
  case (JObj kvs)
  show ?thesis unfolding JObj
    by (auto simp: triple_def ask_policy_def look_def act_defs split: sum.splits)
qed (auto simp: triple_def ask_policy_def act_defs split: sum.splits)

lemma ask_policy_counted:
  assumes "guard_passed env node job cfg tool args"
  shows "triple (counted env node job cfg before 1 1 0 k) (ask_policy env tool args)
     (\<lambda>d s. counted env node job cfg before 1 1 0 k s \<and>
        (pd_result d = ALLOW \<longrightarrow> clear_to_run env node job cfg tool (as_output args) s))
     (\<lambda>_. stays_within env node job cfg before)"
proof -
  let ?C = "counted env node job cfg before 1 1 0 k"
  have post: "pd_result d = ALLOW \<longrightarrow> clear_to_run env node job cfg tool (as_output args) s"
    if "?C s" "\<exists>kvs i now ps ps'. args = JObj kvs \<and>
      evaluate (xe_str env) (xe_policies_load env) tool kvs (xs_ctx s) i now ps = Inr (d, ps')" for d s
  proof
    assume d: "pd_result d = ALLOW"
    from that(2) obtain kvs i now ps ps' where args: "args = JObj kvs" and
      ev: "evaluate (xe_str env) (xe_policies_load env) tool kvs (xs_ctx s) i now ps = Inr (d, ps')" by blast
    from that(1) have "context_of env node job (xs_ctx s)" by (simp add: counted_def)
    with assms args ev d have "cleared env node job cfg tool kvs"
      unfolding cleared_def guard_passed_def by blast
    with args d allowed_within [OF ev] show "clear_to_run env node job cfg tool (as_output args) s"
      by (simp add: clear_to_run_def)
  qed
  show ?thesis
    by (rule triple_weaken [OF triple_conj [OF quiet_counted [OF quiet_ask_policy] ask_policy_value]])
      (assumption, use post in blast, assumption)
qed

lemma decided_call_counted:
  assumes "guard_passed env node job cfg tool args"
  shows "triple (counted env node job cfg before 0 1 0 k) (decided_call env tool args)
     (\<lambda>_. counted env node job cfg before 0 0 0 k) (\<lambda>_. stays_within env node job cfg before)"
  unfolding decided_call_def
proof (rule triple_seq [where R = "counted env node job cfg before 1 1 0 k"], goal_cases)
  case 1
  show ?case by (rule triple_basic(3)) (auto simp: counted_def)
next
  case 2
  show ?case
  proof (rule triple_bind [OF ask_policy_counted [OF assms]], goal_cases)
    case (1 d)
    have said: "triple (counted env node job cfg before 1 1 0 k) (seq_act (say m) (pause env))
        (\<lambda>_. counted env node job cfg before 0 0 0 k) (\<lambda>_. stays_within env node job cfg before)" for m
      by (rule triple_weaken [OF quiet_counted [of "seq_act (say m) (pause env)" env node job cfg before 1 1 0 k]])
        (auto intro: keeps_rules counted_mono)
    show ?case
    proof (cases "pd_result d")
      case ALLOW
      with run_tool_counted [of env node job cfg before k tool "as_output args"] show ?thesis by simp
    qed (simp_all add: said)
  qed
qed

lemma config_known: "counted env node job cfg before u v w k s \<Longrightarrow> pg_config (xs_guard s) = cfg"
  by (simp add: counted_def)

lemma guarded_call_counted:
  assumes "tool \<noteq> ''delegate''" and tools: "tools = scope_tools (xe_registry env) (no_tools_allowed node)"
  shows "triple (counted env node job cfg before 0 0 0 k) (guarded_call env node job tools tool args)
     (\<lambda>_. counted env node job cfg before 0 0 0 k) (\<lambda>_. stays_within env node job cfg before)"
proof -
  let ?C = "\<lambda>v. counted env node job cfg before 0 v 0 k" and ?E = "\<lambda>_. stays_within env node job cfg before"
  let ?v = "\<lambda>a. if a = None then 1 else 0 :: int"
  have blocked: "triple (?C 1) (bind_act (guard_event (no_id node) (Tool_blocked tool)) (\<lambda>a.
      seq_act (say m) (pause env))) (\<lambda>_. ?C 0) ?E" for m
    by (rule triple_weaken [OF quiet_counted [of _ env node job cfg before 0 1 0 k]])
      (auto intro: keeps_rules guard_event_other counted_mono)
  have validated: "triple (?C 1)
      (bind_act (reads (\<lambda>s. validate_tool_call (xs_guard s) (xe_resolve env) tool args tools (job_dir env job))) (\<lambda>r.
       bind_act (lift_result r) (\<lambda>issues.
       if issues \<noteq> [] then
         bind_act (guard_event (no_id node) (Tool_blocked tool)) (\<lambda>a.
           seq_act (say (Tool_message (Blocked_by_guard issues))) (pause env))
       else decided_call env tool args))) (\<lambda>_. ?C 0) ?E"
  proof (rule triple_bind [where R = "\<lambda>r s. ?C 1 s \<and> (r = Inr [] \<longrightarrow> guard_passed env node job cfg tool args)"], goal_cases)
    case 1
    show ?case
      by (rule triple_basic(2)) (use assms config_known in \<open>unfold guard_passed_def, blast\<close>)
  next
    case (2 r)
    show ?case
    proof (rule triple_bind [where R = "\<lambda>issues s. ?C 1 s \<and> (issues = [] \<longrightarrow> guard_passed env node job cfg tool args)"], goal_cases)
      case 1
      show ?case by (rule triple_lift) (auto intro: counted_within)
    next
      case (2 issues)
      show ?case
      proof (cases "issues = [] \<and> guard_passed env node job cfg tool args")
        case True
        with decided_call_counted [of env node job cfg tool args before k] show ?thesis by simp
      next
        case False
        with blocked [of "Tool_message (Blocked_by_guard issues)"] show ?thesis
          by (cases "issues = []") (simp_all add: triple_def)
      qed
    qed
  qed
  show ?thesis
    unfolding guarded_call_def
  proof (rule triple_bind [OF guard_event_counts], goal_cases)
    case (1 a)
    show ?case
    proof (rule triple_bind [where R = "\<lambda>h s. ?C (?v a) s \<and> h = gc_anomaly_halts_job cfg"], goal_cases)
      case 1
      show ?case by (rule triple_basic(2)) (auto simp: anomaly_halts_job_def dest: config_known)
    next
      case (2 h)
      show ?case
      proof (rule triple_if)
        show "triple (\<lambda>s. ?C (?v a) s \<and> h = gc_anomaly_halts_job cfg)
            (lift_result (Inl (RuntimeError ''Critical anomaly halts node''))) (\<lambda>_. ?C 0) ?E"
          by (rule triple_lift) (auto intro: counted_within)
      next
        assume go: "\<not> (a \<noteq> None \<and> h)"
        have "?C 1 s" if "?C (?v a) s \<and> h = gc_anomaly_halts_job cfg" for s
          using that go by (cases "a = None") (auto simp: counted_def halting_def)
        then show "triple (\<lambda>s. ?C (?v a) s \<and> h = gc_anomaly_halts_job cfg)
      (bind_act (reads (\<lambda>s. validate_tool_call (xs_guard s) (xe_resolve env) tool args tools (job_dir env job))) (\<lambda>r.
       bind_act (lift_result r) (\<lambda>issues.
       if issues \<noteq> [] then
         bind_act (guard_event (no_id node) (Tool_blocked tool)) (\<lambda>a.
           seq_act (say (Tool_message (Blocked_by_guard issues))) (pause env))
       else decided_call env tool args))) (\<lambda>_. ?C 0) ?E"
          by (rule triple_weaken [OF validated])
      qed
    qed
  qed
qed

lemma process_call_counted:
  assumes "tools = scope_tools (xe_registry env) (no_tools_allowed node)"
  shows "triple (counted env node job cfg before 0 0 0 k) (process_call env node job tools tc)
     (\<lambda>_. counted env node job cfg before 0 0 0 k) (\<lambda>_. stays_within env node job cfg before)"
proof -
  let ?C = "counted env node job cfg before 0 0 0 k" and ?E = "\<lambda>_. stays_within env node job cfg before"
  have d: "triple ?C (case v of JObj kvs \<Rightarrow> ret (Some (delegate_output kvs)) | _ \<Rightarrow> lift_result (Inl (AttributeError ''get'')))
      (\<lambda>_. ?C) ?E" for v
    by (cases v) (auto intro!: quiet_counted intro: keeps_rules)
  have g: "triple ?C (seq_act (guarded_call env node job tools (tr_name tc) args) (ret None)) (\<lambda>_. ?C) ?E"
    if "tr_name tc \<noteq> ''delegate''" for args
    by (rule triple_seq [OF guarded_call_counted [OF that assms]]) (auto intro: triple_basic)
  show ?thesis
    unfolding process_call_def
    by (rule triple_bind [OF quiet_counted], rule keeps_rules, rule triple_seq [OF quiet_counted], rule keeps_rules)
      (auto intro: triple_if d g)
qed

lemma process_calls_counted:
  assumes "tools = scope_tools (xe_registry env) (no_tools_allowed node)"
  shows "triple (counted env node job cfg before 0 0 0 k) (process_calls env node job tools tcs)
     (\<lambda>_. counted env node job cfg before 0 0 0 k) (\<lambda>_. stays_within env node job cfg before)"
proof (induction tcs)
  case Nil
  show ?case by (simp add: triple_basic)
next
  case (Cons tc tcs)
  have "triple (counted env node job cfg before 0 0 0 k)
      (case out of None \<Rightarrow> process_calls env node job tools tcs | Some d \<Rightarrow> ret (Some d))
      (\<lambda>_. counted env node job cfg before 0 0 0 k) (\<lambda>_. stays_within env node job cfg before)" for out
    by (cases out) (simp_all add: Cons triple_basic)
  then show ?case by (simp add: triple_bind [OF process_call_counted [OF assms]])
qed

section \<open>The loop and the node\<close>

lemma call_ollama_counted:
  "triple (counted env node job cfg before 0 0 0 (Suc k)) (call_ollama env tools model)
     (\<lambda>_. counted env node job cfg before 0 0 0 k) (\<lambda>_. stays_within env node job cfg before)"
proof -
  have logged: "counted env node job cfg before 0 0 0 k (s\<lparr>xs_trace := xs_trace s @ [Model_call]\<rparr>)"
    if "counted env node job cfg before 0 0 0 (Suc k) s" for s
  proof -
    from that obtain new where new: "xs_trace s = before @ new" "within_limits env node job cfg new"
        "how_many (\<lambda>e. e = Model_call) new + int (Suc k) \<le> 20" "how_many is_run new \<le> pc_tool_call_count (xs_ctx s)"
        "how_many is_deletion new \<le> pc_delete_count (xs_ctx s)"
        "halting cfg \<longrightarrow> how_many is_run new \<le>
           min 50 (int (count_of (pg_tool_call_counts (xs_guard s)) (no_id node @ ''::__total__'')))"
      by (auto simp: counted_def)
    then have "within_limits env node job cfg (new @ [Model_call])" by (auto simp: within_limits_def)
    with new that show ?thesis unfolding counted_def by (intro conjI exI [of _ "new @ [Model_call]"]) auto
  qed
  show ?thesis
    unfolding call_ollama_def
    by (rule triple_seq [where R = "counted env node job cfg before 0 0 0 k"], rule triple_basic(3), erule logged)
      (intro quiet_counted keeps_rules)
qed

lemma final_output_quiet [keeps_rules]: "keeps quiet (final_output env node model n content)"
  unfolding final_output_def by (intro keeps_rules guard_event_other) simp

lemma agent_loop_counted:
  assumes tools: "tools = scope_tools (xe_registry env) (no_tools_allowed node)"
  shows "triple (counted env node job cfg before 0 0 0 k) (agent_loop k env node job tools model n)
     (\<lambda>_. stays_within env node job cfg before) (\<lambda>_. stays_within env node job cfg before)"
proof (induction k)
  case 0
  show ?case by (simp, rule triple_lift) (auto intro: counted_within)
next
  case (Suc k)
  let ?C = "counted env node job cfg before 0 0 0 k" and ?S = "stays_within env node job cfg before"
  have ends: "keeps quiet m \<Longrightarrow> triple ?C m (\<lambda>_. ?S) (\<lambda>_. ?S)" for m :: "agent_result xact"
    by (rule triple_weaken [OF quiet_counted [of m env node job cfg before 0 0 0 k]]) (auto intro: counted_within)
  have more: "triple ?C (case out of Some d \<Rightarrow> agent_return d | None \<Rightarrow> agent_loop k env node job tools model n)
      (\<lambda>_. ?S) (\<lambda>_. ?S)" for out
    by (cases out) (simp_all add: Suc ends keeps_rules)
  have calls: "triple ?C (seq_act (say m) (bind_act (process_calls env node job tools cs) (\<lambda>out.
      case out of Some d \<Rightarrow> agent_return d | None \<Rightarrow> agent_loop k env node job tools model n))) (\<lambda>_. ?S) (\<lambda>_. ?S)" for m cs
    by (rule triple_seq [OF quiet_counted [OF quiet_basic(3)]], rule triple_bind [OF process_calls_counted [OF tools]])
      (rule more)
  show ?case
    unfolding agent_loop.simps
  proof (rule triple_seq [OF quiet_counted [OF quiet_basic(2)]], rule triple_bind [OF call_ollama_counted], goal_cases)
    case (1 response)
    show ?case
    proof (cases "lr_error response")
      case None
      show ?thesis unfolding None option.case
      proof (rule triple_seq [OF quiet_counted [OF quiet_basic(4)]], rule triple_bind [OF quiet_counted [OF quiet_parts(1)]], goal_cases)
        case (1 x)
        show ?case by (cases x) (auto intro!: calls ends keeps_rules)
      qed
    qed (simp add: ends keeps_rules)
  qed
qed

lemma execute_node_counted:
  "triple (\<lambda>s. xs_trace s = before \<and> pg_config (xs_guard s) = cfg) (execute_node env node job input_data)
     (\<lambda>_. stays_within env node job cfg before) (\<lambda>_. stays_within env node job cfg before)"
proof -
  let ?P = "\<lambda>s. xs_trace s = before \<and> pg_config (xs_guard s) = cfg" and ?S = "stays_within env node job cfg before"
  let ?C = "counted env node job cfg before 0 0 0 20"
  have ok: "?S s" if "?P s" for s
    using that by (auto simp: stays_within_def within_limits_def)
  have q: "triple ?P m (\<lambda>_. ?P) (\<lambda>_. ?S)" if "keeps quiet m" for m :: "'b xact"
    by (rule triple_weaken [OF triple_keeps [OF that, of ?P]]) (use ok in \<open>auto simp: quiet_def\<close>)
  have qs: "triple ?S m (\<lambda>_. ?S) (\<lambda>_. ?S)" if "keeps quiet m" for m :: "'b xact"
    by (rule quiet_stays [OF that])
  have start: "?C (start_loop env node job input_data s)" if "?P s" for s
    using that by (auto simp: counted_def start_loop_def within_limits_def reset_job_counters_def fresh_counts)
  have judged: "triple ?S (case outcome of Inl result \<Rightarrow> ret result | Inr raw \<Rightarrow> judge_output env node model t raw)
      (\<lambda>_. ?S) (\<lambda>_. ?S)" for outcome model t
    by (cases outcome) (simp_all add: quiet_stays keeps_rules)
  have inner: "triple ?P (execute_node_inner env node job input_data t) (\<lambda>_. ?S) (\<lambda>_. ?S)" for t
    unfolding execute_node_inner_def Let_def MAX_ITERATIONS_def except_act_def
    apply (simp only: split_beta)
    apply (rule triple_seq [OF q [OF quiet_basic(2)]])
    apply (rule triple_seq [where R = ?C])
     apply (rule triple_basic(3), erule start)
    apply (rule triple_bind [where R = "\<lambda>_. ?S"])
     apply (rule triple_try [where R = "\<lambda>_. ?S"])
      apply (rule triple_bind [OF agent_loop_counted [OF refl]])
      apply (rule quiet_stays, rule keeps_rules)
     apply (rule quiet_stays, intro keeps_rules)
    apply (rule judged)
    done
  show ?thesis
    unfolding execute_node_def
    by (rule triple_bind [OF q [OF quiet_basic(1)]], rule triple_try [OF inner], rule quiet_stays, intro keeps_rules)
qed

lemma execute_node_within:
  "\<exists>r s' new. execute_node env node job input_data s = Some (r, s') \<and> xs_trace s' = xs_trace s @ new \<and>
     within_limits env node job (pg_config (xs_guard s)) new"
proof -
  obtain r s' where run: "execute_node env node job input_data s = Some (r, s')"
    by (rule returnsE [OF returns_execute_node])
  from triple_post [OF execute_node_counted [of "xs_trace s" "pg_config (xs_guard s)"] _ run]
  have "stays_within env node job (pg_config (xs_guard s)) (xs_trace s) s'" by blast
  with run show ?thesis by (auto simp: stays_within_def)
qed

section \<open>Results\<close>

lemma missing_keys_Nil: "missing_keys output ks = Inr [] \<Longrightarrow> JStr k \<in> set ks \<Longrightarrow> k \<in> fst ` set output"
  by (induction ks) (auto simp: map_sum_Inr_iff split: json.splits if_splits)

lemma mistyped_keys_Nil:
  "mistyped_keys output props = Inr [] \<Longrightarrow> (k, JObj p) \<in> set props \<Longrightarrow> get_or p ''type'' JNull = JStr t \<Longrightarrow>
   t \<in> set schema_types \<Longrightarrow> obj_get output k = Some v \<Longrightarrow> of_type t v"
proof (induction props)
  case (Cons q props)
  obtain j schema where q: "q = (j, schema)" by fastforce
  have rest: "mistyped_keys output props = Inr []"
  proof (cases "obj_get output j")
    case None
    with Cons.prems(1) q show ?thesis by simp
  next
    case (Some u)
    with Cons.prems(1) q obtain kvs where kvs: "schema = JObj kvs" by (cases schema) simp_all
    with Some Cons.prems(1) q show ?thesis
      by (cases "get_or kvs ''type'' JNull") (auto simp: map_sum_Inr_iff split: if_splits)
  qed
  show ?case
  proof (cases "(k, JObj p) = q")
    case True
    with q Cons.prems show ?thesis by (auto simp: map_sum_Inr_iff split: if_splits)
  next
    case False
    with Cons rest show ?thesis by auto
  qed
qed simp

text \<open>The result of a node: a success has no error and an output without validation errors, a failure has an error.\<close>

definition result_ok :: "xenv \<Rightarrow> node \<Rightarrow> node_result \<Rightarrow> bool" where
  "result_ok env node r \<longleftrightarrow>
     nx_success r = (nx_error r = None) \<and> (nx_success r \<longrightarrow> validate_node_output env (nx_output r) node = Inr [])"

lemma failed_result_ok: "result_ok env node (failed_result e m t)"
  by (simp add: result_ok_def failed_result_def)

lemma judge_output_ok: "hoare P (judge_output env node model t raw) (\<lambda>r _. result_ok env node r)"
  unfolding judge_output_def
proof (rule hoare_bind_last, goal_cases)
  case (1 now_ms)
  show ?case
  proof (rule hoare_bind [where R = "\<lambda>es _. validate_node_output env (ar_output raw) node = Inr es"], goal_cases)
    case 1
    show ?case by (rule hoareI) (simp add: act_defs)
  next
    case (2 es)
    show ?case
      by (rule hoare_seq [where R = "\<lambda>_. validate_node_output env (ar_output raw) node = Inr es"])
        (auto simp: hoare_def result_ok_def ret_def)
  qed
qed

lemma execute_node_result: "hoare P (execute_node env node job input_data) (\<lambda>r _. result_ok env node r)"
proof -
  have caught: "hoare P (except_act (bind_act m (\<lambda>raw. ret (Inr raw))) (\<lambda>exc. bind_act (look f) (\<lambda>n.
      seq_act (pause env) (ret (Inl (failed_result (g exc) model (n - t)))))))
      (\<lambda>v _. case v of Inl r \<Rightarrow> result_ok env node r | Inr raw \<Rightarrow> True)"
    for P g model t f and m :: "agent_result xact"
    unfolding except_act_def
  proof (rule hoare_try, goal_cases)
    case 1
    show ?case by (rule hoare_bind_last, rule hoare_ret) simp
  next
    case (2 e)
    have "hoare (\<lambda>_. True) (bind_act (look f) (\<lambda>n. seq_act (pause env) (ret (Inl (failed_result (g e) model (n - t))))))
        (\<lambda>v _. case v of Inl r \<Rightarrow> result_ok env node r | Inr raw \<Rightarrow> True)"
      by (rule hoare_bind_last, rule hoare_seq_last, rule hoare_ret) (simp add: failed_result_ok)
    then show ?case by (auto simp: hoare_def act_defs)
  qed
  have last: "hoare (\<lambda>_. case v of Inl r \<Rightarrow> result_ok env node r | Inr raw \<Rightarrow> True)
      (case v of Inl result \<Rightarrow> ret result | Inr raw \<Rightarrow> judge_output env node model t raw)
      (\<lambda>r _. result_ok env node r)" for v model t
    by (cases v) (simp_all add: hoare_ret judge_output_ok)
  have inner: "hoare P (execute_node_inner env node job input_data t) (\<lambda>r _. result_ok env node r)" for P t
    unfolding execute_node_inner_def Let_def split_beta
    by (intro hoare_seq_last) (rule hoare_bind [OF caught last])
  show ?thesis
    unfolding execute_node_def
  proof (rule hoare_bind_last, rule hoare_try [OF inner], goal_cases)
    case (1 t e)
    have "hoare (\<lambda>_. True) (bind_act (look (xe_ms env)) (\<lambda>n. ret (failed_result ''Node timed out'' [] (n - t))))
        (\<lambda>r _. result_ok env node r)"
      by (rule hoare_bind_last, rule hoare_ret) (rule failed_result_ok)
    then show ?case by (auto simp: hoare_def act_defs)
  qed
qed

section \<open>Properties\<close>



text \<open>C28. Without the \<^verbatim>\<open>jsonschema\<close> package, the output of a node that succeeds has every required key, and each of its keys
  whose schema names a type has a value of it.\<close>

theorem successful_output_fits_schema:
  assumes "execute_node env node job input_data s = Some (Inr r, s')" "nx_success r"
    and "no_output_schema_json node = Some t" "t \<noteq> []" "xe_loads env t = Inr (JObj schema)" "xe_validator env = None"
  shows "(\<forall>req. json_items (get_or schema ''required'' (JList [])) = Inr req \<longrightarrow>
       (\<forall>k. JStr k \<in> set req \<longrightarrow> k \<in> fst ` set (nx_output r))) \<and>
    (\<forall>props k p ty v. get_or schema ''properties'' (JObj []) = JObj props \<longrightarrow> (k, JObj p) \<in> set props \<longrightarrow>
       get_or p ''type'' JNull = JStr ty \<longrightarrow> ty \<in> set schema_types \<longrightarrow> obj_get (nx_output r) k = Some v \<longrightarrow>
       of_type ty v)"
proof -
  from hoareD [OF execute_node_result [of "\<lambda>_. True"] _ assms(1)] assms(2)
  have "validate_by_hand (JObj schema) (nx_output r) = Inr []"
    using assms(3-6) by (simp add: result_ok_def validate_node_output_def)
  then show ?thesis
    by (auto simp: validate_by_hand_def map_sum_Inr_iff split: sum.splits json.splits
        intro: missing_keys_Nil mistyped_keys_Nil)
qed

text \<open>A run: the model calls a tool, then answers.\<close>

definition adder_env :: xenv where
  "adder_env =
     \<lparr>xe_chat = (\<lambda>n ms tools model. \<lparr>lr_error = None, lr_prompt_eval_count = 1, lr_eval_count = 1,
        lr_content = Some (if length ms = 1 then [] else ''42''),
        lr_tool_calls = (if length ms = 1 then Some [\<lparr>tr_name = ''add'', tr_arguments = JObj []\<rparr>] else None)\<rparr>),
      xe_tool = (\<lambda>n tool args. Inr (JObj [(''sum'', JInt 42)])), xe_sample = None, xe_best_of_n_enabled = False,
      xe_select_model = None, xe_default_model = ''m'', xe_credentials = (\<lambda>n. Inr None),
      xe_emulator_running = (\<lambda>n. False), xe_cancelled = (\<lambda>n. False), xe_ms = int, xe_now = int, xe_uuid = (\<lambda>n. ''a''),
      xe_resolve = Some,
      xe_loads = (\<lambda>t. if t = ''42'' then Inr (JInt 42)
        else if t = ''S'' then Inr (JObj [(''required'', JList [JStr ''result'']),
           (''properties'', JObj [(''result'', JObj [(''type'', JStr ''integer'')])])])
        else Inl (ValueError t)),
      xe_dumps = (\<lambda>kvs. []), xe_str = (\<lambda>v. []), xe_policies_load = True, xe_error_text = (\<lambda>e. []),
      xe_validator = None, xe_error_list_text = concat, xe_registry = [''add''], xe_jobs_dir = ''/jobs'',
      xe_deployment_mode = ''hybrid''\<rparr>"

definition adder_node :: node where
  "adder_node = \<lparr>no_id = ''n'', no_job_id = ''j'', no_sequence = 1, no_title = ''T'', no_instructions = None,
     no_tools_allowed = [''add''], no_expected_output = None, no_status = ''pending'', no_input_json = None,
     no_output_json = None, no_error = None, no_auto_generated = False, no_input_schema_json = None,
     no_output_schema_json = Some ''S'', no_side_effects_json = None, no_retry_policy = default_retry_policy,
     no_timeout_sec = 60, no_rollback_strategy = None, no_acceptance_tests_json = None, no_depends_on = [],
     no_created_at = 0, no_updated_at = 0\<rparr>"

definition adder_job :: job where
  "adder_job = \<lparr>jo_id = ''j'', jo_workspace_id = Some ''w'', jo_title = ''T'', jo_description = None, jo_source = ''web'',
     jo_source_ref = None, jo_status = ''running'', jo_priority = 5, jo_requester = None, jo_mode = ''quick'',
     jo_template_id = None, jo_result_summary = None, jo_review_count = 0, jo_max_reviews = 2, jo_error = None,
     jo_cost_cents = 0, jo_created_at = 0, jo_updated_at = None, jo_parent_job_id = None, jo_tree_root_id = None\<rparr>"

definition adder_start :: xstate where
  "adder_start = \<lparr>xs_guard = \<lparr>pg_level = ''permissive'', pg_config = permissive_config, pg_tool_call_counts = []\<rparr>,
     xs_policies = \<lparr>ps_workspaces = [''w''], ps_users = [], ps_policies = [], ps_approvals = []\<rparr>,
     xs_ctx = new_policy_context adder_env adder_node adder_job, xs_messages = [], xs_trace = [], xs_tokens_in = 0,
     xs_tokens_out = 0, xs_tool_calls_made = 0, xs_tick = 0\<rparr>"

lemma adder_texts:
  "parse_text_tools (xe_loads adder_env) [''add''] ''42'' = Inr []" "\<not> looks_like_tool_template ''42''"
  "py_strip ''42'' = ''42''"
  by code_simp+

lemma adder_fields:
  "xe_chat adder_env n ms tools model = \<lparr>lr_error = None, lr_prompt_eval_count = 1, lr_eval_count = 1,
     lr_content = Some (if length ms = 1 then [] else ''42''),
     lr_tool_calls = (if length ms = 1 then Some [\<lparr>tr_name = ''add'', tr_arguments = JObj []\<rparr>] else None)\<rparr>"
  "xe_tool adder_env n tool args = Inr (JObj [(''sum'', JInt 42)])" "xe_sample adder_env = None"
  "xe_select_model adder_env = None" "xe_default_model adder_env = ''m''" "xe_registry adder_env = [''add'']"
  "xe_cancelled adder_env n = False" "xe_ms adder_env = int" "xe_now adder_env = int" "xe_uuid adder_env = (\<lambda>n. ''a'')"
  "xe_policies_load adder_env" "xe_validator adder_env = None" "no_id adder_node = ''n''"
  "no_tools_allowed adder_node = [''add'']" "no_output_schema_json adder_node = Some ''S''"
  "xe_loads adder_env ''42'' = Inr (JInt 42)"
  "xe_loads adder_env ''S'' = Inr (JObj [(''required'', JList [JStr ''result'']),
     (''properties'', JObj [(''result'', JObj [(''type'', JStr ''integer'')])])])"
  by (simp_all add: adder_env_def adder_node_def)

lemma adder_policy:
  "evaluate (xe_str adder_env) True ''add'' []
     ((new_policy_context adder_env adder_node adder_job)\<lparr>pc_tool_call_count :=
        pc_tool_call_count (new_policy_context adder_env adder_node adder_job) + 1\<rparr>) i now
     \<lparr>ps_workspaces = [''w''], ps_users = [], ps_policies = [], ps_approvals = []\<rparr> =
   Inr (allow_by_default Default_allow, \<lparr>ps_workspaces = [''w''], ps_users = [], ps_policies = [], ps_approvals = []\<rparr>)"
  by code_simp

lemma adder_runs:
  "case execute_node adder_env adder_node adder_job None adder_start of
     Some (Inr r, s) \<Rightarrow> nx_success r \<and> nx_output r = [(''result'', JInt 42)] \<and> nx_tokens_out r = 2 \<and>
       nx_tool_calls_made r = 1 \<and> xs_trace s = [Model_call, Tool_run ''add'' (JObj []), Model_call]
   | _ \<Rightarrow> False"
  apply (simp add: execute_node_def execute_node_inner_def MAX_ITERATIONS_def eval_nat_numeral act_defs look_def pause_def
      say_def except_act_def add_tokens_def Let_def chosen_model_def adder_start_def start_loop_def
      call_ollama_def read_answer_def adder_fields reset_job_counters_def)
  apply (simp add: eval_nat_numeral act_defs look_def pause_def
      say_def except_act_def add_tokens_def Let_def adder_fields process_call_def loads_arguments_def guarded_call_def guard_event_def check_anomaly_def
      anomaly_halts_job_def permissive_config_def validate_tool_call_def decided_call_def ask_policy_def
      adder_policy)
  apply (simp add: act_defs look_def pause_def say_def except_act_def add_tokens_def Let_def adder_fields
      allow_by_default_def run_tool_def with_credentials_def injects_credentials_def DELETE_TOOLS_def adder_texts)
  apply (simp add: act_defs look_def pause_def say_def except_act_def add_tokens_def Let_def adder_fields adder_texts
      final_output_def sampled_content_def guard_event_def check_anomaly_def permissive_config_def anomaly_halts_job_def
      validate_output_def parse_output_json_def agent_return_def judge_output_def validate_node_output_def
      validate_by_hand_def schema_types_def of_type_def get_or_def obj_get_def)
  done

theorem successful_output_fits_schema_witness:
  "\<exists>r s'. execute_node adder_env adder_node adder_job None adder_start = Some (Inr r, s') \<and>
     ''result'' \<in> fst ` set (nx_output r)"
proof -
  from adder_runs obtain a s' where a: "execute_node adder_env adder_node adder_job None adder_start = Some (a, s')"
    by (auto split: option.split_asm)
  with adder_runs obtain r where run: "execute_node adder_env adder_node adder_job None adder_start = Some (Inr r, s')"
      "nx_success r" by (cases a) auto
  have "no_output_schema_json adder_node = Some ''S''" "xe_validator adder_env = None" by (simp_all add: adder_fields)
  from successful_output_fits_schema [OF run this(1) _ adder_fields(17) this(2)] run show ?thesis
    by (auto simp: get_or_def obj_get_def)
qed


end
