(* ===== verification/Scheduler.thy ===== *)
theory Scheduler
  imports Gpu_Manager Schema Std_Text
begin

text \<open>
  \<^verbatim>\<open>backend/core/scheduler.py\<close>: the choice of the next node, by a score with boosts for review nodes, loaded
  models, the workspace whose turn it is, and starving nodes; the reservations of GPU memory in the table
  \<^verbatim>\<open>gpu_slots\<close>; the cursor of the round robin in the table \<^verbatim>\<open>scheduler_state\<close>.

  What is outside is the record \<open>senv\<close>: the model selector, the tiers of the configuration, whether the tables
  can be read and written, and the order in which Python iterates over a set of workspace ids, which differs
  from run to run. The age of a node is computed from its time of creation, which always parses.
\<close>

section \<open>Constants and state\<close>

definition MAX_GPU_WAIT_SEC :: int where
  "MAX_GPU_WAIT_SEC = 600"

definition VRAM_ESTIMATES :: "(string \<times> nat) list" where
  "VRAM_ESTIMATES =
     [(''gemma3:4b'', 2800), (''gemma4:e4b'', 2800), (''gemma4:26b'', 6000), (''gemma4:31b'', 7000),
      (''qwen2.5-coder:7b'', 4500), (''qwen2.5-coder:14b'', 8500), (''qwen2.5-coder:32b'', 18000),
      (''qwen2.5-coder:70b'', 40000), (''llama3.3:70b'', 40000), (''phi4-reasoning'', 8000)]"

definition LORA_OVERHEAD_MB :: nat where
  "LORA_OVERHEAD_MB = 256"

definition REVIEW_PRIORITY_BOOST :: int where
  "REVIEW_PRIORITY_BOOST = 50"

definition REVIEW_KEYWORDS :: "string list" where
  "REVIEW_KEYWORDS = [''review'', ''qa'', ''quality'', ''check'', ''validate'', ''verify'', ''test'']"

definition is_review_node :: "string \<Rightarrow> bool" where
  "is_review_node title = list_ex (\<lambda>kw. contains kw (py_lower title)) REVIEW_KEYWORDS"

record candidate =
  cd_node_id :: ident
  cd_job_id :: ident
  cd_sequence :: nat
  cd_title :: string
  cd_created_at :: timestamp
  cd_workspace_id :: "ident option"
  cd_priority :: int
  cd_job_status :: string

record scored_candidate = candidate +
  sc_model_id :: string
  sc_starving :: bool
  sc_score :: int

record scheduled =
  sh_node_id :: ident
  sh_job_id :: ident
  sh_workspace_id :: "ident option"
  sh_model_id :: string
  sh_vram_mb :: nat
  sh_priority :: int
  sh_title :: string
  sh_score :: int

record gpu_slot_row =
  gl_slot_id :: ident
  gl_worker_id :: ident
  gl_model_id :: string
  gl_lora_id :: "string option"
  gl_vram_mb :: nat
  gl_acquired_at :: timestamp
  gl_job_id :: "ident option"
  gl_node_id :: "ident option"
  gl_priority :: int

record model_row =
  mr_model_id :: string
  mr_vram_mb :: "nat option"
  mr_status :: string

text \<open>The tables of the scheduler, of \<^verbatim>\<open>scheduler_state\<close> the value under the key \<^verbatim>\<open>cursor\<close>, and its cursor.\<close>

record scheduler =
  sd_last_workspace_idx :: int
  sd_cursor_row :: "json_text option"
  sd_slots :: "gpu_slot_row list"
  sd_models :: "model_row list"

record senv =
  se_select_model :: "(candidate \<Rightarrow> string result) option"
  se_light :: string
  se_medium :: string
  se_heavy :: string
  se_set_order :: "ident option list \<Rightarrow> ident option list"
  se_registry_reads :: bool
  se_state_writes :: bool
  se_leased_workers :: "ident list"

section \<open>Candidates\<close>

definition candidate_of :: "node_row \<Rightarrow> job_row \<Rightarrow> candidate" where
  "candidate_of n j =
     \<lparr>cd_node_id = nr_id n, cd_job_id = nr_job_id n, cd_sequence = nr_sequence n, cd_title = nr_title n,
      cd_created_at = nr_created_at n, cd_workspace_id = jr_workspace_id j, cd_priority = jr_priority j,
      cd_job_status = jr_status j\<rparr>"

text \<open>\<^verbatim>\<open>FROM job_nodes jn JOIN jobs j ON jn.job_id = j.id\<close>.\<close>

definition node_join :: "db \<Rightarrow> (node_row \<times> job_row) list" where
  "node_join d =
     concat (map (\<lambda>n. map (\<lambda>j. (n, j)) (filter (\<lambda>j. jr_id j = nr_job_id n) (db_jobs d))) (db_nodes d))"

definition fetch_pending_nodes :: "db \<Rightarrow> candidate list" where
  "fetch_pending_nodes d =
     sql_limit 200 0 (order_by_desc cd_priority (order_by cd_sequence
       (map (\<lambda>(n, j). candidate_of n j)
         (filter (\<lambda>(n, j). nr_status n = ''pending'' \<and> jr_status j \<in> {''pending'', ''executing''}) (node_join d)))))"

section \<open>Scores\<close>

text \<open>\<^verbatim>\<open>s.split(":")[0]\<close>.\<close>

definition base_model :: "string \<Rightarrow> string" where
  "base_model m = takeWhile (\<lambda>c. c \<noteq> CHR '':'') m"

definition loaded_base_models :: "gpu_manager \<Rightarrow> string list" where
  "loaded_base_models g = map (base_model \<circ> fst) (gm_loaded_models g)"

definition pick_model_for_node :: "senv \<Rightarrow> candidate \<Rightarrow> string" where
  "pick_model_for_node env c =
     (let fallback = (if 8 \<le> cd_priority c then se_heavy env
                      else if 5 \<le> cd_priority c \<or> is_review_node (cd_title c) then se_medium env
                      else se_light env)
      in case se_select_model env of
           None \<Rightarrow> fallback
         | Some select \<Rightarrow> (case select c of Inr m \<Rightarrow> m | Inl e \<Rightarrow> fallback))"

definition next_workspace :: "senv \<Rightarrow> scheduler \<Rightarrow> candidate list \<Rightarrow> ident option option" where
  "next_workspace env s pending =
     (let workspace_ids = se_set_order env (remdups (map cd_workspace_id pending))
      in if workspace_ids = [] then None
         else Some (workspace_ids ! nat (sd_last_workspace_idx s mod int (length workspace_ids))))"

definition is_starving :: "timestamp \<Rightarrow> candidate \<Rightarrow> bool" where
  "is_starving now c \<longleftrightarrow> MAX_GPU_WAIT_SEC * 1000000 < now - cd_created_at c"

definition score_of :: "senv \<Rightarrow> gpu_manager \<Rightarrow> ident option option \<Rightarrow> timestamp \<Rightarrow> candidate \<Rightarrow> int" where
  "score_of env g next_ws now c =
     cd_priority c +
     (if is_review_node (cd_title c) then REVIEW_PRIORITY_BOOST else 0) +
     (if base_model (pick_model_for_node env c) \<in> set (loaded_base_models g) then 30 else 0) +
     (if Some (cd_workspace_id c) = next_ws then 20 else 0) +
     (if is_starving now c then 1000 else 0)"

definition score_candidate ::
  "senv \<Rightarrow> gpu_manager \<Rightarrow> ident option option \<Rightarrow> timestamp \<Rightarrow> candidate \<Rightarrow> scored_candidate" where
  "score_candidate env g next_ws now c =
     candidate.extend c
       \<lparr>sc_model_id = pick_model_for_node env c, sc_starving = is_starving now c,
        sc_score = score_of env g next_ws now c\<rparr>"

definition score_candidates ::
  "senv \<Rightarrow> gpu_manager \<Rightarrow> scheduler \<Rightarrow> timestamp \<Rightarrow> candidate list \<Rightarrow> scored_candidate list" where
  "score_candidates env g s now pending =
     map (score_candidate env g (next_workspace env s pending) now) pending"

section \<open>Memory\<close>

definition lora_overhead :: "string option \<Rightarrow> nat" where
  "lora_overhead lora = (case lora of None \<Rightarrow> 0 | Some l \<Rightarrow> if l = [] then 0 else LORA_OVERHEAD_MB)"

definition static_estimate :: "string \<Rightarrow> nat" where
  "static_estimate model = (case map_of VRAM_ESTIMATES model of None \<Rightarrow> 4000 | Some mb \<Rightarrow> mb)"

definition estimate_vram :: "senv \<Rightarrow> scheduler \<Rightarrow> string \<Rightarrow> string option \<Rightarrow> nat" where
  "estimate_vram env s model lora =
     (let row = (if se_registry_reads env
                 then fetchone (filter (\<lambda>r. mr_model_id r = model \<and> mr_status r = ''active'') (sd_models s)) else None)
      in (case row of
            None \<Rightarrow> static_estimate model
          | Some r \<Rightarrow> (case mr_vram_mb r of
                         None \<Rightarrow> static_estimate model
                       | Some mb \<Rightarrow> if mb = 0 then static_estimate model else mb)) + lora_overhead lora)"

section \<open>The cursor\<close>

definition persist_state :: "senv \<Rightarrow> scheduler \<Rightarrow> scheduler" where
  "persist_state env s =
     (if se_state_writes env
      then s\<lparr>sd_cursor_row := Some (json_dumps (JObj [(''last_workspace_idx'', JInt (sd_last_workspace_idx s))]))\<rparr>
      else s)"

definition stored_cursor :: "json_text \<Rightarrow> int" where
  "stored_cursor t =
     (case json_loads t of
        Inr (JObj data) \<Rightarrow>
          (case json_to_int (get_or data ''last_workspace_idx'' (JInt 0)) of Inr i \<Rightarrow> i | Inl e \<Rightarrow> 0)
      | _ \<Rightarrow> 0)"

definition restore_state :: "scheduler \<Rightarrow> scheduler" where
  "restore_state s =
     (case sd_cursor_row s of None \<Rightarrow> s | Some t \<Rightarrow> s\<lparr>sd_last_workspace_idx := stored_cursor t\<rparr>)"

definition new_scheduler :: "scheduler \<Rightarrow> scheduler" where
  "new_scheduler s = restore_state (s\<lparr>sd_last_workspace_idx := 0\<rparr>)"

text \<open>\<^verbatim>\<open>list(dict.fromkeys(xs))\<close>.\<close>

fun first_occurrences :: "'a list \<Rightarrow> 'a list" where
  "first_occurrences [] = []"
| "first_occurrences (x # xs) = x # filter (\<lambda>y. y \<noteq> x) (first_occurrences xs)"

definition advance_workspace_cursor :: "senv \<Rightarrow> ident \<Rightarrow> candidate list \<Rightarrow> scheduler \<Rightarrow> scheduler" where
  "advance_workspace_cursor env ws pending s =
     (let workspace_ids = first_occurrences (map cd_workspace_id pending);
          idx = (case find_idx (\<lambda>w. w = Some ws) workspace_ids of
                   Some i \<Rightarrow> int (Suc i mod length workspace_ids) | None \<Rightarrow> 0)
      in persist_state env (s\<lparr>sd_last_workspace_idx := idx\<rparr>))"

section \<open>Scheduling\<close>

definition ranked :: "scored_candidate list \<Rightarrow> scored_candidate list" where
  "ranked cs = order_by_desc sc_score (order_by cd_created_at cs)"

definition schedule_next ::
  "senv \<Rightarrow> db \<Rightarrow> gpu_manager \<Rightarrow> timestamp \<Rightarrow> scheduler \<Rightarrow> scheduled option \<times> scheduler" where
  "schedule_next env d g now s =
     (let pending = fetch_pending_nodes d
      in case ranked (score_candidates env g s now pending) of
           [] \<Rightarrow> (None, s)
         | winner # _ \<Rightarrow>
             (let model = (if sc_model_id winner \<noteq> [] then sc_model_id winner
                           else pick_model_for_node env (candidate.truncate winner));
                  vram = estimate_vram env s model None
              in if \<not> can_fit g vram \<and> \<not> sc_starving winner then (None, s)
                 else
                   (Some \<lparr>sh_node_id = cd_node_id winner, sh_job_id = cd_job_id winner,
                          sh_workspace_id = cd_workspace_id winner, sh_model_id = model, sh_vram_mb = vram,
                          sh_priority = cd_priority winner, sh_title = cd_title winner, sh_score = sc_score winner\<rparr>,
                    case cd_workspace_id winner of
                      None \<Rightarrow> s
                    | Some ws \<Rightarrow> if ws = [] then s else advance_workspace_cursor env ws pending s)))"

section \<open>Slots and status\<close>

definition record_gpu_slot ::
  "senv \<Rightarrow> ident \<Rightarrow> string \<Rightarrow> string option \<Rightarrow> nat \<Rightarrow> ident option \<Rightarrow> ident option \<Rightarrow> int \<Rightarrow> ident \<Rightarrow> timestamp \<Rightarrow>
   scheduler \<Rightarrow> (ident \<times> scheduler) result" where
  "record_gpu_slot env worker model lora vram job_id node_id priority slot now s =
     (if slot \<in> gl_slot_id ` set (sd_slots s) then Inl (IntegrityError ''UNIQUE gpu_slots.slot_id'')
      else if worker \<notin> set (se_leased_workers env) then Inl (IntegrityError ''FOREIGN KEY'')
      else Inr (slot, s\<lparr>sd_slots := sd_slots s @
        [\<lparr>gl_slot_id = slot, gl_worker_id = worker, gl_model_id = model, gl_lora_id = lora, gl_vram_mb = vram,
          gl_acquired_at = now, gl_job_id = job_id, gl_node_id = node_id, gl_priority = priority\<rparr>]\<rparr>))"

definition release_gpu_slot :: "ident \<Rightarrow> scheduler \<Rightarrow> scheduler" where
  "release_gpu_slot slot s = s\<lparr>sd_slots := sql_delete (\<lambda>r. gl_slot_id r = slot) (sd_slots s)\<rparr>"

definition get_queue_depth :: "ident option \<Rightarrow> db \<Rightarrow> nat" where
  "get_queue_depth ws d =
     (case ws of
        Some w \<Rightarrow>
          if w = [] then length (filter (\<lambda>n. nr_status n = ''pending'') (db_nodes d))
          else length (filter (\<lambda>(n, j). nr_status n = ''pending'' \<and> jr_workspace_id j = Some w) (node_join d))
      | None \<Rightarrow> length (filter (\<lambda>n. nr_status n = ''pending'') (db_nodes d)))"

text \<open>The depths by workspace, one entry for each group.\<close>

definition workspace_depths :: "db \<Rightarrow> (ident option \<times> nat) list" where
  "workspace_depths d =
     (let keys = map (\<lambda>(n, j). jr_workspace_id j) (filter (\<lambda>(n, j). nr_status n = ''pending'') (node_join d))
      in map (\<lambda>w. (w, count_list keys w)) (remdups keys))"

record scheduler_status =
  ss_gpu :: gpu_status
  ss_queue_depth_total :: nat
  ss_queue_depth_by_workspace :: "(ident option \<times> nat) list"
  ss_active_gpu_slots :: "gpu_slot_row list"
  ss_round_robin_cursor :: int
  ss_max_gpu_wait_sec :: int

definition get_scheduler_state :: "db \<Rightarrow> gpu_manager \<Rightarrow> scheduler \<Rightarrow> scheduler_status" where
  "get_scheduler_state d g s =
     \<lparr>ss_gpu = get_status g, ss_queue_depth_total = get_queue_depth None d,
      ss_queue_depth_by_workspace = workspace_depths d, ss_active_gpu_slots = sd_slots s,
      ss_round_robin_cursor = sd_last_workspace_idx s, ss_max_gpu_wait_sec = MAX_GPU_WAIT_SEC\<rparr>"

section \<open>The winner\<close>

lemma set_fetch_pending_nodes:
  assumes "c \<in> set (fetch_pending_nodes d)"
  shows "\<exists>n \<in> set (db_nodes d). \<exists>j \<in> set (db_jobs d). jr_id j = nr_job_id n \<and> nr_status n = ''pending'' \<and>
    jr_status j \<in> {''pending'', ''executing''} \<and> c = candidate_of n j"
  using assms set_sql_limit_subset [of 200 0] unfolding fetch_pending_nodes_def node_join_def by fastforce

lemma ranked_best:
  assumes "ranked cs = w # rest"
  shows "w \<in> set cs"
    and "c \<in> set cs \<Longrightarrow> sc_score c < sc_score w \<or> sc_score c = sc_score w \<and> cd_created_at w \<le> cd_created_at c"
proof -
  let ?by = "order_by cd_created_at cs"
  have "set (ranked cs) = set cs" by (simp add: ranked_def)
  with assms show "w \<in> set cs" by auto
  have sorted: "sorted (map (\<lambda>c. - sc_score c) (ranked cs))" by (simp add: ranked_def order_by_desc_def)
  assume c: "c \<in> set cs"
  with \<open>set (ranked cs) = set cs\<close> assms have "c \<in> set (w # rest)" by simp
  with sorted assms have le: "sc_score c \<le> sc_score w" by auto
  show "sc_score c < sc_score w \<or> sc_score c = sc_score w \<and> cd_created_at w \<le> cd_created_at c"
  proof (cases "sc_score c = sc_score w")
    case True
    let ?same = "filter (\<lambda>x. - sc_score x = - sc_score w)"
    have "?same (ranked cs) = ?same ?by"
      unfolding ranked_def order_by_desc_def by (rule sort_key_stable)
    with assms have w: "?same ?by = w # ?same rest" by simp
    have "sorted (map cd_created_at (?same ?by))"
      using sorted_order_by [of cd_created_at cs] by (simp add: sorted_filter)
    then have "sorted (map cd_created_at (w # ?same rest))" unfolding w .
    moreover have "c \<in> set (w # ?same rest)" unfolding w [symmetric] using c True by simp
    ultimately show ?thesis using True by auto
  qed (use le in simp)
qed

lemma ranked_Nil_iff: "ranked cs = [] \<longleftrightarrow> cs = []"
  by (simp add: ranked_def order_by_desc_def) (metis order_by_Nil_iff order_by_def)

lemma scored_sel [simp]:
  "sc_score (score_candidate env g ws now c) = score_of env g ws now c"
  "sc_starving (score_candidate env g ws now c) = is_starving now c"
  "cd_created_at (score_candidate env g ws now c) = cd_created_at c"
  "cd_node_id (score_candidate env g ws now c) = cd_node_id c"
  "cd_workspace_id (score_candidate env g ws now c) = cd_workspace_id c"
  by (simp_all add: score_candidate_def candidate.defs)

text \<open>Only starvation lifts a candidate by more than a hundred.\<close>

lemma score_between:
  "cd_priority c + (if is_starving now c then 1000 else 0) \<le> score_of env g ws now c"
  "score_of env g ws now c \<le> cd_priority c + 100 + (if is_starving now c then 1000 else 0)"
  by (auto simp: score_of_def REVIEW_PRIORITY_BOOST_def)

section \<open>Properties\<close>


text \<open>C23. No node starves behind a full GPU: when a node among those considered has waited longer than the ceiling and no
  other job has a priority higher by nine hundred or more, a starving node is scheduled, whatever the GPU holds.\<close>

theorem starving_node_is_scheduled:
  assumes "c \<in> set (fetch_pending_nodes d)" "is_starving now c"
    and "\<And>c'. c' \<in> set (fetch_pending_nodes d) \<Longrightarrow> cd_priority c' < cd_priority c + 900"
  shows "\<exists>w s' c'. schedule_next env d g now s = (Some w, s') \<and> c' \<in> set (fetch_pending_nodes d) \<and>
    sh_node_id w = cd_node_id c' \<and> is_starving now c'"
proof -
  let ?cs = "fetch_pending_nodes d"
  let ?ws = "next_workspace env s ?cs"
  let ?f = "score_candidate env g ?ws now"
  obtain x rest where x: "ranked (map ?f ?cs) = x # rest"
    using assms(1) ranked_Nil_iff [of "map ?f ?cs"] by (cases "ranked (map ?f ?cs)") auto
  from ranked_best(1) [OF x] obtain c' where c': "c' \<in> set ?cs" "x = ?f c'" by auto
  have "score_of env g ?ws now c \<le> score_of env g ?ws now c'"
    using ranked_best(2) [OF x, of "?f c"] assms(1) c'(2) by auto
  then have "is_starving now c'"
    using score_between(1) [of c now env g ?ws] score_between(2) [of env g ?ws now c'] assms(2) assms(3) [OF c'(1)]
    by (auto split: if_splits)
  with x c' show ?thesis
    by (auto simp: schedule_next_def score_candidates_def Let_def split: option.split)
qed

text \<open>The cursor survives a restart: a scheduler made on the tables after the cursor was stored starts where it was.\<close>

theorem cursor_survives_restart:
  assumes "se_state_writes env"
  shows "new_scheduler (persist_state env s) = persist_state env s"
  using assms by (simp add: new_scheduler_def restore_state_def persist_state_def stored_cursor_def get_or_def obj_get_def)

lemma count_list_sum: "(\<Sum>w\<leftarrow>remdups ks. count_list ks w) = length ks"
proof -
  have "(\<Sum>w\<leftarrow>remdups ks. count_list ks w) = (\<Sum>w\<in>set ks. count_list ks w)"
    by (simp add: sum_list_distinct_conv_sum_set)
  also have "\<dots> = length ks" by (rule sum_count_set) simp_all
  finally show ?thesis .
qed

lemma filter_key_singleton:
  assumes "distinct (map f xs)" "x \<in> set xs"
  shows "filter (\<lambda>y. f y = f x) xs = [x]"
  using assms by (induction xs) (auto simp: filter_empty_conv rev_image_eqI)

lemma length_node_join:
  assumes "distinct (map jr_id (db_jobs d))" "\<forall>n \<in> set ns. nr_job_id n \<in> jr_id ` set (db_jobs d)"
  shows "length (filter (\<lambda>(n, j). nr_status n = ''pending'')
      (concat (map (\<lambda>n. map (\<lambda>j. (n, j)) (filter (\<lambda>j. jr_id j = nr_job_id n) (db_jobs d))) ns))) =
    length (filter (\<lambda>n. nr_status n = ''pending'') ns)"
  using assms(2)
proof (induction ns)
  case (Cons n ns)
  from Cons.prems obtain j where j: "j \<in> set (db_jobs d)" "jr_id j = nr_job_id n" by auto
  with assms(1) have "filter (\<lambda>j. jr_id j = nr_job_id n) (db_jobs d) = [j]"
    using filter_key_singleton [of jr_id "db_jobs d" j] by simp
  with Cons show ?case by simp
qed simp

text \<open>The depths by workspace that the status reports add up to the depth of the whole queue.\<close>

theorem queue_depths_add_up:
  assumes "db_wf d"
  shows "(\<Sum>(w, n)\<leftarrow>workspace_depths d. n) = get_queue_depth None d"
  using assms length_node_join [of d "db_nodes d"]
  by (simp add: workspace_depths_def get_queue_depth_def Let_def comp_def count_list_sum db_wf_def node_join_def)

section \<open>An example\<close>

definition example_job :: "ident \<Rightarrow> ident \<Rightarrow> job_row" where
  "example_job j w =
     \<lparr>jr_id = j, jr_workspace_id = Some w, jr_title = ''T'', jr_description = None, jr_source = ''web'',
      jr_source_ref = None, jr_status = ''pending'', jr_priority = 5, jr_requester = None, jr_mode = ''auto'',
      jr_template_id = None, jr_result_summary = None, jr_review_count = 0, jr_max_reviews = 2, jr_error = None,
      jr_cost_cents = None, jr_created_at = 0, jr_updated_at = Some 0, jr_parent_job_id = None,
      jr_tree_root_id = None\<rparr>"

definition example_node :: "ident \<Rightarrow> ident \<Rightarrow> nat \<Rightarrow> string \<Rightarrow> string list \<Rightarrow> node_row" where
  "example_node i j n title deps =
     \<lparr>nr_id = i, nr_job_id = j, nr_sequence = n, nr_title = title, nr_instructions = None, nr_tools_allowed = None,
      nr_expected_output = None, nr_status = ''pending'', nr_input_json = None, nr_output_json = None,
      nr_error = None, nr_auto_generated = True, nr_input_schema_json = None, nr_output_schema_json = None,
      nr_side_effects_json = None, nr_retry_policy_json = None, nr_timeout_sec = None, nr_rollback_strategy = None,
      nr_acceptance_tests_json = None, nr_depends_on = Some (Json deps), nr_created_at = 0, nr_updated_at = 0\<rparr>"

definition example_queue :: db where
  "example_queue = (empty_db [''w''] [])
     \<lparr>db_jobs := [example_job ''j'' ''w''],
      db_nodes := [example_node ''n1'' ''j'' 1 ''Write'' [], example_node ''n2'' ''j'' 2 ''Review'' [''n1'']]\<rparr>"

definition example_senv :: senv where
  "example_senv =
     \<lparr>se_select_model = None, se_light = ''l'', se_medium = ''m'', se_heavy = ''h'', se_set_order = (\<lambda>ws. ws),
      se_registry_reads = True, se_state_writes = True, se_leased_workers = []\<rparr>"

definition fresh_scheduler :: scheduler where
  "fresh_scheduler = \<lparr>sd_last_workspace_idx = 0, sd_cursor_row = None, sd_slots = [], sd_models = []\<rparr>"

lemma example_queue_wf: "db_wf example_queue"
  by (simp add: db_wf_def example_queue_def empty_db_def example_node_def example_job_def)

lemma example_pending:
  "fetch_pending_nodes example_queue =
     [candidate_of (example_node ''n1'' ''j'' 1 ''Write'' []) (example_job ''j'' ''w''),
      candidate_of (example_node ''n2'' ''j'' 2 ''Review'' [''n1'']) (example_job ''j'' ''w'')]"
  by (simp add: fetch_pending_nodes_def node_join_def example_queue_def empty_db_def example_node_def example_job_def
      sql_limit_def order_by_def order_by_desc_def candidate_of_def)

lemma review_titles: "is_review_node ''Review''" "\<not> is_review_node ''Write''"
  by code_simp+

text \<open>A review step is scheduled before the step it depends on: dependencies are not looked at, and its boost puts it
  first.\<close>

lemma review_scheduled_before_its_subject:
  "\<exists>w s'. schedule_next example_senv example_queue (new_gpu_manager 8000) 1 fresh_scheduler = (Some w, s') \<and>
     sh_node_id w = ''n2''"
  by (simp add: schedule_next_def Let_def example_pending score_candidates_def score_candidate_def score_of_def
      candidate_of_def example_node_def example_job_def review_titles REVIEW_PRIORITY_BOOST_def is_starving_def
      MAX_GPU_WAIT_SEC_def ranked_def order_by_def order_by_desc_def loaded_base_models_def new_gpu_manager_def
      next_workspace_def candidate.defs can_fit_def estimate_vram_def fresh_scheduler_def static_estimate_def
      lora_overhead_def pick_model_for_node_def example_senv_def VRAM_ESTIMATES_def fetchone_def)


theorem starving_node_is_scheduled_witness:
  "\<exists>w s'. schedule_next example_senv example_queue (new_gpu_manager 0) 700000000 fresh_scheduler = (Some w, s')"
proof -
  let ?c = "candidate_of (example_node ''n1'' ''j'' 1 ''Write'' []) (example_job ''j'' ''w'')"
  have "?c \<in> set (fetch_pending_nodes example_queue)" by (simp add: example_pending)
  moreover have "is_starving 700000000 ?c"
    by (simp add: is_starving_def MAX_GPU_WAIT_SEC_def candidate_of_def example_node_def)
  moreover have "cd_priority c' < cd_priority ?c + 900" if "c' \<in> set (fetch_pending_nodes example_queue)" for c'
    using that by (auto simp: example_pending candidate_of_def example_job_def)
  ultimately show ?thesis
    using starving_node_is_scheduled [of ?c example_queue 700000000 example_senv "new_gpu_manager 0" fresh_scheduler]
    by blast
qed

theorem cursor_survives_restart_witness:
  "sd_last_workspace_idx (new_scheduler (persist_state example_senv (fresh_scheduler\<lparr>sd_last_workspace_idx := 3\<rparr>))) = 3"
  using cursor_survives_restart [of example_senv "fresh_scheduler\<lparr>sd_last_workspace_idx := 3\<rparr>"]
  by (simp add: example_senv_def persist_state_def)

theorem queue_depths_add_up_witness: "(\<Sum>(w, n)\<leftarrow>workspace_depths example_queue. n) = 2"
  using queue_depths_add_up [OF example_queue_wf]
  by (simp add: get_queue_depth_def example_queue_def empty_db_def example_node_def)

section \<open>The turn of the workspaces\<close>

lemma set_first_occurrences [simp]: "set (first_occurrences xs) = set xs"
  by (induction xs) auto

lemma distinct_first_occurrences: "distinct (first_occurrences xs)"
  by (induction xs) auto

lemma find_idx_distinct: "distinct xs \<Longrightarrow> i < length xs \<Longrightarrow> find_idx (\<lambda>x. x = xs ! i) xs = Some i"
  by (induction xs arbitrary: i) (auto simp: nth_Cons split: nat.split)

lemma persist_state_idx [simp]: "sd_last_workspace_idx (persist_state env s) = sd_last_workspace_idx s"
  by (simp add: persist_state_def)

text \<open>If the set of workspaces is iterated over in the order of first occurrence, the turn passes to the next one.\<close>

lemma turn_passes_on:
  assumes "se_set_order env (remdups (map cd_workspace_id pending)) = first_occurrences (map cd_workspace_id pending)"
    and "first_occurrences (map cd_workspace_id pending) ! i = Some w"
    and "i < length (first_occurrences (map cd_workspace_id pending))"
  shows "next_workspace env (advance_workspace_cursor env w pending s) pending =
    (let ws = first_occurrences (map cd_workspace_id pending) in Some (ws ! (Suc i mod length ws)))"
  using assms find_idx_distinct [OF distinct_first_occurrences assms(3)]
  by (auto simp: next_workspace_def advance_workspace_cursor_def Let_def)

text \<open>It need not be, and then one workspace keeps the turn for ever.\<close>

lemma turn_can_stick:
  assumes "first_occurrences (map cd_workspace_id pending) = [Some a, Some b]" "a \<noteq> b"
    and "se_set_order env (remdups (map cd_workspace_id pending)) = [Some b, Some a]"
  shows "next_workspace env (advance_workspace_cursor env b pending s) pending = Some (Some b)"
  using assms by (simp add: next_workspace_def advance_workspace_cursor_def Let_def)

text \<open>Models of one family but different size count as the same base model: loading a larger one earns the boost meant for
  a swap of adapters.\<close>

lemma sizes_share_a_base_model: "base_model ''qwen2.5-coder:7b'' = base_model ''qwen2.5-coder:32b''"
  by (simp add: base_model_def)

end
