(* ===== verification/Token_Budget.thy ===== *)
theory Token_Budget
  imports Execution Std_Text "HOL-Library.Sublist"
begin

text \<open>
  \<^verbatim>\<open>backend/core/token_budget.py\<close>: estimates of token counts, the budget of a node within the context window, the
  prompt compiled within the budget, the prompt of a retry, and the usage recorded in \<^verbatim>\<open>node_attempts\<close>.

  Ratios and the safety fraction are reals; for the ratios used, a quotient or product that is an integer is computed
  exactly by the floats of the code. The record \<open>tenv\<close> holds json, \<^verbatim>\<open>repr\<close>, and the one character of the texts that
  is beyond Latin-1, the dash.
\<close>

section \<open>Models\<close>

definition DEFAULT_CONTEXT_WINDOW :: int where
  "DEFAULT_CONTEXT_WINDOW = 8192"

definition MODEL_CONTEXT_WINDOWS :: "(string \<times> int) list" where
  "MODEL_CONTEXT_WINDOWS =
     [(''qwen2.5-coder:32b'', 32768), (''qwen2.5-coder:14b'', 32768), (''qwen2.5-coder:7b'', 32768),
      (''qwen2.5-coder:70b'', 32768), (''gemma4:e4b'', 8192), (''gemma4:26b'', 32768), (''gemma4:31b'', 32768),
      (''gemma3:4b'', 8192), (''deepseek-r1:32b'', 32768), (''llama3.3:70b'', 131072), (''phi4-reasoning'', 16384),
      (''gemini-flash'', 1000000)]"

definition CHARS_PER_TOKEN :: "(string \<times> real) list" where
  "CHARS_PER_TOKEN =
     [(''qwen'', 38 / 10), (''gemma'', 4), (''deepseek'', 36 / 10), (''llama'', 4), (''phi'', 4), (''gemini'', 4)]"

definition DEFAULT_CHARS_PER_TOKEN :: real where
  "DEFAULT_CHARS_PER_TOKEN = 4"

definition SAFETY_MARGIN_FRACTION :: real where
  "SAFETY_MARGIN_FRACTION = 1 / 10"

definition chars_per_token_for :: "string option \<Rightarrow> real" where
  "chars_per_token_for model =
     (case model of
        None \<Rightarrow> DEFAULT_CHARS_PER_TOKEN
      | Some m \<Rightarrow>
          (case find (\<lambda>(p, ratio). contains p (py_lower m)) CHARS_PER_TOKEN of
             Some (p, ratio) \<Rightarrow> if m = [] then DEFAULT_CHARS_PER_TOKEN else ratio
           | None \<Rightarrow> DEFAULT_CHARS_PER_TOKEN))"

definition context_window_for :: "string option \<Rightarrow> int" where
  "context_window_for model =
     (case model of
        None \<Rightarrow> DEFAULT_CONTEXT_WINDOW
      | Some m \<Rightarrow> (case map_of MODEL_CONTEXT_WINDOWS m of Some w \<Rightarrow> w | None \<Rightarrow> DEFAULT_CONTEXT_WINDOW))"

section \<open>Estimates\<close>

definition estimate_tokens :: "string \<Rightarrow> string option \<Rightarrow> int" where
  "estimate_tokens text model =
     (if text = [] then 0 else max 1 \<lceil>real (length text) / chars_per_token_for model\<rceil>)"

record token_counts =
  tc_system :: int
  tc_tools :: int
  tc_instructions :: int
  tc_input :: int
  tc_total :: int

definition estimate_prompt_tokens ::
  "string \<Rightarrow> string \<Rightarrow> string \<Rightarrow> string \<Rightarrow> string option \<Rightarrow> token_counts" where
  "estimate_prompt_tokens system_prompt instructions tool_schemas input_data model =
     (let s = estimate_tokens system_prompt model; t = estimate_tokens tool_schemas model;
          i = estimate_tokens instructions model; d = estimate_tokens input_data model
      in \<lparr>tc_system = s, tc_tools = t, tc_instructions = i, tc_input = d, tc_total = s + t + i + d\<rparr>)"

section \<open>Budgets\<close>

record prompt_node =
  pn_system_prompt :: "string option"
  pn_instructions :: "string option"
  pn_tools_allowed :: "string option"
  pn_input_json :: "string option"
  pn_expected_output :: "string option"
  pn_input_filter :: "(string \<times> json) list option"

record token_budget =
  tb_system_tokens :: int
  tb_tool_tokens :: int
  tb_instruction_tokens :: int
  tb_input_tokens :: int
  tb_output_tokens :: int
  tb_safety_margin :: int
  tb_total :: int
  tb_context_window :: int
  tb_budget_remaining :: int

text \<open>\<^verbatim>\<open>node.get(key, "") or ""\<close>.\<close>

definition text_of :: "string option \<Rightarrow> string" where
  "text_of v = (case v of None \<Rightarrow> [] | Some s \<Rightarrow> s)"

definition effective_window :: "int option \<Rightarrow> string option \<Rightarrow> int" where
  "effective_window context_window model =
     (case context_window of None \<Rightarrow> context_window_for model
      | Some w \<Rightarrow> if w = 0 then context_window_for model else w)"

text \<open>A quarter of the usable window or the expected output, at most half of it; and what remains for the input.\<close>

definition output_reserve :: "int \<Rightarrow> int \<Rightarrow> int" where
  "output_reserve output_estimate usable = min (max output_estimate (usable div 4)) (usable div 2)"

definition input_share :: "int \<Rightarrow> int \<Rightarrow> int" where
  "input_share input_estimate left =
     (let remaining_for_input = (if left < 0 then 0 else left)
      in if remaining_for_input < input_estimate then max 0 remaining_for_input else input_estimate)"

definition allocate_budget :: "prompt_node \<Rightarrow> int option \<Rightarrow> string option \<Rightarrow> token_budget" where
  "allocate_budget node context_window model =
     (let ctx = effective_window context_window model;
          safety = \<lceil>real_of_int ctx * SAFETY_MARGIN_FRACTION\<rceil>;
          usable = ctx - safety;
          system_tokens = estimate_tokens (text_of (pn_system_prompt node)) model;
          tool_tokens = estimate_tokens (text_of (pn_tools_allowed node)) model;
          instruction_tokens = estimate_tokens (text_of (pn_instructions node)) model;
          input_estimate = estimate_tokens (text_of (pn_input_json node)) model;
          output_estimate = estimate_tokens (text_of (pn_expected_output node)) model;
          output_tokens = output_reserve output_estimate usable;
          fixed = system_tokens + tool_tokens + instruction_tokens + output_tokens;
          input_tokens = input_share input_estimate (usable - fixed);
          total = system_tokens + tool_tokens + instruction_tokens + input_tokens + output_tokens
      in \<lparr>tb_system_tokens = system_tokens, tb_tool_tokens = tool_tokens, tb_instruction_tokens = instruction_tokens,
          tb_input_tokens = input_tokens, tb_output_tokens = output_tokens, tb_safety_margin = safety,
          tb_total = total, tb_context_window = ctx, tb_budget_remaining = max 0 (usable - total)\<rparr>)"

section \<open>The input filter\<close>

record tenv =
  te_loads :: "string \<Rightarrow> json result"
  te_dumps :: "json \<Rightarrow> string"
  te_dumps_compact :: "json \<Rightarrow> string"
  te_repr :: "json \<Rightarrow> string"
  te_dash :: char

text \<open>\<^verbatim>\<open>source[i] for i in selector if 0 <= i < len(source)\<close>, for one index.\<close>

definition at_index :: "json list \<Rightarrow> int \<Rightarrow> json list" where
  "at_index source i = (if 0 \<le> i \<and> i < int (length source) then [source ! nat i] else [])"

fun index_item :: "json list \<Rightarrow> json \<Rightarrow> json list result" where
  "index_item source (JInt i) = Inr (at_index source i)"
| "index_item source (JBool b) = Inr (at_index source (if b then 1 else 0))"
| "index_item source (JReal r) =
     (if 0 \<le> r \<and> r < real (length source) then Inl (TypeError ''list indices must be integers'') else Inr [])"
| "index_item source _ = Inl (TypeError ''not supported between instances'')"

fun is_py_int :: "json \<Rightarrow> bool" where
  "is_py_int (JInt i) = True"
| "is_py_int (JBool b) = True"
| "is_py_int _ = False"

definition named_item :: "tenv \<Rightarrow> json list \<Rightarrow> json \<Rightarrow> bool" where
  "named_item env selector item =
     list_ex (\<lambda>v. JStr (py_str (te_repr env) v) \<in> set selector)
       (case item of JObj kvs \<Rightarrow> map snd kvs | _ \<Rightarrow> [item])"

definition select_value :: "tenv \<Rightarrow> json \<Rightarrow> json \<Rightarrow> json result" where
  "select_value env selector source =
     (case (selector, source) of
        (JList sel, JList src) \<Rightarrow>
          if sel \<noteq> [] \<and> is_py_int (hd sel)
          then map_sum id (\<lambda>xss. JList (concat xss)) (sequence_results (map (index_item src) sel))
          else Inr (JList (filter (named_item env sel) src))
      | (JList sel, JObj kvs) \<Rightarrow> Inr (JObj (filter (\<lambda>(k, v). JStr k \<in> set sel) kvs))
      | _ \<Rightarrow> Inr source)"

fun select_all ::
  "tenv \<Rightarrow> (string \<times> json) list \<Rightarrow> (string \<times> json) list \<Rightarrow> (string \<times> json) list result" where
  "select_all env input [] = Inr []"
| "select_all env input ((key, selector) # flt) =
     (case get_or input key JNull of
        JNull \<Rightarrow> select_all env input flt
      | source \<Rightarrow>
          (case select_value env selector source of
             Inl e \<Rightarrow> Inl e
           | Inr v \<Rightarrow> map_sum id (\<lambda>rest. (key, v) # rest) (select_all env input flt)))"

text \<open>The keys of a dict are distinct, so the assignments append.\<close>

definition apply_input_filter ::
  "tenv \<Rightarrow> (string \<times> json) list \<Rightarrow> (string \<times> json) list option \<Rightarrow> (string \<times> json) list result" where
  "apply_input_filter env input input_filter =
     (case input_filter of
        None \<Rightarrow> Inr input
      | Some flt \<Rightarrow>
          if flt = [] \<or> input = [] then Inr input
          else map_sum id (\<lambda>selected. selected @ filter (\<lambda>(k, v). k \<notin> fst ` set flt) input)
                 (select_all env input flt))"

section \<open>Compact tool schemas\<close>

definition short_description :: "string \<Rightarrow> json \<Rightarrow> json option" where
  "short_description k v =
     (case v of
        JStr s \<Rightarrow> if k = ''description'' \<and> 120 < length s then Some (JStr (take 117 s @ ''...'')) else None
      | _ \<Rightarrow> None)"

definition example_key :: "string \<Rightarrow> bool" where
  "example_key k \<longleftrightarrow> k = ''examples'' \<or> k = ''example''"

function (sequential) compact_obj :: "json \<Rightarrow> json" where
  "compact_obj (JObj kvs) =
     JObj (map (\<lambda>(k, v). (k, case short_description k v of Some d \<Rightarrow> d | None \<Rightarrow> compact_obj v))
       (filter (\<lambda>(k, v). \<not> example_key k) kvs))"
| "compact_obj (JList xs) = JList (map compact_obj xs)"
| "compact_obj v = v"
  by pat_completeness auto
termination
proof (relation "measure size")
  fix kvs :: "(string \<times> json) list" and p k v
  assume "p \<in> set (filter (\<lambda>(k, v). \<not> example_key k) kvs)" "(k, v) = p"
  then have "(k, v) \<in> set kvs" by auto
  then show "(v, JObj kvs) \<in> measure size" by (induction kvs) auto
next
  fix xs :: "json list" and x
  assume "x \<in> set xs"
  then show "(x, JList xs) \<in> measure size" by (induction xs) auto
qed auto

definition compact_tools :: "tenv \<Rightarrow> string \<Rightarrow> string result" where
  "compact_tools env tools_text =
     (let text = py_strip tools_text
      in if tools_text = [] \<or> \<not> (starts_with ''{'' text \<or> starts_with ''['' text) then Inr tools_text
         else (case te_loads env text of
                 Inr schemas \<Rightarrow> Inr (te_dumps_compact env (compact_obj schemas))
               | Inl (ValueError e) \<Rightarrow> Inr tools_text
               | Inl e \<Rightarrow> Inl e))"

section \<open>Truncation\<close>

text \<open>\<^verbatim>\<open>s.rfind(p)\<close> for a pattern that is not empty.\<close>

definition rfind :: "string \<Rightarrow> string \<Rightarrow> int" where
  "rfind p s =
     (case rev (filter (\<lambda>i. starts_with p (drop i s)) [0..<length s]) of [] \<Rightarrow> - 1 | i # _ \<Rightarrow> int i)"

datatype truncation_warning =
    Fully_truncated
  | Trimmed_slightly
  | Truncated int int int

definition truncate_text :: "string \<Rightarrow> int \<Rightarrow> string option \<Rightarrow> string \<times> truncation_warning" where
  "truncate_text text max_tokens model =
     (if max_tokens \<le> 0 then ([], Fully_truncated)
      else let max_chars = \<lfloor>real_of_int max_tokens * chars_per_token_for model\<rfloor>
           in if int (length text) \<le> max_chars then (text, Trimmed_slightly)
              else let truncated = take (nat max_chars) text;
                       break_at = max (rfind ''. '' truncated) (rfind newline truncated);
                       kept = (if max_chars < 2 * break_at then take (nat (break_at + 1)) truncated else truncated);
                       original_tokens = estimate_tokens text model;
                       kept_tokens = estimate_tokens kept model;
                       pct = (if original_tokens = 0 then 100
                              else round_even (real_of_int (100 * kept_tokens) / real_of_int original_tokens))
                   in (kept, Truncated original_tokens kept_tokens pct))"

section \<open>Compiled prompts\<close>

record compiled_prompt =
  cp_prompt_text :: string
  cp_token_counts :: token_counts
  cp_budget_remaining :: int
  cp_truncated :: bool
  cp_truncation_warning :: "truncation_warning option"

text \<open>\<^verbatim>\<open>"\n\n".join(sections)\<close>.\<close>

fun join_sections :: "string list \<Rightarrow> string" where
  "join_sections [] = []"
| "join_sections [s] = s"
| "join_sections (s # t # ts) = s @ newline @ newline @ join_sections (t # ts)"

definition prompt_section :: "string \<Rightarrow> string \<Rightarrow> string list" where
  "prompt_section head text = (if text = [] then [] else [head @ newline @ text])"

definition compile_input :: "tenv \<Rightarrow> (string \<times> json) list \<Rightarrow> string" where
  "compile_input env filtered = (if filtered = [] then [] else te_dumps env (JObj filtered))"

definition compile_prompt ::
  "tenv \<Rightarrow> prompt_node \<Rightarrow> (string \<times> json) list \<Rightarrow> string option \<Rightarrow> int option \<Rightarrow> compiled_prompt result" where
  "compile_prompt env node input_data model context_window =
     (case apply_input_filter env input_data (pn_input_filter node) of
        Inl e \<Rightarrow> Inl e
      | Inr filtered \<Rightarrow>
          (case compact_tools env (text_of (pn_tools_allowed node)) of
             Inl e \<Rightarrow> Inl e
           | Inr tools_text \<Rightarrow>
               (let full = compile_input env filtered;
                    budget = allocate_budget (node\<lparr>pn_tools_allowed := Some tools_text, pn_input_json := Some full\<rparr>)
                               context_window model;
                    truncated = (tb_input_tokens budget < estimate_tokens full model);
                    cut = truncate_text full (tb_input_tokens budget) model;
                    input_text = (if truncated then fst cut else full);
                    system_prompt = text_of (pn_system_prompt node);
                    instructions = text_of (pn_instructions node)
                in Inr \<lparr>cp_prompt_text = join_sections
                          (prompt_section ''[SYSTEM]'' system_prompt @
                           prompt_section ''[INSTRUCTIONS]'' instructions @
                           prompt_section ''[TOOLS]'' tools_text @ prompt_section ''[INPUT]'' input_text),
                        cp_token_counts =
                          estimate_prompt_tokens system_prompt instructions tools_text input_text model,
                        cp_budget_remaining = tb_budget_remaining budget, cp_truncated = truncated,
                        cp_truncation_warning = (if truncated then Some (snd cut) else None)\<rparr>)))"

section \<open>Retries\<close>

definition retry_instructions :: "tenv \<Rightarrow> string \<Rightarrow> string \<Rightarrow> string" where
  "retry_instructions env error_message instructions =
     ''RETRY '' @ [te_dash env] @ '' The previous attempt failed with the following error:'' @ newline @
     error_message @ newline @ newline @ ''Please fix the issue described above and try again.'' @ newline @ newline @
     ''Original instructions:'' @ newline @ instructions"

definition retry_input :: "prompt_node \<Rightarrow> string option \<Rightarrow> (string \<times> json) list" where
  "retry_input node failed_input_section =
     (let raw = text_of (pn_input_json node)
      in if text_of failed_input_section \<noteq> [] then [(''failed_section'', JStr (text_of failed_input_section))]
         else [(''input_summary'', JStr (take 500 raw @ (if 500 < length raw then ''...'' else [])))])"

definition compile_retry_prompt ::
  "tenv \<Rightarrow> prompt_node \<Rightarrow> string \<Rightarrow> string option \<Rightarrow> string option \<Rightarrow> string option \<Rightarrow> int option \<Rightarrow>
   compiled_prompt result" where
  "compile_retry_prompt env node error_message failed_input_section original_instructions model context_window =
     (let instructions = (if text_of original_instructions \<noteq> [] then text_of original_instructions
                          else text_of (pn_instructions node))
      in compile_prompt env (node\<lparr>pn_instructions := Some (retry_instructions env error_message instructions)\<rparr>)
           (retry_input node failed_input_section) model context_window)"

section \<open>Recorded usage\<close>

text \<open>An error of the database is logged and swallowed.\<close>

definition record_usage ::
  "ident \<Rightarrow> ident \<Rightarrow> string \<Rightarrow> int \<Rightarrow> int \<Rightarrow> real \<Rightarrow> timestamp \<Rightarrow> exec_state \<Rightarrow> exec_state" where
  "record_usage node_id attempt_id model tokens_in tokens_out cost now s =
     (if 0 < sql_rowcount (\<lambda>a. at_id a = attempt_id) (ex_attempts s)
      then s\<lparr>ex_attempts := sql_update (\<lambda>a. at_id a = attempt_id)
             (\<lambda>a. a\<lparr>at_tokens_in := Some tokens_in, at_tokens_out := Some tokens_out, at_cost_cents := Some cost,
                     at_model_used := Some model\<rparr>) (ex_attempts s)\<rparr>
      else if (node_id, 1) \<in> set (map (\<lambda>a. (at_node_id a, at_attempt_number a)) (ex_attempts s)) then s
      else s\<lparr>ex_attempts := ex_attempts s @
             [\<lparr>at_id = attempt_id, at_node_id = node_id, at_attempt_number = 1, at_status = ''completed'',
               at_started_at = now, at_completed_at = None, at_input_json = None, at_output_json = None,
               at_error = None, at_error_category = None, at_model_used = Some model,
               at_tokens_in = Some tokens_in, at_tokens_out = Some tokens_out, at_cost_cents = Some cost,
               at_duration_ms = None\<rparr>]\<rparr>)"

record attempt_usage =
  au_attempt_id :: ident
  au_node_id :: ident
  au_model_used :: "string option"
  au_tokens_in :: int
  au_tokens_out :: int
  au_cost_cents :: real

record node_usage =
  nu_tokens_in :: int
  nu_tokens_out :: int
  nu_cost_cents :: real
  nu_attempts :: int

record job_usage =
  ju_total_tokens_in :: int
  ju_total_tokens_out :: int
  ju_total_cost_cents :: real
  ju_by_node :: "(ident \<times> node_usage) list"
  ju_by_attempt :: "attempt_usage list"

text \<open>\<^verbatim>\<open>COALESCE(x, 0)\<close>.\<close>

definition coalesce :: "'a::zero option \<Rightarrow> 'a" where
  "coalesce v = (case v of None \<Rightarrow> 0 | Some x \<Rightarrow> x)"

definition usage_of :: "attempt \<Rightarrow> attempt_usage" where
  "usage_of a =
     \<lparr>au_attempt_id = at_id a, au_node_id = at_node_id a, au_model_used = at_model_used a,
      au_tokens_in = coalesce (at_tokens_in a), au_tokens_out = coalesce (at_tokens_out a),
      au_cost_cents = coalesce (at_cost_cents a)\<rparr>"

text \<open>\<^verbatim>\<open>node_attempts na JOIN job_nodes jn ON jn.id = na.node_id\<close>, in the order of the nodes and attempts.\<close>

definition attempts_of_job :: "exec_state \<Rightarrow> ident \<Rightarrow> attempt_usage list" where
  "attempts_of_job s job_id =
     map (usage_of \<circ> fst) (order_by (nr_sequence \<circ> snd) (order_by (at_attempt_number \<circ> fst)
       (concat (map (\<lambda>a. map (\<lambda>n. (a, n)) (filter (\<lambda>n. nr_id n = at_node_id a \<and> nr_job_id n = job_id) (db_nodes (ex_db s))))
         (ex_attempts s)))))"

definition no_usage :: node_usage where
  "no_usage = \<lparr>nu_tokens_in = 0, nu_tokens_out = 0, nu_cost_cents = 0, nu_attempts = 0\<rparr>"

definition add_usage :: "attempt_usage \<Rightarrow> node_usage \<Rightarrow> node_usage" where
  "add_usage r u =
     \<lparr>nu_tokens_in = nu_tokens_in u + au_tokens_in r, nu_tokens_out = nu_tokens_out u + au_tokens_out r,
      nu_cost_cents = nu_cost_cents u + au_cost_cents r, nu_attempts = nu_attempts u + 1\<rparr>"

fun usage_by_node :: "attempt_usage list \<Rightarrow> (ident \<times> node_usage) list \<Rightarrow> (ident \<times> node_usage) list" where
  "usage_by_node [] by_node = by_node"
| "usage_by_node (r # rs) by_node =
     usage_by_node rs (dict_put (au_node_id r)
       (add_usage r (case map_of by_node (au_node_id r) of None \<Rightarrow> no_usage | Some u \<Rightarrow> u)) by_node)"

definition get_job_usage :: "exec_state \<Rightarrow> ident \<Rightarrow> job_usage" where
  "get_job_usage s job_id =
     (let rows = attempts_of_job s job_id
      in \<lparr>ju_total_tokens_in = (\<Sum>r\<leftarrow>rows. au_tokens_in r), ju_total_tokens_out = (\<Sum>r\<leftarrow>rows. au_tokens_out r),
          ju_total_cost_cents = round4 (\<Sum>r\<leftarrow>rows. au_cost_cents r),
          ju_by_node = usage_by_node rows [], ju_by_attempt = rows\<rparr>)"

record day_usage =
  du_date :: int
  du_tokens_in :: int
  du_tokens_out :: int
  du_cost_cents :: real

record workspace_usage =
  wu_total_tokens_in :: int
  wu_total_tokens_out :: int
  wu_total_cost_cents :: real
  wu_job_count :: nat
  wu_daily :: "day_usage list"

text \<open>\<^verbatim>\<open>DATE(created_at)\<close>, counted in days.\<close>

definition day_of :: "timestamp \<Rightarrow> int" where
  "day_of t = t div 86400000000"

definition jobs_since :: "exec_state \<Rightarrow> ident \<Rightarrow> timestamp option \<Rightarrow> job_row list" where
  "jobs_since s ws since =
     filter (\<lambda>j. jr_workspace_id j = Some ws \<and> (case since of None \<Rightarrow> True | Some t \<Rightarrow> t \<le> jr_created_at j))
       (db_jobs (ex_db s))"

definition attempts_by_day :: "exec_state \<Rightarrow> ident \<Rightarrow> timestamp option \<Rightarrow> (int \<times> attempt_usage) list" where
  "attempts_by_day s ws since =
     concat (map (\<lambda>j. concat (map (\<lambda>n. map (\<lambda>a. (day_of (jr_created_at j), usage_of a))
         (filter (\<lambda>a. at_node_id a = nr_id n) (ex_attempts s)))
       (filter (\<lambda>n. nr_job_id n = jr_id j) (db_nodes (ex_db s))))) (jobs_since s ws since))"

definition on_day :: "(int \<times> attempt_usage) list \<Rightarrow> int \<Rightarrow> attempt_usage list" where
  "on_day rows day = map snd (filter (\<lambda>(d, r). d = day) rows)"

definition days_of :: "(int \<times> attempt_usage) list \<Rightarrow> int list" where
  "days_of rows = sort (remdups (map fst rows))"

definition get_workspace_usage :: "exec_state \<Rightarrow> ident \<Rightarrow> timestamp option \<Rightarrow> workspace_usage" where
  "get_workspace_usage s ws since =
     (let rows = attempts_by_day s ws since;
          tokens_in = (\<lambda>day. \<Sum>r\<leftarrow>on_day rows day. au_tokens_in r);
          tokens_out = (\<lambda>day. \<Sum>r\<leftarrow>on_day rows day. au_tokens_out r);
          cost = (\<lambda>day. \<Sum>r\<leftarrow>on_day rows day. au_cost_cents r)
      in \<lparr>wu_total_tokens_in = (\<Sum>day\<leftarrow>days_of rows. tokens_in day),
          wu_total_tokens_out = (\<Sum>day\<leftarrow>days_of rows. tokens_out day),
          wu_total_cost_cents = round4 (\<Sum>day\<leftarrow>days_of rows. cost day),
          wu_job_count = length (jobs_since s ws since),
          wu_daily = map (\<lambda>day. \<lparr>du_date = day, du_tokens_in = tokens_in day, du_tokens_out = tokens_out day,
                                 du_cost_cents = round4 (cost day)\<rparr>) (days_of rows)\<rparr>)"

definition check_budget_alert :: "int \<Rightarrow> token_budget \<Rightarrow> bool" where
  "check_budget_alert tokens_used budget \<longleftrightarrow> 2 * tb_total budget < tokens_used"

section \<open>The budget fits\<close>

lemma chars_per_token_pos: "0 < chars_per_token_for model"
  by (auto simp: chars_per_token_for_def DEFAULT_CHARS_PER_TOKEN_def CHARS_PER_TOKEN_def split: option.split if_splits)

lemma estimate_nonneg [simp]: "0 \<le> estimate_tokens text model"
  by (simp add: estimate_tokens_def max_def)

lemma estimate_Nil [simp]: "estimate_tokens [] model = 0"
  by (simp add: estimate_tokens_def)

lemma estimate_le:
  assumes "int (length text) \<le> \<lfloor>real_of_int n * chars_per_token_for model\<rfloor>" "0 < n"
  shows "estimate_tokens text model \<le> n"
proof -
  let ?c = "chars_per_token_for model"
  have "real (length text) \<le> real_of_int n * ?c" using assms(1) by (simp add: le_floor_iff)
  then have "real (length text) / ?c \<le> real_of_int n" using chars_per_token_pos [of model] by (simp add: field_simps)
  then have "\<lceil>real (length text) / ?c\<rceil> \<le> n" by (simp add: ceiling_le_iff)
  with assms(2) show ?thesis by (simp add: estimate_tokens_def)
qed

lemma truncate_text_prefix: "prefix (fst (truncate_text text n model)) text"
  by (auto simp: truncate_text_def Let_def take_is_prefix min_def)

lemma truncate_text_fits:
  assumes "0 \<le> n"
  shows "estimate_tokens (fst (truncate_text text n model)) model \<le> n"
proof (cases "n = 0")
  case False
  let ?m = "\<lfloor>real_of_int n * chars_per_token_for model\<rfloor>"
  have m: "0 \<le> ?m" using assms chars_per_token_pos [of model] by simp
  then have "int (length (take (nat ?m) u)) \<le> ?m" "int (length (take k (take (nat ?m) u))) \<le> ?m" for u :: string and k
    by (auto simp: min_def nat_le_iff le_nat_iff)
  with False assms show ?thesis
    unfolding truncate_text_def Let_def by (auto intro!: estimate_le simp del: take_take length_take)
qed (simp add: truncate_text_def)

lemma output_reserve_between:
  assumes "0 \<le> usable"
  shows "output_reserve est usable \<le> usable div 2" "usable div 4 \<le> output_reserve est usable"
    "0 \<le> output_reserve est usable"
  using assms zdiv_mono2 [of usable 2 4] by (auto simp: output_reserve_def min_def max_def)

lemma input_share_between:
  assumes "0 \<le> est"
  shows "0 \<le> input_share est left" "input_share est left \<le> est" "left < 0 \<Longrightarrow> input_share est left = 0"
    "0 \<le> left \<Longrightarrow> input_share est left \<le> left"
  using assms by (auto simp: input_share_def)

text \<open>The budget of a node fits into the context window without the safety margin, unless the parts that are never
  truncated do not fit by themselves; then nothing is left for the input. Nothing is lost: what is not allocated is
  reported as remaining.\<close>

theorem budget_fits_window:
  assumes "0 \<le> effective_window context_window model"
  shows "let b = allocate_budget node context_window model; usable = tb_context_window b - tb_safety_margin b;
             fixed = tb_system_tokens b + tb_tool_tokens b + tb_instruction_tokens b + tb_output_tokens b
         in 0 \<le> usable \<and> tb_total b = fixed + tb_input_tokens b \<and>
            0 \<le> tb_input_tokens b \<and> tb_input_tokens b \<le> estimate_tokens (text_of (pn_input_json node)) model \<and>
            0 \<le> tb_budget_remaining b \<and> 0 \<le> tb_output_tokens b \<and> tb_output_tokens b \<le> usable div 2 \<and> usable div 4 \<le> tb_output_tokens b \<and>
            (if fixed \<le> usable then tb_total b + tb_budget_remaining b = usable
             else tb_input_tokens b = 0 \<and> tb_budget_remaining b = 0)"
proof -
  let ?w = "effective_window context_window model"
  have "real_of_int ?w * SAFETY_MARGIN_FRACTION \<le> real_of_int ?w"
    using assms by (simp add: SAFETY_MARGIN_FRACTION_def)
  then have "\<lceil>real_of_int ?w * SAFETY_MARGIN_FRACTION\<rceil> \<le> ?w" by (simp add: ceiling_le_iff)
  then have usable: "0 \<le> ?w - \<lceil>real_of_int ?w * SAFETY_MARGIN_FRACTION\<rceil>" by simp
  define u where "u = ?w - \<lceil>real_of_int ?w * SAFETY_MARGIN_FRACTION\<rceil>"
  let ?est = "\<lambda>t. estimate_tokens (text_of t) model"
  define reserve where "reserve = output_reserve (?est (pn_expected_output node)) u"
  define share where "share = input_share (?est (pn_input_json node)) (u -
    (?est (pn_system_prompt node) + ?est (pn_tools_allowed node) + ?est (pn_instructions node) + reserve))"
  have "0 \<le> u" using usable by (simp add: u_def)
  note facts = this output_reserve_between [OF this, of "?est (pn_expected_output node)", folded reserve_def]
    input_share_between [OF estimate_nonneg [of "text_of (pn_input_json node)" model], of "u -
      (?est (pn_system_prompt node) + ?est (pn_tools_allowed node) + ?est (pn_instructions node) + reserve)",
      folded share_def]
  have "allocate_budget node context_window model =
      \<lparr>tb_system_tokens = ?est (pn_system_prompt node), tb_tool_tokens = ?est (pn_tools_allowed node),
       tb_instruction_tokens = ?est (pn_instructions node), tb_input_tokens = share, tb_output_tokens = reserve,
       tb_safety_margin = ?w - u,
       tb_total = ?est (pn_system_prompt node) + ?est (pn_tools_allowed node) + ?est (pn_instructions node) + share + reserve,
       tb_context_window = ?w,
       tb_budget_remaining = max 0 (u - (?est (pn_system_prompt node) + ?est (pn_tools_allowed node) +
         ?est (pn_instructions node) + share + reserve))\<rparr>"
    by (simp add: allocate_budget_def Let_def u_def reserve_def share_def)
  with facts show ?thesis by (auto simp: Let_def)
qed

section \<open>The compiled prompt\<close>

text \<open>C24. A compiled prompt consists of the system prompt, the instructions and the compacted tools as they are, and of a prefix
  of the filtered input, which is all of it unless a truncation is reported. Its parts and the tokens kept for the
  answer fit into the window without the safety margin, unless there is no room for any input.\<close>

theorem compiled_prompt_within_budget:
  assumes "compile_prompt env node input model cw = Inr p" "0 \<le> effective_window cw model"
  shows "\<exists>filtered tools kept.
    apply_input_filter env input (pn_input_filter node) = Inr filtered \<and>
    compact_tools env (text_of (pn_tools_allowed node)) = Inr tools \<and>
    prefix kept (compile_input env filtered) \<and> (kept = compile_input env filtered \<or> cp_truncated p) \<and>
    cp_prompt_text p = join_sections (prompt_section ''[SYSTEM]'' (text_of (pn_system_prompt node)) @
      prompt_section ''[INSTRUCTIONS]'' (text_of (pn_instructions node)) @
      prompt_section ''[TOOLS]'' tools @ prompt_section ''[INPUT]'' kept) \<and>
    (let b = allocate_budget node cw model
     in tc_total (cp_token_counts p) + tb_output_tokens b \<le> tb_context_window b - tb_safety_margin b \<or> kept = [])"
proof -
  from assms(1) obtain filtered tools where f: "apply_input_filter env input (pn_input_filter node) = Inr filtered"
    and t: "compact_tools env (text_of (pn_tools_allowed node)) = Inr tools"
    by (auto simp: compile_prompt_def split: sum.splits)
  define full where "full = compile_input env filtered"
  define node' where "node' = node\<lparr>pn_tools_allowed := Some tools, pn_input_json := Some full\<rparr>"
  define b where "b = allocate_budget node' cw model"
  define kept where "kept = (if tb_input_tokens b < estimate_tokens full model
    then fst (truncate_text full (tb_input_tokens b) model) else full)"
  have p: "cp_prompt_text p = join_sections (prompt_section ''[SYSTEM]'' (text_of (pn_system_prompt node)) @
      prompt_section ''[INSTRUCTIONS]'' (text_of (pn_instructions node)) @
      prompt_section ''[TOOLS]'' tools @ prompt_section ''[INPUT]'' kept)"
    "cp_truncated p \<longleftrightarrow> tb_input_tokens b < estimate_tokens full model"
    "cp_token_counts p = estimate_prompt_tokens (text_of (pn_system_prompt node)) (text_of (pn_instructions node))
       tools kept model"
    using assms(1) f t by (auto simp: compile_prompt_def Let_def full_def node'_def b_def kept_def)
  have parts: "tb_system_tokens b = estimate_tokens (text_of (pn_system_prompt node)) model"
    "tb_tool_tokens b = estimate_tokens tools model"
    "tb_instruction_tokens b = estimate_tokens (text_of (pn_instructions node)) model"
    "tb_output_tokens b = tb_output_tokens (allocate_budget node cw model)"
    "tb_context_window b = tb_context_window (allocate_budget node cw model)"
    "tb_safety_margin b = tb_safety_margin (allocate_budget node cw model)"
    by (simp_all add: b_def node'_def allocate_budget_def Let_def text_of_def)
  note fits = budget_fits_window [OF assms(2), of node', unfolded Let_def, folded b_def]
  have kept: "estimate_tokens kept model \<le> tb_input_tokens b" "prefix kept full"
    "kept = full \<or> cp_truncated p"
    using fits by (auto simp: kept_def truncate_text_fits truncate_text_prefix p)
  have "kept = []" if "tb_input_tokens b = 0"
    using kept(1) that by (auto simp: estimate_tokens_def split: if_splits)
  with kept(1) fits have "tc_total (cp_token_counts p) + tb_output_tokens b \<le> tb_context_window b - tb_safety_margin b \<or>
      kept = []"
    unfolding p estimate_prompt_tokens_def Let_def by (auto simp: parts(1-3) split: if_splits)
  then show ?thesis
    using f t kept by (intro exI [of _ filtered] exI [of _ tools] exI [of _ kept]) (simp add: p(1) Let_def parts full_def)
qed

section \<open>Filter, tools and retries\<close>

lemma select_all_Cons:
  "select_all env input ((key, selector) # flt) =
     (if get_or input key JNull = JNull then select_all env input flt
      else case select_value env selector (get_or input key JNull) of
             Inl e \<Rightarrow> Inl e
           | Inr v \<Rightarrow> map_sum id (\<lambda>rest. (key, v) # rest) (select_all env input flt))"
  by (cases "get_or input key JNull") simp_all

lemma get_or_present: "get_or kvs k JNull \<noteq> JNull \<Longrightarrow> k \<in> fst ` set kvs"
  using map_of_SomeD [of "rev kvs" k] by (force simp: get_or_def obj_get_def split: option.splits)

lemma select_all_keys: "select_all env input flt = Inr sel \<Longrightarrow> fst ` set sel \<subseteq> fst ` set flt \<inter> fst ` set input"
proof (induction flt arbitrary: sel)
  case (Cons kv flt)
  obtain key selector where kv: "kv = (key, selector)" by (cases kv)
  show ?case
  proof (cases "get_or input key JNull = JNull")
    case True
    with Cons kv show ?thesis by (auto simp: select_all_Cons simp del: select_all.simps)
  next
    case False
    with Cons.prems kv obtain v rest where "select_all env input flt = Inr rest" "sel = (key, v) # rest"
      by (auto simp: select_all_Cons map_sum_Inr_iff simp del: select_all.simps split: sum.splits)
    with Cons.IH [of rest] get_or_present [OF False] kv show ?thesis by auto
  qed
qed simp

lemma map_of_kept_keys: "k \<notin> K \<Longrightarrow> map_of (filter (\<lambda>(k, v). k \<notin> K) kvs) k = map_of kvs k"
  by (induction kvs) auto

text \<open>The filter only removes: every key of the result is one of the input, and a key it does not name keeps its value.\<close>

lemma filter_only_removes:
  assumes "apply_input_filter env input (Some flt) = Inr result" "flt \<noteq> []"
  shows "fst ` set result \<subseteq> fst ` set input" "k \<notin> fst ` set flt \<Longrightarrow> map_of result k = map_of input k"
proof -
  from assms consider "input = []" "result = []"
    | sel where "select_all env input flt = Inr sel" "result = sel @ filter (\<lambda>(k, v). k \<notin> fst ` set flt) input"
    by (auto simp: apply_input_filter_def map_sum_Inr_iff split: if_splits)
  then have "fst ` set result \<subseteq> fst ` set input \<and> (k \<notin> fst ` set flt \<longrightarrow> map_of result k = map_of input k)"
  proof cases
    case 2
    have "map_of (filter (\<lambda>(k, v). k \<notin> fst ` set flt) input) k = map_of input k" if "k \<notin> fst ` set flt"
      using that by (rule map_of_kept_keys)
    moreover have "map_of sel k = None" if "k \<notin> fst ` set flt"
      using that select_all_keys [OF 2(1)] by (auto simp: map_of_eq_None_iff)
    moreover have "fst ` set result \<subseteq> fst ` set input" using select_all_keys [OF 2(1)] by (auto simp: 2(2))
    ultimately show ?thesis by (simp add: 2(2) map_add_def)
  qed simp
  then show "fst ` set result \<subseteq> fst ` set input" "k \<notin> fst ` set flt \<Longrightarrow> map_of result k = map_of input k" by auto
qed

lemma short_description_once: "short_description k v = Some d \<Longrightarrow> short_description k d = None"
  by (auto simp: short_description_def split: json.splits if_splits)

lemma short_description_compact: "short_description k v = None \<Longrightarrow> short_description k (compact_obj v) = None"
  by (auto simp: short_description_def split: json.splits)

lemma compact_short: "short_description k v = Some d \<Longrightarrow> compact_obj d = d"
  by (auto simp: short_description_def split: json.splits if_splits)

lemma compact_obj_idempotent: "compact_obj (compact_obj v) = compact_obj v"
proof (induction v rule: compact_obj.induct)
  case (1 kvs)
  let ?f = "\<lambda>(k, v). (k, case short_description k v of Some d \<Rightarrow> d | None \<Rightarrow> compact_obj v)"
  let ?ps = "filter (\<lambda>(k, v). \<not> example_key k) kvs"
  have "?f (?f p) = ?f p" if p: "p \<in> set ?ps" for p
  proof (cases p)
    case (Pair k v)
    show ?thesis
      using 1 [OF p Pair [symmetric]] short_description_once [of k v] short_description_compact [of k v] compact_short [of k v]
      by (auto simp: Pair split: option.split)
  qed
  then have "map (?f \<circ> ?f) ?ps = map ?f ?ps" by (intro map_cong) (simp_all only: comp_apply)
  moreover have "filter (\<lambda>(k, v). \<not> example_key k) (map ?f ?ps) = map ?f ?ps"
    by (intro filter_True) auto
  ultimately show ?case by (simp only: compact_obj.simps map_map)
qed simp_all

text \<open>A parameter of a tool that is called \<^verbatim>\<open>example\<close> is dropped from its schema, where it may still be required.\<close>

lemma compacting_drops_a_parameter:
  "compact_obj (JObj [(''properties'', JObj [(''example'', JObj [(''type'', JStr ''string'')])]),
     (''required'', JList [JStr ''example''])]) =
   JObj [(''properties'', JObj []), (''required'', JList [JStr ''example''])]"
  by (simp add: example_key_def short_description_def)

text \<open>A retry carries the error and the instructions in full, and of the failed input at most 503 characters unless the
  caller names a section.\<close>

lemma retry_prompt_contents:
  "contains (error_message @ newline) (retry_instructions env error_message instructions)"
  "contains instructions (retry_instructions env error_message instructions)"
proof -
  have "retry_instructions env error_message instructions =
    (''RETRY '' @ [te_dash env] @ '' The previous attempt failed with the following error:'' @ newline) @
    (error_message @ newline) @ (newline @ ''Please fix the issue described above and try again.'' @ newline @ newline @
     ''Original instructions:'' @ newline @ instructions)"
    by (simp add: retry_instructions_def)
  then show "contains (error_message @ newline) (retry_instructions env error_message instructions)"
    unfolding contains_iff by blast
  show "contains instructions (retry_instructions env error_message instructions)"
    unfolding contains_iff retry_instructions_def append_assoc [symmetric] by (metis append_Nil2)
qed

lemma retry_input_short:
  "text_of failed = [] \<Longrightarrow> \<exists>s. retry_input node failed = [(''input_summary'', JStr s)] \<and> length s \<le> 503"
  by (simp add: retry_input_def Let_def)

section \<open>Usage adds up\<close>

lemma sum_dict_put:
  fixes f :: "'u \<Rightarrow> 'n::comm_monoid_add"
  assumes "distinct (map fst kvs)" "f v = f (case map_of kvs k of None \<Rightarrow> z | Some u \<Rightarrow> u) + x" "f z = 0"
  shows "(\<Sum>(k, u)\<leftarrow>dict_put k v kvs. f u) = (\<Sum>(k, u)\<leftarrow>kvs. f u) + x"
  using assms
proof (induction kvs)
  case Nil
  then show ?case by (simp add: dict_put_def)
next
  case (Cons p kvs)
  obtain i w where p: "p = (i, w)" by (cases p)
  show ?case
  proof (cases "i = k")
    case True
    have "map (\<lambda>(i, u). if i = k then (k, v) else (i, u)) kvs = kvs"
      using Cons.prems(1) p True by (induction kvs) (auto simp: image_iff)
    with Cons.prems p True show ?thesis by (simp add: dict_put_def algebra_simps)
  next
    case False
    with p have "dict_put k v (p # kvs) = p # dict_put k v kvs" by (auto simp: dict_put_def)
    with Cons p False show ?thesis by (simp add: algebra_simps)
  qed
qed

lemma usage_by_node_sums:
  fixes f :: "node_usage \<Rightarrow> 'n::comm_monoid_add"
  assumes "distinct (map fst by_node)" "\<And>r u. f (add_usage r u) = f u + g r" "f no_usage = 0"
  shows "(\<Sum>(i, u)\<leftarrow>usage_by_node rows by_node. f u) = (\<Sum>(i, u)\<leftarrow>by_node. f u) + (\<Sum>r\<leftarrow>rows. g r)"
  using assms(1)
proof (induction rows arbitrary: by_node)
  case (Cons r rows)
  let ?u = "case map_of by_node (au_node_id r) of None \<Rightarrow> no_usage | Some u \<Rightarrow> u"
  from sum_dict_put [OF Cons.prems, where f = f and v = "add_usage r ?u" and k = "au_node_id r" and z = no_usage and x = "g r"]
    assms(2,3)
  have "(\<Sum>(i, u)\<leftarrow>dict_put (au_node_id r) (add_usage r ?u) by_node. f u) = (\<Sum>(i, u)\<leftarrow>by_node. f u) + g r" by simp
  with Cons.IH [OF distinct_dict_put [OF Cons.prems]] show ?case by (simp add: add.assoc)
qed simp

lemma usage_by_node_distinct: "distinct (map fst by_node) \<Longrightarrow> distinct (map fst (usage_by_node rows by_node))"
  by (induction rows by_node rule: usage_by_node.induct) (simp_all add: distinct_dict_put)

text \<open>The usage of a job adds up: the totals are the sums over its nodes and over its attempts, every node has one entry,
  and every attempt is counted once.\<close>

theorem job_usage_adds_up:
  "let u = get_job_usage s job_id
   in distinct (map fst (ju_by_node u)) \<and>
      (\<Sum>(i, n)\<leftarrow>ju_by_node u. nu_tokens_in n) = ju_total_tokens_in u \<and>
      (\<Sum>r\<leftarrow>ju_by_attempt u. au_tokens_in r) = ju_total_tokens_in u \<and>
      (\<Sum>(i, n)\<leftarrow>ju_by_node u. nu_tokens_out n) = ju_total_tokens_out u \<and>
      (\<Sum>r\<leftarrow>ju_by_attempt u. au_tokens_out r) = ju_total_tokens_out u \<and>
      round4 (\<Sum>(i, n)\<leftarrow>ju_by_node u. nu_cost_cents n) = ju_total_cost_cents u \<and>
      (\<Sum>(i, n)\<leftarrow>ju_by_node u. nu_attempts n) = int (length (ju_by_attempt u))"
  by (simp add: get_job_usage_def Let_def usage_by_node_distinct usage_by_node_sums [where g = au_tokens_in]
      usage_by_node_sums [where g = au_tokens_out] usage_by_node_sums [where g = au_cost_cents]
      usage_by_node_sums [where g = "\<lambda>_. 1"] add_usage_def no_usage_def sum_list_triv)

lemma sum_by_key:
  fixes f :: "'r \<Rightarrow> 'n::comm_monoid_add"
  assumes "distinct ks" "fst ` set rows \<subseteq> set ks"
  shows "(\<Sum>k\<leftarrow>ks. \<Sum>r\<leftarrow>map snd (filter (\<lambda>(d, r). d = k) rows). f r) = (\<Sum>(d, r)\<leftarrow>rows. f r)"
  using assms(2)
proof (induction rows)
  case Nil
  then show ?case by (simp add: sum_list_0)
next
  case (Cons p rows)
  obtain d r where p: "p = (d, r)" by (cases p)
  have "(\<Sum>k\<leftarrow>ks. \<Sum>r\<leftarrow>map snd (filter (\<lambda>(d, r). d = k) (p # rows)). f r) =
      (\<Sum>k\<leftarrow>ks. (if k = d then f r else 0) + (\<Sum>r\<leftarrow>map snd (filter (\<lambda>(d, r). d = k) rows). f r))"
    by (rule arg_cong [where f = sum_list], rule map_cong) (auto simp: p)
  also have "\<dots> = (\<Sum>k\<leftarrow>ks. if k = d then f r else 0) + (\<Sum>(d, r)\<leftarrow>rows. f r)"
    using Cons by (simp add: sum_list_addf)
  also have "(\<Sum>k\<leftarrow>ks. if k = d then f r else 0) = f r"
    using assms(1) Cons.prems p by (simp add: sum_list_distinct_conv_sum_set sum.delta)
  finally show ?case by (simp add: p)
qed

text \<open>The usage of a workspace counts every attempt of its jobs in the period once, on one day.\<close>

theorem workspace_usage_adds_up:
  "let u = get_workspace_usage s ws since; rows = attempts_by_day s ws since
   in sorted (map du_date (wu_daily u)) \<and> distinct (map du_date (wu_daily u)) \<and>
      (\<Sum>d\<leftarrow>wu_daily u. du_tokens_in d) = wu_total_tokens_in u \<and>
      (\<Sum>d\<leftarrow>wu_daily u. du_tokens_out d) = wu_total_tokens_out u \<and>
      (\<Sum>(d, r)\<leftarrow>rows. au_tokens_in r) = wu_total_tokens_in u \<and>
      (\<Sum>(d, r)\<leftarrow>rows. au_tokens_out r) = wu_total_tokens_out u \<and>
      round4 (\<Sum>(d, r)\<leftarrow>rows. au_cost_cents r) = wu_total_cost_cents u"
proof -
  have "distinct (days_of (attempts_by_day s ws since))"
    "fst ` set (attempts_by_day s ws since) \<subseteq> set (days_of (attempts_by_day s ws since))"
    by (simp_all add: days_of_def)
  note sums = sum_by_key [OF this, where f = au_tokens_in] sum_by_key [OF this, where f = au_tokens_out]
    sum_by_key [OF this, where f = au_cost_cents]
  then show ?thesis
    by (simp add: get_workspace_usage_def Let_def comp_def on_day_def) (simp add: days_of_def)
qed

section \<open>Recording\<close>

text \<open>What is recorded for an attempt of the job is what its usage shows; the status of the attempt is untouched.\<close>

lemma recorded_usage_shows:
  assumes "a \<in> set (ex_attempts s)" "n \<in> set (db_nodes (ex_db s))" "nr_id n = at_node_id a" "nr_job_id n = job_id"
  shows "\<lparr>au_attempt_id = at_id a, au_node_id = at_node_id a, au_model_used = Some model, au_tokens_in = tin,
    au_tokens_out = tout, au_cost_cents = cost\<rparr>
    \<in> set (ju_by_attempt (get_job_usage (record_usage node_id (at_id a) model tin tout cost now s) job_id))"
proof -
  define s' where "s' = record_usage node_id (at_id a) model tin tout cost now s"
  let ?a = "a\<lparr>at_tokens_in := Some tin, at_tokens_out := Some tout, at_cost_cents := Some cost, at_model_used := Some model\<rparr>"
  have "0 < sql_rowcount (\<lambda>b. at_id b = at_id a) (ex_attempts s)"
    using assms(1) by (auto simp: sql_rowcount_def length_greater_0_conv filter_empty_conv)
  then have "?a \<in> set (ex_attempts s')"
    using assms(1) by (auto simp: s'_def record_usage_def sql_update_def image_iff intro!: bexI [of _ a])
  moreover have "ex_db s' = ex_db s"
    by (simp add: s'_def record_usage_def)
  ultimately have "(?a, n) \<in> set (concat (map (\<lambda>b. map (\<lambda>n. (b, n))
      (filter (\<lambda>n. nr_id n = at_node_id b \<and> nr_job_id n = job_id)
        (db_nodes (ex_db s'))))
      (ex_attempts s')))"
    using assms by (auto intro!: bexI [of _ ?a])
  then have "usage_of ?a \<in> set (attempts_of_job s' job_id)"
    unfolding attempts_of_job_def set_map set_order_by by (intro image_eqI [where x = "(?a, n)"]) simp_all
  then show ?thesis unfolding s'_def [symmetric] by (simp add: get_job_usage_def Let_def usage_of_def coalesce_def)
qed

text \<open>The usage of an attempt without a row is dropped when the node already has a first attempt: the row to be inserted
  has the number one, and the error of the database is only logged.\<close>

lemma unknown_attempt_usage_lost:
  assumes "\<forall>b \<in> set (ex_attempts s). at_id b \<noteq> attempt_id"
    and "a \<in> set (ex_attempts s)" "at_node_id a = node_id" "at_attempt_number a = 1"
  shows "record_usage node_id attempt_id model tin tout cost now s = s"
proof -
  have "sql_rowcount (\<lambda>b. at_id b = attempt_id) (ex_attempts s) = 0"
    using assms(1) by (simp add: sql_rowcount_def filter_empty_conv)
  with assms(2-4) show ?thesis by (force simp: record_usage_def)
qed

section \<open>An example\<close>

definition example_tenv :: tenv where
  "example_tenv =
     \<lparr>te_loads = (\<lambda>s. Inl (ValueError s)), te_dumps = (\<lambda>v. replicate 40000 (CHR ''x'')), te_dumps_compact = (\<lambda>v. ''{}''),
      te_repr = (\<lambda>v. ''?''), te_dash = CHR ''-''\<rparr>"

definition example_prompt_node :: prompt_node where
  "example_prompt_node =
     \<lparr>pn_system_prompt = Some ''You are a worker.'', pn_instructions = Some ''Sum up.'', pn_tools_allowed = Some ''web_search'',
      pn_input_json = None, pn_expected_output = None, pn_input_filter = None\<rparr>"

theorem budget_fits_window_witness:
  "let b = allocate_budget example_prompt_node None None
   in 0 \<le> tb_context_window b - tb_safety_margin b \<and> tb_output_tokens b \<le> (tb_context_window b - tb_safety_margin b) div 2"
  using budget_fits_window [of None None example_prompt_node]
  by (simp add: effective_window_def context_window_for_def DEFAULT_CONTEXT_WINDOW_def Let_def)

theorem compiled_prompt_within_budget_witness:
  "\<exists>p. compile_prompt example_tenv example_prompt_node [(''doc'', JStr ''x'')] None None = Inr p \<and>
     (\<exists>filtered. apply_input_filter example_tenv [(''doc'', JStr ''x'')] None = Inr filtered)"
proof -
  have "compact_tools example_tenv ''web_search'' = Inr ''web_search''"
    by (simp add: compact_tools_def py_strip_def py_isspace_def)
  then obtain p where "compile_prompt example_tenv example_prompt_node [(''doc'', JStr ''x'')] None None = Inr p"
    by (simp add: compile_prompt_def apply_input_filter_def example_prompt_node_def text_of_def Let_def)
  with compiled_prompt_within_budget [OF this] show ?thesis
    by (auto simp: effective_window_def context_window_for_def DEFAULT_CONTEXT_WINDOW_def example_prompt_node_def)
qed

end
