(* ===== verification/Coordinator.thy ===== *)
theory Coordinator
  imports Swarm_Task_Queue Delegation Shared_Memory Resource_Lock Message_Bus Std_Text
begin

text \<open>
  \<^verbatim>\<open>backend/swarm/coordinator.py\<close> with \<^verbatim>\<open>BaseAgent\<close> of \<^verbatim>\<open>backend/swarm/agents/__init__.py\<close>: the pools of workers on the
  task queue, the semaphore of the GPU, the collection of results, the helpers that submit tasks, the maintenance of
  the delegation subsystems and the status. The workers interleave at their awaits: \<open>hive_step\<close> is the relation whose
  events are the pieces of their loops between two awaits. What an agent's \<^verbatim>\<open>execute\<close> returns or raises, the project's
  files, the random choices, identifiers and clock readings are arguments.
\<close>

section \<open>Results and agents\<close>

datatype task_error = Task_error string | Timeout_after real

record swarm_result =
  sr_task_id :: ident
  sr_task_type :: task_type
  sr_success :: bool
  sr_data :: json
  sr_error :: "task_error option"
  sr_duration :: real
  sr_agent_id :: "ident option"

datatype pool = Cpu_pool | Gpu_pool | Io_pool

datatype agent_kind = Scanner | Tester | Llm | Research

text \<open>Where a worker's loop is: asleep or at its head, in the pause for backpressure, at the semaphore, or running a task.\<close>

datatype phase = Idle | Paused swarm_task | Waiting swarm_task | Busy swarm_task | Ended

record agent =
  ag_id :: ident
  ag_kind :: agent_kind
  ag_pool :: pool
  ag_phase :: phase
  ag_cancelled :: bool
  ag_completed :: nat
  ag_failed :: nat

definition new_agent :: "pool \<Rightarrow> agent_kind \<Rightarrow> ident \<Rightarrow> agent" where
  "new_agent p k i =
     \<lparr>ag_id = i, ag_kind = k, ag_pool = p, ag_phase = Idle, ag_cancelled = False, ag_completed = 0, ag_failed = 0\<rparr>"

text \<open>What \<^verbatim>\<open>execute\<close> does within the timeout; \<^verbatim>\<open>run\<close> turns each outcome into a result and counts it.\<close>

datatype outcome = Returned bool json "string option" | Timed_out | Raised string

definition run_result :: "agent \<Rightarrow> swarm_task \<Rightarrow> outcome \<Rightarrow> real \<Rightarrow> swarm_result" where
  "run_result a t out duration =
     (let r = \<lparr>sr_task_id = st_id t, sr_task_type = st_type t, sr_success = False, sr_data = JNull, sr_error = None,
               sr_duration = duration, sr_agent_id = Some (ag_id a)\<rparr>
      in case out of
           Returned ok data err \<Rightarrow> r\<lparr>sr_success := ok, sr_data := data, sr_error := map_option Task_error err\<rparr>
         | Timed_out \<Rightarrow> r\<lparr>sr_error := Some (Timeout_after (st_timeout t))\<rparr>
         | Raised e \<Rightarrow> r\<lparr>sr_error := Some (Task_error e)\<rparr>)"

definition after_run :: "outcome \<Rightarrow> agent \<Rightarrow> agent" where
  "after_run out a =
     (case out of
        Returned ok data err \<Rightarrow> a\<lparr>ag_phase := Idle, ag_completed := ag_completed a + 1\<rparr>
      | _ \<Rightarrow> a\<lparr>ag_phase := Idle, ag_failed := ag_failed a + 1\<rparr>)"

fun held :: "phase \<Rightarrow> swarm_task option" where
  "held (Paused t) = Some t"
| "held (Waiting t) = Some t"
| "held (Busy t) = Some t"
| "held _ = None"

definition agent_is_running :: "agent \<Rightarrow> bool" where
  "agent_is_running a \<longleftrightarrow> (case ag_phase a of Waiting t \<Rightarrow> True | Busy t \<Rightarrow> True | _ \<Rightarrow> False)"

definition holds_permit :: "agent \<Rightarrow> bool" where
  "holds_permit a \<longleftrightarrow> ag_pool a = Gpu_pool \<and> (case ag_phase a of Busy t \<Rightarrow> True | _ \<Rightarrow> False)"

section \<open>The coordinator\<close>

record hive =
  hv_max_gpu_workers :: nat
  hv_max_cpu_workers :: nat
  hv_max_io_workers :: nat
  hv_queue :: task_queue
  hv_results :: "swarm_result list"
  hv_agents :: "agent list"
  hv_permits :: nat
  hv_running :: bool
  hv_start_time :: "real option"
  hv_tasks_processed :: nat
  hv_tasks_failed :: nat
  hv_peak_queue_depth :: nat
  hv_last_peak_reset :: real

definition new_hive :: "nat \<Rightarrow> nat \<Rightarrow> nat \<Rightarrow> real \<Rightarrow> hive" where
  "new_hive max_gpu max_cpu max_io now =
     \<lparr>hv_max_gpu_workers = max_gpu, hv_max_cpu_workers = max_cpu, hv_max_io_workers = max_io,
      hv_queue = new_task_queue 512, hv_results = [], hv_agents = [], hv_permits = max_gpu, hv_running = False,
      hv_start_time = None, hv_tasks_processed = 0, hv_tasks_failed = 0, hv_peak_queue_depth = 0,
      hv_last_peak_reset = now\<rparr>"

definition start :: "(nat \<Rightarrow> ident) \<Rightarrow> real \<Rightarrow> hive \<Rightarrow> hive" where
  "start ids now h =
     h\<lparr>hv_running := True, hv_start_time := Some now,
       hv_agents := hv_agents h @
         map (\<lambda>i. new_agent Cpu_pool (if i < hv_max_cpu_workers h div 2 then Scanner else Tester) (ids i))
           [0..<hv_max_cpu_workers h] @
         map (\<lambda>i. new_agent Gpu_pool Llm (ids (hv_max_cpu_workers h + i))) [0..<hv_max_gpu_workers h] @
         map (\<lambda>i. new_agent Io_pool Research (ids (hv_max_cpu_workers h + hv_max_gpu_workers h + i)))
           [0..<hv_max_io_workers h]\<rparr>"

text \<open>\<^verbatim>\<open>stop\<close> cancels every worker; each notices at its next await.\<close>

definition stop :: "hive \<Rightarrow> hive" where
  "stop h = h\<lparr>hv_running := False, hv_agents := map (\<lambda>a. a\<lparr>ag_cancelled := True\<rparr>) (hv_agents h)\<rparr>"

definition collect_result :: "swarm_result \<Rightarrow> hive \<Rightarrow> hive" where
  "collect_result r h =
     (let results = hv_results h @ [r]
      in h\<lparr>hv_results := (if 200 < length results then drop (length results - 200) results else results),
           hv_tasks_processed := hv_tasks_processed h + 1,
           hv_tasks_failed := hv_tasks_failed h + (if sr_success r then 0 else 1)\<rparr>)"

section \<open>Submissions\<close>

definition make_task :: "task_type \<Rightarrow> json \<Rightarrow> int \<Rightarrow> ident \<Rightarrow> real \<Rightarrow> swarm_task" where
  "make_task ty payload priority i now =
     \<lparr>st_type = ty, st_payload = payload, st_priority = priority, st_id = i, st_timeout = 300, st_created_at = now,
      st_parent_id = None, st_tree_root_id = None, st_retries = 0, st_max_retries = 2\<rparr>"

definition submit_task :: "swarm_task \<Rightarrow> hive \<Rightarrow> bool \<times> hive" where
  "submit_task t h =
     (let (success, q) = submit t (hv_queue h)
      in (success, h\<lparr>hv_queue := q,
            hv_peak_queue_depth :=
              (if success then max (hv_peak_queue_depth h) (tq_depth q) else hv_peak_queue_depth h)\<rparr>))"

text \<open>The convenience helpers put the task into the queue and return its id without looking at the answer.\<close>

definition enqueue :: "swarm_task \<Rightarrow> hive \<Rightarrow> ident \<times> hive" where
  "enqueue t h = (st_id t, h\<lparr>hv_queue := snd (submit t (hv_queue h))\<rparr>)"

definition json_texts :: "string list \<Rightarrow> json" where
  "json_texts ss = JList (map JStr ss)"

definition scan_payload :: "string list \<Rightarrow> string \<Rightarrow> json" where
  "scan_payload files scan_type = JObj [(''files'', json_texts files), (''scan_type'', JStr scan_type)]"

definition submit_scan :: "string list \<Rightarrow> string \<Rightarrow> int \<Rightarrow> ident \<Rightarrow> real \<Rightarrow> hive \<Rightarrow> ident \<times> hive" where
  "submit_scan files scan_type priority i now h =
     enqueue (make_task SCAN_FILES (scan_payload files scan_type) priority i now) h"

definition llm_payload :: "string \<Rightarrow> string \<Rightarrow> bool \<Rightarrow> json" where
  "llm_payload prompt model parse_json =
     JObj [(''prompt'', JStr prompt), (''model'', JStr model), (''parse_json'', JBool parse_json)]"

definition submit_llm ::
  "string \<Rightarrow> string \<Rightarrow> bool \<Rightarrow> int \<Rightarrow> task_type \<Rightarrow> ident \<Rightarrow> real \<Rightarrow> hive \<Rightarrow> ident \<times> hive" where
  "submit_llm prompt model parse_json priority ty i now h =
     enqueue (make_task ty (llm_payload prompt model parse_json) priority i now) h"

definition submit_research :: "string \<Rightarrow> string \<Rightarrow> int \<Rightarrow> ident \<Rightarrow> real \<Rightarrow> hive \<Rightarrow> ident \<times> hive" where
  "submit_research query source priority i now h =
     enqueue (make_task (if source = ''web'' then RESEARCH_WEB else RESEARCH_ACADEMIC)
       (JObj [(''query'', JStr query), (''source'', JStr source)]) priority i now) h"

definition test_payload :: "string list \<Rightarrow> string \<Rightarrow> json" where
  "test_payload files mode = JObj [(''files'', json_texts files), (''mode'', JStr mode)]"

definition submit_test :: "string list \<Rightarrow> string \<Rightarrow> int \<Rightarrow> ident \<Rightarrow> real \<Rightarrow> hive \<Rightarrow> ident \<times> hive" where
  "submit_test files mode priority i now h =
     enqueue (make_task (if mode = ''pytest'' then TEST_VALIDATE else TEST_SYNTAX) (test_payload files mode)
       priority i now) h"

text \<open>\<^verbatim>\<open>for i in range(0, len(xs), n): chunk = xs[i:i + n]\<close>; a step of zero raises, a negative one does nothing.\<close>

function chunks :: "nat \<Rightarrow> 'a list \<Rightarrow> 'a list list" where
  "chunks n xs = (if n = 0 \<or> xs = [] then [] else take n xs # chunks n (drop n xs))"
  by pat_completeness auto
termination by (relation "measure (length \<circ> snd)") auto

declare chunks.simps [simp del]

definition parallel_tasks :: "nat \<Rightarrow> string list \<Rightarrow> (nat \<Rightarrow> ident) \<Rightarrow> real \<Rightarrow> swarm_task list" where
  "parallel_tasks n files ids now =
     map (\<lambda>(i, chunk). make_task SCAN_FILES (scan_payload chunk ''both'') 4 (ids i) now)
       (enumerate 0 (chunks n files))"

definition submit_parallel_scan ::
  "int \<Rightarrow> string list \<Rightarrow> (nat \<Rightarrow> ident) \<Rightarrow> real \<Rightarrow> hive \<Rightarrow> (ident list \<times> hive) result" where
  "submit_parallel_scan chunk_size files ids now h =
     (if chunk_size = 0 then Inl (ValueError ''range() arg 3 must not be zero'')
      else let tasks = parallel_tasks (nat chunk_size) files ids now
           in Inr (map st_id tasks, h\<lparr>hv_queue := snd (submit_batch tasks (hv_queue h))\<rparr>))"

section \<open>The background scheduler\<close>

definition py_files :: "string list \<Rightarrow> string list" where
  "py_files files = filter (\<lambda>f. starts_with (rev ''.py'') (rev f)) files"

text \<open>One round: a sweep of syntax checks, a scan of a sample, at times a reflection.\<close>

definition round_tasks :: "string list \<Rightarrow> string list \<Rightarrow> bool \<Rightarrow> (nat \<Rightarrow> ident) \<Rightarrow> real \<Rightarrow> swarm_task list" where
  "round_tasks all_files sample reflect ids now =
     (let sweep = chunks 25 (py_files all_files); n = length sweep
      in map (\<lambda>(i, chunk). make_task TEST_SYNTAX (test_payload chunk ''syntax'') 5 (ids i) now) (enumerate 0 sweep) @
         (if all_files = [] then []
          else [make_task SCAN_FILES (scan_payload sample ''complexity'') 5 (ids n) now]) @
         (if reflect
          then [make_task LLM_REFLECT
            (llm_payload ''Audit current file structure for modularity improvements.'' ''qwen2.5-coder:14b'' False)
            5 (ids (Suc n)) now]
          else []))"

definition scheduler_round :: "swarm_task list \<Rightarrow> real \<Rightarrow> hive \<Rightarrow> hive" where
  "scheduler_round tasks now h =
     (let q = snd (submit_batch tasks (hv_queue h)); h1 = h\<lparr>hv_queue := q\<rparr>
      in if 60 < now - hv_last_peak_reset h
         then h1\<lparr>hv_peak_queue_depth := tq_depth q, hv_last_peak_reset := now\<rparr> else h1)"

section \<open>The workers\<close>

definition pop_for :: "pool \<Rightarrow> task_queue \<Rightarrow> swarm_task option \<times> task_queue" where
  "pop_for p q = (case p of Cpu_pool \<Rightarrow> pop_cpu q | Gpu_pool \<Rightarrow> pop_gpu q | Io_pool \<Rightarrow> pop_io q)"

definition fits_pool :: "pool \<Rightarrow> swarm_task \<Rightarrow> bool" where
  "fits_pool p t \<longleftrightarrow>
     (case p of Cpu_pool \<Rightarrow> \<not> requires_gpu t \<and> \<not> is_io_bound t | Gpu_pool \<Rightarrow> requires_gpu t | Io_pool \<Rightarrow> is_io_bound t)"

text \<open>After a pop: a CPU worker pauses while the GPU queue is deep, a GPU worker reaches the semaphore.\<close>

definition taken_phase :: "pool \<Rightarrow> task_queue \<Rightarrow> swarm_task \<Rightarrow> phase" where
  "taken_phase p q t =
     (case p of
        Cpu_pool \<Rightarrow> if 10 < gpu_depth q then Paused t else Busy t
      | Gpu_pool \<Rightarrow> Waiting t
      | Io_pool \<Rightarrow> Busy t)"

definition prompted :: "swarm_task \<Rightarrow> bool" where
  "prompted t \<longleftrightarrow> (case st_payload t of JObj kvs \<Rightarrow> truthy (get_or kvs ''prompt'' (JStr [])) | _ \<Rightarrow> False)"

definition set_agent :: "nat \<Rightarrow> agent \<Rightarrow> hive \<Rightarrow> hive" where
  "set_agent i a h = h\<lparr>hv_agents := (hv_agents h)[i := a]\<rparr>"

text \<open>The semaphore is released when the task ends in any way.\<close>

definition release_permit :: "agent \<Rightarrow> hive \<Rightarrow> hive" where
  "release_permit a h = (if holds_permit a then h\<lparr>hv_permits := hv_permits h + 1\<rparr> else h)"

datatype hive_event =
    Take nat
  | Resume nat
  | Acquire nat
  | Finish nat outcome real
  | Give_up nat outcome real
  | Cancelled nat "swarm_task option"
  | Submit_task swarm_task
  | Enqueue swarm_task
  | Round "swarm_task list" real
  | Start "nat \<Rightarrow> ident" real
  | Stop

inductive hive_step :: "hive \<Rightarrow> hive_event \<Rightarrow> hive \<Rightarrow> bool" where
  take_task: "hive_step h (Take i)
    (set_agent i (a\<lparr>ag_phase := taken_phase (ag_pool a) q t\<rparr>) (h\<lparr>hv_queue := q\<rparr>))"
  if "i < length (hv_agents h)" "a = hv_agents h ! i" "hv_running h" "\<not> ag_cancelled a" "ag_phase a = Idle"
    "pop_for (ag_pool a) (hv_queue h) = (Some t, q)"
| resume: "hive_step h (Resume i) (set_agent i (a\<lparr>ag_phase := Busy t\<rparr>) h)"
  if "i < length (hv_agents h)" "a = hv_agents h ! i" "ag_phase a = Paused t" "ag_pool a \<noteq> Gpu_pool"
| acquire: "hive_step h (Acquire i) (set_agent i (a\<lparr>ag_phase := Busy t\<rparr>) (h\<lparr>hv_permits := hv_permits h - 1\<rparr>))"
  if "i < length (hv_agents h)" "a = hv_agents h ! i" "ag_phase a = Waiting t" "ag_pool a = Gpu_pool" "prompted t"
    "0 < hv_permits h"
| finish: "hive_step h (Finish i out duration)
    (collect_result (run_result a t out duration) (set_agent i (after_run out a) (release_permit a h)))"
  if "i < length (hv_agents h)" "a = hv_agents h ! i" "ag_phase a = Busy t"
| give_up: "hive_step h (Give_up i out duration)
    (collect_result (run_result a t out duration) (set_agent i (after_run out a) h))"
  if "i < length (hv_agents h)" "a = hv_agents h ! i" "ag_phase a = Waiting t" "out = Timed_out \<or> \<not> prompted t"
| cancelled: "hive_step h (Cancelled i (held (ag_phase a))) (set_agent i (a\<lparr>ag_phase := Ended\<rparr>) (release_permit a h))"
  if "i < length (hv_agents h)" "a = hv_agents h ! i" "ag_cancelled a"
| submitted: "hive_step h (Submit_task t) (snd (submit_task t h))"
| enqueued: "hive_step h (Enqueue t) (snd (enqueue t h))"
| round: "hive_step h (Round tasks now) (scheduler_round tasks now h)"
| started: "hive_step h (Start ids now) (start ids now h)"
| stopped: "hive_step h Stop (stop h)"

inductive hive_run :: "hive \<Rightarrow> hive_event list \<Rightarrow> hive \<Rightarrow> bool" where
  no_event: "hive_run h [] h"
| event: "hive_run h es h1 \<Longrightarrow> hive_step h1 e h2 \<Longrightarrow> hive_run h (es @ [e]) h2"

section \<open>Waiting for results\<close>

definition results_of :: "ident list \<Rightarrow> swarm_result list \<Rightarrow> swarm_result list" where
  "results_of task_ids results = filter (\<lambda>r. sr_task_id r \<in> set task_ids) results"

text \<open>The polling loop over the clock and the results it sees, or \<open>None\<close> when it is still waiting.\<close>

fun wait_for_results :: "ident list \<Rightarrow> real \<Rightarrow> (real \<times> swarm_result list) list \<Rightarrow> swarm_result list option" where
  "wait_for_results task_ids deadline [] = None"
| "wait_for_results task_ids deadline ((now, results) # obs) =
     (if now < deadline
      then (if length task_ids \<le> length (results_of task_ids results) then Some (results_of task_ids results)
            else wait_for_results task_ids deadline obs)
      else Some (results_of task_ids results))"

section \<open>Delegation helpers\<close>

definition submit_delegated_job ::
  "ident \<Rightarrow> string \<Rightarrow> string \<Rightarrow> string \<Rightarrow> json option \<Rightarrow> int \<Rightarrow> timestamp \<Rightarrow> ident \<Rightarrow> ident \<Rightarrow> db \<Rightarrow>
   (delegation_row \<times> db) result" where
  "submit_delegated_job parent title description dtype context priority now child_id deleg_id d =
     spawn_child_job insert_job parent title description dtype context priority now child_id deleg_id d"

record tree_report =
  tr_tree :: job_tree
  tr_shared_memory :: "memory_entry list"
  tr_active_locks :: "resource_lock list"
  tr_messages_count :: nat

definition get_tree_status ::
  "nat \<Rightarrow> db \<Rightarrow> memory_entry list \<Rightarrow> timestamp \<Rightarrow> resource_lock list \<Rightarrow> agent_message list \<Rightarrow> ident \<Rightarrow> tree_report result" where
  "get_tree_status f d memory now locks messages job_id =
     (let root_id = get_tree_root d job_id
      in map_sum id (\<lambda>tree. \<lparr>tr_tree = tree, tr_shared_memory = Shared_Memory.get_all root_id memory,
             tr_active_locks = list_active now locks,
             tr_messages_count = length (get_messages_for_tree root_id messages)\<rparr>) (get_full_tree f d root_id))"

definition hive_cleanup ::
  "timestamp \<Rightarrow> resource_lock list \<times> agent_message list \<Rightarrow> resource_lock list \<times> agent_message list" where
  "hive_cleanup now = map_prod (\<lambda>t. snd (cleanup_expired now t)) (\<lambda>t. snd (expire_messages now t))"

section \<open>Status\<close>

record pool_status =
  ps_total :: nat
  ps_active :: int

record hive_status =
  hs_running :: bool
  hs_uptime :: int
  hs_queue :: tq_stats
  hs_peak_depth :: nat
  hs_total :: nat
  hs_active :: nat
  hs_idle :: nat
  hs_cpu :: pool_status
  hs_gpu :: pool_status
  hs_gpu_available :: nat
  hs_io :: pool_status
  hs_processed :: nat
  hs_failed :: nat
  hs_success_rate :: real
  hs_recent_results :: "swarm_result list"

definition pool_of :: "pool \<Rightarrow> hive \<Rightarrow> agent list" where
  "pool_of p h = filter (\<lambda>a. ag_pool a = p) (hv_agents h)"

definition active_in :: "agent list \<Rightarrow> nat" where
  "active_in agents = length (filter agent_is_running agents)"

definition round1 :: "real \<Rightarrow> real" where
  "round1 x = real_of_int (round_even (x * 10)) / 10"

definition get_hive_status :: "real \<Rightarrow> hive \<Rightarrow> hive_status" where
  "get_hive_status now h =
     \<lparr>hs_running = hv_running h,
      hs_uptime = (case hv_start_time h of None \<Rightarrow> 0 | Some t \<Rightarrow> if t = 0 then 0 else round_even (now - t)),
      hs_queue = tq_get_stats (hv_queue h), hs_peak_depth = hv_peak_queue_depth h,
      hs_total = length (hv_agents h), hs_active = active_in (hv_agents h),
      hs_idle = length (filter (\<lambda>a. \<not> agent_is_running a) (hv_agents h)),
      hs_cpu = \<lparr>ps_total = length (pool_of Cpu_pool h), ps_active = int (active_in (pool_of Cpu_pool h))\<rparr>,
      hs_gpu = \<lparr>ps_total = length (pool_of Gpu_pool h),
                ps_active = int (hv_max_gpu_workers h) - int (hv_permits h)\<rparr>,
      hs_gpu_available = hv_permits h,
      hs_io = \<lparr>ps_total = length (pool_of Io_pool h), ps_active = int (active_in (pool_of Io_pool h))\<rparr>,
      hs_processed = hv_tasks_processed h, hs_failed = hv_tasks_failed h,
      hs_success_rate = round1 (real (hv_tasks_processed h - hv_tasks_failed h) / real (max (hv_tasks_processed h) 1) * 100),
      hs_recent_results = drop (length (hv_results h) - 10) (hv_results h)\<rparr>"

section \<open>Every task is accounted for\<close>

definition in_hand :: "hive \<Rightarrow> nat" where
  "in_hand h = length (filter (\<lambda>a. held (ag_phase a) \<noteq> None) (hv_agents h))"

definition gpu_in_use :: "hive \<Rightarrow> nat" where
  "gpu_in_use h = length (filter holds_permit (hv_agents h))"

fun lost_tasks :: "hive_event list \<Rightarrow> nat" where
  "lost_tasks [] = 0"
| "lost_tasks (Cancelled i (Some t) # es) = Suc (lost_tasks es)"
| "lost_tasks (e # es) = lost_tasks es"

lemma lost_tasks_append [simp]: "lost_tasks (es @ fs) = lost_tasks es + lost_tasks fs"
  by (induction es rule: lost_tasks.induct) simp_all

definition hive_inv :: "nat \<Rightarrow> nat \<Rightarrow> hive \<Rightarrow> bool" where
  "hive_inv max_gpu lost h \<longleftrightarrow>
     tq_inv (hv_queue h) \<and> tq_total_completed (hv_queue h) = hv_tasks_processed h + in_hand h + lost \<and>
     hv_tasks_failed h \<le> hv_tasks_processed h \<and> length (hv_results h) = min 200 (hv_tasks_processed h) \<and>
     hv_permits h + gpu_in_use h = max_gpu \<and> hv_max_gpu_workers h = max_gpu \<and>
     (\<forall>a \<in> set (hv_agents h). \<forall>t. held (ag_phase a) = Some t \<longrightarrow> fits_pool (ag_pool a) t)"

lemma count_update:
  "i < length xs \<Longrightarrow> length (filter P (xs[i := x])) + of_bool (P (xs ! i)) = length (filter P xs) + of_bool (P x)"
proof (induction xs arbitrary: i)
  case (Cons y ys)
  then show ?case
  proof (cases i)
    case (Suc j)
    with Cons.IH [of j] Cons.prems show ?thesis by auto
  qed simp
qed simp

lemma in_hand_set_agent:
  "i < length (hv_agents h) \<Longrightarrow>
     in_hand (set_agent i a h) + of_bool (held (ag_phase (hv_agents h ! i)) \<noteq> None) =
     in_hand h + of_bool (held (ag_phase a) \<noteq> None)"
  using count_update [of i "hv_agents h" "\<lambda>a. held (ag_phase a) \<noteq> None" a]
  by (simp add: in_hand_def set_agent_def)

lemma gpu_in_use_set_agent:
  "i < length (hv_agents h) \<Longrightarrow>
     gpu_in_use (set_agent i a h) + of_bool (holds_permit (hv_agents h ! i)) = gpu_in_use h + of_bool (holds_permit a)"
  using count_update [of i "hv_agents h" holds_permit a] by (simp add: gpu_in_use_def set_agent_def)

lemma set_agent_sel [simp]:
  "hv_queue (set_agent i a h) = hv_queue h" "hv_tasks_processed (set_agent i a h) = hv_tasks_processed h"
  "hv_tasks_failed (set_agent i a h) = hv_tasks_failed h" "hv_results (set_agent i a h) = hv_results h"
  "hv_permits (set_agent i a h) = hv_permits h" "hv_max_gpu_workers (set_agent i a h) = hv_max_gpu_workers h"
  "hv_agents (set_agent i a h) = (hv_agents h)[i := a]"
  by (simp_all add: set_agent_def)

lemma release_permit_sel [simp]:
  "hv_queue (release_permit a h) = hv_queue h" "hv_tasks_processed (release_permit a h) = hv_tasks_processed h"
  "hv_tasks_failed (release_permit a h) = hv_tasks_failed h" "hv_results (release_permit a h) = hv_results h"
  "hv_permits (release_permit a h) = hv_permits h + of_bool (holds_permit a)"
  "hv_max_gpu_workers (release_permit a h) = hv_max_gpu_workers h" "hv_agents (release_permit a h) = hv_agents h"
  "in_hand (release_permit a h) = in_hand h" "gpu_in_use (release_permit a h) = gpu_in_use h"
  by (simp_all add: release_permit_def in_hand_def gpu_in_use_def)

lemma collect_result_sel [simp]:
  "hv_queue (collect_result r h) = hv_queue h" "hv_tasks_processed (collect_result r h) = Suc (hv_tasks_processed h)"
  "hv_tasks_failed (collect_result r h) = hv_tasks_failed h + of_bool (\<not> sr_success r)"
  "hv_permits (collect_result r h) = hv_permits h" "hv_max_gpu_workers (collect_result r h) = hv_max_gpu_workers h"
  "hv_agents (collect_result r h) = hv_agents h" "in_hand (collect_result r h) = in_hand h"
  "gpu_in_use (collect_result r h) = gpu_in_use h"
  "length (hv_results (collect_result r h)) = min 200 (Suc (length (hv_results h)))"
  by (simp_all add: collect_result_def in_hand_def gpu_in_use_def Let_def)

lemma queue_update_sel [simp]:
  "in_hand (h\<lparr>hv_queue := q\<rparr>) = in_hand h" "gpu_in_use (h\<lparr>hv_queue := q\<rparr>) = gpu_in_use h"
  "in_hand (h\<lparr>hv_permits := n\<rparr>) = in_hand h" "gpu_in_use (h\<lparr>hv_permits := n\<rparr>) = gpu_in_use h"
  by (simp_all add: in_hand_def gpu_in_use_def)

lemma after_run_sel [simp]: "ag_pool (after_run out a) = ag_pool a" "ag_phase (after_run out a) = Idle"
  by (simp_all add: after_run_def split: outcome.split)

lemma cancelled_permit [simp]: "holds_permit (a\<lparr>ag_cancelled := c\<rparr>) = holds_permit a"
  by (simp add: holds_permit_def)

lemma taken_phase_held [simp]: "held (taken_phase p q t) = Some t"
  by (simp add: taken_phase_def split: pool.split)

lemma taken_phase_permit: "\<not> holds_permit (a\<lparr>ag_phase := taken_phase (ag_pool a) q t\<rparr>)"
  by (simp add: holds_permit_def taken_phase_def split: pool.split)

lemma pop_for_SomeD:
  assumes "pop_for p q = (Some t, q')" "tq_inv q"
  shows "fits_pool p t" "tq_inv q'" "tq_total_completed q' = tq_total_completed q + 1"
proof -
  obtain P where P: "pop_for p q = pop_matching P q" "P t \<Longrightarrow> fits_pool p t"
    by (cases p) (auto simp: pop_for_def pop_cpu_def pop_gpu_def pop_io_def fits_pool_def)
  note D = pop_matching_SomeD [OF assms(1) [unfolded P(1)]]
  show "fits_pool p t" "tq_total_completed q' = tq_total_completed q + 1" using P(2) D by auto
  show "tq_inv q'" using pop_matching_inv [OF assms(2), of P] assms(1) P(1) by simp
qed

lemma fits_update:
  assumes "hive_inv g lost h" "\<And>t. held (ag_phase b) = Some t \<Longrightarrow> fits_pool (ag_pool b) t"
  shows "\<forall>a \<in> set ((hv_agents h)[i := b]). \<forall>t. held (ag_phase a) = Some t \<longrightarrow> fits_pool (ag_pool a) t"
  using assms set_update_subset_insert [of "hv_agents h" i b] unfolding hive_inv_def by blast

lemma held_fits:
  "hive_inv g lost h \<Longrightarrow> i < length (hv_agents h) \<Longrightarrow> held (ag_phase (hv_agents h ! i)) = Some t \<Longrightarrow>
     fits_pool (ag_pool (hv_agents h ! i)) t"
  by (auto simp: hive_inv_def)

lemma hive_step_inv:
  assumes "hive_step h e h'" "hive_inv g lost h"
  shows "hive_inv g (lost + lost_tasks [e]) h'"
  using assms
proof (cases rule: hive_step.cases)
  case (take_task i a t q)
  let ?b = "a\<lparr>ag_phase := taken_phase (ag_pool a) q t\<rparr>" and ?h = "h\<lparr>hv_queue := q\<rparr>"
  have i: "i < length (hv_agents ?h)" and a: "hv_agents h ! i = a" using take_task by auto
  have counts: "in_hand (set_agent i ?b ?h) = in_hand h + 1" "gpu_in_use (set_agent i ?b ?h) = gpu_in_use h"
    using in_hand_set_agent [OF i, of ?b] gpu_in_use_set_agent [OF i, of ?b] take_task(7) taken_phase_permit [of a q t]
    by (simp_all add: a holds_permit_def)
  have D: "fits_pool (ag_pool a) t" "tq_inv q" "tq_total_completed q = tq_total_completed (hv_queue h) + 1"
    using pop_for_SomeD [OF take_task(8)] assms(2) by (auto simp: hive_inv_def)
  have fits: "\<forall>c \<in> set ((hv_agents h)[i := ?b]). \<forall>t. held (ag_phase c) = Some t \<longrightarrow> fits_pool (ag_pool c) t"
    using D(1) by (intro fits_update [OF assms(2)]) simp
  show ?thesis
    unfolding take_task(1,2) hive_inv_def
    using assms(2) counts D fits by (auto simp: hive_inv_def)
next
  case (resume i a t)
  let ?b = "a\<lparr>ag_phase := Busy t\<rparr>"
  have counts: "in_hand (set_agent i ?b h) = in_hand h" "gpu_in_use (set_agent i ?b h) = gpu_in_use h"
    using in_hand_set_agent [of i h ?b] gpu_in_use_set_agent [of i h ?b] resume by (auto simp: holds_permit_def)
  have "fits_pool (ag_pool a) t" using held_fits [OF assms(2) resume(3)] resume(4,5) by simp
  then have fits: "\<forall>c \<in> set ((hv_agents h)[i := ?b]). \<forall>t. held (ag_phase c) = Some t \<longrightarrow> fits_pool (ag_pool c) t"
    by (intro fits_update [OF assms(2)]) simp
  show ?thesis unfolding resume(1,2) hive_inv_def using assms(2) counts fits by (auto simp: hive_inv_def)
next
  case (acquire i a t)
  let ?b = "a\<lparr>ag_phase := Busy t\<rparr>" and ?h = "h\<lparr>hv_permits := hv_permits h - 1\<rparr>"
  have i: "i < length (hv_agents ?h)" and a: "hv_agents h ! i = a" using acquire by auto
  have counts: "in_hand (set_agent i ?b ?h) = in_hand h" "gpu_in_use (set_agent i ?b ?h) = gpu_in_use h + 1"
    using in_hand_set_agent [OF i, of ?b] gpu_in_use_set_agent [OF i, of ?b] acquire(5,6) by (auto simp: holds_permit_def a)
  have "fits_pool (ag_pool a) t" using held_fits [OF assms(2) acquire(3)] acquire(4,5) by simp
  then have fits: "\<forall>c \<in> set ((hv_agents h)[i := ?b]). \<forall>t. held (ag_phase c) = Some t \<longrightarrow> fits_pool (ag_pool c) t"
    by (intro fits_update [OF assms(2)]) simp
  show ?thesis unfolding acquire(1,2) hive_inv_def using assms(2) counts fits acquire(8) by (auto simp: hive_inv_def)
next
  case (finish i a t out duration)
  let ?b = "after_run out a" and ?h = "release_permit a h"
  have i: "i < length (hv_agents ?h)" and a: "hv_agents h ! i = a" using finish by auto
  have counts: "in_hand (set_agent i ?b ?h) + 1 = in_hand h"
    "gpu_in_use (set_agent i ?b ?h) + of_bool (holds_permit a) = gpu_in_use h"
    using in_hand_set_agent [OF i, of ?b] gpu_in_use_set_agent [OF i, of ?b] finish(5)
    by (auto simp: a holds_permit_def)
  have fits: "\<forall>c \<in> set ((hv_agents h)[i := ?b]). \<forall>t. held (ag_phase c) = Some t \<longrightarrow> fits_pool (ag_pool c) t"
    by (intro fits_update [OF assms(2)]) simp
  show ?thesis unfolding finish(1,2) hive_inv_def using assms(2) counts fits by (auto simp: hive_inv_def)
next
  case (give_up i a t out duration)
  let ?b = "after_run out a"
  have counts: "in_hand (set_agent i ?b h) + 1 = in_hand h" "gpu_in_use (set_agent i ?b h) = gpu_in_use h"
    using in_hand_set_agent [of i h ?b] gpu_in_use_set_agent [of i h ?b] give_up by (auto simp: holds_permit_def)
  have fits: "\<forall>c \<in> set ((hv_agents h)[i := ?b]). \<forall>t. held (ag_phase c) = Some t \<longrightarrow> fits_pool (ag_pool c) t"
    by (intro fits_update [OF assms(2)]) simp
  show ?thesis unfolding give_up(1,2) hive_inv_def using assms(2) counts fits by (auto simp: hive_inv_def)
next
  case (cancelled i a)
  let ?b = "a\<lparr>ag_phase := Ended\<rparr>" and ?h = "release_permit a h"
  have i: "i < length (hv_agents ?h)" and a: "hv_agents h ! i = a" using cancelled by auto
  have counts: "in_hand (set_agent i ?b ?h) + of_bool (held (ag_phase a) \<noteq> None) = in_hand h"
    "gpu_in_use (set_agent i ?b ?h) + of_bool (holds_permit a) = gpu_in_use h"
    using in_hand_set_agent [OF i, of ?b] gpu_in_use_set_agent [OF i, of ?b] by (auto simp: a holds_permit_def)
  have fits: "\<forall>c \<in> set ((hv_agents h)[i := ?b]). \<forall>t. held (ag_phase c) = Some t \<longrightarrow> fits_pool (ag_pool c) t"
    by (intro fits_update [OF assms(2)]) simp
  have "lost_tasks [e] = of_bool (held (ag_phase a) \<noteq> None)"
    unfolding cancelled(1) by (cases "held (ag_phase a)") simp_all
  then show ?thesis unfolding cancelled(2) hive_inv_def using assms(2) counts fits by (auto simp: hive_inv_def)
next
  case (submitted t)
  then show ?thesis using assms(2) submit_inv [of "hv_queue h" t]
    by (auto simp: submit_task_def hive_inv_def in_hand_def gpu_in_use_def case_prod_unfold Let_def submit_def)
next
  case (enqueued t)
  then show ?thesis using assms(2) submit_inv [of "hv_queue h" t]
    by (auto simp: enqueue_def hive_inv_def in_hand_def gpu_in_use_def submit_def)
next
  case (round tasks now)
  have "tq_total_completed (snd (submit_batch tasks q)) = tq_total_completed q" for q
    by (induction tasks arbitrary: q) (simp_all add: submit_def case_prod_unfold Let_def)
  with round show ?thesis using assms(2) submit_batch_inv [of "hv_queue h" tasks]
    by (auto simp: scheduler_round_def hive_inv_def in_hand_def gpu_in_use_def Let_def)
next
  case (started ids now)
  have "in_hand (start ids now h) = in_hand h" "gpu_in_use (start ids now h) = gpu_in_use h"
    by (simp_all add: in_hand_def gpu_in_use_def start_def new_agent_def holds_permit_def comp_def filter_map)
  with started show ?thesis using assms(2)
    by (auto simp: start_def hive_inv_def new_agent_def)
next
  case stopped
  have "in_hand (stop h) = in_hand h" "gpu_in_use (stop h) = gpu_in_use h"
    by (simp_all add: in_hand_def gpu_in_use_def stop_def comp_def filter_map)
  with stopped show ?thesis using assms(2) by (auto simp: stop_def hive_inv_def)
qed

lemma hive_run_inv: "hive_run h es h' \<Longrightarrow> hive_inv g 0 h \<Longrightarrow> hive_inv g (lost_tasks es) h'"
proof (induction rule: hive_run.induct)
  case (event h es h1 e h2)
  then show ?case using hive_step_inv [OF event.hyps(2), of g "lost_tasks es"] by simp
qed simp

lemma new_hive_inv: "hive_inv g 0 (new_hive g c i now)"
  by (simp add: hive_inv_def new_hive_def new_task_queue_inv in_hand_def gpu_in_use_def)
    (simp add: new_task_queue_def)

section \<open>Properties\<close>


text \<open>C26. At most as many tasks that need the GPU run at a time as the semaphore has permits, whichever workers are started,
  and a worker only ever holds tasks of its pool.\<close>

theorem gpu_concurrency_bounded:
  assumes "hive_run (new_hive max_gpu max_cpu max_io now) events h"
  shows "length (filter (\<lambda>a. \<exists>t. ag_phase a = Busy t \<and> requires_gpu t) (hv_agents h)) \<le> max_gpu \<and>
    (\<forall>a \<in> set (hv_agents h). \<forall>t. held (ag_phase a) = Some t \<longrightarrow> fits_pool (ag_pool a) t)"
proof -
  note inv = hive_run_inv [OF assms new_hive_inv]
  have fits: "fits_pool (ag_pool a) t" if "a \<in> set (hv_agents h)" "held (ag_phase a) = Some t" for a t
    using inv that by (auto simp: hive_inv_def)
  have "holds_permit a" if a: "a \<in> set (hv_agents h)" "ag_phase a = Busy t" "requires_gpu t" for a t
    using fits [OF a(1), of t] a(2,3)
    by (auto simp: holds_permit_def fits_pool_def requires_gpu_def is_io_bound_def GPU_TASKS_def IO_TASKS_def split: pool.splits)
  then have "filter (\<lambda>a. \<exists>t. ag_phase a = Busy t \<and> requires_gpu t) (hv_agents h) =
      filter (\<lambda>a. \<exists>t. ag_phase a = Busy t \<and> requires_gpu t) (filter holds_permit (hv_agents h))"
    unfolding filter_filter by (intro filter_cong) auto
  also have "length \<dots> \<le> gpu_in_use h" unfolding gpu_in_use_def by (rule length_filter_le)
  finally show ?thesis using inv fits by (auto simp: hive_inv_def)
qed

definition one_task_events :: "hive_event list" where
  "one_task_events =
     [Start (\<lambda>i. ''a'') 0, Submit_task (make_task LLM_EDIT (llm_payload ''p'' ''m'' False) 2 ''t'' 0), Take 0, Acquire 0]"

lemma one_task_run: "\<exists>h. hive_run (new_hive 1 0 0 0) one_task_events h \<and> hv_permits h = 0"
proof -
  define t where "t = make_task LLM_EDIT (llm_payload ''p'' ''m'' False) 2 ''t'' 0"
  define h1 where "h1 = start (\<lambda>i. ''a'') 0 (new_hive 1 0 0 0)"
  define h2 where "h2 = snd (submit_task t h1)"
  define q where "q = snd (pop_gpu (hv_queue h2))"
  define a where "a = new_agent Gpu_pool Llm ''a''"
  define h3 where "h3 = set_agent 0 (a\<lparr>ag_phase := Waiting t\<rparr>) (h2\<lparr>hv_queue := q\<rparr>)"
  define h4 where "h4 = set_agent 0 (a\<lparr>ag_phase := Busy t\<rparr>) (h3\<lparr>hv_permits := hv_permits h3 - 1\<rparr>)"
  have a: "ag_phase a = Idle" "\<not> ag_cancelled a" "ag_pool a = Gpu_pool" by (simp_all add: a_def new_agent_def)
  have t: "requires_gpu t" "prompted t"
    by (simp_all add: t_def make_task_def requires_gpu_def GPU_TASKS_def prompted_def llm_payload_def get_or_def obj_get_def)
  have h2: "hv_agents h2 = [a]" "hv_running h2" "hv_permits h2 = 1" "mset (tq_heap (hv_queue h2)) = {#t#}"
    by (simp_all add: h2_def h1_def a_def submit_task_def start_def new_hive_def case_prod_unfold Let_def submit_def
        new_task_queue_def)
  from h2(4) have "tq_heap (hv_queue h2) = [t]" by (simp only: mset_single_iff)
  with t have pop: "pop_gpu (hv_queue h2) = (Some t, q)"
    by (simp add: q_def pop_gpu_def pop_matching_def Let_def)
  have "hive_step h2 (Take 0) (set_agent 0 (a\<lparr>ag_phase := taken_phase (ag_pool a) q t\<rparr>) (h2\<lparr>hv_queue := q\<rparr>))"
    by (rule hive_step.take_task) (simp_all add: h2 a pop pop_for_def)
  then have take: "hive_step h2 (Take 0) h3" by (simp add: h3_def a taken_phase_def)
  have h3: "hv_agents h3 = [a\<lparr>ag_phase := Waiting t\<rparr>]" "hv_permits h3 = 1" by (simp_all add: h3_def h2)
  have "hive_step h3 (Acquire 0) (set_agent 0 ((a\<lparr>ag_phase := Waiting t\<rparr>)\<lparr>ag_phase := Busy t\<rparr>)
      (h3\<lparr>hv_permits := hv_permits h3 - 1\<rparr>))"
    by (rule hive_step.acquire) (simp_all add: h3 a t)
  then have acquire: "hive_step h3 (Acquire 0) h4" by (simp add: h4_def)
  have "hive_run (new_hive 1 0 0 0) (([] @ [Start (\<lambda>i. ''a'') 0]) @ [Submit_task t]) h2"
    unfolding h2_def h1_def 
    by (rule hive_run.event [OF hive_run.event [OF hive_run.no_event hive_step.started] hive_step.submitted])
  then have "hive_run (new_hive 1 0 0 0) (((([] @ [Start (\<lambda>i. ''a'') 0]) @ [Submit_task t]) @ [Take 0]) @ [Acquire 0]) h4"
    by (rule hive_run.event [OF hive_run.event [OF _ take] acquire])
  moreover have "hv_permits h4 = 0" by (simp add: h4_def h3)
  ultimately show ?thesis unfolding one_task_events_def t_def by (intro exI [of _ h4]) simp
qed


theorem gpu_concurrency_bounded_witness:
  "\<exists>h. hive_run (new_hive 1 0 0 0) one_task_events h \<and>
     length (filter (\<lambda>a. \<exists>t. ag_phase a = Busy t \<and> requires_gpu t) (hv_agents h)) \<le> 1"
  using one_task_run gpu_concurrency_bounded by blast

section \<open>Chunks, waiting, and what goes wrong\<close>

lemma concat_chunks: "0 < n \<Longrightarrow> concat (chunks n xs) = xs"
  by (induction n xs rule: chunks.induct) (subst chunks.simps, auto)

lemma chunks_size: "c \<in> set (chunks n xs) \<Longrightarrow> 0 < length c \<and> length c \<le> n"
proof (induction n xs rule: chunks.induct)
  case (1 n xs)
  then show ?case by (subst (asm) chunks.simps) (auto split: if_splits)
qed

text \<open>A parallel scan covers every file of the project once, in tasks of at most the chosen size.\<close>

lemma parallel_scan_covers:
  assumes "0 < n"
  shows "concat (map (\<lambda>t. case st_payload t of JObj ((k, JList fs) # _) \<Rightarrow> fs | _ \<Rightarrow> []) (parallel_tasks n files ids now)) =
    map JStr files"
proof -
  have "map (\<lambda>t. case st_payload t of JObj ((k, JList fs) # _) \<Rightarrow> fs | _ \<Rightarrow> []) (parallel_tasks n files ids now) =
      map (map JStr) (map snd (enumerate 0 (chunks n files)))"
    unfolding map_map parallel_tasks_def
    by (intro map_cong) (auto simp: make_task_def scan_payload_def json_texts_def)
  then show ?thesis using concat_chunks [OF assms, of files] by (metis map_concat map_snd_enumerate map_map comp_apply)
qed

text \<open>Waiting ends once the clock reaches the deadline, and what it returns are results of the tasks asked for, as many as
  there are tasks unless the time is over.\<close>

lemma wait_for_results_ends:
  "(now, results) \<in> set obs \<Longrightarrow> deadline \<le> now \<Longrightarrow> \<exists>rs. wait_for_results ids deadline obs = Some rs"
  by (induction ids deadline obs rule: wait_for_results.induct) auto

lemma wait_for_results_right:
  "wait_for_results ids deadline obs = Some rs \<Longrightarrow>
     (\<forall>r \<in> set rs. sr_task_id r \<in> set ids) \<and>
     (length ids \<le> length rs \<or> (\<exists>(now, results) \<in> set obs. deadline \<le> now \<and> rs = results_of ids results))"
proof (induction ids deadline obs rule: wait_for_results.induct)
  case (2 ids deadline now results obs)
  show ?case
  proof (cases "now < deadline \<and> length (results_of ids results) < length ids")
    case True
    with "2.prems" have "wait_for_results ids deadline obs = Some rs" by simp
    with "2.IH" True show ?thesis by auto
  next
    case False
    with "2.prems" have "rs = results_of ids results" by (auto split: if_splits)
    with False show ?thesis by (auto simp: results_of_def)
  qed
qed simp

text \<open>A helper returns the id of a task also when the full queue refused it: nobody will ever produce its result.\<close>

lemma refused_task_keeps_its_id:
  assumes "int (length (tq_heap (hv_queue h))) \<ge> tq_max_size (hv_queue h)"
  shows "submit_llm p m j prio ty i now h = (i, h)"
  using assms by (simp add: submit_llm_def enqueue_def submit_def make_task_def)

text \<open>The workers of a pool take any task of the pool: a scanner is handed a test, and a tester a scan.\<close>

lemma scanner_takes_a_test:
  assumes "hv_running h" "hv_agents h = [new_agent Cpu_pool Scanner i]"
    and "tq_heap (hv_queue h) = [make_task TEST_VALIDATE p 1 t now]"
  shows "\<exists>h'. hive_step h (Take 0) h' \<and> ag_phase (hv_agents h' ! 0) = Busy (make_task TEST_VALIDATE p 1 t now)"
proof -
  let ?t = "make_task TEST_VALIDATE p 1 t now"
  have t: "\<not> requires_gpu ?t" "\<not> is_io_bound ?t"
    by (simp_all add: make_task_def requires_gpu_def is_io_bound_def GPU_TASKS_def IO_TASKS_def)
  then obtain q where q: "pop_cpu (hv_queue h) = (Some ?t, q)" "tq_heap q = []"
    by (simp add: pop_cpu_def pop_matching_def assms(3) Let_def)
  let ?a = "new_agent Cpu_pool Scanner i"
  have a: "ag_pool ?a = Cpu_pool" "ag_phase ?a = Idle" "\<not> ag_cancelled ?a" by (simp_all add: new_agent_def)
  have "hive_step h (Take 0) (set_agent 0 (?a\<lparr>ag_phase := taken_phase (ag_pool ?a) q ?t\<rparr>) (h\<lparr>hv_queue := q\<rparr>))"
    by (rule hive_step.take_task) (simp_all add: assms(1,2) a q(1) pop_for_def)
  moreover have "taken_phase Cpu_pool q ?t = Busy ?t" using q(2) by (simp add: taken_phase_def gpu_depth_def)
  ultimately show ?thesis using assms(2) a by (intro exI conjI) auto
qed

end
