(* ===== verification/Model_Selector.thy ===== *)
theory Model_Selector
  imports Scheduler Executor
begin

text \<open>
  \<^verbatim>\<open>backend/inference/lora_manager.py\<close> and \<^verbatim>\<open>backend/inference/model_selector.py\<close>: the registry of LoRA adapters in the
  table \<^verbatim>\<open>lora_adapters\<close>, and the choice of model, adapter and number of samples for a node, which the executor and the
  scheduler use. \<^verbatim>\<open>json.loads\<close> and the existence of a path are arguments; the database is taken to answer.
\<close>

section \<open>LIKE\<close>

definition ascii_upper :: "char \<Rightarrow> char" where
  "ascii_upper c = (let n = of_char c :: nat in if 97 \<le> n \<and> n \<le> 122 then char_of (n - 32) else c)"

function sql_like :: "string \<Rightarrow> string \<Rightarrow> bool" where
  "sql_like [] s = (s = [])"
| "sql_like (p # ps) s =
     (if p = CHR ''%'' then sql_like ps s \<or> (case s of [] \<Rightarrow> False | c # s' \<Rightarrow> sql_like (p # ps) s')
      else (case s of
              [] \<Rightarrow> False
            | c # s' \<Rightarrow> (p = CHR ''_'' \<or> ascii_upper p = ascii_upper c) \<and> sql_like ps s'))"
  by pat_completeness auto
termination by (relation "measure (\<lambda>(p, s). length p + length s)") auto

declare sql_like.simps [simp del]

lemma sql_like_literal:
  "\<forall>c \<in> set p. c \<noteq> CHR ''%'' \<and> c \<noteq> CHR ''_'' \<Longrightarrow>
     sql_like (p @ q) s \<longleftrightarrow> (\<exists>u t. s = u @ t \<and> map ascii_upper u = map ascii_upper p \<and> sql_like q t)"
proof (induction p arbitrary: s)
  case (Cons c p)
  show ?case
  proof (cases s)
    case Nil
    with Cons.prems show ?thesis by (simp add: sql_like.simps)
  next
    case s: (Cons d s')
    with Cons have "sql_like ((c # p) @ q) s \<longleftrightarrow> ascii_upper c = ascii_upper d \<and>
        (\<exists>u t. s' = u @ t \<and> map ascii_upper u = map ascii_upper p \<and> sql_like q t)"
      by (subst append_Cons, subst sql_like.simps) auto
    also have "\<dots> \<longleftrightarrow> (\<exists>u t. s = u @ t \<and> map ascii_upper u = map ascii_upper (c # p) \<and> sql_like q t)"
    proof
      assume "ascii_upper c = ascii_upper d \<and> (\<exists>u t. s' = u @ t \<and> map ascii_upper u = map ascii_upper p \<and> sql_like q t)"
      then obtain u t where "s = (d # u) @ t" "map ascii_upper (d # u) = map ascii_upper (c # p)" "sql_like q t"
        using s by auto
      then show "\<exists>u t. s = u @ t \<and> map ascii_upper u = map ascii_upper (c # p) \<and> sql_like q t" by blast
    qed (auto simp: s Cons_eq_append_conv)
    finally show ?thesis .
  qed
qed simp

lemma sql_like_any: "sql_like (CHR ''%'' # q) s \<longleftrightarrow> (\<exists>u t. s = u @ t \<and> sql_like q t)"
proof (induction s)
  case Nil
  then show ?case by (subst sql_like.simps) simp
next
  case (Cons c s)
  then show ?case
    by (subst sql_like.simps) (auto simp: Cons_eq_append_conv)
qed

section \<open>The registry of adapters\<close>

record adapter_row =
  lr_adapter_id :: ident
  lr_base_model :: string
  lr_task_types_json :: string
  lr_path :: string
  lr_vram_overhead_mb :: int
  lr_enabled :: bool
  lr_updated_at :: timestamp

record lora_adapter =
  la_adapter_id :: ident
  la_base_model :: string
  la_task_types :: json
  la_path :: string
  la_vram_overhead_mb :: int
  la_enabled :: bool

record lora_env =
  le_loads :: "string \<Rightarrow> json result"
  le_adapters_dir :: bool
  le_path_exists :: "string \<Rightarrow> bool"

definition adapter_from_row :: "lora_env \<Rightarrow> adapter_row \<Rightarrow> lora_adapter" where
  "adapter_from_row env r =
     \<lparr>la_adapter_id = lr_adapter_id r, la_base_model = lr_base_model r,
      la_task_types =
        (if lr_task_types_json r = [] then JList []
         else case le_loads env (lr_task_types_json r) of Inr v \<Rightarrow> v | Inl e \<Rightarrow> JList []),
      la_path = lr_path r, la_vram_overhead_mb = lr_vram_overhead_mb r, la_enabled = lr_enabled r\<rparr>"

definition list_adapters :: "lora_env \<Rightarrow> bool \<Rightarrow> adapter_row list \<Rightarrow> lora_adapter list" where
  "list_adapters env enabled_only t =
     map (adapter_from_row env) (order_by_text lr_adapter_id (filter (\<lambda>r. enabled_only \<longrightarrow> lr_enabled r) t))"

definition supports_task :: "string \<Rightarrow> adapter_row \<Rightarrow> bool" where
  "supports_task task_type r \<longleftrightarrow>
     lr_enabled r \<and> sql_like (''%'' @ [CHR 0x22] @ task_type @ [CHR 0x22] @ ''%'') (lr_task_types_json r)"

definition get_adapter :: "lora_env \<Rightarrow> string \<Rightarrow> string \<Rightarrow> adapter_row list \<Rightarrow> lora_adapter option" where
  "get_adapter env task_type base t =
     map_option (adapter_from_row env)
       (fetchone (sql_limit 1 0 (order_by_text lr_adapter_id
         (filter (\<lambda>r. lr_base_model r = base \<and> supports_task task_type r) t))))"

definition get_adapter_by_id :: "lora_env \<Rightarrow> ident \<Rightarrow> adapter_row list \<Rightarrow> lora_adapter option" where
  "get_adapter_by_id env i t = map_option (adapter_from_row env) (fetchone (filter (\<lambda>r. lr_adapter_id r = i) t))"

definition get_adapters_for_task :: "lora_env \<Rightarrow> string \<Rightarrow> adapter_row list \<Rightarrow> lora_adapter list" where
  "get_adapters_for_task env task_type t =
     map (adapter_from_row env) (order_by_text lr_adapter_id (filter (supports_task task_type) t))"

text \<open>An adapter given to \<^verbatim>\<open>register_adapter\<close> has a list of texts as its task types.\<close>

definition register_adapter ::
  "lora_env \<Rightarrow> lora_adapter \<Rightarrow> string list \<Rightarrow> timestamp \<Rightarrow> adapter_row list \<Rightarrow> adapter_row list result" where
  "register_adapter env a task_types now t =
     (if le_adapters_dir env \<and> \<not> le_path_exists env (la_path a) then Inl (ExternalError ''FileNotFoundError'')
      else let row = \<lparr>lr_adapter_id = la_adapter_id a, lr_base_model = la_base_model a,
                      lr_task_types_json = dumps_texts task_types, lr_path = la_path a,
                      lr_vram_overhead_mb = la_vram_overhead_mb a, lr_enabled = la_enabled a, lr_updated_at = now\<rparr>
           in Inr (if \<exists>r \<in> set t. lr_adapter_id r = la_adapter_id a
                   then sql_update (\<lambda>r. lr_adapter_id r = la_adapter_id a) (\<lambda>_. row) t else t @ [row]))"

definition remove_adapter :: "ident \<Rightarrow> adapter_row list \<Rightarrow> bool \<times> adapter_row list" where
  "remove_adapter i t = (0 < sql_rowcount (\<lambda>r. lr_adapter_id r = i) t, sql_delete (\<lambda>r. lr_adapter_id r = i) t)"

definition set_enabled :: "ident \<Rightarrow> bool \<Rightarrow> timestamp \<Rightarrow> adapter_row list \<Rightarrow> bool \<times> adapter_row list" where
  "set_enabled i enabled now t =
     (0 < sql_rowcount (\<lambda>r. lr_adapter_id r = i) t,
      sql_update (\<lambda>r. lr_adapter_id r = i) (\<lambda>r. r\<lparr>lr_enabled := enabled, lr_updated_at := now\<rparr>) t)"

section \<open>Classification\<close>

definition RESEARCH_KEYWORDS :: "string list" where
  "RESEARCH_KEYWORDS =
     [''research'', ''investigate'', ''analyze'', ''study'', ''survey'', ''literature'', ''review paper'',
      ''find sources'', ''summarize findings'', ''report'', ''deep dive'', ''explore'', ''synthesis'', ''academic'']"

definition CODE_KEYWORDS :: "string list" where
  "CODE_KEYWORDS =
     [''code'', ''implement'', ''program'', ''develop'', ''debug'', ''refactor'', ''function'', ''class'', ''module'',
      ''api'', ''endpoint'', ''script'', ''compile'', ''build'', ''test'', ''unittest'', ''pytest'']"

definition DOCUMENT_KEYWORDS :: "string list" where
  "DOCUMENT_KEYWORDS =
     [''document'', ''slide'', ''presentation'', ''powerpoint'', ''pptx'', ''spreadsheet'', ''excel'', ''xlsx'', ''word'',
      ''docx'', ''pdf'', ''report'', ''memo'', ''draft'', ''write up'', ''template'']"

definition CODE_TOOLS :: "string list" where
  "CODE_TOOLS =
     [''run_code'', ''git_status'', ''git_diff'', ''git_log'', ''git_commit'', ''project_context'', ''read_file'',
      ''write_file'']"

definition DOCUMENT_TOOLS :: "string list" where
  "DOCUMENT_TOOLS =
     [''pptx_create'', ''pptx_edit'', ''pptx_read'', ''excel_create'', ''excel_edit'', ''excel_read'', ''docx_create'',
      ''docx_edit'', ''docx_read'', ''pdf_read'', ''pdf_create'']"

definition RESEARCH_TOOLS :: "string list" where
  "RESEARCH_TOOLS = [''web_search'', ''browser'']"

record task_info =
  ti_title :: "string option"
  ti_instructions :: "string option"
  ti_tools_allowed :: "string list"
  ti_output_schema_json :: "string option"
  ti_depends_on :: "string list"

definition or_empty :: "string option \<Rightarrow> string" where
  "or_empty v = (case v of None \<Rightarrow> [] | Some s \<Rightarrow> s)"

definition task_text :: "task_info \<Rightarrow> string" where
  "task_text node = py_lower (or_empty (ti_title node)) @ '' '' @ py_lower (or_empty (ti_instructions node))"

definition category_score :: "string list \<Rightarrow> string list \<Rightarrow> task_info \<Rightarrow> nat" where
  "category_score keywords tools node =
     length (filter (\<lambda>kw. contains kw (task_text node)) keywords) +
     2 * length (filter (\<lambda>t. t \<in> set tools) (remdups (map py_lower (ti_tools_allowed node))))"

definition classify_task :: "task_info \<Rightarrow> string" where
  "classify_task node =
     (let r = category_score RESEARCH_KEYWORDS RESEARCH_TOOLS node; c = category_score CODE_KEYWORDS CODE_TOOLS node;
          d = category_score DOCUMENT_KEYWORDS DOCUMENT_TOOLS node; m = max r (max c d)
      in if m = 0 then ''general'' else if r = m then ''research'' else if c = m then ''code'' else ''document'')"

section \<open>Tier, complexity and samples\<close>

definition pick_tier :: "string \<Rightarrow> int \<Rightarrow> int \<Rightarrow> string" where
  "pick_tier task_type priority complexity =
     (let tier = (if 8 \<le> priority then ''heavy''
                  else if 5 \<le> priority \<or> 7 \<le> complexity then ''medium''
                  else if 4 \<le> complexity then (if task_type = ''code'' \<or> task_type = ''research'' then ''medium'' else ''light'')
                  else ''light'')
      in if 7 \<le> complexity \<and> task_type = ''code'' then ''heavy'' else tier)"

definition tier_model :: "(string \<times> string) list \<Rightarrow> string \<Rightarrow> string" where
  "tier_model tiers tier =
     (case map_of tiers tier of
        Some m \<Rightarrow> m
      | None \<Rightarrow> (case map_of tiers ''light'' of Some m \<Rightarrow> m | None \<Rightarrow> ''gemma4:e4b''))"

definition estimate_task_complexity :: "task_info \<Rightarrow> int \<Rightarrow> int" where
  "estimate_task_complexity node priority =
     (let tools = length (ti_tools_allowed node); instructions = length (or_empty (ti_instructions node))
      in min 10
        (1 + (if 5 \<le> tools then 3 else if 3 \<le> tools then 2 else if 1 \<le> tools then 1 else 0) +
         (if 1000 < instructions then 2 else if 300 < instructions then 1 else 0) +
         (if or_empty (ti_output_schema_json node) \<noteq> [] then 1 else 0) +
         (if 2 \<le> length (ti_depends_on node) then 1 else 0) + (if 7 \<le> priority then 1 else 0)))"

definition pick_best_of_n :: "int \<Rightarrow> int" where
  "pick_best_of_n complexity =
     (if complexity \<le> 3 then 1 else if complexity \<le> 6 then 4 else if complexity \<le> 8 then 8 else 16)"

definition MS_VRAM_ESTIMATES :: "(string \<times> int) list" where
  "MS_VRAM_ESTIMATES =
     [(''gemma3:4b'', 2800), (''gemma4:e4b'', 2800), (''gemma4:26b'', 6000), (''gemma4:31b'', 7000),
      (''qwen2.5-coder:7b'', 4500), (''qwen2.5-coder:14b'', 8500), (''qwen2.5-coder:32b'', 18000),
      (''qwen2.5-coder:70b'', 40000), (''qwen3:8b'', 5000), (''llama3.3:70b'', 40000), (''phi4-reasoning'', 8000)]"

definition selector_vram :: "string \<Rightarrow> int" where
  "selector_vram model = (case map_of MS_VRAM_ESTIMATES model of None \<Rightarrow> 4000 | Some mb \<Rightarrow> mb)"

section \<open>Selection\<close>

record model_selection =
  ms_model_id :: string
  ms_lora_id :: "ident option"
  ms_vram_mb :: int
  ms_best_of_n :: int
  ms_reasoning :: string

text \<open>The LoRA manager may be absent.\<close>

definition find_lora :: "(lora_env \<times> adapter_row list) option \<Rightarrow> string \<Rightarrow> string \<Rightarrow> ident option" where
  "find_lora mgr task_type model =
     (case mgr of None \<Rightarrow> None | Some (env, t) \<Rightarrow> map_option la_adapter_id (get_adapter env task_type model t))"

definition selection_reasons :: "string \<Rightarrow> string \<Rightarrow> int \<Rightarrow> int \<Rightarrow> ident option \<Rightarrow> string" where
  "selection_reasons task_type tier priority complexity lora =
     py_join ''; ''
       ([''task_type='' @ task_type, ''tier='' @ tier, ''priority='' @ show_int priority,
         ''complexity='' @ show_int complexity] @
        (case lora of None \<Rightarrow> [] | Some i \<Rightarrow> if i = [] then [] else [''lora='' @ i]))"

definition select_model ::
  "(string \<times> string) list \<Rightarrow> (lora_env \<times> adapter_row list) option \<Rightarrow> task_info \<Rightarrow> int \<Rightarrow> model_selection" where
  "select_model tiers mgr node priority =
     (let task_type = classify_task node; complexity = estimate_task_complexity node priority;
          tier = pick_tier task_type priority complexity; model = tier_model tiers tier;
          lora = find_lora mgr task_type model;
          adapter = (case (lora, mgr) of
                       (Some i, Some (env, t)) \<Rightarrow> if i = [] then None else get_adapter_by_id env i t | _ \<Rightarrow> None);
          overhead = (case adapter of None \<Rightarrow> 0 | Some a \<Rightarrow> la_vram_overhead_mb a)
      in \<lparr>ms_model_id = model, ms_lora_id = lora, ms_vram_mb = selector_vram model + overhead,
          ms_best_of_n = pick_best_of_n complexity,
          ms_reasoning = selection_reasons task_type tier priority complexity lora\<rparr>)"

text \<open>How the executor and the scheduler call it: the executor passes the node's fields, the scheduler its candidate,
  which has a title only.\<close>

definition node_task_info :: "node \<Rightarrow> task_info" where
  "node_task_info n =
     \<lparr>ti_title = Some (no_title n), ti_instructions = no_instructions n, ti_tools_allowed = no_tools_allowed n,
      ti_output_schema_json = no_output_schema_json n, ti_depends_on = no_depends_on n\<rparr>"

definition executor_selection ::
  "(string \<times> string) list \<Rightarrow> (lora_env \<times> adapter_row list) option \<Rightarrow> node \<Rightarrow> job \<Rightarrow> (string \<times> int) result" where
  "executor_selection tiers mgr n j =
     (let s = select_model tiers mgr (node_task_info n) (jo_priority j) in Inr (ms_model_id s, ms_best_of_n s))"

definition candidate_task_info :: "candidate \<Rightarrow> task_info" where
  "candidate_task_info c =
     \<lparr>ti_title = Some (cd_title c), ti_instructions = None, ti_tools_allowed = [], ti_output_schema_json = None,
      ti_depends_on = []\<rparr>"

definition scheduler_selection ::
  "(string \<times> string) list \<Rightarrow> (lora_env \<times> adapter_row list) option \<Rightarrow> candidate \<Rightarrow> string result" where
  "scheduler_selection tiers mgr c = Inr (ms_model_id (select_model tiers mgr (candidate_task_info c) (cd_priority c)))"

section \<open>Adapters\<close>

definition plain_text :: "string \<Rightarrow> bool" where
  "plain_text s \<longleftrightarrow> (\<forall>c \<in> set s. json_char c = [c] \<and> c \<noteq> CHR ''%'' \<and> c \<noteq> CHR ''_'')"

lemma supports_registered:
  assumes "task_type \<in> set task_types" "plain_text task_type"
  shows "sql_like (''%'' @ [CHR 0x22] @ task_type @ [CHR 0x22] @ ''%'') (dumps_texts task_types)"
proof -
  have "concat (map json_char task_type) = task_type"
    using assms(2) by (induction task_type) (auto simp: plain_text_def)
  then have q: "json_quote task_type = [CHR 0x22] @ task_type @ [CHR 0x22]" by (simp add: json_quote_def)
  obtain u v where "py_join '','' (map json_quote task_types) = u @ json_quote task_type @ v"
    using py_join_item [of "json_quote task_type" "map json_quote task_types" "'',''"] assms(1) by auto
  then have d: "dumps_texts task_types = (''['' @ u) @ ([CHR 0x22] @ task_type @ [CHR 0x22]) @ (v @ '']'')"
    by (simp add: dumps_texts_def q)
  have "\<forall>c \<in> set ([CHR 0x22] @ task_type @ [CHR 0x22]). c \<noteq> CHR ''%'' \<and> c \<noteq> CHR ''_''"
    using assms(2) by (auto simp: plain_text_def)
  note literal = sql_like_literal [OF this, of "''%''"]
  have "sql_like ''%'' w" for w
    using sql_like_any [of "[]" w] by (auto simp: sql_like.simps(1) intro: exI [of _ w])
  then have "sql_like (([CHR 0x22] @ task_type @ [CHR 0x22]) @ ''%'') (([CHR 0x22] @ task_type @ [CHR 0x22]) @ (v @ '']''))"
    unfolding literal by blast
  then show ?thesis
    unfolding d append_Cons append_Nil append_assoc using sql_like_any by (metis append_Cons append_Nil append_assoc)
qed

text \<open>An adapter that has been registered as enabled is a candidate for each of its plain task types.\<close>

lemma registered_adapter_found:
  assumes "register_adapter env a task_types now t = Inr t'" "la_enabled a"
    and "task_type \<in> set task_types" "plain_text task_type"
  shows "\<exists>b. get_adapter env task_type (la_base_model a) t' = Some b"
proof -
  let ?row = "\<lparr>lr_adapter_id = la_adapter_id a, lr_base_model = la_base_model a,
    lr_task_types_json = dumps_texts task_types, lr_path = la_path a,
    lr_vram_overhead_mb = la_vram_overhead_mb a, lr_enabled = la_enabled a, lr_updated_at = now\<rparr>"
  have "?row \<in> set t'"
    using assms(1) by (auto simp: register_adapter_def Let_def in_sql_update split: if_splits)
  moreover have "supports_task task_type ?row"
    using supports_registered [OF assms(3,4)] assms(2) by (simp add: supports_task_def)
  ultimately have "?row \<in> set (order_by_text lr_adapter_id
      (filter (\<lambda>r. lr_base_model r = la_base_model a \<and> supports_task task_type r) t'))" by simp
  then show ?thesis
    by (cases "order_by_text lr_adapter_id
      (filter (\<lambda>r. lr_base_model r = la_base_model a \<and> supports_task task_type r) t')")
      (auto simp: get_adapter_def sql_limit_def fetchone_def)
qed

lemma get_adapter_SomeD:
  assumes "get_adapter env task_type base t = Some a"
  shows "\<exists>r \<in> set t. a = adapter_from_row env r \<and> lr_base_model r = base \<and> supports_task task_type r"
proof -
  from assms obtain r where "fetchone (sql_limit 1 0 (order_by_text lr_adapter_id
      (filter (\<lambda>r. lr_base_model r = base \<and> supports_task task_type r) t))) = Some r" "a = adapter_from_row env r"
    by (auto simp: get_adapter_def)
  moreover from this(1) have "r \<in> set (sql_limit 1 0 (order_by_text lr_adapter_id
      (filter (\<lambda>r. lr_base_model r = base \<and> supports_task task_type r) t)))"
    by (auto simp: fetchone_def split: list.splits)
  ultimately show ?thesis using set_sql_limit_subset by fastforce
qed

lemma select_model_parts:
  "ms_lora_id (select_model tiers mgr node priority) =
     find_lora mgr (classify_task node) (ms_model_id (select_model tiers mgr node priority))"
  "ms_vram_mb (select_model tiers (Some (env, t)) node priority) =
     selector_vram (ms_model_id (select_model tiers (Some (env, t)) node priority)) +
     (case ms_lora_id (select_model tiers (Some (env, t)) node priority) of
        None \<Rightarrow> 0
      | Some i \<Rightarrow> if i = [] then 0
                  else (case get_adapter_by_id env i t of None \<Rightarrow> 0 | Some a \<Rightarrow> la_vram_overhead_mb a))"
  by (simp_all add: select_model_def Let_def split: option.split)


definition example_adapters :: "adapter_row list" where
  "example_adapters =
     [\<lparr>lr_adapter_id = ''a'', lr_base_model = ''m'', lr_task_types_json = dumps_texts [''code''], lr_path = ''p'',
       lr_vram_overhead_mb = 128, lr_enabled = True, lr_updated_at = 0\<rparr>]"

definition example_lora_env :: lora_env where
  "example_lora_env = \<lparr>le_loads = (\<lambda>s. Inl (ValueError s)), le_adapters_dir = False, le_path_exists = (\<lambda>p. False)\<rparr>"


text \<open>Disabling an adapter takes it out of every later selection.\<close>

lemma find_lora_SomeD:
  assumes "find_lora (Some (env, t)) task_type model = Some i"
  shows "\<exists>r \<in> set t. lr_adapter_id r = i \<and> lr_enabled r"
proof -
  from assms obtain a where a: "get_adapter env task_type model t = Some a" "i = la_adapter_id a"
    by (cases "get_adapter env task_type model t") (simp_all add: find_lora_def)
  from get_adapter_SomeD [OF a(1)] obtain r where "r \<in> set t" "a = adapter_from_row env r" "supports_task task_type r"
    by blast
  with a(2) show ?thesis by (intro bexI [of _ r]) (simp_all add: adapter_from_row_def supports_task_def)
qed

lemma disabled_adapter_not_selected:
  "ms_lora_id (select_model tiers (Some (env, snd (set_enabled i False now t))) node priority) \<noteq> Some i"
proof
  assume "ms_lora_id (select_model tiers (Some (env, snd (set_enabled i False now t))) node priority) = Some i"
  from find_lora_SomeD [OF trans [OF select_model_parts(1) [symmetric] this]]
  obtain r where r: "r \<in> set (snd (set_enabled i False now t))" "lr_adapter_id r = i" "lr_enabled r" by blast
  then show False unfolding set_enabled_def by (simp add: in_sql_update) (elim bexE, simp split: if_splits)
qed

section \<open>Two views of one node\<close>

text \<open>The scheduler shows the selector a candidate without instructions and tools, so it reserves memory for the light
  model whenever the priority is below five, and takes at most the medium tier below eight; the executor can be given
  the heavy one for the same node.\<close>

lemma scheduler_expects_light:
  assumes "cd_priority c < 5"
  shows "scheduler_selection tiers mgr c = Inr (tier_model tiers ''light'')"
  using assms
  by (simp add: scheduler_selection_def select_model_def Let_def candidate_task_info_def estimate_task_complexity_def
      or_empty_def pick_tier_def)

lemma executor_may_get_heavy:
  assumes "classify_task (node_task_info n) = ''code''" "5 \<le> length (no_tools_allowed n)"
    and "1000 < length (or_empty (no_instructions n))" "or_empty (no_output_schema_json n) \<noteq> []"
  shows "\<exists>k. executor_selection tiers mgr n j = Inr (tier_model tiers ''heavy'', k)"
proof -
  have "7 \<le> estimate_task_complexity (node_task_info n) (jo_priority j)"
    using assms(2-4) by (simp add: estimate_task_complexity_def node_task_info_def Let_def)
  with assms(1) show ?thesis by (simp add: executor_selection_def select_model_def Let_def pick_tier_def)
qed

end
