(* ===== verification/Access_Control.thy ===== *)
theory Access_Control
  imports Std_Text
begin

text \<open>
  \<^verbatim>\<open>backend/security/auth.py\<close>, \<^verbatim>\<open>backend/security/rbac.py\<close>, the authentication middleware of \<^verbatim>\<open>backend/server.py\<close> and
  the key routes of \<^verbatim>\<open>backend/routes/admin.py\<close>: the table of API keys, the sliding window of the rate limiter, the role
  permissions, and a request on its way through the middleware and the dependencies of an admin route. The SHA-256 digest
  is an argument, the random tokens and the identifiers too; the wall clock stamps the rows, the monotonic clock drives
  the limiter. The database is taken to answer.
\<close>

section \<open>State\<close>

record api_key =
  ak_id :: ident
  ak_user_id :: ident
  ak_key_hash :: string
  ak_name :: string
  ak_role :: string
  ak_rate_limit :: int
  ak_created_at :: timestamp
  ak_last_used_at :: "timestamp option"
  ak_revoked_at :: "timestamp option"

record access =
  ac_users :: "ident list"
  ac_keys :: "api_key list"
  ac_hits :: "ident \<Rightarrow> real list"

record access_env =
  ae_hash :: "string \<Rightarrow> string"
  ae_rate_limit_rpm :: int

datatype http_exception = HTTPException int string

record user_ctx =
  uc_user_id :: ident
  uc_role :: string
  uc_key_id :: ident

record key_meta =
  km_key_id :: ident
  km_user_id :: ident
  km_role :: string
  km_description :: string
  km_rate_limit :: int
  km_created_at :: timestamp
  km_last_used_at :: "timestamp option"

record key_info =
  ki_id :: ident
  ki_user_id :: ident
  ki_role :: string
  ki_description :: string
  ki_rate_limit :: int
  ki_created_at :: timestamp
  ki_last_used_at :: "timestamp option"
  ki_revoked_at :: "timestamp option"

section \<open>API keys\<close>

definition live :: "api_key \<Rightarrow> bool" where
  "live k \<longleftrightarrow> ak_revoked_at k = None"

definition create_key ::
  "access_env \<Rightarrow> ident \<Rightarrow> string \<Rightarrow> string \<Rightarrow> string \<Rightarrow> ident \<Rightarrow> timestamp \<Rightarrow> access \<Rightarrow> (string \<times> access) result" where
  "create_key env user role description token key_id now s =
     (let raw_key = ''lm_'' @ token; key_hash = ae_hash env raw_key
      in if key_id \<in> ak_id ` set (ac_keys s) then Inl (IntegrityError ''UNIQUE api_keys.id'')
         else if key_hash \<in> ak_key_hash ` set (ac_keys s) then Inl (IntegrityError ''UNIQUE api_keys.key_hash'')
         else if user \<notin> set (ac_users s) then Inl (IntegrityError ''FOREIGN KEY api_keys.user_id'')
         else Inr (raw_key, s\<lparr>ac_keys := ac_keys s @
           [\<lparr>ak_id = key_id, ak_user_id = user, ak_key_hash = key_hash, ak_name = description, ak_role = role,
             ak_rate_limit = ae_rate_limit_rpm env, ak_created_at = now, ak_last_used_at = None,
             ak_revoked_at = None\<rparr>]\<rparr>))"

definition key_meta_of :: "api_key \<Rightarrow> key_meta" where
  "key_meta_of k =
     \<lparr>km_key_id = ak_id k, km_user_id = ak_user_id k, km_role = ak_role k, km_description = ak_name k,
      km_rate_limit = ak_rate_limit k, km_created_at = ak_created_at k, km_last_used_at = ak_last_used_at k\<rparr>"

definition validate_key :: "access_env \<Rightarrow> string \<Rightarrow> timestamp \<Rightarrow> access \<Rightarrow> key_meta option \<times> access" where
  "validate_key env raw_key now s =
     (case fetchone (filter (\<lambda>k. ak_key_hash k = ae_hash env raw_key \<and> live k) (ac_keys s)) of
        None \<Rightarrow> (None, s)
      | Some row \<Rightarrow>
          (Some (key_meta_of row),
           s\<lparr>ac_keys := sql_update (\<lambda>k. ak_id k = ak_id row) (\<lambda>k. k\<lparr>ak_last_used_at := Some now\<rparr>) (ac_keys s)\<rparr>))"

definition revoke_key :: "ident \<Rightarrow> timestamp \<Rightarrow> access \<Rightarrow> access" where
  "revoke_key key_id now s =
     s\<lparr>ac_keys := sql_update (\<lambda>k. ak_id k = key_id) (\<lambda>k. k\<lparr>ak_revoked_at := Some now\<rparr>) (ac_keys s)\<rparr>"

definition key_info_of :: "api_key \<Rightarrow> key_info" where
  "key_info_of k =
     \<lparr>ki_id = ak_id k, ki_user_id = ak_user_id k, ki_role = ak_role k, ki_description = ak_name k,
      ki_rate_limit = ak_rate_limit k, ki_created_at = ak_created_at k, ki_last_used_at = ak_last_used_at k,
      ki_revoked_at = ak_revoked_at k\<rparr>"

definition list_keys :: "ident option \<Rightarrow> access \<Rightarrow> key_info list" where
  "list_keys user s =
     map key_info_of (order_by_desc ak_created_at
       (filter (\<lambda>k. case user of None \<Rightarrow> True | Some u \<Rightarrow> u = [] \<or> ak_user_id k = u) (ac_keys s)))"

definition has_any_keys :: "access \<Rightarrow> bool" where
  "has_any_keys s \<longleftrightarrow> 0 < length (filter live (ac_keys s))"

section \<open>The sliding window\<close>

definition WINDOW_SECONDS :: real where
  "WINDOW_SECONDS = 60"

definition limiter_check :: "int \<Rightarrow> ident \<Rightarrow> real \<Rightarrow> (ident \<Rightarrow> real list) \<Rightarrow> bool \<times> (ident \<Rightarrow> real list)" where
  "limiter_check max_requests key_id now all_hits =
     (let cutoff = now - WINDOW_SECONDS; hits = filter (\<lambda>t. cutoff < t) (all_hits key_id)
      in if max_requests \<le> int (length hits) then (False, all_hits(key_id := hits))
         else (True, all_hits(key_id := hits @ [now])))"

section \<open>Authentication\<close>

definition BOOTSTRAP_USER :: user_ctx where
  "BOOTSTRAP_USER = \<lparr>uc_user_id = ''bootstrap'', uc_role = ''admin'', uc_key_id = ''bootstrap''\<rparr>"

definition authenticate_request ::
  "access_env \<Rightarrow> string option \<Rightarrow> timestamp \<Rightarrow> real \<Rightarrow> access \<Rightarrow> (http_exception + user_ctx) \<times> access" where
  "authenticate_request env api_key now tick s =
     (if \<not> has_any_keys s then (Inr BOOTSTRAP_USER, s)
      else case api_key of
        None \<Rightarrow> (Inl (HTTPException 401 ''Missing X-API-Key header''), s)
      | Some raw \<Rightarrow>
          if raw = [] then (Inl (HTTPException 401 ''Missing X-API-Key header''), s)
          else (case validate_key env raw now s of
            (None, s1) \<Rightarrow> (Inl (HTTPException 401 ''Invalid or revoked API key''), s1)
          | (Some meta, s1) \<Rightarrow>
              (case limiter_check (ae_rate_limit_rpm env) (km_key_id meta) tick (ac_hits s1) of
                 (False, hits) \<Rightarrow>
                   (Inl (HTTPException 429
                      (''Rate limit exceeded ('' @ show_int (ae_rate_limit_rpm env) @ '' requests/min)'')),
                    s1\<lparr>ac_hits := hits\<rparr>)
               | (True, hits) \<Rightarrow>
                   (Inr \<lparr>uc_user_id = km_user_id meta, uc_role = km_role meta, uc_key_id = km_key_id meta\<rparr>,
                    s1\<lparr>ac_hits := hits\<rparr>))))"

text \<open>The dependency of a route repeats the steps of the middleware.\<close>

definition get_current_user ::
  "access_env \<Rightarrow> string option \<Rightarrow> timestamp \<Rightarrow> real \<Rightarrow> access \<Rightarrow> (http_exception + user_ctx) \<times> access" where
  "get_current_user env api_key now tick s = authenticate_request env api_key now tick s"

section \<open>Roles\<close>

definition ROLE_PERMISSIONS :: "(string \<times> (string \<times> string) list) list" where
  "ROLE_PERMISSIONS =
     [(''viewer'', [(''GET'', ''/api/'')]),
      (''operator'',
        [(''GET'', ''/api/''),
         (''POST'', ''/api/chat''), (''PUT'', ''/api/chat''), (''DELETE'', ''/api/chat''),
         (''POST'', ''/api/jobs''), (''PUT'', ''/api/jobs''), (''DELETE'', ''/api/jobs''),
         (''POST'', ''/api/conversations''), (''PUT'', ''/api/conversations''), (''DELETE'', ''/api/conversations''),
         (''POST'', ''/api/memory''), (''PUT'', ''/api/memory''), (''DELETE'', ''/api/memory''),
         (''POST'', ''/api/documents''), (''PUT'', ''/api/documents''), (''DELETE'', ''/api/documents''),
         (''POST'', ''/api/files''), (''PUT'', ''/api/files''), (''DELETE'', ''/api/files'')]),
      (''admin'', [(''*'', ''/api/'')])]"

text \<open>\<^verbatim>\<open>upper\<close> on ASCII letters; the methods it is compared with are ASCII.\<close>

definition method_upper :: "string \<Rightarrow> string" where
  "method_upper = map (\<lambda>c. let n = of_char c :: nat in if 97 \<le> n \<and> n \<le> 122 then char_of (n - 32) else c)"

definition is_allowed :: "string \<Rightarrow> string \<Rightarrow> string \<Rightarrow> bool" where
  "is_allowed role meth path \<longleftrightarrow>
     (\<exists>(allowed_method, allowed_prefix) \<in> set (case map_of ROLE_PERMISSIONS role of None \<Rightarrow> [] | Some ps \<Rightarrow> ps).
        starts_with allowed_prefix path \<and> (allowed_method = ''*'' \<or> allowed_method = method_upper meth))"

definition check_permission :: "string \<Rightarrow> string \<Rightarrow> string \<Rightarrow> http_exception + unit" where
  "check_permission role meth path =
     (if is_allowed role meth path then Inr ()
      else Inl (HTTPException 403 (''Role '' @ [CHR 0x27] @ role @ [CHR 0x27] @ '' is not permitted to '' @ meth @ '' '' @ path)))"

definition require_role :: "string list \<Rightarrow> user_ctx \<Rightarrow> http_exception + user_ctx" where
  "require_role roles user =
     (if uc_role user \<in> set roles then Inr user
      else Inl (HTTPException 403 (''This endpoint requires one of these roles: '' @ py_join '', '' roles)))"

section \<open>The middleware\<close>

definition AUTH_SKIP_PREFIXES :: "string list" where
  "AUTH_SKIP_PREFIXES = [''/health'', ''/docs'', ''/openapi.json'', ''/static/'']"

definition AUTH_SKIP_EXACT :: "string list" where
  "AUTH_SKIP_EXACT = [''/'', ''/health'', ''/health/ready'', ''/health/deep'', ''/docs'', ''/openapi.json'', ''/sw.js'']"

text \<open>The result is the refusal, or the user the request goes on with (none where no authentication is asked).\<close>

definition auth_middleware ::
  "access_env \<Rightarrow> string \<Rightarrow> string \<Rightarrow> string option \<Rightarrow> timestamp \<Rightarrow> real \<Rightarrow> access \<Rightarrow>
     (http_exception + user_ctx option) \<times> access" where
  "auth_middleware env meth path api_key now tick s =
     (if path \<in> set AUTH_SKIP_EXACT \<or> (\<exists>p \<in> set AUTH_SKIP_PREFIXES. starts_with p path) then (Inr None, s)
      else if starts_with ''/api/'' path then
        (case authenticate_request env api_key now tick s of
           (Inl e, s1) \<Rightarrow> (Inl e, s1)
         | (Inr user, s1) \<Rightarrow>
             (case check_permission (uc_role user) meth path of
                Inl e \<Rightarrow> (Inl e, s1) | Inr _ \<Rightarrow> (Inr (Some user), s1)))
      else (Inr None, s))"

section \<open>Routes\<close>

text \<open>A request is for one of the three key routes of \<^verbatim>\<open>admin.py\<close>, or for a route that does not touch this state. A new
  key comes with its random token and identifier.\<close>

datatype call =
    Plain string string
  | List_keys
  | Create_key ident string string string ident
  | Revoke_key ident

fun call_method :: "call \<Rightarrow> string" where
  "call_method (Plain m p) = m"
| "call_method List_keys = ''GET''"
| "call_method (Create_key u r d tok i) = ''POST''"
| "call_method (Revoke_key i) = ''DELETE''"

fun call_path :: "call \<Rightarrow> string" where
  "call_path (Plain m p) = p"
| "call_path List_keys = ''/api/admin/keys''"
| "call_path (Create_key u r d tok i) = ''/api/admin/keys''"
| "call_path (Revoke_key i) = ''/api/admin/keys/'' @ i"

fun is_admin_call :: "call \<Rightarrow> bool" where
  "is_admin_call (Plain m p) = False"
| "is_admin_call c = True"

definition VALID_ROLES :: "string list" where
  "VALID_ROLES = [''admin'', ''operator'', ''viewer'']"

datatype response =
    Refused http_exception
  | Passed "user_ctx option"
  | Keys "key_info list"
  | Raw_key string
  | Revoked ident
  | Crashed py_error

fun admin_handler :: "access_env \<Rightarrow> call \<Rightarrow> timestamp \<Rightarrow> access \<Rightarrow> response \<times> access" where
  "admin_handler env (Plain m p) now s = (Passed None, s)"
| "admin_handler env List_keys now s = (Keys (list_keys None s), s)"
| "admin_handler env (Create_key user role description token key_id) now s =
     (if role \<notin> set VALID_ROLES
      then (Refused (HTTPException 400 (''Invalid role '' @ [CHR 0x27] @ role @ [CHR 0x27] @
              ''. Must be one of: admin, operator, viewer'')), s)
      else if user \<notin> set (ac_users s)
      then (Refused (HTTPException 404 (''User '' @ [CHR 0x27] @ user @ [CHR 0x27] @ '' not found'')), s)
      else (case create_key env user role description token key_id now s of
              Inl e \<Rightarrow> (Crashed e, s) | Inr (raw, s1) \<Rightarrow> (Raw_key raw, s1)))"
| "admin_handler env (Revoke_key key_id) now s =
     (if key_id \<notin> ak_id ` set (ac_keys s)
      then (Refused (HTTPException 404 (''API key '' @ [CHR 0x27] @ key_id @ [CHR 0x27] @ '' not found'')), s)
      else (Revoked key_id, revoke_key key_id now s))"

text \<open>A request has its key, the wall clock, and the monotonic clock at the middleware and at the dependency. The user
  the request is served for comes with the response.\<close>

record request =
  rq_api_key :: "string option"
  rq_now :: timestamp
  rq_tick :: real
  rq_tick_route :: real

definition serve :: "access_env \<Rightarrow> request \<times> call \<Rightarrow> access \<Rightarrow> (user_ctx option \<times> response) \<times> access" where
  "serve env = (\<lambda>(rq, c) s.
     (case auth_middleware env (call_method c) (call_path c) (rq_api_key rq) (rq_now rq) (rq_tick rq) s of
        (Inl e, s1) \<Rightarrow> ((None, Refused e), s1)
      | (Inr user, s1) \<Rightarrow>
          if is_admin_call c then
            (case get_current_user env (rq_api_key rq) (rq_now rq) (rq_tick_route rq) s1 of
               (Inl e, s2) \<Rightarrow> ((None, Refused e), s2)
             | (Inr user2, s2) \<Rightarrow>
                 (case require_role [''admin''] user2 of
                    Inl e \<Rightarrow> ((None, Refused e), s2)
                  | Inr user3 \<Rightarrow> (case admin_handler env c (rq_now rq) s2 of (r, s3) \<Rightarrow> ((Some user3, r), s3))))
          else ((user, Passed user), s1)))"

fun serve_all :: "access_env \<Rightarrow> (request \<times> call) list \<Rightarrow> access \<Rightarrow> (user_ctx option \<times> response) list \<times> access" where
  "serve_all env [] s = ([], s)"
| "serve_all env (r # rs) s =
     (case serve env r s of (x, s1) \<Rightarrow> (case serve_all env rs s1 of (xs, s2) \<Rightarrow> (x # xs, s2)))"

definition new_access :: "ident list \<Rightarrow> access" where
  "new_access users = \<lparr>ac_users = users, ac_keys = [], ac_hits = (\<lambda>_. [])\<rparr>"


section \<open>Who is served\<close>

text \<open>Authentication changes the time of last use only; the rest of a key is its core.\<close>

definition key_core :: "api_key \<Rightarrow> api_key" where
  "key_core k = k\<lparr>ak_last_used_at := None\<rparr>"

definition ctx_of :: "api_key \<Rightarrow> user_ctx" where
  "ctx_of k = \<lparr>uc_user_id = ak_user_id k, uc_role = ak_role k, uc_key_id = ak_id k\<rparr>"

definition authorised :: "access_env \<Rightarrow> string option \<Rightarrow> access \<Rightarrow> user_ctx \<Rightarrow> bool" where
  "authorised env key s u \<longleftrightarrow>
     \<not> has_any_keys s \<and> u = BOOTSTRAP_USER \<or>
     (\<exists>raw k. key = Some raw \<and> k \<in> set (ac_keys s) \<and> live k \<and> ak_key_hash k = ae_hash env raw \<and> u = ctx_of k)"

lemma key_core_same [simp]:
  "ak_id (key_core k) = ak_id k" "ak_key_hash (key_core k) = ak_key_hash k" "live (key_core k) = live k"
  "ctx_of (key_core k) = ctx_of k"
  by (simp_all add: key_core_def live_def ctx_of_def)

lemma has_any_keys_iff: "has_any_keys s \<longleftrightarrow> (\<exists>k \<in> set (ac_keys s). live k)"
  by (auto simp: has_any_keys_def filter_empty_conv)

lemma core_image: "map key_core xs = map key_core ys \<Longrightarrow> key_core ` set xs = key_core ` set ys"
  by (metis list.set_map)

lemma same_core_has_any:
  assumes "map key_core (ac_keys s1) = map key_core (ac_keys s)"
  shows "has_any_keys s1 = has_any_keys s"
proof -
  have "(\<exists>k \<in> set ks. live k) \<longleftrightarrow> (\<exists>k \<in> key_core ` set ks. live k)" for ks by simp
  then show ?thesis unfolding has_any_keys_iff using core_image [OF assms] by metis
qed

lemma same_core_authorised:
  assumes "map key_core (ac_keys s1) = map key_core (ac_keys s)" "authorised env key s1 u"
  shows "authorised env key s u"
proof -
  have "\<exists>q \<in> set (ac_keys s). key_core q = key_core k" if "k \<in> set (ac_keys s1)" for k
    using that core_image [OF assms(1)] by (metis image_iff)
  with assms(2) show ?thesis
    unfolding authorised_def same_core_has_any [OF assms(1)] by (metis key_core_same)
qed

lemma touched_core:
  "map key_core (sql_update P (\<lambda>k. k\<lparr>ak_last_used_at := Some now\<rparr>) ks) = map key_core ks"
  by (auto simp: sql_update_def key_core_def)

lemma authenticate_cases:
  assumes "authenticate_request env key now tick s = (r, s1)"
  obtains (boot) "\<not> has_any_keys s" "r = Inr BOOTSTRAP_USER" "s1 = s"
  | (refused) d where "has_any_keys s" "r = Inl (HTTPException 401 d)" "s1 = s"
  | (checked) raw k b hits where "has_any_keys s" "key = Some raw" "k \<in> set (ac_keys s)" "live k"
      "ak_key_hash k = ae_hash env raw" "limiter_check (ae_rate_limit_rpm env) (ak_id k) tick (ac_hits s) = (b, hits)"
      "s1 = s\<lparr>ac_keys := sql_update (\<lambda>q. ak_id q = ak_id k) (\<lambda>q. q\<lparr>ak_last_used_at := Some now\<rparr>) (ac_keys s),
              ac_hits := hits\<rparr>"
      "b \<Longrightarrow> r = Inr (ctx_of k)" "\<not> b \<Longrightarrow> \<exists>d. r = Inl (HTTPException 429 d)"
proof (cases "\<not> has_any_keys s \<or> key = None \<or> key = Some []")
  case True
  then consider "\<not> has_any_keys s" | "has_any_keys s" "key = None \<or> key = Some []" by blast
  then show thesis
  proof cases
    case 1
    with assms show thesis by (intro boot) (simp_all add: authenticate_request_def)
  next
    case 2
    then have "r = Inl (HTTPException 401 ''Missing X-API-Key header'')" "s1 = s"
      using assms by (auto simp: authenticate_request_def)
    with 2(1) show thesis by (intro refused)
  qed
next
  case False
  then obtain raw where raw: "has_any_keys s" "key = Some raw" "raw \<noteq> []" by auto
  show thesis
  proof (cases "fetchone (filter (\<lambda>k. ak_key_hash k = ae_hash env raw \<and> live k) (ac_keys s))")
    case None
    with assms raw have "r = Inl (HTTPException 401 ''Invalid or revoked API key'')" "s1 = s"
      by (simp_all add: authenticate_request_def validate_key_def)
    with raw(1) show thesis by (intro refused)
  next
    case (Some k)
    obtain b hits where l: "limiter_check (ae_rate_limit_rpm env) (ak_id k) tick (ac_hits s) = (b, hits)" by fastforce
    with assms raw Some have "r = (if b then Inr (ctx_of k) else Inl (HTTPException 429
        (''Rate limit exceeded ('' @ show_int (ae_rate_limit_rpm env) @ '' requests/min)'')))"
      "s1 = s\<lparr>ac_keys := sql_update (\<lambda>q. ak_id q = ak_id k) (\<lambda>q. q\<lparr>ak_last_used_at := Some now\<rparr>) (ac_keys s),
              ac_hits := hits\<rparr>"
      by (simp_all add: authenticate_request_def validate_key_def key_meta_of_def ctx_of_def split: bool.splits)
    moreover from fetchone_filterD [OF Some] have "k \<in> set (ac_keys s)" "live k" "ak_key_hash k = ae_hash env raw"
      by simp_all
    ultimately show thesis using raw(1,2) l by (intro checked [of raw k b hits]) simp_all
  qed
qed

lemma authenticate_core:
  assumes "authenticate_request env key now tick s = (r, s1)"
  shows "map key_core (ac_keys s1) = map key_core (ac_keys s) \<and> ac_users s1 = ac_users s"
  using assms by (rule authenticate_cases) (simp_all add: touched_core)

lemma authenticate_authorised:
  assumes "authenticate_request env key now tick s = (Inr u, s1)"
  shows "authorised env key s u"
  using assms
proof (cases rule: authenticate_cases)
  case (checked raw k b hits)
  then have "u = ctx_of k" by (cases b) simp_all
  with checked show ?thesis unfolding authorised_def by blast
qed (simp_all add: authorised_def)

lemma api_not_skipped:
  "starts_with ''/api/'' path \<Longrightarrow>
     path \<notin> set AUTH_SKIP_EXACT \<and> (\<forall>p \<in> set AUTH_SKIP_PREFIXES. \<not> starts_with p path)"
  by (cases path; cases "tl path") (auto simp: AUTH_SKIP_EXACT_def AUTH_SKIP_PREFIXES_def)

lemma middleware_passes:
  assumes "auth_middleware env meth path key now tick s = (Inr user, s1)"
  shows "starts_with ''/api/'' path \<and>
      (\<exists>u. user = Some u \<and> authenticate_request env key now tick s = (Inr u, s1) \<and> is_allowed (uc_role u) meth path)
    \<or> \<not> starts_with ''/api/'' path \<and> user = None \<and> s1 = s"
  using assms api_not_skipped [of path]
  by (auto simp: auth_middleware_def check_permission_def split: if_splits sum.splits prod.splits)

lemma middleware_authenticates:
  assumes "auth_middleware env meth path key now tick s = (x, s1)"
  shows "s1 = s \<or> (\<exists>r. authenticate_request env key now tick s = (r, s1))"
  using assms by (auto simp: auth_middleware_def split: if_splits sum.splits prod.splits)

text \<open>A user of the response has been authenticated on the keys the request found, and the role permits the request.\<close>

lemma admin_allowed_everywhere: "starts_with ''/api/'' path \<Longrightarrow> is_allowed ''admin'' meth path"
  by (simp add: is_allowed_def ROLE_PERMISSIONS_def)

lemma admin_path_api: "is_admin_call c \<Longrightarrow> starts_with ''/api/'' (call_path c)"
  by (cases c) simp_all

lemma serve_user:
  assumes "serve env (rq, c) s = ((Some u, r), s')"
  shows "authorised env (rq_api_key rq) s u \<and> is_allowed (uc_role u) (call_method c) (call_path c) \<and>
    (is_admin_call c \<longrightarrow> uc_role u = ''admin'')"
proof (cases "is_admin_call c")
  case True
  with assms obtain user s1 s2 where
    m: "auth_middleware env (call_method c) (call_path c) (rq_api_key rq) (rq_now rq) (rq_tick rq) s = (Inr user, s1)"
    and a: "authenticate_request env (rq_api_key rq) (rq_now rq) (rq_tick_route rq) s1 = (Inr u, s2)"
      "uc_role u = ''admin''"
    by (auto simp: serve_def get_current_user_def require_role_def split: sum.splits prod.splits if_splits)
  from middleware_passes [OF m] admin_path_api [OF True] obtain u1 where
    "authenticate_request env (rq_api_key rq) (rq_now rq) (rq_tick rq) s = (Inr u1, s1)" by blast
  from authenticate_core [OF this] authenticate_authorised [OF a(1)] have "authorised env (rq_api_key rq) s u"
    using same_core_authorised by blast
  with a(2) admin_path_api [OF True] show ?thesis by (simp add: admin_allowed_everywhere)
next
  case False
  with assms have m: "auth_middleware env (call_method c) (call_path c) (rq_api_key rq) (rq_now rq) (rq_tick rq) s
      = (Inr (Some u), s')"
    by (auto simp: serve_def split: sum.splits prod.splits)
  from middleware_passes [OF m] False authenticate_authorised show ?thesis by blast
qed

lemma serve_nobody:
  assumes "serve env (rq, c) s = ((None, r), s')" "starts_with ''/api/'' (call_path c)"
  shows "(\<exists>e. r = Refused e) \<and> map key_core (ac_keys s') = map key_core (ac_keys s)"
proof -
  obtain x s1 where m: "auth_middleware env (call_method c) (call_path c) (rq_api_key rq) (rq_now rq) (rq_tick rq) s = (x, s1)"
    by fastforce
  have core: "map key_core (ac_keys s1) = map key_core (ac_keys s)"
    using middleware_authenticates [OF m] by (auto dest: authenticate_core)
  obtain y s2 where g: "authenticate_request env (rq_api_key rq) (rq_now rq) (rq_tick_route rq) s1 = (y, s2)" by fastforce
  from assms m g middleware_passes [of env "call_method c" "call_path c" "rq_api_key rq" "rq_now rq" "rq_tick rq" s]
  have "(\<exists>e. r = Refused e) \<and> (s' = s1 \<or> s' = s2)"
    by (auto simp: serve_def get_current_user_def split: sum.splits prod.splits if_splits)
  with core authenticate_core [OF g] show ?thesis by metis
qed

text \<open>C32. A response for a user of an \<^verbatim>\<open>/api/\<close> request means that the key of the request is live, or that there is no live key at
  all; the role permits method and path, and the key routes ask for an administrator. A response without a user refuses
  the request and leaves the keys as they are.\<close>

theorem served_requests_authorised:
  assumes "serve env (rq, c) s = ((user, r), s')" "starts_with ''/api/'' (call_path c)"
  shows "case user of
      None \<Rightarrow> (\<exists>e. r = Refused e) \<and> map key_core (ac_keys s') = map key_core (ac_keys s)
    | Some u \<Rightarrow>
        ((\<forall>k \<in> set (ac_keys s). \<not> live k) \<and> u = BOOTSTRAP_USER \<or>
         (\<exists>k \<in> set (ac_keys s). live k \<and> rq_api_key rq \<noteq> None \<and>
            ak_key_hash k = ae_hash env (the (rq_api_key rq)) \<and> u = ctx_of k)) \<and>
        is_allowed (uc_role u) (call_method c) (call_path c) \<and> (is_admin_call c \<longrightarrow> uc_role u = ''admin'')"
proof (cases user)
  case None
  with assms serve_nobody show ?thesis by simp
next
  case (Some u)
  with assms(1) serve_user [of env rq c s u r s'] show ?thesis by (auto simp: authorised_def has_any_keys_iff)
qed

definition example_key :: api_key where
  "example_key =
     \<lparr>ak_id = ''k'', ak_user_id = ''u'', ak_key_hash = ''lm_t'', ak_name = [], ak_role = ''viewer'', ak_rate_limit = 60,
      ak_created_at = 0, ak_last_used_at = None, ak_revoked_at = None\<rparr>"

definition example_access :: access where
  "example_access = (new_access [''u''])\<lparr>ac_keys := [example_key]\<rparr>"

definition example_access_env :: access_env where
  "example_access_env = \<lparr>ae_hash = (\<lambda>s. s), ae_rate_limit_rpm = 1\<rparr>"

definition example_request :: request where
  "example_request = \<lparr>rq_api_key = Some ''lm_t'', rq_now = 0, rq_tick = 0, rq_tick_route = 0\<rparr>"

lemmas access_example_defs =
  example_key_def example_access_def example_access_env_def example_request_def new_access_def

lemma example_served:
  "fst (serve example_access_env (example_request, Plain ''GET'' ''/api/jobs'') example_access) =
     (Some (ctx_of example_key), Passed (Some (ctx_of example_key)))"
  by (simp add: access_example_defs serve_def auth_middleware_def AUTH_SKIP_EXACT_def AUTH_SKIP_PREFIXES_def
      authenticate_request_def has_any_keys_def live_def validate_key_def key_meta_of_def limiter_check_def
      check_permission_def is_allowed_def ROLE_PERMISSIONS_def method_upper_def ctx_of_def Let_def)

theorem served_requests_authorised_witness:
  "\<exists>k \<in> set (ac_keys example_access). live k \<and> ctx_of k = ctx_of example_key"
proof -
  obtain s' where "serve example_access_env (example_request, Plain ''GET'' ''/api/jobs'') example_access =
      ((Some (ctx_of example_key), Passed (Some (ctx_of example_key))), s')"
    using example_served by (metis prod.collapse)
  from served_requests_authorised [OF this] have "(\<forall>k \<in> set (ac_keys example_access). \<not> live k) \<or>
    (\<exists>k \<in> set (ac_keys example_access). live k \<and> ctx_of k = ctx_of example_key)" by auto
  then show ?thesis by (simp add: access_example_defs live_def)
qed

section \<open>The rate limit\<close>

text \<open>The log holds key and clock of the accepted checks; of every key the list of hits covers the log of the last
  window, and no window of the log holds more than the limit.\<close>

definition uses_after :: "ident \<Rightarrow> real \<Rightarrow> (ident \<times> real) list \<Rightarrow> nat" where
  "uses_after k c uses = length (filter (\<lambda>(i, t). i = k \<and> c < t) uses)"

definition uses_within :: "ident \<Rightarrow> real \<Rightarrow> (ident \<times> real) list \<Rightarrow> nat" where
  "uses_within k a uses = length (filter (\<lambda>(i, t). i = k \<and> a < t \<and> t \<le> a + WINDOW_SECONDS) uses)"

definition limited :: "int \<Rightarrow> real \<Rightarrow> (ident \<times> real) list \<Rightarrow> (ident \<Rightarrow> real list) \<Rightarrow> bool" where
  "limited rpm now uses hits \<longleftrightarrow>
     (\<forall>k c. now - WINDOW_SECONDS \<le> c \<longrightarrow> uses_after k c uses \<le> length (filter (\<lambda>t. c < t) (hits k))) \<and>
     (\<forall>k a. uses_within k a uses \<le> nat rpm) \<and> (\<forall>(k, t) \<in> set uses. t \<le> now)"

lemma limited_new: "limited rpm now [] hits"
  by (simp add: limited_def uses_after_def uses_within_def)

lemma limited_later: "limited rpm t0 uses hits \<Longrightarrow> t0 \<le> t \<Longrightarrow> limited rpm t uses hits"
  unfolding limited_def by force

lemma filter_pruned: "now - w \<le> (c::real) \<Longrightarrow> filter (\<lambda>t. now - w < t \<and> c < t) xs = filter (\<lambda>t. c < t) xs"
  by (induction xs) auto

lemma limited_check:
  assumes "limited rpm t0 uses hits" "t0 \<le> now"
  shows "limited rpm now uses (snd (limiter_check rpm k now hits))"
proof -
  have l: "limited rpm now uses hits" by (rule limited_later [OF assms])
  have "length (filter (\<lambda>t. c < t) (hits i)) \<le> length (filter (\<lambda>t. c < t) (snd (limiter_check rpm k now hits) i))"
    if "now - WINDOW_SECONDS \<le> c" for i c
    using that by (simp add: limiter_check_def Let_def filter_pruned)
  with l show ?thesis unfolding limited_def by (meson le_trans)
qed

lemma uses_snoc:
  "uses_after k c (uses @ [(i, t)]) = uses_after k c uses + (if i = k \<and> c < t then 1 else 0)"
  "uses_within k a (uses @ [(i, t)]) = uses_within k a uses + (if i = k \<and> a < t \<and> t \<le> a + WINDOW_SECONDS then 1 else 0)"
  by (simp_all add: uses_after_def uses_within_def)

lemma uses_within_le_after: "uses_within k a uses \<le> uses_after k a uses"
  unfolding uses_within_def uses_after_def
  by (induction uses) auto

lemma limited_accept:
  assumes "limited rpm t0 uses hits" "t0 \<le> now" "limiter_check rpm k now hits = (True, hits')"
  shows "limited rpm now (uses @ [(k, now)]) hits'"
proof -
  have l: "limited rpm now uses hits" by (rule limited_later [OF assms(1,2)])
  let ?recent = "filter (\<lambda>t. now - WINDOW_SECONDS < t) (hits k)"
  from assms(3) have hits': "hits' = hits(k := ?recent @ [now])" and free: "int (length ?recent) < rpm"
    by (auto simp: limiter_check_def Let_def split: if_splits)
  have "uses_after i c (uses @ [(k, now)]) \<le> length (filter (\<lambda>t. c < t) (hits' i))" if c: "now - WINDOW_SECONDS \<le> c" for i c
  proof -
    have "uses_after i c uses \<le> length (filter (\<lambda>t. c < t) (hits i))" using l c by (simp add: limited_def)
    with c show ?thesis by (auto simp: uses_snoc hits' filter_pruned)
  qed
  moreover have "uses_within i a (uses @ [(k, now)]) \<le> nat rpm" for i a
  proof (cases "i = k \<and> a < now \<and> now \<le> a + WINDOW_SECONDS")
    case True
    then have a: "now - WINDOW_SECONDS \<le> a" by simp
    have "uses_within i a uses \<le> length (filter (\<lambda>t. a < t) (hits k))"
      using uses_within_le_after [of i a uses] l a True by (auto simp: limited_def intro: le_trans)
    also have "\<dots> = length (filter (\<lambda>t. a < t) ?recent)" by (simp add: filter_pruned [OF a])
    also have "\<dots> \<le> length ?recent" by (rule length_filter_le)
    finally have "uses_within i a uses < nat rpm" using free by linarith
    then show ?thesis by (simp add: uses_snoc)
  next
    case False
    have "uses_within i a uses \<le> nat rpm" using l by (simp add: limited_def)
    moreover have "uses_within i a (uses @ [(k, now)]) = uses_within i a uses" using False unfolding uses_snoc by auto
    ultimately show ?thesis by simp
  qed
  moreover have "\<forall>(i, t) \<in> set (uses @ [(k, now)]). t \<le> now" using l by (auto simp: limited_def)
  ultimately show ?thesis unfolding limited_def by blast
qed

text \<open>Authenticating keeps the log limited, whether the accepted check is entered in it or not.\<close>

lemma limited_authenticate:
  assumes "authenticate_request env key now tick s = (r, s1)" "limited (ae_rate_limit_rpm env) t0 uses (ac_hits s)" "t0 \<le> tick"
  shows "limited (ae_rate_limit_rpm env) tick uses (ac_hits s1)"
    and "r = Inr u \<Longrightarrow> u \<noteq> BOOTSTRAP_USER \<Longrightarrow>
      limited (ae_rate_limit_rpm env) tick (uses @ [(uc_key_id u, tick)]) (ac_hits s1)"
proof -
  show "limited (ae_rate_limit_rpm env) tick uses (ac_hits s1)"
    using assms(1)
  proof (cases rule: authenticate_cases)
    case (checked raw k b hits)
    with limited_check [OF assms(2,3), of "ak_id k"] show ?thesis by simp
  qed (simp_all add: limited_later [OF assms(2,3)])
  show "limited (ae_rate_limit_rpm env) tick (uses @ [(uc_key_id u, tick)]) (ac_hits s1)"
    if "r = Inr u" "u \<noteq> BOOTSTRAP_USER"
    using assms(1)
  proof (cases rule: authenticate_cases)
    case (checked raw k b hits)
    with that have "b" "uc_key_id u = ak_id k" by (cases b; simp add: ctx_of_def)+
    with checked limited_accept [OF assms(2,3), of "ak_id k" hits] show ?thesis by simp
  qed (use that in simp_all)
qed

text \<open>A request is counted at the clock of the last check made for it.\<close>

fun checked_at :: "request \<times> call \<Rightarrow> real" where
  "checked_at (rq, c) = (if is_admin_call c then rq_tick_route rq else rq_tick rq)"

fun clocks :: "(request \<times> call) list \<Rightarrow> real list" where
  "clocks [] = []"
| "clocks ((rq, c) # rs) = rq_tick rq # (if is_admin_call c then [rq_tick_route rq] else []) @ clocks rs"

definition entry :: "request \<times> call \<Rightarrow> user_ctx option \<times> response \<Rightarrow> (ident \<times> real) list" where
  "entry r x = (case fst x of None \<Rightarrow> [] | Some u \<Rightarrow> if u = BOOTSTRAP_USER then [] else [(uc_key_id u, checked_at r)])"

fun served_log :: "(request \<times> call) list \<Rightarrow> (user_ctx option \<times> response) list \<Rightarrow> (ident \<times> real) list" where
  "served_log (r # rs) (x # xs) = entry r x @ served_log rs xs"
| "served_log rs xs = []"


lemma limited_serve:
  assumes "serve env r s = (x, s')" "limited (ae_rate_limit_rpm env) t0 uses (ac_hits s)"
    and "sorted (t0 # clocks (r # rs))"
  shows "\<exists>t1. sorted (t1 # clocks rs) \<and> limited (ae_rate_limit_rpm env) t1 (uses @ entry r x) (ac_hits s')"
proof -
  obtain rq c where r: "r = (rq, c)" by fastforce
  let ?rpm = "ae_rate_limit_rpm env"
  obtain y s1 where m: "auth_middleware env (call_method c) (call_path c) (rq_api_key rq) (rq_now rq) (rq_tick rq) s = (y, s1)"
    by fastforce
  have t0: "t0 \<le> rq_tick rq" and rest: "sorted (rq_tick rq # clocks rs)" using assms(3) r by (auto split: if_splits)
  have l1: "limited ?rpm (rq_tick rq) uses (ac_hits s1)"
    using middleware_authenticates [OF m] limited_authenticate(1) [OF _ assms(2) t0] limited_later [OF assms(2) t0] by auto
  show ?thesis
  proof (cases "is_admin_call c")
    case True
    obtain z s2 where g: "authenticate_request env (rq_api_key rq) (rq_now rq) (rq_tick_route rq) s1 = (z, s2)" by fastforce
    have t1: "rq_tick rq \<le> rq_tick_route rq" and rest1: "sorted (rq_tick_route rq # clocks rs)"
      using assms(3) r True by auto
    have l2: "limited ?rpm (rq_tick_route rq) uses (ac_hits s2)" by (rule limited_authenticate(1) [OF g l1 t1])
    have hits: "ac_hits (snd (admin_handler env c now s2)) = ac_hits s2" for now
      by (cases c) (auto simp: create_key_def revoke_key_def Let_def split: sum.splits)
    consider "entry r x = []" "ac_hits s' = ac_hits s1" | "entry r x = []" "ac_hits s' = ac_hits s2"
      | u where "z = Inr u" "u \<noteq> BOOTSTRAP_USER" "entry r x = [(uc_key_id u, rq_tick_route rq)]" "ac_hits s' = ac_hits s2"
      using assms(1) m g r True hits [of "rq_now rq"]
      by (cases "z = Inr BOOTSTRAP_USER")
        (auto simp: serve_def get_current_user_def require_role_def entry_def split: sum.splits prod.splits if_splits)
    then show ?thesis
    proof cases
      case 1
      with limited_later [OF l1 t1] rest1 show ?thesis by auto
    next
      case 2
      with l2 rest1 show ?thesis by auto
    next
      case 3
      with limited_authenticate(2) [OF g l1 t1] rest1 show ?thesis by auto
    qed
  next
    case False
    then have "s' = s1" and x: "x = (case y of Inl e \<Rightarrow> (None, Refused e) | Inr v \<Rightarrow> (v, Passed v))"
      using assms(1) m r by (auto simp: serve_def split: sum.splits)
    consider "entry r x = []" | u where "y = Inr (Some u)" "u \<noteq> BOOTSTRAP_USER" "entry r x = [(uc_key_id u, rq_tick rq)]"
      using x r False
      by (cases y; cases "y = Inr (Some BOOTSTRAP_USER)"; cases "projr y") (auto simp: entry_def)
    then show ?thesis
    proof cases
      case 1
      with l1 rest \<open>s' = s1\<close> show ?thesis by auto
    next
      case 2
      with m middleware_passes have "authenticate_request env (rq_api_key rq) (rq_now rq) (rq_tick rq) s = (Inr u, s1)"
        by blast
      from limited_authenticate(2) [OF this assms(2) t0] 2 rest \<open>s' = s1\<close> show ?thesis by auto
    qed
  qed
qed

lemma limited_serve_all:
  assumes "serve_all env rs s = (xs, s')" "limited (ae_rate_limit_rpm env) t0 uses (ac_hits s)" "sorted (t0 # clocks rs)"
  shows "\<exists>t1. limited (ae_rate_limit_rpm env) t1 (uses @ served_log rs xs) (ac_hits s')"
  using assms
proof (induction rs arbitrary: s xs t0 uses)
  case (Cons r rs)
  obtain x s1 ys where x: "serve env r s = (x, s1)" "serve_all env rs s1 = (ys, s')" "xs = x # ys"
    using Cons.prems(1) by (auto split: prod.splits)
  from limited_serve [OF x(1) Cons.prems(2,3)] obtain t1 where
    "sorted (t1 # clocks rs)" "limited (ae_rate_limit_rpm env) t1 (uses @ entry r x) (ac_hits s1)" by blast
  from Cons.IH [OF x(2) this(2,1)] x(3) show ?case by simp
qed auto

text \<open>C33. However the requests come, with keys created and revoked in between: in every window of a minute at most the limit
  of requests is served for one key.\<close>

theorem served_requests_rate_limited:
  assumes "serve_all env rs (new_access users) = (xs, s')" "sorted (clocks rs)"
  shows "length (filter (\<lambda>(k, t). k = key_id \<and> a < t \<and> t \<le> a + 60) (served_log rs xs)) \<le> nat (ae_rate_limit_rpm env)"
proof -
  have "sorted (hd (clocks rs @ [0]) # clocks rs)" using assms(2) by (cases "clocks rs") auto
  from limited_serve_all [OF assms(1) limited_new this] obtain t1 where
    "limited (ae_rate_limit_rpm env) t1 (served_log rs xs) (ac_hits s')" by auto
  then show ?thesis by (simp add: limited_def uses_within_def WINDOW_SECONDS_def)
qed

definition example_requests :: "(request \<times> call) list" where
  "example_requests =
     [(example_request, Create_key ''u'' ''viewer'' [] ''t'' ''k''),
      (example_request\<lparr>rq_tick := 1\<rparr>, Plain ''GET'' ''/api/jobs''),
      (example_request\<lparr>rq_tick := 2\<rparr>, Plain ''GET'' ''/api/jobs'')]"

theorem served_requests_rate_limited_witness:
  "length (filter (\<lambda>(k, t). k = ''k'' \<and> 0 < t \<and> t \<le> 0 + 60)
     (served_log example_requests (fst (serve_all example_access_env example_requests (new_access [''u'']))))) \<le> 1"
proof -
  obtain xs s' where x: "serve_all example_access_env example_requests (new_access [''u'']) = (xs, s')" by fastforce
  have "sorted (clocks example_requests)" by (simp add: example_requests_def example_request_def)
  from served_requests_rate_limited [OF x this, of "''k''" 0] x show ?thesis by (simp add: example_access_env_def)
qed

section \<open>Revocation\<close>

lemma not_live_revoked [simp]: "\<not> live (k\<lparr>ak_revoked_at := Some now\<rparr>)"
  by (simp add: live_def)

text \<open>The primary key and the UNIQUE hash of the table.\<close>

definition keys_wf :: "access \<Rightarrow> bool" where
  "keys_wf s \<longleftrightarrow> distinct (map ak_id (ac_keys s)) \<and> distinct (map ak_key_hash (ac_keys s))"

definition revoked :: "string \<Rightarrow> access \<Rightarrow> bool" where
  "revoked h s \<longleftrightarrow> keys_wf s \<and> (\<exists>k \<in> set (ac_keys s). \<not> live k \<and> ak_key_hash k = h)"

lemma keys_wf_new: "keys_wf (new_access users)"
  by (simp add: keys_wf_def new_access_def)

lemma keys_wf_core:
  assumes "map key_core (ac_keys s1) = map key_core (ac_keys s)"
  shows "keys_wf s1 = keys_wf s"
proof -
  have "map f ks = map f (map key_core ks)" if "\<And>k. f (key_core k) = f k" for f :: "api_key \<Rightarrow> string" and ks
    using that by simp
  from this [of ak_id] this [of ak_key_hash] assms show ?thesis unfolding keys_wf_def by (metis key_core_same(1,2))
qed

lemma revoked_core:
  assumes "map key_core (ac_keys s1) = map key_core (ac_keys s)"
  shows "revoked h s1 = revoked h s"
proof -
  have "(\<exists>k \<in> set ks. \<not> live k \<and> ak_key_hash k = h) \<longleftrightarrow> (\<exists>k \<in> key_core ` set ks. \<not> live k \<and> ak_key_hash k = h)" for ks
    by simp
  with core_image [OF assms] show ?thesis unfolding revoked_def keys_wf_core [OF assms] by metis
qed

lemma admin_handler_keys:
  obtains (same) "ac_keys (snd (admin_handler env c now s)) = ac_keys s"
  | (created) k where "ac_keys (snd (admin_handler env c now s)) = ac_keys s @ [k]"
      "ak_id k \<notin> ak_id ` set (ac_keys s)" "ak_key_hash k \<notin> ak_key_hash ` set (ac_keys s)"
  | (revoked) i where "c = Revoke_key i" "ac_keys (snd (admin_handler env c now s)) =
      sql_update (\<lambda>k. ak_id k = i) (\<lambda>k. k\<lparr>ak_revoked_at := Some now\<rparr>) (ac_keys s)"
proof (cases c)
  case (Create_key user role description token key_id)
  show thesis
  proof (cases "create_key env user role description token key_id now s")
    case (Inl e)
    with Create_key show thesis by (intro same) simp
  next
    case (Inr p)
    then obtain raw k where p: "p = (raw, s\<lparr>ac_keys := ac_keys s @ [k]\<rparr>)" and k: "ak_id k \<notin> ak_id ` set (ac_keys s)"
      "ak_key_hash k \<notin> ak_key_hash ` set (ac_keys s)"
      by (auto simp: create_key_def Let_def split: if_splits)
    have "ac_keys (snd (admin_handler env c now s)) \<in> {ac_keys s, ac_keys s @ [k]}"
      using Inr unfolding Create_key p by simp
    with k same created show thesis by blast
  qed
next
  case (Revoke_key i)
  with same revoked show thesis by (cases "i \<in> ak_id ` set (ac_keys s)") (simp_all add: revoke_key_def)
qed (use same in simp_all)

lemma keys_wf_handler: "keys_wf s \<Longrightarrow> keys_wf (snd (admin_handler env c now s))"
  by (rule admin_handler_keys [of env c now s]) (simp_all add: keys_wf_def map_sql_update)

lemma hash_revoked:
  assumes "k \<in> set ks" "\<not> live k \<or> ak_id k = i"
  shows "\<exists>q \<in> set (sql_update (\<lambda>q. ak_id q = i) (\<lambda>q. q\<lparr>ak_revoked_at := Some now\<rparr>) ks).
    \<not> live q \<and> ak_key_hash q = ak_key_hash k"
proof -
  let ?q = "if ak_id k = i then k\<lparr>ak_revoked_at := Some now\<rparr> else k"
  have "?q \<in> set (sql_update (\<lambda>q. ak_id q = i) (\<lambda>q. q\<lparr>ak_revoked_at := Some now\<rparr>) ks)"
    unfolding set_sql_update using assms(1) by (rule imageI)
  moreover have "\<not> live ?q" "ak_key_hash ?q = ak_key_hash k" using assms(2) by (auto simp: live_def)
  ultimately show ?thesis by blast
qed

lemma revoked_handler:
  assumes "revoked h s"
  shows "revoked h (snd (admin_handler env c now s))"
proof -
  from assms obtain k where k: "keys_wf s" "k \<in> set (ac_keys s)" "\<not> live k" "ak_key_hash k = h"
    by (auto simp: revoked_def)
  have "\<exists>q \<in> set (ac_keys (snd (admin_handler env c now s))). \<not> live q \<and> ak_key_hash q = h"
  proof (rule admin_handler_keys [of env c now s])
    fix i assume "ac_keys (snd (admin_handler env c now s)) =
      sql_update (\<lambda>k. ak_id k = i) (\<lambda>k. k\<lparr>ak_revoked_at := Some now\<rparr>) (ac_keys s)"
    then show ?thesis using hash_revoked [of k "ac_keys s" i now] k by simp
  qed (use k in auto)
  with k(1) show ?thesis unfolding revoked_def by (simp add: keys_wf_handler)
qed

lemma serve_keys:
  assumes "serve env (rq, c) s = (x, s')"
  shows "map key_core (ac_keys s') = map key_core (ac_keys s) \<or>
    (\<exists>s2 now. map key_core (ac_keys s2) = map key_core (ac_keys s) \<and> s' = snd (admin_handler env c now s2))"
proof -
  obtain y s1 where m: "auth_middleware env (call_method c) (call_path c) (rq_api_key rq) (rq_now rq) (rq_tick rq) s = (y, s1)"
    by fastforce
  obtain z s2 where g: "authenticate_request env (rq_api_key rq) (rq_now rq) (rq_tick_route rq) s1 = (z, s2)" by fastforce
  have core: "map key_core (ac_keys s1) = map key_core (ac_keys s)"
    using middleware_authenticates [OF m] by (auto dest: authenticate_core)
  from assms m g have "s' = s1 \<or> s' = s2 \<or> s' = snd (admin_handler env c (rq_now rq) s2)"
    by (auto simp: serve_def get_current_user_def split: sum.splits prod.splits if_splits)
  with core authenticate_core [OF g] show ?thesis by metis
qed

lemma revoked_serve_all:
  assumes "revoked h s" "serve_all env rs s = (xs, s')"
  shows "revoked h s'"
  using assms
proof (induction rs arbitrary: s xs)
  case (Cons r rs)
  obtain x s1 ys where x: "serve env r s = (x, s1)" "serve_all env rs s1 = (ys, s')"
    using Cons.prems(2) by (auto split: prod.splits)
  obtain rq c where r: "r = (rq, c)" by fastforce
  have "revoked h s1"
    using serve_keys [of env rq c s x s1] x(1) r Cons.prems(1) revoked_core revoked_handler by metis
  with Cons.IH x(2) show ?case by blast
qed simp

text \<open>C34. Once a key has been revoked, whatever is requested afterwards, the key is refused with status 401 for as long as some
  other key is live.\<close>

theorem revoked_key_stays_out:
  assumes "keys_wf s" "serve_all env rs (revoke_key (ak_id k) now s) = (xs, s')" "k \<in> set (ac_keys s)"
    and "ak_key_hash k = ae_hash env raw" "has_any_keys s'"
  shows "\<exists>d. authenticate_request env (Some raw) now' tick s' = (Inl (HTTPException 401 d), s')"
proof -
  have start: "revoked (ae_hash env raw) (revoke_key (ak_id k) now s)"
    using assms(1,4) hash_revoked [OF assms(3), of "ak_id k" now]
    by (simp add: revoked_def revoke_key_def keys_wf_def map_sql_update)
  from revoked_serve_all [OF start assms(2)] obtain q where q: "q \<in> set (ac_keys s')" "\<not> live q" "ak_key_hash q = ae_hash env raw"
    and d: "distinct (map ak_key_hash (ac_keys s'))" by (auto simp: revoked_def keys_wf_def)
  obtain y s2 where a: "authenticate_request env (Some raw) now' tick s' = (y, s2)" by fastforce
  have "\<exists>d. y = Inl (HTTPException 401 d) \<and> s2 = s'"
    using a
  proof (cases rule: authenticate_cases)
    case (checked raw' p b hits)
    from checked(2,5) q(3) have "ak_key_hash p = ak_key_hash q" by simp
    with d checked(3) q(1) have "p = q" by (rule unique_key_eq)
    with checked(4) q(2) show ?thesis by simp
  next
    case (refused e)
    then show ?thesis by blast
  qed (use assms(5) in blast)
  with a show ?thesis by blast
qed

theorem revoked_key_stays_out_witness:
  "\<exists>d s'. authenticate_request example_access_env (Some ''lm_t'') 0 0 s' = (Inl (HTTPException 401 d), s')"
proof -
  let ?k2 = "example_key\<lparr>ak_id := ''k2'', ak_key_hash := ''h2''\<rparr>"
  let ?s = "example_access\<lparr>ac_keys := [example_key, ?k2]\<rparr>"
  have "serve_all example_access_env [] (revoke_key (ak_id example_key) 0 ?s) = ([], revoke_key (ak_id example_key) 0 ?s)"
    by simp
  from revoked_key_stays_out [OF _ this, of "''lm_t''" 0 0] show ?thesis
    by (force simp: keys_wf_def access_example_defs revoke_key_def has_any_keys_def live_def)
qed

section \<open>Observations\<close>

text \<open>Revoking the only live key opens the system: every request is then an administrator's.\<close>

lemma revoking_the_last_key_opens:
  assumes "\<forall>q \<in> set (ac_keys s). live q \<longrightarrow> ak_id q = i"
  shows "authenticate_request env key now' tick (revoke_key i now s) = (Inr BOOTSTRAP_USER, revoke_key i now s)"
proof -
  have "\<not> live q" if "q \<in> set (ac_keys (revoke_key i now s))" for q
  proof -
    from that obtain p where "p \<in> set (ac_keys s)" "q = (if ak_id p = i then p\<lparr>ak_revoked_at := Some now\<rparr> else p)"
      by (auto simp: revoke_key_def in_sql_update)
    with assms show ?thesis by (cases "ak_id p = i") auto
  qed
  then have "\<not> has_any_keys (revoke_key i now s)" by (auto simp: has_any_keys_iff)
  then show ?thesis by (simp add: authenticate_request_def)
qed

text \<open>A key route counts twice against the limit, in the middleware and in its dependency: with a limit of one no
  administrator ever gets through to it.\<close>

lemma second_check_refused:
  assumes "ae_rate_limit_rpm env = 1" "has_any_keys s" "keys_wf s" "t \<le> t'" "t' < t + WINDOW_SECONDS"
    and "authenticate_request env key now t s = (Inr u, s1)" "authenticate_request env key now' t' s1 = (r, s2)"
  shows "\<exists>e. r = Inl e"
  using assms(6)
proof (cases rule: authenticate_cases)
  case c: (checked raw k b hits)
  have b using c(9) by blast
  with c(6) assms(1) have "hits (ak_id k) = [t]"
    by (auto simp: limiter_check_def Let_def Suc_le_eq split: if_splits)
  with c(7) have hits: "ac_hits s1 (ak_id k) = [t]" by simp
  have core: "map key_core (ac_keys s1) = map key_core (ac_keys s)" using authenticate_core [OF assms(6)] by simp
  show ?thesis
    using assms(7)
  proof (cases rule: authenticate_cases)
    case boot
    with assms(2) same_core_has_any [OF core] show ?thesis by simp
  next
    case d: (checked raw' k' b' hits')
    then obtain q where q: "q \<in> set (ac_keys s)" "key_core q = key_core k'" using core_image [OF core] imageI [OF d(3), of key_core] by auto
    from assms(3) have "distinct (map ak_key_hash (ac_keys s))" by (simp add: keys_wf_def)
    from unique_key_eq [OF this q(1) c(3)] arg_cong [OF q(2), of ak_key_hash] c(2,5) d(2,5) have "q = k" by simp
    with arg_cong [OF q(2), of ak_id] have "ak_id k' = ak_id k" by simp
    with hits d(6) assms(1,4,5) have "\<not> b'"
      by (auto simp: limiter_check_def Let_def split: if_splits)
    with d(9) show ?thesis by blast
  qed simp
qed (use assms(2) in simp_all)

lemma key_route_needs_two_slots:
  assumes "ae_rate_limit_rpm env = 1" "has_any_keys s" "keys_wf s" "is_admin_call c"
    and "rq_tick rq \<le> rq_tick_route rq" "rq_tick_route rq < rq_tick rq + WINDOW_SECONDS"
  shows "\<exists>e s'. serve env (rq, c) s = ((None, Refused e), s')"
proof -
  obtain y s1 where m: "auth_middleware env (call_method c) (call_path c) (rq_api_key rq) (rq_now rq) (rq_tick rq) s = (y, s1)"
    by fastforce
  obtain z s2 where g: "authenticate_request env (rq_api_key rq) (rq_now rq) (rq_tick_route rq) s1 = (z, s2)" by fastforce
  have "\<exists>e. y = Inl e \<or> z = Inl e"
  proof (cases y)
    case (Inr user)
    with middleware_passes [of env "call_method c" "call_path c" "rq_api_key rq" "rq_now rq" "rq_tick rq" s user s1] m
      admin_path_api [OF assms(4)]
    obtain u where "authenticate_request env (rq_api_key rq) (rq_now rq) (rq_tick rq) s = (Inr u, s1)" by auto
    from second_check_refused [OF assms(1-3,5,6) this g] show ?thesis by blast
  qed blast
  with m g assms(4) show ?thesis by (auto simp: serve_def get_current_user_def split: sum.splits)
qed

text \<open>The limit stored with a key has no effect.\<close>

lemma stored_limit_ignored:
  "fst (authenticate_request env key now tick (s\<lparr>ac_keys := map (\<lambda>k. k\<lparr>ak_rate_limit := n\<rparr>) (ac_keys s)\<rparr>)) =
   fst (authenticate_request env key now tick s)"
proof -
  have "fetchone (filter (\<lambda>k. ak_key_hash k = h \<and> live k) (map (\<lambda>k. k\<lparr>ak_rate_limit := n\<rparr>) ks)) =
      map_option (\<lambda>k. k\<lparr>ak_rate_limit := n\<rparr>) (fetchone (filter (\<lambda>k. ak_key_hash k = h \<and> live k) ks))" for h ks
    by (induction ks) (auto simp: live_def)
  moreover have "has_any_keys (s\<lparr>ac_keys := map (\<lambda>k. k\<lparr>ak_rate_limit := n\<rparr>) (ac_keys s)\<rparr>) = has_any_keys s"
    by (simp add: has_any_keys_iff live_def)
  ultimately show ?thesis
    by (simp add: authenticate_request_def validate_key_def key_meta_of_def split: option.split prod.split bool.split)
qed

text \<open>The roles form a chain of permissions, and the prefixes are plain text: the permission on \<^verbatim>\<open>/api/memory\<close> covers every
  path that starts like it.\<close>

lemma viewer_is_operator: "is_allowed ''viewer'' meth path \<Longrightarrow> is_allowed ''operator'' meth path"
  by (simp add: is_allowed_def ROLE_PERMISSIONS_def)

lemma starts_with_appendD: "starts_with (p @ q) path \<Longrightarrow> starts_with p path"
  by (induction p path rule: starts_with.induct) auto

lemma operator_is_admin:
  assumes "is_allowed ''operator'' meth path"
  shows "is_allowed ''admin'' meth path"
proof -
  have "take 5 p = ''/api/''" if "(m, p) \<in> set (case map_of ROLE_PERMISSIONS ''operator'' of None \<Rightarrow> [] | Some ps \<Rightarrow> ps)" for m p
    using that by (auto simp: ROLE_PERMISSIONS_def)
  with assms obtain p where "take 5 p = ''/api/''" "starts_with p path"
    unfolding is_allowed_def by blast
  with starts_with_appendD [of "take 5 p" "drop 5 p" path] have "starts_with ''/api/'' path"
    unfolding append_take_drop_id by metis
  then show ?thesis by (rule admin_allowed_everywhere)
qed

lemma unknown_role_refused: "role \<notin> {''viewer'', ''operator'', ''admin''} \<Longrightarrow> \<not> is_allowed role meth path"
  by (simp add: is_allowed_def ROLE_PERMISSIONS_def)

lemma permission_covers_prefixed_paths: "is_allowed ''operator'' ''DELETE'' (''/api/memory'' @ rest)"
  by (simp add: is_allowed_def ROLE_PERMISSIONS_def method_upper_def)

end
