(* ===== verification/Audit_Log.thy ===== *)
theory Audit_Log
  imports Job_Queue Std_Text
begin

text \<open>
  \<^verbatim>\<open>backend/core/audit.py\<close>: the audit log in the table \<^verbatim>\<open>job_audit_log\<close> and the alerts raised on it. A row is a row of the
  job queue's model of that table with its source address. Timestamps are integers in microseconds. What is sent, the
  webhook and the Slack message, is the list of deliveries; their transport is outside. \<^verbatim>\<open>json.dumps\<close>, \<^verbatim>\<open>json.loads\<close> and
  \<^verbatim>\<open>str\<close> are arguments. The database is taken to answer.
\<close>

section \<open>State\<close>

record log_entry = audit_row +
  en_source_ip :: "string option"

record audit_env =
  au_dumps :: "json \<Rightarrow> string"
  au_loads :: "string \<Rightarrow> json result"
  au_repr :: "json \<Rightarrow> string"
  au_webhook_url :: string
  au_slack_channel :: string
  au_slack_bot :: bool

section \<open>The log\<close>

text \<open>A detail that is \<^verbatim>\<open>None\<close> stays so; dicts and lists are dumped, anything else becomes text.\<close>

definition detail_text :: "audit_env \<Rightarrow> json \<Rightarrow> string option" where
  "detail_text env detail =
     (case detail of
        JObj kvs \<Rightarrow> Some (au_dumps env detail)
      | JList vs \<Rightarrow> Some (au_dumps env detail)
      | JNull \<Rightarrow> None
      | v \<Rightarrow> Some (py_str (au_repr env) v))"

definition log_event ::
  "audit_env \<Rightarrow> string \<Rightarrow> string \<Rightarrow> json \<Rightarrow> string option \<Rightarrow> ident option \<Rightarrow> ident option \<Rightarrow> ident \<Rightarrow> timestamp \<Rightarrow>
     log_entry list \<Rightarrow> log_entry list result" where
  "log_event env actor action detail source_ip job_id node_id entry_id now t =
     (if entry_id \<in> ar_id ` set t then Inl (IntegrityError ''UNIQUE job_audit_log.id'')
      else Inr (t @
        [\<lparr>ar_id = entry_id, ar_job_id = Some (case job_id of None \<Rightarrow> [] | Some j \<Rightarrow> j), ar_node_id = node_id,
          ar_action = action, ar_detail = detail_text env detail, ar_actor = Some actor, ar_timestamp = now,
          en_source_ip = source_ip\<rparr>]))"

text \<open>A filter that is missing or empty does not filter.\<close>

definition given :: "string option \<Rightarrow> (string \<Rightarrow> bool) \<Rightarrow> bool" where
  "given v P \<longleftrightarrow> (case v of None \<Rightarrow> True | Some s \<Rightarrow> s = [] \<or> P s)"

definition query ::
  "string option \<Rightarrow> string option \<Rightarrow> timestamp option \<Rightarrow> ident option \<Rightarrow> int \<Rightarrow> log_entry list \<Rightarrow> log_entry list" where
  "query action actor since job_id limit t =
     sql_limit limit 0 (order_by_desc ar_timestamp
       (filter (\<lambda>e. given action (\<lambda>a. ar_action e = a) \<and> given actor (\<lambda>a. ar_actor e = Some a) \<and>
                    (case since of None \<Rightarrow> True | Some s \<Rightarrow> s \<le> ar_timestamp e) \<and>
                    given job_id (\<lambda>j. ar_job_id e = Some j)) t))"

definition MINUTE :: int where
  "MINUTE = 60000000"

definition count_recent :: "string \<Rightarrow> int \<Rightarrow> timestamp \<Rightarrow> log_entry list \<Rightarrow> nat" where
  "count_recent action minutes now t =
     length (filter (\<lambda>e. ar_action e = action \<and> now - minutes * MINUTE \<le> ar_timestamp e) t)"

section \<open>Alerts\<close>

definition IMMEDIATE_ALERTS :: "string list" where
  "IMMEDIATE_ALERTS = [''path_traversal'', ''secret_detected'']"

definition count_consecutive_job_failures :: "ident \<Rightarrow> log_entry list \<Rightarrow> nat" where
  "count_consecutive_job_failures j t =
     length (takeWhile (\<lambda>e. ar_action e = ''job_failure'') (query None None None (Some j) 10 t))"

text \<open>The detail of a failed job, as an object or as text of one; anything else has no \<^verbatim>\<open>get\<close>, which only ends the check.\<close>

definition parsed_detail :: "audit_env \<Rightarrow> json \<Rightarrow> (string \<times> json) list option" where
  "parsed_detail env detail =
     (case detail of
        JStr s \<Rightarrow> (case au_loads env s of
            Inl e \<Rightarrow> Some [(''raw'', JStr s)] | Inr (JObj kvs) \<Rightarrow> Some kvs | Inr v \<Rightarrow> None)
      | JObj kvs \<Rightarrow> Some kvs
      | v \<Rightarrow> Some [])"

text \<open>The value compared with the text column \<^verbatim>\<open>job_id\<close>; a real number is taken as no identifier.\<close>

fun job_key :: "json \<Rightarrow> ident option" where
  "job_key (JStr s) = (if s = [] then None else Some s)"
| "job_key (JInt i) = (if i = 0 then None else Some (show_int i))"
| "job_key (JBool b) = (if b then Some ''1'' else None)"
| "job_key v = None"

definition alert_for :: "audit_env \<Rightarrow> string \<Rightarrow> json \<Rightarrow> timestamp \<Rightarrow> log_entry list \<Rightarrow> (string \<times> json) option" where
  "alert_for env action detail now t =
     (if action \<in> set IMMEDIATE_ALERTS then Some (action, detail)
      else if action = ''auth_failure'' then
        (let count = count_recent ''auth_failure'' 5 now t
         in if 3 \<le> count
            then Some (''auth_failure_burst'',
              JObj [(''count'', JInt (int count)), (''window_minutes'', JInt 5), (''latest'', detail)])
            else None)
      else if action = ''job_failure'' then
        (case parsed_detail env detail of
           None \<Rightarrow> None
         | Some kvs \<Rightarrow>
             (case job_key (get_or kvs ''job_id'' JNull) of
                None \<Rightarrow> None
              | Some j \<Rightarrow>
                  (let count = count_consecutive_job_failures j t
                   in if 3 \<le> count
                      then Some (''circuit_breaker'',
                        JObj [(''job_id'', get_or kvs ''job_id'' JNull), (''consecutive_failures'', JInt (int count))])
                      else None)))
      else None)"

datatype delivery = Webhook "(string \<times> json) list" | Slack string string

definition webhook_payload :: "audit_env \<Rightarrow> string \<Rightarrow> json \<Rightarrow> string \<Rightarrow> (string \<times> json) list" where
  "webhook_payload env alert_type detail now_iso =
     [(''alert_type'', JStr alert_type),
      (''detail'', case detail of
         JObj kvs \<Rightarrow> detail | JList vs \<Rightarrow> detail | JStr s \<Rightarrow> detail | v \<Rightarrow> JStr (py_str (au_repr env) v)),
      (''timestamp'', JStr now_iso), (''source'', JStr ''localmind'')]"

definition fence :: string where
  "fence = [CHR 0x60, CHR 0x60, CHR 0x60]"

definition slack_text :: "audit_env \<Rightarrow> string \<Rightarrow> json \<Rightarrow> string" where
  "slack_text env alert_type detail =
     '':rotating_light: *Security Alert: '' @ alert_type @ ''*'' @ newline @ fence @
     (case detail of JObj kvs \<Rightarrow> au_dumps env detail | JList vs \<Rightarrow> au_dumps env detail | v \<Rightarrow> py_str (au_repr env) v) @
     fence"

definition send_webhook_alert :: "audit_env \<Rightarrow> string \<Rightarrow> json \<Rightarrow> string \<Rightarrow> delivery list" where
  "send_webhook_alert env alert_type detail now_iso =
     (if au_webhook_url env = [] then [] else [Webhook (webhook_payload env alert_type detail now_iso)])"

definition send_slack_alert :: "audit_env \<Rightarrow> string \<Rightarrow> json \<Rightarrow> delivery list" where
  "send_slack_alert env alert_type detail =
     (if au_slack_channel env = [] \<or> \<not> au_slack_bot env then []
      else [Slack (au_slack_channel env) (slack_text env alert_type detail)])"

definition check_and_alert ::
  "audit_env \<Rightarrow> string \<Rightarrow> json \<Rightarrow> timestamp \<Rightarrow> string \<Rightarrow> log_entry list \<Rightarrow> delivery list" where
  "check_and_alert env action detail now now_iso t =
     (case alert_for env action detail now t of
        None \<Rightarrow> []
      | Some (alert_type, alert_detail) \<Rightarrow>
          if alert_type = [] then []
          else send_webhook_alert env alert_type alert_detail now_iso @ send_slack_alert env alert_type alert_detail)"

text \<open>The clock is read once for the row and once for the check.\<close>

definition audit_event ::
  "audit_env \<Rightarrow> string \<Rightarrow> string \<Rightarrow> json \<Rightarrow> string option \<Rightarrow> ident option \<Rightarrow> ident option \<Rightarrow> ident \<Rightarrow> timestamp \<Rightarrow>
     timestamp \<Rightarrow> string \<Rightarrow> log_entry list \<Rightarrow> (ident \<times> delivery list \<times> log_entry list) result" where
  "audit_event env actor action detail source_ip job_id node_id entry_id now now' now_iso t =
     (case log_event env actor action detail source_ip job_id node_id entry_id now t of
        Inl e \<Rightarrow> Inl e
      | Inr t' \<Rightarrow> Inr (entry_id, check_and_alert env action detail now' now_iso t', t'))"


section \<open>What raises an alert\<close>

lemma order_by_desc_rev:
  fixes t :: "'r list"
  assumes "sorted_wrt (\<lambda>a b. k a < k b) t"
  shows "order_by_desc k t = rev t"
  unfolding order_by_desc_def
proof (rule properties_for_sort_key)
  have d: "distinct (map k t)" using assms
    by (induction t) auto
  show "filter (\<lambda>x. - k r = - k x) (rev t) = filter (\<lambda>x. - k r = - k x) t" if "r \<in> set (rev t)" for r
  proof -
    have "filter (\<lambda>x. - k r = - k x) u = (if r \<in> set u then [r] else [])" if "distinct (map k u)" "set u \<subseteq> set t" for u
      using that
    proof (induction u)
      case (Cons x u)
      show ?case
      proof (cases "k x = k r")
        case True
        with Cons.prems(2) d \<open>r \<in> set (rev t)\<close> have "x = r" using unique_key_eq [of k t x r] by simp
        with Cons show ?thesis by (auto simp: filter_empty_conv)
      next
        case False
        with Cons show ?thesis by auto
      qed
    qed simp
    with d show ?thesis by (simp add: rev_map [symmetric])
  qed
  show "sorted (map (\<lambda>r. - k r) (rev t))" using assms
    by (induction t) (auto simp: sorted_append)
qed simp

text \<open>The newest rows of a job.\<close>

definition newest :: "ident \<Rightarrow> log_entry list \<Rightarrow> log_entry list" where
  "newest j t = rev (filter (\<lambda>e. ar_job_id e = Some j) t)"

lemma consecutive_failures_newest:
  assumes "sorted_wrt (\<lambda>a b. ar_timestamp a < ar_timestamp b) t" "j \<noteq> []"
  shows "count_consecutive_job_failures j t = length (takeWhile (\<lambda>e. ar_action e = ''job_failure'') (take 10 (newest j t)))"
  using assms
  by (simp add: count_consecutive_job_failures_def query_def given_def sql_limit_def newest_def order_by_desc_rev
      sorted_wrt_filter)

lemma takeWhile_two:
  "2 \<le> length (takeWhile P (take 9 xs)) \<longleftrightarrow> (\<exists>y z zs. xs = y # z # zs \<and> P y \<and> P z)"
proof (cases xs)
  case (Cons y ys)
  then show ?thesis by (cases ys) auto
qed simp

definition alarming :: "string \<Rightarrow> ident \<Rightarrow> timestamp \<Rightarrow> log_entry list \<Rightarrow> bool" where
  "alarming action j now t \<longleftrightarrow>
     action = ''path_traversal'' \<or> action = ''secret_detected'' \<or>
     action = ''auth_failure'' \<and>
       2 \<le> length (filter (\<lambda>e. ar_action e = ''auth_failure'' \<and> now - 5 * MINUTE \<le> ar_timestamp e) t) \<or>
     action = ''job_failure'' \<and>
       (\<exists>y z zs. newest j t = y # z # zs \<and> ar_action y = ''job_failure'' \<and> ar_action z = ''job_failure'')"

lemma alert_type_given: "alert_for env action detail now t = Some (x, d) \<Longrightarrow> x \<noteq> []"
  by (auto simp: alert_for_def IMMEDIATE_ALERTS_def Let_def split: if_splits option.splits)

lemma check_and_alert_nonempty:
  "check_and_alert env action detail now stamp t \<noteq> [] \<longleftrightarrow>
    alert_for env action detail now t \<noteq> None \<and> (au_webhook_url env \<noteq> [] \<or> au_slack_channel env \<noteq> [] \<and> au_slack_bot env)"
  using alert_type_given [of env action detail now t]
  by (auto simp: check_and_alert_def send_webhook_alert_def send_slack_alert_def split: option.splits)


definition example_audit_env :: audit_env where
  "example_audit_env =
     \<lparr>au_dumps = (\<lambda>v. ''{}''), au_loads = (\<lambda>s. Inl (ValueError s)), au_repr = (\<lambda>v. []), au_webhook_url = ''w'',
      au_slack_channel = [], au_slack_bot = False\<rparr>"


section \<open>Observations\<close>

text \<open>Nothing of this module takes a row out of the log; deleting a job in the queue takes out all rows of the job.\<close>

lemma log_is_extended: "log_event env actor action detail ip job_id node_id i now t = Inr t' \<Longrightarrow> \<exists>e. t' = t @ [e]"
  by (auto simp: log_event_def split: if_splits)

lemma deleting_a_job_erases_its_audit:
  assumes "delete_job j d = Inr (True, d')"
  shows "\<forall>a \<in> set (db_audit d'). ar_job_id a \<noteq> Some j"
  using delete_job_cases [OF assms] by simp

text \<open>Any other event of the job between two failures ends the count of the circuit breaker.\<close>

lemma other_event_resets_the_breaker:
  assumes "sorted_wrt (\<lambda>a b. ar_timestamp a < ar_timestamp b) t" "j \<noteq> []" "newest j t = e # es" "ar_action e \<noteq> ''job_failure''"
  shows "count_consecutive_job_failures j t = 0"
  using assms by (simp add: consecutive_failures_newest)

text \<open>An event without a job is stored with the empty job id, and a query for the empty job id returns every row.\<close>

lemma system_event_has_empty_job:
  "log_event env actor action detail ip None node_id i now t = Inr t' \<Longrightarrow> ar_job_id (last t') = Some []"
  by (auto simp: log_event_def split: if_splits)

lemma empty_job_filter_ignored: "query action actor since (Some []) limit t = query action actor since None limit t"
  by (simp add: query_def given_def)

end
