(* ===== verification/Recycle_Bin.thy ===== *)
theory Recycle_Bin
  imports Paths
begin

text \<open>
  \<^verbatim>\<open>backend/security/recycle_bin.py\<close>: the recycle bin, a table of entries and a directory with one slot per entry. The disk is
  the list of its regular files, path and bytes; which other paths are directories, \<^verbatim>\<open>Path.resolve\<close>, SHA-256 and the
  text of the metadata file are arguments. Moves and writes on the disk are taken to succeed, the database to answer.
\<close>

section \<open>The disk\<close>

type_synonym disk = "(string \<times> string) list"

definition fs_get :: "disk \<Rightarrow> string \<Rightarrow> string option" where
  "fs_get fs p = map_of fs p"

definition fs_put :: "string \<Rightarrow> string \<Rightarrow> disk \<Rightarrow> disk" where
  "fs_put p content fs = dict_put p content fs"

definition fs_del :: "string \<Rightarrow> disk \<Rightarrow> disk" where
  "fs_del p fs = dict_del p fs"

definition below :: "string \<Rightarrow> string \<Rightarrow> bool" where
  "below dir p \<longleftrightarrow> starts_with (dir @ ''/'') p"

definition rmtree :: "string \<Rightarrow> disk \<Rightarrow> disk" where
  "rmtree dir fs = filter (\<lambda>(p, c). \<not> below dir p) fs"

definition fs_move :: "string \<Rightarrow> string \<Rightarrow> disk \<Rightarrow> disk" where
  "fs_move src dest fs = (case fs_get fs src of None \<Rightarrow> fs | Some c \<Rightarrow> fs_put dest c (fs_del src fs))"

lemma fs_get_put: "fs_get (fs_put p c fs) q = (if q = p then Some c else fs_get fs q)"
  by (simp add: fs_get_def fs_put_def map_of_dict_put)

lemma fs_get_del: "fs_get (fs_del p fs) q = (if q = p then None else fs_get fs q)"
  unfolding fs_get_def fs_del_def dict_del_def by (induction fs) auto

lemma fs_get_rmtree: "fs_get (rmtree dir fs) q = (if below dir q then None else fs_get fs q)"
  unfolding fs_get_def rmtree_def by (induction fs) auto

lemma fs_get_move:
  "fs_get fs src = Some c \<Longrightarrow>
     fs_get (fs_move src dest fs) q = (if q = dest then Some c else if q = src then None else fs_get fs q)"
  by (simp add: fs_move_def fs_get_put fs_get_del)

section \<open>State\<close>

record recycle_entry =
  rb_id :: ident
  rb_original_path :: string
  rb_recycle_path :: string
  rb_deleted_by :: string
  rb_deleted_at :: timestamp
  rb_expires_at :: timestamp
  rb_job_id :: "ident option"
  rb_node_id :: "ident option"
  rb_size_bytes :: int
  rb_sha256 :: string
  rb_reason :: string
  rb_restored_at :: "timestamp option"
  rb_restored_by :: "string option"

record bin =
  bn_files :: disk
  bn_rows :: "recycle_entry list"

record bin_env =
  be_workspace_root :: string
  be_resolve :: "string \<Rightarrow> string option"
  be_is_dir :: "string \<Rightarrow> bool"
  be_sha256 :: "string \<Rightarrow> string"
  be_meta_text :: "recycle_entry \<Rightarrow> string"
  be_retention :: int
  be_max_bytes :: int

definition recycle_dir :: "bin_env \<Rightarrow> string" where
  "recycle_dir env = join_path (be_workspace_root env) ''.recycle''"

definition slot :: "bin_env \<Rightarrow> ident \<Rightarrow> string" where
  "slot env entry_id = join_path (recycle_dir env) entry_id"

definition META_NAME :: string where
  "META_NAME = ''.meta.json''"

section \<open>Operations\<close>

definition purge_entry_files :: "bin_env \<Rightarrow> ident \<Rightarrow> disk \<Rightarrow> disk" where
  "purge_entry_files env entry_id fs = rmtree (slot env entry_id) fs"

definition resolved_path :: "bin_env \<Rightarrow> string \<Rightarrow> string result" where
  "resolved_path env path =
     (if starts_with ''/'' path then
        (case (be_resolve env path, be_resolve env (be_workspace_root env)) of
           (Some p, Some base) \<Rightarrow> if jailed base p then Inr p else Inl (SecurityError ''outside workspace'')
         | r \<Rightarrow> Inl (ExternalError ''resolve''))
      else safe_resolve (be_resolve env) (be_workspace_root env) path)"

text \<open>The entry in the table, or the exception; the second component is the state also where it raises.\<close>

definition safe_delete ::
  "bin_env \<Rightarrow> string \<Rightarrow> string \<Rightarrow> ident option \<Rightarrow> ident option \<Rightarrow> string \<Rightarrow> ident \<Rightarrow> timestamp \<Rightarrow> bin \<Rightarrow>
     recycle_entry result \<times> bin" where
  "safe_delete env path deleted_by job_id node_id reason entry_id now s =
     (case resolved_path env path of
        Inl e \<Rightarrow> (Inl e, s)
      | Inr resolved \<Rightarrow>
          (case fs_get (bn_files s) resolved of
             None \<Rightarrow> (Inl (ExternalError (if be_is_dir env resolved then ''IsADirectoryError'' else ''FileNotFoundError'')), s)
           | Some content \<Rightarrow>
               (let recycle_path = join_path (slot env entry_id) (basename resolved);
                    entry = \<lparr>rb_id = entry_id, rb_original_path = resolved, rb_recycle_path = recycle_path,
                             rb_deleted_by = deleted_by, rb_deleted_at = now, rb_expires_at = now + be_retention env,
                             rb_job_id = job_id, rb_node_id = node_id, rb_size_bytes = int (length content),
                             rb_sha256 = be_sha256 env content, rb_reason = reason, rb_restored_at = None,
                             rb_restored_by = None\<rparr>;
                    files = fs_put (join_path (slot env entry_id) META_NAME) (be_meta_text env entry)
                              (fs_move resolved recycle_path (bn_files s));
                    s1 = s\<lparr>bn_files := files\<rparr>
                in if entry_id \<in> rb_id ` set (bn_rows s) then (Inl (IntegrityError ''UNIQUE recycle_bin.id''), s1)
                   else (Inr entry, s1\<lparr>bn_rows := bn_rows s1 @ [entry]\<rparr>))))"

definition restore :: "bin_env \<Rightarrow> ident \<Rightarrow> string \<Rightarrow> string option \<Rightarrow> bool \<Rightarrow> timestamp \<Rightarrow> bin \<Rightarrow> string result \<times> bin" where
  "restore env entry_id restored_by target_path force now s =
     (case fetchone (filter (\<lambda>r. rb_id r = entry_id) (bn_rows s)) of
        None \<Rightarrow> (Inl (KeyError entry_id), s)
      | Some entry \<Rightarrow>
          if rb_restored_at entry \<noteq> None then (Inl (RuntimeError ''already restored''), s)
          else if fs_get (bn_files s) (rb_recycle_path entry) = None then (Inl (ExternalError ''FileNotFoundError''), s)
          else (case be_resolve env (case target_path of None \<Rightarrow> rb_original_path entry | Some t \<Rightarrow> t) of
            None \<Rightarrow> (Inl (ExternalError ''resolve''), s)
          | Some dest \<Rightarrow>
              if (fs_get (bn_files s) dest \<noteq> None \<or> be_is_dir env dest) \<and> \<not> force
              then (Inl (ExternalError ''FileExistsError''), s)
              else if be_is_dir env dest then (Inl (ExternalError ''IsADirectoryError''), s)
              else if dest = rb_recycle_path entry
              then (Inl (ExternalError ''FileNotFoundError''), s\<lparr>bn_files := fs_del dest (bn_files s)\<rparr>)
              else let files = (if fs_get (bn_files s) dest \<noteq> None then fs_del dest (bn_files s) else bn_files s)
                   in (Inr dest,
                       s\<lparr>bn_files := fs_move (rb_recycle_path entry) dest files,
                         bn_rows := sql_update (\<lambda>r. rb_id r = entry_id)
                           (\<lambda>r. r\<lparr>rb_restored_at := Some now, rb_restored_by := Some restored_by\<rparr>) (bn_rows s)\<rparr>)))"

definition entry_from_row :: "recycle_entry \<Rightarrow> recycle_entry" where
  "entry_from_row r = r\<lparr>rb_reason := (if rb_reason r = [] then ''deleted'' else rb_reason r)\<rparr>"

definition list_entries :: "ident option \<Rightarrow> string option \<Rightarrow> int \<Rightarrow> bin \<Rightarrow> recycle_entry list" where
  "list_entries job_id deleted_by limit s =
     map entry_from_row (sql_limit limit 0 (order_by_desc rb_deleted_at
       (filter (\<lambda>r. (case job_id of None \<Rightarrow> True | Some j \<Rightarrow> rb_job_id r = Some j) \<and>
                    (case deleted_by of None \<Rightarrow> True | Some d \<Rightarrow> rb_deleted_by r = d)) (bn_rows s))))"

definition purge_entries :: "bin_env \<Rightarrow> ident list \<Rightarrow> bin \<Rightarrow> bin" where
  "purge_entries env ids s =
     s\<lparr>bn_files := fold (purge_entry_files env) ids (bn_files s),
       bn_rows := sql_delete (\<lambda>r. rb_id r \<in> set ids) (bn_rows s)\<rparr>"

definition purge_expired :: "bin_env \<Rightarrow> timestamp \<Rightarrow> bin \<Rightarrow> nat \<times> bin" where
  "purge_expired env now s =
     (let ids = map rb_id (filter (\<lambda>r. rb_expires_at r < now \<and> rb_restored_at r = None) (bn_rows s))
      in if ids = [] then (0, s) else (length ids, purge_entries env ids s))"

fun oldest_over :: "int \<Rightarrow> int \<Rightarrow> recycle_entry list \<Rightarrow> ident list" where
  "oldest_over max_bytes bytes [] = []"
| "oldest_over max_bytes bytes (r # rs) =
     (if bytes \<le> max_bytes then [] else rb_id r # oldest_over max_bytes (bytes - rb_size_bytes r) rs)"

definition purge_by_size :: "bin_env \<Rightarrow> bin \<Rightarrow> nat \<times> bin" where
  "purge_by_size env s =
     (let rows = order_by rb_deleted_at (filter (\<lambda>r. rb_restored_at r = None) (bn_rows s));
          bytes = sum_list (map rb_size_bytes rows)
      in if bytes \<le> be_max_bytes env then (0, s)
         else let ids = oldest_over (be_max_bytes env) bytes rows in (length ids, purge_entries env ids s))"


section \<open>Slots\<close>

definition plain_name :: "string \<Rightarrow> bool" where
  "plain_name n \<longleftrightarrow> n \<noteq> [] \<and> CHR ''/'' \<notin> set n"

lemma recycle_dir_end: "recycle_dir env \<noteq> [] \<and> last (recycle_dir env) \<noteq> CHR ''/''"
  by (auto simp: recycle_dir_def join_path_def)

lemma slot_eq: "plain_name i \<Longrightarrow> slot env i = recycle_dir env @ CHR ''/'' # i"
  using recycle_dir_end [of env] by (simp add: slot_def join_path_def plain_name_def)

lemma in_slot_eq:
  assumes "plain_name i" "n \<noteq> []"
  shows "join_path (slot env i) n = slot env i @ CHR ''/'' # n"
proof -
  have "last i \<noteq> CHR ''/''" using assms(1) last_in_set unfolding plain_name_def by metis
  with assms slot_eq [OF assms(1)] show ?thesis by (simp add: join_path_def plain_name_def)
qed

lemma below_append [simp]: "below d (d @ CHR ''/'' # p)"
  by (simp add: below_def starts_with_iff)

lemma slot_below: "plain_name i \<Longrightarrow> below (recycle_dir env) (slot env i @ CHR ''/'' # n)"
  by (simp add: slot_eq below_def starts_with_iff)

lemma plain_split:
  "CHR ''/'' \<notin> set i \<Longrightarrow> CHR ''/'' \<notin> set j \<Longrightarrow> i @ CHR ''/'' # u = j @ CHR ''/'' # v \<Longrightarrow> i = j \<and> u = v"
proof (induction i arbitrary: j)
  case Nil
  then show ?case by (cases j) auto
next
  case (Cons c i)
  then show ?case by (cases j) auto
qed

lemma slots_apart:
  assumes "plain_name i" "plain_name j" "below (slot env i) (slot env j @ CHR ''/'' # n)"
  shows "i = j"
proof -
  from assms(3) obtain t where "slot env j @ CHR ''/'' # n = slot env i @ CHR ''/'' # t"
    by (auto simp: below_def starts_with_iff)
  then have "j @ CHR ''/'' # n = i @ CHR ''/'' # t" by (simp add: slot_eq assms(1,2))
  then show ?thesis using plain_split assms(1,2) by (auto simp: plain_name_def)
qed

lemma plain_basename: "CHR ''/'' \<notin> set (basename p)"
  unfolding basename_def by (auto dest: set_takeWhileD)

section \<open>Nothing in the bin is lost\<close>

text \<open>An entry that has not been restored has its file in its slot, with the recorded digest and size.\<close>

definition stored :: "bin_env \<Rightarrow> disk \<Rightarrow> recycle_entry \<Rightarrow> bool" where
  "stored env fs r \<longleftrightarrow>
     (\<exists>n c. rb_recycle_path r = slot env (rb_id r) @ CHR ''/'' # n \<and> n \<noteq> META_NAME \<and>
        fs_get fs (rb_recycle_path r) = Some c \<and> rb_sha256 r = be_sha256 env c \<and> rb_size_bytes r = int (length c))"

definition bin_ok :: "bin_env \<Rightarrow> bin \<Rightarrow> bool" where
  "bin_ok env s \<longleftrightarrow> distinct (map rb_id (bn_rows s)) \<and>
     (\<forall>r \<in> set (bn_rows s). plain_name (rb_id r) \<and> (rb_restored_at r = None \<longrightarrow> stored env (bn_files s) r))"

text \<open>A path that is deleted is outside the bin and not called like a metadata file; a restored file goes outside the bin.\<close>

definition outside :: "bin_env \<Rightarrow> string \<Rightarrow> bool" where
  "outside env p \<longleftrightarrow> \<not> below (recycle_dir env) p"

definition deletable :: "bin_env \<Rightarrow> string \<Rightarrow> bool" where
  "deletable env path \<longleftrightarrow>
     (\<forall>p. resolved_path env path = Inr p \<longrightarrow> outside env p \<and> basename p \<noteq> [] \<and> basename p \<noteq> META_NAME)"

definition goes_outside :: "bin_env \<Rightarrow> string option \<Rightarrow> bin \<Rightarrow> bool" where
  "goes_outside env target s \<longleftrightarrow>
     (\<forall>r \<in> set (bn_rows s). \<forall>p.
        be_resolve env (case target of None \<Rightarrow> rb_original_path r | Some t \<Rightarrow> t) = Some p \<longrightarrow> outside env p)"

lemma stored_unchanged:
  "stored env fs r \<Longrightarrow> fs_get fs' (rb_recycle_path r) = fs_get fs (rb_recycle_path r) \<Longrightarrow> stored env fs' r"
  by (simp add: stored_def)

lemma safe_delete_effect:
  assumes "safe_delete env path by job node reason i now s = (Inr e, s1)" "plain_name i" "deletable env path"
  obtains p c n where "resolved_path env path = Inr p" "fs_get (bn_files s) p = Some c" "outside env p"
    "e = \<lparr>rb_id = i, rb_original_path = p, rb_recycle_path = slot env i @ CHR ''/'' # n, rb_deleted_by = by,
          rb_deleted_at = now, rb_expires_at = now + be_retention env, rb_job_id = job, rb_node_id = node,
          rb_size_bytes = int (length c), rb_sha256 = be_sha256 env c, rb_reason = reason, rb_restored_at = None,
          rb_restored_by = None\<rparr>"
    "n \<noteq> META_NAME" "i \<notin> rb_id ` set (bn_rows s)" "bn_rows s1 = bn_rows s @ [e]"
    "\<And>q. fs_get (bn_files s1) q =
       (if q = slot env i @ CHR ''/'' # META_NAME then Some (be_meta_text env e)
        else if q = slot env i @ CHR ''/'' # n then Some c else if q = p then None else fs_get (bn_files s) q)"
proof -
  from assms(1) obtain p c where p: "resolved_path env path = Inr p" "fs_get (bn_files s) p = Some c"
    by (auto simp: safe_delete_def Let_def split: sum.splits option.splits if_splits)
  with assms(3) have n: "outside env p" "basename p \<noteq> []" "basename p \<noteq> META_NAME" by (simp_all add: deletable_def)
  have paths: "join_path (slot env i) (basename p) = slot env i @ CHR ''/'' # basename p"
    "join_path (slot env i) META_NAME = slot env i @ CHR ''/'' # META_NAME"
    using assms(2) n by (simp_all add: in_slot_eq META_NAME_def)
  from assms(1) p paths have
    "e = \<lparr>rb_id = i, rb_original_path = p, rb_recycle_path = slot env i @ CHR ''/'' # basename p, rb_deleted_by = by,
          rb_deleted_at = now, rb_expires_at = now + be_retention env, rb_job_id = job, rb_node_id = node,
          rb_size_bytes = int (length c), rb_sha256 = be_sha256 env c, rb_reason = reason, rb_restored_at = None,
          rb_restored_by = None\<rparr>" "i \<notin> rb_id ` set (bn_rows s)"
    "bn_files s1 = fs_put (slot env i @ CHR ''/'' # META_NAME) (be_meta_text env e)
       (fs_move p (slot env i @ CHR ''/'' # basename p) (bn_files s))" "bn_rows s1 = bn_rows s @ [e]"
    by (auto simp: safe_delete_def Let_def split: if_splits)
  with p n that show thesis by (simp add: fs_get_put fs_get_move)
qed


lemma safe_delete_ok:
  assumes "safe_delete env path by job node reason i now s = (x, s1)" "bin_ok env s" "plain_name i"
    and "i \<notin> rb_id ` set (bn_rows s)" "deletable env path"
  shows "bin_ok env s1"
proof (cases x)
  case (Inl e)
  with assms(1,4) have "s1 = s" by (auto simp: safe_delete_def Let_def split: sum.splits option.splits if_splits)
  with assms(2) show ?thesis by simp
next
  case (Inr e)
  from assms(1)[unfolded Inr] assms(3,5) obtain p c n where
    p: "outside env p" "e = \<lparr>rb_id = i, rb_original_path = p, rb_recycle_path = slot env i @ CHR ''/'' # n, rb_deleted_by = by,
          rb_deleted_at = now, rb_expires_at = now + be_retention env, rb_job_id = job, rb_node_id = node,
          rb_size_bytes = int (length c), rb_sha256 = be_sha256 env c, rb_reason = reason, rb_restored_at = None,
          rb_restored_by = None\<rparr>" "n \<noteq> META_NAME" "bn_rows s1 = bn_rows s @ [e]"
    and get: "\<And>q. fs_get (bn_files s1) q =
       (if q = slot env i @ CHR ''/'' # META_NAME then Some (be_meta_text env e)
        else if q = slot env i @ CHR ''/'' # n then Some c else if q = p then None else fs_get (bn_files s) q)"
    by (rule safe_delete_effect) metis
  have "stored env (bn_files s1) r" if r: "r \<in> set (bn_rows s)" "rb_restored_at r = None" for r
  proof -
    from assms(2) r have ok: "stored env (bn_files s) r" "plain_name (rb_id r)" by (simp_all add: bin_ok_def)
    from ok(1) obtain m where m: "rb_recycle_path r = slot env (rb_id r) @ CHR ''/'' # m" by (auto simp: stored_def)
    have "i \<noteq> rb_id r" using assms(4) r(1) by auto
    then have "slot env i @ CHR ''/'' # k \<noteq> rb_recycle_path r" for k
      using slots_apart [OF assms(3) ok(2), of env m] m below_append [of "slot env i" k] by metis
    moreover have "p \<noteq> rb_recycle_path r"
      using slot_below [OF ok(2), of env m] p(1) m by (auto simp: outside_def)
    ultimately have "fs_get (bn_files s1) (rb_recycle_path r) = fs_get (bn_files s) (rb_recycle_path r)"
      unfolding get by metis
    with ok(1) show ?thesis by (rule stored_unchanged)
  qed
  moreover have "stored env (bn_files s1) e" using p(2,3) get by (auto simp: stored_def)
  ultimately show ?thesis using assms(2-4) p(2,4) by (auto simp: bin_ok_def)
qed

lemma restore_effect:
  assumes "restore env i by target force now s = (x, s1)" "bin_ok env s"
    and "goes_outside env target s"
  obtains (refused) e where "x = Inl e" "s1 = s"
  | (restored) r p c where "r \<in> set (bn_rows s)" "rb_id r = i" "rb_restored_at r = None" "x = Inr p" "outside env p"
      "be_resolve env (case target of None \<Rightarrow> rb_original_path r | Some t \<Rightarrow> t) = Some p"
      "fs_get (bn_files s) (rb_recycle_path r) = Some c"
      "bn_rows s1 = sql_update (\<lambda>r. rb_id r = i) (\<lambda>r. r\<lparr>rb_restored_at := Some now, rb_restored_by := Some by\<rparr>) (bn_rows s)"
      "\<And>q. fs_get (bn_files s1) q = (if q = p then Some c else if q = rb_recycle_path r then None else fs_get (bn_files s) q)"
proof (cases x)
  case (Inr p)
  from assms(1) Inr obtain r where r: "fetchone (filter (\<lambda>r. rb_id r = i) (bn_rows s)) = Some r" "rb_restored_at r = None"
    "be_resolve env (case target of None \<Rightarrow> rb_original_path r | Some t \<Rightarrow> t) = Some p"
    "fs_get (bn_files s) (rb_recycle_path r) \<noteq> None" "p \<noteq> rb_recycle_path r"
    by (auto simp: restore_def Let_def split: option.splits if_splits)
  then obtain c where c: "fs_get (bn_files s) (rb_recycle_path r) = Some c" by blast
  have s1: "bn_rows s1 = sql_update (\<lambda>r. rb_id r = i) (\<lambda>r. r\<lparr>rb_restored_at := Some now, rb_restored_by := Some by\<rparr>) (bn_rows s)"
    "bn_files s1 = fs_move (rb_recycle_path r) p (if fs_get (bn_files s) p \<noteq> None then fs_del p (bn_files s) else bn_files s)"
    using assms(1) Inr r by (auto simp: restore_def Let_def split: if_splits)
  have "fs_get (if fs_get (bn_files s) p \<noteq> None then fs_del p (bn_files s) else bn_files s) (rb_recycle_path r) = Some c"
    using c r(5) by (simp add: fs_get_del)
  then have "fs_get (bn_files s1) q = (if q = p then Some c else if q = rb_recycle_path r then None else fs_get (bn_files s) q)" for q
    unfolding s1(2) by (simp add: fs_get_move fs_get_del)
  with fetchone_filterD [OF r(1)] r(2,3) Inr c s1(1) assms(3) show thesis
    by (intro restored [of r p c]) (auto simp: goes_outside_def)
next
  case (Inl e)
  show thesis
  proof (cases "s1 = s")
    case True
    with Inl refused show thesis by blast
  next
    case False
    with assms(1) Inl obtain r where r: "fetchone (filter (\<lambda>r. rb_id r = i) (bn_rows s)) = Some r" "rb_restored_at r = None"
      "be_resolve env (case target of None \<Rightarrow> rb_original_path r | Some t \<Rightarrow> t) = Some (rb_recycle_path r)"
      by (auto simp: restore_def Let_def split: option.splits if_splits)
    from fetchone_filterD [OF r(1)] assms(2) r(2) have "plain_name (rb_id r)" "stored env (bn_files s) r" "r \<in> set (bn_rows s)"
      by (auto simp: bin_ok_def)
    with slot_below have "below (recycle_dir env) (rb_recycle_path r)" by (auto simp: stored_def)
    moreover have "outside env (rb_recycle_path r)" using assms(3) \<open>r \<in> set (bn_rows s)\<close> r(3) by (simp add: goes_outside_def)
    ultimately show thesis by (simp add: outside_def)
  qed
qed


lemma restore_ok:
  assumes "restore env i by target force now s = (x, s1)" "bin_ok env s"
    and "goes_outside env target s"
  shows "bin_ok env s1"
  using assms
proof (cases rule: restore_effect)
  case refused
  with assms(2) show ?thesis by simp
next
  case (restored r p c)
  have "stored env (bn_files s1) q" if q: "q \<in> set (bn_rows s)" "rb_restored_at q = None" "rb_id q \<noteq> i" for q
  proof -
    from assms(2) q have ok: "stored env (bn_files s) q" "plain_name (rb_id q)" by (simp_all add: bin_ok_def)
    from assms(2) restored(1,3) have ok_r: "stored env (bn_files s) r" "plain_name (rb_id r)" by (simp_all add: bin_ok_def)
    from ok(1) ok_r(1) obtain m n where m: "rb_recycle_path q = slot env (rb_id q) @ CHR ''/'' # m"
      "rb_recycle_path r = slot env (rb_id r) @ CHR ''/'' # n" by (auto simp: stored_def)
    have "rb_recycle_path q \<noteq> p" using slot_below [OF ok(2), of env m] restored(5) m by (auto simp: outside_def)
    moreover have "rb_recycle_path q \<noteq> rb_recycle_path r"
      using slots_apart [OF ok_r(2) ok(2), of env m] below_append [of "slot env (rb_id r)" n] m restored(2) q(3) by metis
    ultimately have "fs_get (bn_files s1) (rb_recycle_path q) = fs_get (bn_files s) (rb_recycle_path q)"
      unfolding restored(9) by simp
    with ok(1) show ?thesis by (rule stored_unchanged)
  qed
  note other = this
  have "plain_name (rb_id q') \<and> (rb_restored_at q' = None \<longrightarrow> stored env (bn_files s1) q')" if "q' \<in> set (bn_rows s1)" for q'
  proof -
    from that restored(8) obtain q where "q \<in> set (bn_rows s)"
      "q' = (if rb_id q = i then q\<lparr>rb_restored_at := Some now, rb_restored_by := Some by\<rparr> else q)"
      by (auto simp: in_sql_update)
    moreover from this(1) assms(2) have "plain_name (rb_id q)" by (simp add: bin_ok_def)
    ultimately show ?thesis using other by (cases "rb_id q = i") simp_all
  qed
  with assms(2) show ?thesis by (simp add: bin_ok_def restored(8) map_sql_update)
qed

lemma fs_get_purged:
  "fs_get (fold (purge_entry_files env) ids fs) q = (if \<exists>i \<in> set ids. below (slot env i) q then None else fs_get fs q)"
  by (induction ids arbitrary: fs) (auto simp: purge_entry_files_def fs_get_rmtree)

lemma purge_entries_ok:
  assumes "bin_ok env s" "set ids \<subseteq> rb_id ` set (bn_rows s)"
  shows "bin_ok env (purge_entries env ids s)"
proof -
  have "stored env (bn_files (purge_entries env ids s)) r"
    if r: "r \<in> set (bn_rows s)" "rb_restored_at r = None" "rb_id r \<notin> set ids" for r
  proof -
    from assms(1) r have ok: "stored env (bn_files s) r" "plain_name (rb_id r)" by (simp_all add: bin_ok_def)
    from ok(1) obtain n where n: "rb_recycle_path r = slot env (rb_id r) @ CHR ''/'' # n" by (auto simp: stored_def)
    have "\<not> below (slot env i) (rb_recycle_path r)" if "i \<in> set ids" for i
    proof -
      from that assms have "plain_name i" by (auto simp: bin_ok_def)
      with slots_apart [OF _ ok(2), of i env n] n that r(3) show ?thesis by auto
    qed
    then have "fs_get (bn_files (purge_entries env ids s)) (rb_recycle_path r) = fs_get (bn_files s) (rb_recycle_path r)"
      by (simp add: purge_entries_def fs_get_purged)
    with ok(1) show ?thesis by (rule stored_unchanged)
  qed
  with assms(1) show ?thesis by (auto simp: bin_ok_def purge_entries_def sql_delete_def distinct_map_filter)
qed

lemma oldest_over_ids: "set (oldest_over m b rs) \<subseteq> rb_id ` set rs"
  by (induction rs arbitrary: b) auto

lemma purge_expired_ok: "bin_ok env s \<Longrightarrow> bin_ok env (snd (purge_expired env now s))"
  by (auto simp: purge_expired_def Let_def intro!: purge_entries_ok)

lemma purge_by_size_ok: "bin_ok env s \<Longrightarrow> bin_ok env (snd (purge_by_size env s))"
  using oldest_over_ids by (fastforce simp: purge_by_size_def Let_def intro!: purge_entries_ok)

text \<open>The life of a bin: deletions under fresh identifiers, restorations, and the two purges, in any order.\<close>

inductive bin_step :: "bin_env \<Rightarrow> bin \<Rightarrow> bin \<Rightarrow> bool" for env where
  deleted: "safe_delete env path by job node reason i now s = (x, s1) \<Longrightarrow> plain_name i \<Longrightarrow>
    i \<notin> rb_id ` set (bn_rows s) \<Longrightarrow> deletable env path \<Longrightarrow> bin_step env s s1"
| restored: "restore env i by target force now s = (x, s1) \<Longrightarrow>
    goes_outside env target s \<Longrightarrow> bin_step env s s1"
| expired: "purge_expired env now s = (n, s1) \<Longrightarrow> bin_step env s s1"
| oversized: "purge_by_size env s = (n, s1) \<Longrightarrow> bin_step env s s1"

definition new_bin :: "disk \<Rightarrow> bin" where
  "new_bin fs = \<lparr>bn_files = fs, bn_rows = []\<rparr>"

lemma bin_step_ok: "bin_step env s s1 \<Longrightarrow> bin_ok env s \<Longrightarrow> bin_ok env s1"
proof (induction rule: bin_step.induct)
  case (deleted path who job node reason i now s x s1)
  then show ?case using safe_delete_ok by blast
next
  case (restored i who target force now s x s1)
  then show ?case using restore_ok by blast
next
  case (expired now s n s1)
  then show ?case using purge_expired_ok [of env s now] by simp
next
  case (oversized s n s1)
  then show ?case using purge_by_size_ok [of env s] by simp
qed

lemma bin_run_ok: "(bin_step env)\<^sup>*\<^sup>* (new_bin fs) s \<Longrightarrow> bin_ok env s"
proof (induction rule: rtranclp_induct)
  case base
  show ?case by (simp add: bin_ok_def new_bin_def)
next
  case (step s s1)
  then show ?case using bin_step_ok by blast
qed



definition example_bin_env :: bin_env where
  "example_bin_env =
     \<lparr>be_workspace_root = ''/w'', be_resolve = Some, be_is_dir = (\<lambda>p. False), be_sha256 = (\<lambda>c. c),
      be_meta_text = (\<lambda>e. ''{}''), be_retention = 10, be_max_bytes = 100\<rparr>"

definition example_bin :: bin where
  "example_bin = snd (safe_delete example_bin_env ''/w/a'' ''u'' None None ''x'' ''i'' 5 (new_bin [(''/w/a'', ''text'')]))"

definition example_entry :: recycle_entry where
  "example_entry =
     \<lparr>rb_id = ''i'', rb_original_path = ''/w/a'', rb_recycle_path = ''/w/.recycle/i/a'', rb_deleted_by = ''u'',
      rb_deleted_at = 5, rb_expires_at = 15, rb_job_id = None, rb_node_id = None, rb_size_bytes = 4,
      rb_sha256 = ''text'', rb_reason = ''x'', rb_restored_at = None, rb_restored_by = None\<rparr>"

lemma example_deleted:
  "safe_delete example_bin_env ''/w/a'' ''u'' None None ''x'' ''i'' 5 (new_bin [(''/w/a'', ''text'')]) =
     (Inr example_entry,
      \<lparr>bn_files = [(''/w/.recycle/i/a'', ''text''), (''/w/.recycle/i/.meta.json'', ''{}'')], bn_rows = [example_entry]\<rparr>)"
  by code_simp

lemma example_bin_eq:
  "example_bin = \<lparr>bn_files = [(''/w/.recycle/i/a'', ''text''), (''/w/.recycle/i/.meta.json'', ''{}'')], bn_rows = [example_entry]\<rparr>"
  by (simp add: example_bin_def example_deleted)

lemma example_deletable: "deletable example_bin_env ''/w/a''"
proof -
  have "resolved_path example_bin_env ''/w/a'' = Inr ''/w/a''" by code_simp
  moreover have "outside example_bin_env ''/w/a''" "basename ''/w/a'' = ''a''" by code_simp+
  ultimately show ?thesis by (simp add: deletable_def META_NAME_def)
qed




section \<open>Purging by size\<close>

lemma oldest_over_bound:
  assumes "0 \<le> m" "\<And>r. r \<in> set rs \<Longrightarrow> 0 \<le> rb_size_bytes r"
  shows "\<exists>k \<le> length rs. oldest_over m (sum_list (map rb_size_bytes rs)) rs = map rb_id (take k rs) \<and>
    sum_list (map rb_size_bytes (drop k rs)) \<le> m \<and>
    (\<forall>j < k. m < sum_list (map rb_size_bytes (drop j rs)))"
  using assms(2)
proof (induction rs)
  case Nil
  with assms(1) show ?case by (intro exI [of _ 0]) simp
next
  case (Cons r rs)
  show ?case
  proof (cases "sum_list (map rb_size_bytes (r # rs)) \<le> m")
    case True
    then show ?thesis by (intro exI [of _ 0]) simp
  next
    case False
    from Cons obtain k where k: "k \<le> length rs" "oldest_over m (sum_list (map rb_size_bytes rs)) rs = map rb_id (take k rs)"
      "sum_list (map rb_size_bytes (drop k rs)) \<le> m" "\<forall>j < k. m < sum_list (map rb_size_bytes (drop j rs))" by auto
    have "\<forall>j < Suc k. m < sum_list (map rb_size_bytes (drop j (r # rs)))"
    proof (intro allI impI)
      fix j assume "j < Suc k"
      with False k(4) show "m < sum_list (map rb_size_bytes (drop j (r # rs)))" by (cases j) simp_all
    qed
    with False k show ?thesis by (intro exI [of _ "Suc k"]) simp
  qed
qed


text \<open>After a purge by size the entries that are left fit the limit, they are the youngest, and one entry more would not
  have fitted.\<close>

theorem purge_by_size_minimal:
  assumes "bin_ok env s" "0 \<le> be_max_bytes env" "\<forall>r \<in> set (bn_rows s). 0 \<le> rb_size_bytes r"
  shows "\<exists>gone left. order_by rb_deleted_at (filter (\<lambda>r. rb_restored_at r = None) (bn_rows s)) = gone @ left \<and>
    mset (filter (\<lambda>r. rb_restored_at r = None) (bn_rows (snd (purge_by_size env s)))) = mset left \<and>
    fst (purge_by_size env s) = length gone \<and> sum_list (map rb_size_bytes left) \<le> be_max_bytes env \<and>
    (gone \<noteq> [] \<longrightarrow> be_max_bytes env < rb_size_bytes (last gone) + sum_list (map rb_size_bytes left))"
proof -
  let ?m = "be_max_bytes env" and ?waiting = "filter (\<lambda>r. rb_restored_at r = None) (bn_rows s)"
  let ?rows = "order_by rb_deleted_at ?waiting"
  from oldest_over_bound [of ?m ?rows] assms(2,3) obtain k where
    k: "k \<le> length ?rows" "oldest_over ?m (sum_list (map rb_size_bytes ?rows)) ?rows = map rb_id (take k ?rows)"
      "sum_list (map rb_size_bytes (drop k ?rows)) \<le> ?m" "\<forall>j < k. ?m < sum_list (map rb_size_bytes (drop j ?rows))"
    by auto
  have d: "distinct (map rb_id (bn_rows s))" using assms(1) by (simp add: bin_ok_def)
  show ?thesis
  proof (cases "sum_list (map rb_size_bytes ?rows) \<le> ?m")
    case True
    then show ?thesis by (intro exI [of _ "[]"] exI [of _ ?rows]) (simp add: purge_by_size_def Let_def)
  next
    case False
    let ?gone = "take k ?rows" and ?left = "drop k ?rows" and ?kept = "\<lambda>r. rb_id r \<notin> rb_id ` set (take k ?rows)"
    have "mset (map rb_id ?rows) = mset (map rb_id ?waiting)" by simp
    from mset_eq_imp_distinct_iff [OF this] d have "distinct (map rb_id (?gone @ ?left))"
      by (simp add: distinct_map_filter)
    then have left: "filter ?kept ?gone = []" "filter ?kept ?left = ?left"
      by (auto simp: filter_empty_conv filter_id_conv simp del: append_take_drop_id)
    have "filter (\<lambda>r. rb_restored_at r = None) (bn_rows (snd (purge_by_size env s))) = filter ?kept ?waiting"
      using False k(2) by (simp add: purge_by_size_def Let_def purge_entries_def sql_delete_def conj_commute)
    also have "mset \<dots> = filter_mset ?kept (mset (?gone @ ?left))"
      by (simp only: mset_filter append_take_drop_id mset_order_by)
    also have "\<dots> = mset ?left" by (simp only: mset_filter [symmetric] filter_append left append_Nil)
    finally have rest: "mset (filter (\<lambda>r. rb_restored_at r = None) (bn_rows (snd (purge_by_size env s)))) = mset ?left" .
    have "?m < rb_size_bytes (last ?gone) + sum_list (map rb_size_bytes ?left)" if "?gone \<noteq> []"
    proof -
      from that k(1) have j: "k - 1 < k" "k - 1 < length ?rows" "Suc (k - 1) = k" by (cases k; simp)+
      have "last ?gone = ?rows ! (k - 1)" using that k(1) by (simp add: last_conv_nth min_def)
      with Cons_nth_drop_Suc [OF j(2)] j(3) have "drop (k - 1) ?rows = last ?gone # ?left" by simp
      with k(4) j(1) show ?thesis by (metis list.simps(9) sum_list.Cons)
    qed
    moreover have "fst (purge_by_size env s) = length ?gone" using False k(2) by (simp add: purge_by_size_def Let_def)
    ultimately show ?thesis using rest k(3) by (intro exI [of _ ?gone] exI [of _ ?left]) simp
  qed
qed

theorem purge_by_size_minimal_witness:
  "fst (purge_by_size (example_bin_env\<lparr>be_max_bytes := 3\<rparr>) example_bin) = 1"
proof -
  let ?env = "example_bin_env\<lparr>be_max_bytes := 3\<rparr>"
  have rows: "bn_rows example_bin = [example_entry]" by (simp add: example_bin_eq)
  have "bin_ok ?env example_bin"
    unfolding bin_ok_def rows stored_def
    by (auto simp: example_bin_eq example_entry_def example_bin_env_def plain_name_def fs_get_def
        slot_def recycle_dir_def join_path_def META_NAME_def)
  from purge_by_size_minimal [OF this] obtain gone left where
    g: "order_by rb_deleted_at (filter (\<lambda>r. rb_restored_at r = None) (bn_rows example_bin)) = gone @ left"
      "fst (purge_by_size ?env example_bin) = length gone" "sum_list (map rb_size_bytes left) \<le> 3"
    by (auto simp: rows example_entry_def example_bin_env_def)
  then show ?thesis by (cases gone) (auto simp: rows example_entry_def order_by_def)
qed

section \<open>Observations\<close>

text \<open>A file called like the metadata file is overwritten by it: what is restored is the metadata.\<close>

lemma metadata_name_loses_the_file:
  assumes "safe_delete env path by job node reason i now s = (Inr e, s1)" "basename (rb_original_path e) = META_NAME"
  shows "fs_get (bn_files s1) (rb_recycle_path e) = Some (be_meta_text env e)"
  using assms by (auto simp: safe_delete_def Let_def fs_get_put split: sum.splits option.splits if_splits)

text \<open>The target of a restoration is not kept inside the workspace.\<close>

lemma restore_leaves_the_workspace:
  "fst (restore example_bin_env ''i'' ''u'' (Some ''/etc/passwd'') True 6 example_bin) = Inr ''/etc/passwd'' \<and>
   \<not> jailed (be_workspace_root example_bin_env) ''/etc/passwd''"
  by (simp add: example_bin_eq restore_def example_entry_def example_bin_env_def fs_get_def jailed_def rstrip_sep_def Let_def)

text \<open>An entry that has been restored is never purged; an entry can be purged before it expires.\<close>

lemma restored_entry_kept:
  assumes "bin_ok env s" "r \<in> set (bn_rows s)" "rb_restored_at r \<noteq> None"
  shows "r \<in> set (bn_rows (snd (purge_expired env now s)))"
proof -
  let ?due = "filter (\<lambda>r. rb_expires_at r < now \<and> rb_restored_at r = None) (bn_rows s)"
  have "rb_id r \<notin> rb_id ` set ?due"
  proof
    assume "rb_id r \<in> rb_id ` set ?due"
    then obtain q where due: "q \<in> set ?due" and same: "rb_id q = rb_id r" by (rule imageE) simp
    from assms(1) have d: "distinct (map rb_id (bn_rows s))" by (simp add: bin_ok_def)
    from due have q: "q \<in> set (bn_rows s)" "rb_restored_at q = None" by simp_all
    from unique_key_eq [OF d q(1) assms(2) same] q(2) assms(3) show False by blast
  qed
  with assms(2) show ?thesis by (simp add: purge_expired_def Let_def purge_entries_def)
qed

lemma purged_before_expiry:
  "rb_expires_at example_entry = 15 \<and> bn_rows (snd (purge_by_size (example_bin_env\<lparr>be_max_bytes := 3\<rparr>) example_bin)) = []"
  by (simp add: example_bin_eq purge_by_size_def purge_entries_def example_entry_def example_bin_env_def order_by_def
      sql_delete_def Let_def)

end
