(* ===== verification/Artifacts.thy ===== *)
theory Artifacts
  imports Recycle_Bin
begin

text \<open>
  \<^verbatim>\<open>backend/core/artifacts.py\<close>: artifacts and their versions, stored previews, and diffs between versions. The disk is that of
  the recycle bin. The extraction of text from office formats and \<^verbatim>\<open>difflib.unified_diff\<close> are arguments, as are SHA-256,
  \<^verbatim>\<open>mimetypes\<close> and \<^verbatim>\<open>json.dumps\<close>; a presentation comes as the list of its slides. The iteration order of the sets of
  fingerprints is arbitrary in Python; here it is that of the shapes.
\<close>

section \<open>State\<close>

record artifact =
  af_id :: ident
  af_job_id :: ident
  af_workspace_id :: ident
  af_name :: string
  af_artifact_type :: string
  af_current_version_id :: "ident option"
  af_created_at :: timestamp

record version =
  vr_id :: ident
  vr_artifact_id :: ident
  vr_version_number :: int
  vr_file_path :: string
  vr_file_size_bytes :: int
  vr_sha256 :: string
  vr_mime_type :: string
  vr_created_by :: string
  vr_node_attempt_id :: "ident option"
  vr_parent_version_id :: "ident option"
  vr_metadata_json :: string
  vr_created_at :: timestamp

record preview =
  pv_id :: ident
  pv_version_id :: ident
  pv_preview_type :: string
  pv_content_text :: string
  pv_metadata_json :: "(string \<times> json) list"
  pv_created_at :: timestamp

text \<open>A shape as it is compared, and what is reported of a slide.\<close>

record shape =
  sh_name :: string
  sh_fingerprint :: string
  sh_text :: string

datatype change =
    Text_changed string string string string
  | Text_changed_and_moved string string string string string
  | Moved string string string
  | Removed string string
  | Added string string string

datatype diff_body =
    Text_diff int int string nat nat nat
  | Structural_diff int int nat nat "nat list" "nat list" "(nat \<times> change list) list" "nat list"

record diff =
  df_id :: ident
  df_from_version_id :: ident
  df_to_version_id :: ident
  df_diff_type :: string
  df_diff_json :: diff_body
  df_summary :: string
  df_created_at :: timestamp

record store =
  st_workspaces :: "ident list"
  st_artifacts :: "artifact list"
  st_versions :: "version list"
  st_previews :: "preview list"
  st_diffs :: "diff list"

record artifact_env =
  ae_workspace_root :: string
  ae_disk :: disk
  ae_sha :: "string \<Rightarrow> string"
  ae_guess_type :: "string \<Rightarrow> string option"

section \<open>Artifacts and versions\<close>

definition create_artifact ::
  "ident \<Rightarrow> ident \<Rightarrow> string \<Rightarrow> string \<Rightarrow> ident \<Rightarrow> timestamp \<Rightarrow> store \<Rightarrow> (ident \<times> store) result" where
  "create_artifact job_id workspace_id name artifact_type artifact_id now s =
     (if artifact_id \<in> af_id ` set (st_artifacts s) then Inl (IntegrityError ''UNIQUE artifacts.id'')
      else if workspace_id \<notin> set (st_workspaces s) then Inl (IntegrityError ''FOREIGN KEY artifacts.workspace_id'')
      else Inr (artifact_id, s\<lparr>st_artifacts := st_artifacts s @
        [\<lparr>af_id = artifact_id, af_job_id = job_id, af_workspace_id = workspace_id, af_name = name,
          af_artifact_type = artifact_type, af_current_version_id = None, af_created_at = now\<rparr>]\<rparr>))"

definition next_version_number :: "ident \<Rightarrow> store \<Rightarrow> int" where
  "next_version_number artifact_id s =
     (case map vr_version_number (filter (\<lambda>v. vr_artifact_id v = artifact_id) (st_versions s)) of
        [] \<Rightarrow> 1
      | n # ns \<Rightarrow> fold max ns n + 1)"

definition version_path :: "artifact_env \<Rightarrow> string \<Rightarrow> string" where
  "version_path env file_path =
     (if starts_with ''/'' file_path then file_path else join_path (ae_workspace_root env) file_path)"

definition add_version ::
  "artifact_env \<Rightarrow> ident \<Rightarrow> string \<Rightarrow> string \<Rightarrow> ident option \<Rightarrow> ident option \<Rightarrow> string option \<Rightarrow> ident \<Rightarrow> timestamp \<Rightarrow>
     store \<Rightarrow> (ident \<times> store) result" where
  "add_version env artifact_id file_path created_by node_attempt_id parent_version_id metadata_json version_id now s =
     (let path = version_path env file_path
      in case fs_get (ae_disk env) path of
           None \<Rightarrow> Inl (ExternalError ''FileNotFoundError'')
         | Some content \<Rightarrow>
             if version_id \<in> vr_id ` set (st_versions s) then Inl (IntegrityError ''UNIQUE artifact_versions.id'')
             else if artifact_id \<notin> af_id ` set (st_artifacts s)
             then Inl (IntegrityError ''FOREIGN KEY artifact_versions.artifact_id'')
             else Inr (version_id,
               s\<lparr>st_versions := st_versions s @
                   [\<lparr>vr_id = version_id, vr_artifact_id = artifact_id,
                     vr_version_number = next_version_number artifact_id s, vr_file_path = path,
                     vr_file_size_bytes = int (length content), vr_sha256 = ae_sha env content,
                     vr_mime_type = (case ae_guess_type env path of None \<Rightarrow> ''application/octet-stream'' | Some m \<Rightarrow> m),
                     vr_created_by = created_by, vr_node_attempt_id = node_attempt_id,
                     vr_parent_version_id = parent_version_id,
                     vr_metadata_json = (case metadata_json of None \<Rightarrow> ''{}'' | Some m \<Rightarrow> if m = [] then ''{}'' else m),
                     vr_created_at = now\<rparr>],
                 st_artifacts := sql_update (\<lambda>a. af_id a = artifact_id)
                   (\<lambda>a. a\<lparr>af_current_version_id := Some version_id\<rparr>) (st_artifacts s)\<rparr>))"

definition get_artifact :: "ident \<Rightarrow> store \<Rightarrow> artifact option" where
  "get_artifact artifact_id s = fetchone (filter (\<lambda>a. af_id a = artifact_id) (st_artifacts s))"

definition get_version :: "ident \<Rightarrow> store \<Rightarrow> version option" where
  "get_version version_id s = fetchone (filter (\<lambda>v. vr_id v = version_id) (st_versions s))"

definition get_versions :: "ident \<Rightarrow> store \<Rightarrow> version list" where
  "get_versions artifact_id s = order_by vr_version_number (filter (\<lambda>v. vr_artifact_id v = artifact_id) (st_versions s))"

definition get_current_version :: "ident \<Rightarrow> store \<Rightarrow> version option" where
  "get_current_version artifact_id s =
     fetchone (concat (map
       (\<lambda>v. map (\<lambda>_. v)
          (filter (\<lambda>a. af_current_version_id a = Some (vr_id v) \<and> af_id a = artifact_id) (st_artifacts s)))
       (st_versions s)))"

definition get_artifacts_by_job :: "ident \<Rightarrow> store \<Rightarrow> artifact list" where
  "get_artifacts_by_job job_id s = filter (\<lambda>a. af_job_id a = job_id) (st_artifacts s)"

section \<open>Previews\<close>

text \<open>The dash of the placeholder text is a hyphen here. The extractors for presentations, spreadsheets, documents and PDF; each may raise.\<close>

record extract_env =
  ex_pptx :: "string \<Rightarrow> string result"
  ex_xlsx :: "string \<Rightarrow> string result"
  ex_docx :: "string \<Rightarrow> string result"
  ex_pdf :: "string \<Rightarrow> string result"
  ex_plain :: "string \<Rightarrow> string result"

definition MAX_TEXT_CHARS :: nat where
  "MAX_TEXT_CHARS = 500"

definition extract_plain :: "extract_env \<Rightarrow> string \<Rightarrow> string result" where
  "extract_plain x path = map_sum id (take MAX_TEXT_CHARS) (ex_plain x path)"

definition PLAIN_SUFFIXES :: "string list" where
  "PLAIN_SUFFIXES = [''.txt'', ''.md'', ''.csv'', ''.log'', ''.yaml'', ''.yml'', ''.xml'', ''.html'']"

definition extract_text :: "extract_env \<Rightarrow> string \<Rightarrow> string \<Rightarrow> string result" where
  "extract_text x path mime_type =
     (let suffix = py_lower (suffix_of (basename path))
      in if suffix = ''.pptx'' \<or> contains ''presentation'' mime_type then ex_pptx x path
         else if suffix = ''.xlsx'' \<or> contains ''spreadsheet'' mime_type then ex_xlsx x path
         else if suffix = ''.docx'' \<or> contains ''wordprocessingml'' mime_type then ex_docx x path
         else if suffix = ''.pdf'' \<or> mime_type = ''application/pdf'' then ex_pdf x path
         else if suffix = ''.json'' \<or> mime_type = ''application/json'' then extract_plain x path
         else if suffix \<in> set PLAIN_SUFFIXES then extract_plain x path
         else if starts_with ''text/'' mime_type then extract_plain x path
         else (case extract_plain x path of
                 Inr t \<Rightarrow> Inr t
               | Inl e \<Rightarrow> Inr (''[Binary file - no text preview available for '' @ mime_type @ '']'')))"

text \<open>\<^verbatim>\<open>endswith\<close>.\<close>

definition ends_with :: "string \<Rightarrow> string \<Rightarrow> bool" where
  "ends_with e s = starts_with (rev e) (rev s)"

definition method_for_mime :: "string \<Rightarrow> string" where
  "method_for_mime mime_type =
     (if contains ''presentation'' mime_type \<or> ends_with ''.pptx'' mime_type then ''pptx_slide_text''
      else if contains ''spreadsheet'' mime_type \<or> ends_with ''.xlsx'' mime_type then ''xlsx_cell_values''
      else if contains ''wordprocessingml'' mime_type \<or> ends_with ''.docx'' mime_type then ''docx_paragraphs''
      else if mime_type = ''application/pdf'' then ''pdf_page_text''
      else if starts_with ''text/'' mime_type \<or> mime_type = ''application/json'' then ''plain_text_head''
      else ''fallback_text'')"

definition generate_preview ::
  "artifact_env \<Rightarrow> extract_env \<Rightarrow> ident \<Rightarrow> string \<Rightarrow> ident \<Rightarrow> timestamp \<Rightarrow> store \<Rightarrow> (ident \<times> store) result" where
  "generate_preview env x version_id preview_type preview_id now s =
     (case get_version version_id s of
        None \<Rightarrow> Inl (ValueError ''Artifact version not found'')
      | Some v \<Rightarrow>
          if fs_get (ae_disk env) (vr_file_path v) = None then Inl (ValueError ''Version file missing on disk'')
          else (case extract_text x (vr_file_path v) (vr_mime_type v) of
                  Inl e \<Rightarrow> Inl e
                | Inr content_text \<Rightarrow>
                    if preview_id \<in> pv_id ` set (st_previews s) then Inl (IntegrityError ''UNIQUE artifact_previews.id'')
                    else Inr (preview_id, s\<lparr>st_previews := st_previews s @
                      [\<lparr>pv_id = preview_id, pv_version_id = version_id, pv_preview_type = preview_type,
                        pv_content_text = content_text,
                        pv_metadata_json =
                          [(''mime_type'', JStr (vr_mime_type v)), (''file_size_bytes'', JInt (vr_file_size_bytes v)),
                           (''extraction_method'', JStr (method_for_mime (vr_mime_type v)))],
                        pv_created_at = now\<rparr>]\<rparr>)))"

definition get_preview :: "ident \<Rightarrow> store \<Rightarrow> preview option" where
  "get_preview version_id s =
     fetchone (sql_limit 1 0 (order_by_desc pv_created_at (filter (\<lambda>p. pv_version_id p = version_id) (st_previews s))))"

section \<open>Text diffs\<close>

text \<open>A shape as \<^verbatim>\<open>python-pptx\<close> gives it; a position may be missing.\<close>

record raw_shape =
  rs_name :: string
  rs_left :: "int option"
  rs_top :: "int option"
  rs_width :: "int option"
  rs_height :: "int option"
  rs_text_frame :: "string option"
  rs_table :: "string list option"

record diff_env =
  de_splitlines :: "string \<Rightarrow> string list"
  de_unified_diff :: "string list \<Rightarrow> string list \<Rightarrow> string \<Rightarrow> string \<Rightarrow> string list"
  de_slides :: "(string \<Rightarrow> raw_shape list list result) option"

text \<open>The stored text of a version, or that of a preview made now; the state keeps that preview. Missing versions and files
  give no text, other exceptions leave the function.\<close>

definition get_or_generate_text ::
  "artifact_env \<Rightarrow> extract_env \<Rightarrow> version \<Rightarrow> ident \<Rightarrow> timestamp \<Rightarrow> store \<Rightarrow> string result \<times> store" where
  "get_or_generate_text env x v preview_id now s =
     (let text = (case get_preview (vr_id v) s of None \<Rightarrow> [] | Some p \<Rightarrow> pv_content_text p)
      in if text \<noteq> [] then (Inr text, s)
         else (case generate_preview env x (vr_id v) ''text_extract'' preview_id now s of
                 Inl (ValueError e) \<Rightarrow> (Inr [], s)
               | Inl (ExternalError e) \<Rightarrow> (if e = ''FileNotFoundError'' then Inr [] else Inl (ExternalError e), s)
               | Inl e \<Rightarrow> (Inl e, s)
               | Inr (i, s1) \<Rightarrow> (Inr (case get_preview (vr_id v) s1 of None \<Rightarrow> [] | Some q \<Rightarrow> pv_content_text q), s1)))"

definition added_lines :: "string list \<Rightarrow> nat" where
  "added_lines ls = length (filter (\<lambda>l. starts_with ''+'' l \<and> \<not> starts_with ''+++'' l) ls)"

definition removed_lines :: "string list \<Rightarrow> nat" where
  "removed_lines ls = length (filter (\<lambda>l. starts_with ''-'' l \<and> \<not> starts_with ''---'' l) ls)"

definition hunks :: "string list \<Rightarrow> nat" where
  "hunks ls = length (filter (\<lambda>l. starts_with ''@@'' l) ls)"

definition diff_of_texts :: "diff_env \<Rightarrow> version \<Rightarrow> version \<Rightarrow> string \<Rightarrow> string \<Rightarrow> diff_body \<times> string" where
  "diff_of_texts de from_ver to_ver from_text to_text =
     (let lines = de_unified_diff de (de_splitlines de from_text) (de_splitlines de to_text)
            (CHR ''v'' # show_int (vr_version_number from_ver)) (CHR ''v'' # show_int (vr_version_number to_ver));
          added = added_lines lines; removed = removed_lines lines; changed = hunks lines
      in (Text_diff (vr_version_number from_ver) (vr_version_number to_ver) (concat lines) added removed changed,
          ''Text diff: +'' @ show_nat added @ '' -'' @ show_nat removed @ '' lines across '' @ show_nat changed @ '' sections''))"

definition text_diff ::
  "artifact_env \<Rightarrow> extract_env \<Rightarrow> diff_env \<Rightarrow> version \<Rightarrow> version \<Rightarrow> (ident \<times> ident) \<Rightarrow> timestamp \<Rightarrow> store \<Rightarrow>
     (diff_body \<times> string) result \<times> store" where
  "text_diff env x de from_ver to_ver ids now s =
     (case get_or_generate_text env x from_ver (fst ids) now s of
        (Inl e, s1) \<Rightarrow> (Inl e, s1)
      | (Inr from_text, s1) \<Rightarrow>
          (case get_or_generate_text env x to_ver (snd ids) now s1 of
             (Inl e, s2) \<Rightarrow> (Inl e, s2)
           | (Inr to_text, s2) \<Rightarrow> (Inr (diff_of_texts de from_ver to_ver from_text to_text), s2)))"

section \<open>Structural diffs\<close>

text \<open>A position that is missing is \<^verbatim>\<open>None\<close>, of which \<^verbatim>\<open>int\<close> makes an exception.\<close>

fun position_int :: "int option \<Rightarrow> int result" where
  "position_int None = Inl (TypeError ''int'')"
| "position_int (Some i) = Inr i"

definition compute_shape_fingerprint ::
  "(string \<Rightarrow> string) \<Rightarrow> nat \<Rightarrow> string \<Rightarrow> int option \<Rightarrow> int option \<Rightarrow> int option \<Rightarrow> int option \<Rightarrow> string result" where
  "compute_shape_fingerprint sha slide_id shape_name l t w h =
     (case sequence_results (map position_int [l, t, w, h]) of
        Inl e \<Rightarrow> Inl e
      | Inr ps \<Rightarrow> Inr (sha (py_join ''|'' (show_nat slide_id # shape_name # map show_int ps))))"

definition shape_of :: "(string \<Rightarrow> string) \<Rightarrow> nat \<Rightarrow> raw_shape \<Rightarrow> shape result" where
  "shape_of sha i rs =
     map_sum id (\<lambda>fp. \<lparr>sh_name = rs_name rs, sh_fingerprint = fp,
         sh_text = (case rs_text_frame rs of None \<Rightarrow> [] | Some t \<Rightarrow> t) @
                   (case rs_table rs of None \<Rightarrow> [] | Some cells \<Rightarrow> py_join '' '' cells)\<rparr>)
       (compute_shape_fingerprint sha i (rs_name rs) (rs_left rs) (rs_top rs) (rs_width rs) (rs_height rs))"

definition extract_slide_structures :: "(string \<Rightarrow> string) \<Rightarrow> raw_shape list list \<Rightarrow> shape list list result" where
  "extract_slide_structures sha slides =
     sequence_results (map (\<lambda>(i, rss). sequence_results (map (shape_of sha i) rss)) (enumerate 0 slides))"

definition by_key :: "(shape \<Rightarrow> string) \<Rightarrow> shape list \<Rightarrow> (string \<times> shape) list" where
  "by_key k shapes = fold (\<lambda>sh. dict_put (k sh) sh) shapes []"

definition common_change :: "(string \<times> shape) list \<Rightarrow> string \<times> shape \<Rightarrow> change list" where
  "common_change to_by_fp = (\<lambda>(fp, from_shape).
     case map_of to_by_fp fp of
       None \<Rightarrow> []
     | Some to_shape \<Rightarrow>
         if sh_text from_shape \<noteq> sh_text to_shape
         then [Text_changed (sh_name to_shape) fp (sh_text from_shape) (sh_text to_shape)] else [])"

definition removed_change ::
  "(string \<times> shape) list \<Rightarrow> (string \<times> shape) list \<Rightarrow> (string \<times> shape) list \<Rightarrow> string \<times> shape \<Rightarrow> change list" where
  "removed_change from_by_fp to_by_fp to_by_name = (\<lambda>(fp, from_shape).
     if map_of to_by_fp fp \<noteq> None then []
     else case map_of to_by_name (sh_name from_shape) of
            None \<Rightarrow> [Removed (sh_name from_shape) fp]
          | Some to_shape \<Rightarrow>
              if map_of from_by_fp (sh_fingerprint to_shape) \<noteq> None \<and> map_of to_by_fp (sh_fingerprint to_shape) \<noteq> None then []
              else if sh_text from_shape \<noteq> sh_text to_shape
              then [Text_changed_and_moved (sh_name from_shape) fp (sh_fingerprint to_shape) (sh_text from_shape) (sh_text to_shape)]
              else [Moved (sh_name from_shape) fp (sh_fingerprint to_shape)])"

definition added_change :: "(string \<times> shape) list \<Rightarrow> (string \<times> shape) list \<Rightarrow> string \<times> shape \<Rightarrow> change list" where
  "added_change from_by_fp from_by_name = (\<lambda>(fp, to_shape).
     if map_of from_by_fp fp \<noteq> None \<or> map_of from_by_name (sh_name to_shape) \<noteq> None then []
     else [Added (sh_name to_shape) fp (sh_text to_shape)])"

definition compare_slide_shapes :: "shape list \<Rightarrow> shape list \<Rightarrow> change list" where
  "compare_slide_shapes from_slide to_slide =
     (let from_by_fp = by_key sh_fingerprint from_slide; to_by_fp = by_key sh_fingerprint to_slide;
          from_by_name = by_key sh_name from_slide; to_by_name = by_key sh_name to_slide
      in concat (map (common_change to_by_fp) from_by_fp) @
         concat (map (removed_change from_by_fp to_by_fp to_by_name) from_by_fp) @
         concat (map (added_change from_by_fp from_by_name) to_by_fp))"

definition counted :: "string \<Rightarrow> nat \<Rightarrow> string \<Rightarrow> string \<Rightarrow> string list" where
  "counted verb n noun plural = (if n = 0 then [] else [verb @ '' '' @ show_nat n @ '' '' @ noun @ (if n \<noteq> 1 then plural else [])])"

definition diff_of_slides :: "version \<Rightarrow> version \<Rightarrow> shape list list \<Rightarrow> shape list list \<Rightarrow> diff_body \<times> string" where
  "diff_of_slides from_ver to_ver from_slides to_slides =
     (let n = length from_slides; m = length to_slides; is = [0..<max n m];
          both = filter (\<lambda>i. i < n \<and> i < m) is;
          compared = map (\<lambda>i. (i, compare_slide_shapes (from_slides ! i) (to_slides ! i))) both;
          added = filter (\<lambda>i. n \<le> i) is; removed = filter (\<lambda>i. i < n \<and> m \<le> i) is;
          changed = filter (\<lambda>(i, cs). cs \<noteq> []) compared; unchanged = map fst (filter (\<lambda>(i, cs). cs = []) compared);
          shapes_changed = sum_list (map (\<lambda>(i, cs). length cs) changed);
          parts = counted ''Changed'' (length changed) ''slide'' ''s'' @ counted ''added'' (length added) ''slide'' ''s'' @
                  counted ''removed'' (length removed) ''slide'' ''s'' @ counted ''updated'' shapes_changed ''text box'' ''es''
      in (Structural_diff (vr_version_number from_ver) (vr_version_number to_ver) n m added removed changed unchanged,
          py_join '', '' (if parts = [] then [''No structural changes detected''] else parts)))"

definition slides_of :: "artifact_env \<Rightarrow> (string \<Rightarrow> raw_shape list list result) \<Rightarrow> string \<Rightarrow> shape list list result" where
  "slides_of env load path = (case load path of Inl e \<Rightarrow> Inl e | Inr raw \<Rightarrow> extract_slide_structures (ae_sha env) raw)"

definition structural_diff ::
  "artifact_env \<Rightarrow> extract_env \<Rightarrow> diff_env \<Rightarrow> version \<Rightarrow> version \<Rightarrow> (ident \<times> ident) \<Rightarrow> timestamp \<Rightarrow> store \<Rightarrow>
     (diff_body \<times> string) result \<times> store" where
  "structural_diff env x de from_ver to_ver ids now s =
     (case de_slides de of
        None \<Rightarrow> text_diff env x de from_ver to_ver ids now s
      | Some load \<Rightarrow>
          if fs_get (ae_disk env) (vr_file_path from_ver) = None \<or> fs_get (ae_disk env) (vr_file_path to_ver) = None
          then text_diff env x de from_ver to_ver ids now s
          else (case slides_of env load (vr_file_path from_ver) of
                  Inl e \<Rightarrow> (Inl e, s)
                | Inr from_slides \<Rightarrow>
                    (case slides_of env load (vr_file_path to_ver) of
                       Inl e \<Rightarrow> (Inl e, s)
                     | Inr to_slides \<Rightarrow> (Inr (diff_of_slides from_ver to_ver from_slides to_slides), s))))"

definition compute_diff ::
  "artifact_env \<Rightarrow> extract_env \<Rightarrow> diff_env \<Rightarrow> ident \<Rightarrow> ident \<Rightarrow> string \<Rightarrow> ident \<Rightarrow> (ident \<times> ident) \<Rightarrow> timestamp \<Rightarrow> store \<Rightarrow>
     ident result \<times> store" where
  "compute_diff env x de from_version_id to_version_id diff_type diff_id ids now s =
     (case (get_version from_version_id s, get_version to_version_id s) of
        (None, _) \<Rightarrow> (Inl (ValueError ''From-version not found''), s)
      | (_, None) \<Rightarrow> (Inl (ValueError ''To-version not found''), s)
      | (Some from_ver, Some to_ver) \<Rightarrow>
          (case (if diff_type = ''structural'' then structural_diff env x de from_ver to_ver ids now s
                 else text_diff env x de from_ver to_ver ids now s) of
             (Inl e, s1) \<Rightarrow> (Inl e, s1)
           | (Inr (body, summary), s1) \<Rightarrow>
               if diff_id \<in> df_id ` set (st_diffs s1) then (Inl (IntegrityError ''UNIQUE artifact_diffs.id''), s1)
               else (Inr diff_id, s1\<lparr>st_diffs := st_diffs s1 @
                 [\<lparr>df_id = diff_id, df_from_version_id = from_version_id, df_to_version_id = to_version_id,
                   df_diff_type = diff_type, df_diff_json = body, df_summary = summary, df_created_at = now\<rparr>]\<rparr>)))"

definition get_diff :: "ident \<Rightarrow> store \<Rightarrow> diff option" where
  "get_diff diff_id s = fetchone (filter (\<lambda>d. df_id d = diff_id) (st_diffs s))"


section \<open>The versions of an artifact\<close>

definition chain :: "ident \<Rightarrow> store \<Rightarrow> version list" where
  "chain i s = filter (\<lambda>v. vr_artifact_id v = i) (st_versions s)"

text \<open>The versions of an artifact are numbered from one without gaps, and the artifact points to the last.\<close>

definition numbered :: "version list \<Rightarrow> bool" where
  "numbered vs \<longleftrightarrow> map vr_version_number vs = map int [1..<Suc (length vs)]"

definition versions_ok :: "store \<Rightarrow> bool" where
  "versions_ok s \<longleftrightarrow>
     distinct (map af_id (st_artifacts s)) \<and> distinct (map vr_id (st_versions s)) \<and>
     (\<forall>v \<in> set (st_versions s). vr_artifact_id v \<in> af_id ` set (st_artifacts s)) \<and>
     (\<forall>a \<in> set (st_artifacts s). numbered (chain (af_id a) s) \<and>
        af_current_version_id a = (if chain (af_id a) s = [] then None else Some (vr_id (last (chain (af_id a) s)))))"

definition new_store :: "ident list \<Rightarrow> store" where
  "new_store wss = \<lparr>st_workspaces = wss, st_artifacts = [], st_versions = [], st_previews = [], st_diffs = []\<rparr>"

lemma numbered_Nil [simp]: "numbered []"
  by (simp add: numbered_def)

lemma versions_ok_new: "versions_ok (new_store wss)"
  by (simp add: versions_ok_def new_store_def)

lemma fold_max_upto: "fold max (map int [2..<Suc (Suc n)]) 1 = int (Suc n)"
  by (induction n) (simp_all add: numeral_2_eq_2)

lemma next_number:
  assumes "numbered (chain i s)"
  shows "next_version_number i s = int (Suc (length (chain i s)))"
proof (cases "length (chain i s)")
  case 0
  then show ?thesis by (simp add: next_version_number_def chain_def)
next
  case (Suc n)
  have "map vr_version_number (chain i s) = 1 # map int [2..<Suc (Suc n)]"
    using assms Suc by (simp add: numbered_def upt_conv_Cons numeral_2_eq_2 del: upt_Suc)
  with fold_max_upto [of n] Suc show ?thesis by (simp add: next_version_number_def chain_def)
qed

lemma create_artifact_ok:
  assumes "create_artifact j w n ty i now s = Inr (k, s')" "versions_ok s"
  shows "versions_ok s'"
proof -
  from assms(1) have i: "i \<notin> af_id ` set (st_artifacts s)" and s': "st_versions s' = st_versions s"
    "\<exists>a. af_id a = i \<and> af_current_version_id a = None \<and> st_artifacts s' = st_artifacts s @ [a]"
    by (auto simp: create_artifact_def split: if_splits)
  from assms(2) i have "chain i s = []" by (auto simp: versions_ok_def chain_def filter_empty_conv)
  moreover have "chain k s' = chain k s" for k by (simp add: chain_def s'(1))
  ultimately show ?thesis using assms(2) i s' by (auto simp: versions_ok_def)
qed

lemma add_version_effect:
  assumes "add_version env i p by na par md k now s = Inr (k', s')"
  shows "k' = k \<and> k \<notin> vr_id ` set (st_versions s) \<and> i \<in> af_id ` set (st_artifacts s) \<and>
    st_artifacts s' = sql_update (\<lambda>a. af_id a = i) (\<lambda>a. a\<lparr>af_current_version_id := Some k\<rparr>) (st_artifacts s) \<and>
    (\<exists>v. st_versions s' = st_versions s @ [v] \<and> vr_id v = k \<and> vr_artifact_id v = i \<and>
       vr_version_number v = next_version_number i s)"
proof -
  from assms obtain c where "fs_get (ae_disk env) (version_path env p) = Some c"
    by (auto simp: add_version_def Let_def split: option.splits)
  with assms show ?thesis by (auto simp: add_version_def Let_def simp del: split_paired_All split: if_splits)
qed

lemma add_version_ok:
  assumes "add_version env i p by na par md k now s = Inr (k', s')" "versions_ok s"
  shows "versions_ok s'"
proof -
  from add_version_effect [OF assms(1)] obtain v where v: "k \<notin> vr_id ` set (st_versions s)"
    "i \<in> af_id ` set (st_artifacts s)" "vr_id v = k" "vr_artifact_id v = i"
    "vr_version_number v = next_version_number i s" "st_versions s' = st_versions s @ [v]"
    "st_artifacts s' = sql_update (\<lambda>a. af_id a = i) (\<lambda>a. a\<lparr>af_current_version_id := Some k\<rparr>) (st_artifacts s)" by blast
  have chains: "chain j s' = (if j = i then chain i s @ [v] else chain j s)" for j
    using v(4,6) by (auto simp: chain_def)
  from v(2) assms(2) have n: "numbered (chain i s)" by (auto simp: versions_ok_def)
  have "numbered (chain i s @ [v])"
    using n v(5) next_number [OF n] by (simp add: numbered_def)
  then have "numbered (chain (af_id a) s') \<and>
      af_current_version_id a = (if chain (af_id a) s' = [] then None else Some (vr_id (last (chain (af_id a) s'))))"
    if "a \<in> set (st_artifacts s')" for a
  proof -
    from that v(7) obtain q where "q \<in> set (st_artifacts s)"
      "a = (if af_id q = i then q\<lparr>af_current_version_id := Some k\<rparr> else q)" by (auto simp: in_sql_update)
    with \<open>numbered (chain i s @ [v])\<close> v(3) assms(2) show ?thesis
      unfolding chains by (cases "af_id q = i") (simp_all add: versions_ok_def)
  qed
  moreover have ids: "map af_id (st_artifacts s') = map af_id (st_artifacts s)" unfolding v(7) by (simp add: map_sql_update)
  moreover have "distinct (map vr_id (st_versions s'))" using v(1,3,6) assms(2) by (simp add: versions_ok_def)
  moreover have "af_id ` set (st_artifacts s') = af_id ` set (st_artifacts s)" using ids by (metis list.set_map)
  then have "\<forall>u \<in> set (st_versions s'). vr_artifact_id u \<in> af_id ` set (st_artifacts s')"
    using v(2,4,6) assms(2) by (simp add: versions_ok_def)
  moreover have "distinct (map af_id (st_artifacts s))" using assms(2) by (simp add: versions_ok_def)
  ultimately show ?thesis unfolding versions_ok_def by simp
qed

text \<open>Artifacts and versions come in any order, from disks that change; a call that raises leaves the tables.\<close>

datatype artifact_command =
    New_artifact ident ident string string ident timestamp
  | New_version artifact_env ident string string "ident option" "ident option" "string option" ident timestamp

fun artifact_step :: "artifact_command \<Rightarrow> store \<Rightarrow> store" where
  "artifact_step (New_artifact j w n ty i now) s =
     (case create_artifact j w n ty i now s of Inl e \<Rightarrow> s | Inr (k, s') \<Rightarrow> s')"
| "artifact_step (New_version env i p by na par md k now) s =
     (case add_version env i p by na par md k now s of Inl e \<Rightarrow> s | Inr (k', s') \<Rightarrow> s')"

interpretation artifact_runs: store_machine artifact_step versions_ok
proof
  fix s c assume "versions_ok s"
  then show "versions_ok (artifact_step c s)"
    by (cases c) (auto split: sum.splits dest: create_artifact_ok add_version_ok)
qed

lemma sorted_numbered: "numbered vs \<Longrightarrow> order_by vr_version_number vs = vs"
  unfolding order_by_def numbered_def
  by (rule sort_key_id_if_sorted) (auto simp: sorted_map sorted_wrt_upt simp del: upt_Suc)

lemma current_version_lookup:
  assumes "versions_ok s" "a \<in> set (st_artifacts s)"
  shows "get_current_version (af_id a) s = (if chain (af_id a) s = [] then None else Some (last (chain (af_id a) s)))"
proof -
  have one: "filter (\<lambda>b. P b \<and> af_id b = af_id a) (st_artifacts s) = (if P a then [a] else [])" for P
  proof -
    have "filter (\<lambda>b. P b \<and> af_id b = af_id a) t = (if a \<in> set t \<and> P a then [a] else [])"
      if "distinct (map af_id t)" "set t \<subseteq> set (st_artifacts s)" for t
      using that
    proof (induction t)
      case (Cons b t)
      have "b = a" if "af_id b = af_id a"
        using unique_key_eq [of af_id "st_artifacts s" b a] that Cons.prems assms by (auto simp: versions_ok_def)
      with Cons show ?case by (auto simp: filter_empty_conv)
    qed simp
    with assms show ?thesis by (simp add: versions_ok_def)
  qed
  have conc: "concat (map (\<lambda>v. map (\<lambda>_. v) (if P v then [a] else [])) vs) = filter P vs" for P and vs :: "version list"
    by (induction vs) auto
  have current: "get_current_version (af_id a) s =
      fetchone (filter (\<lambda>v. af_current_version_id a = Some (vr_id v)) (st_versions s))"
    by (simp only: get_current_version_def one conc)
  show ?thesis
  proof (cases "chain (af_id a) s = []")
    case True
    with assms current show ?thesis by (simp add: versions_ok_def)
  next
    case False
    let ?v = "last (chain (af_id a) s)"
    from False have "?v \<in> set (st_versions s)" using last_in_set [of "chain (af_id a) s"] by (simp add: chain_def)
    with assms(1) have "fetchone (filter (\<lambda>v. vr_id v = vr_id ?v) (st_versions s)) = Some ?v"
      by (intro fetchone_key) (simp_all add: versions_ok_def)
    moreover have "af_current_version_id a = Some (vr_id ?v)" using False assms by (simp add: versions_ok_def)
    ultimately show ?thesis using False current by (simp add: eq_commute)
  qed
qed

text \<open>C38. However artifacts and versions have been added: the versions of an artifact are listed with the numbers one to \<open>n\<close>,
  and the current version is the last of them.\<close>

theorem current_version_is_latest:
  assumes "s = run_commands artifact_step cs (new_store wss)" "a \<in> set (st_artifacts s)"
  shows "map vr_version_number (get_versions (af_id a) s) = map int [1..<Suc (length (get_versions (af_id a) s))] \<and>
    get_current_version (af_id a) s =
      (if get_versions (af_id a) s = [] then None else Some (last (get_versions (af_id a) s)))"
proof -
  have ok: "versions_ok s" unfolding assms(1) by (rule artifact_runs.run_inv [OF versions_ok_new])
  with assms(2) have n: "numbered (chain (af_id a) s)" by (simp add: versions_ok_def)
  from sorted_numbered [OF n] have "get_versions (af_id a) s = chain (af_id a) s"
    by (simp add: get_versions_def chain_def)
  with n current_version_lookup [OF ok assms(2)] show ?thesis by (simp add: numbered_def)
qed

definition example_artifact_env :: artifact_env where
  "example_artifact_env =
     \<lparr>ae_workspace_root = ''/w'', ae_disk = [(''/w/f'', ''x'')], ae_sha = (\<lambda>c. c), ae_guess_type = (\<lambda>p. None)\<rparr>"

definition example_commands :: "artifact_command list" where
  "example_commands =
     [New_artifact ''j'' ''w'' ''n'' ''txt'' ''a'' 1, New_version example_artifact_env ''a'' ''f'' ''u'' None None None ''v1'' 2,
      New_version example_artifact_env ''a'' ''f'' ''u'' None None None ''v2'' 3]"

theorem current_version_is_latest_witness:
  "map_option vr_version_number (get_current_version ''a'' (run_commands artifact_step example_commands (new_store [''w'']))) =
     Some 2"
proof -
  define s where "s = run_commands artifact_step example_commands (new_store [''w''])"
  have "map af_id (st_artifacts s) = [''a'']" "map vr_version_number (get_versions ''a'' s) = [1, 2]"
    unfolding s_def by code_simp+
  then obtain a u v where "a \<in> set (st_artifacts s)" "af_id a = ''a''" "get_versions ''a'' s = [u, v]"
    "vr_version_number v = 2" by (auto simp: map_eq_Cons_conv)
  with current_version_is_latest [OF s_def, of a] show ?thesis unfolding s_def [symmetric] by simp
qed

section \<open>What a structural diff reports\<close>

text \<open>Every slide of the two presentations is in exactly one of the four lists.\<close>

theorem structural_diff_partitions:
  assumes "diff_of_slides from_ver to_ver from_slides to_slides = (Structural_diff f t n m added removed changed unchanged, summary)"
  shows "mset (added @ removed @ map fst changed @ unchanged) = mset [0..<max (length from_slides) (length to_slides)] \<and>
    set added = {length from_slides..<length to_slides} \<and> set removed = {length to_slides..<length from_slides} \<and>
    (\<forall>(i, cs) \<in> set changed. cs = compare_slide_shapes (from_slides ! i) (to_slides ! i) \<and> cs \<noteq> []) \<and>
    (\<forall>i \<in> set unchanged. compare_slide_shapes (from_slides ! i) (to_slides ! i) = [])"
proof -
  let ?n = "length from_slides" and ?m = "length to_slides"
  let ?is = "[0..<max ?n ?m]"
  let ?compared = "map (\<lambda>i. (i, compare_slide_shapes (from_slides ! i) (to_slides ! i))) (filter (\<lambda>i. i < ?n \<and> i < ?m) ?is)"
  from assms have parts: "added = filter (\<lambda>i. ?n \<le> i) ?is" "removed = filter (\<lambda>i. i < ?n \<and> ?m \<le> i) ?is"
    "changed = filter (\<lambda>(i, cs). cs \<noteq> []) ?compared" "unchanged = map fst (filter (\<lambda>(i, cs). cs = []) ?compared)"
    by (auto simp: diff_of_slides_def Let_def)
  have both_kinds: "mset (map fst (filter (\<lambda>(i, cs). cs \<noteq> []) l) @ map fst (filter (\<lambda>(i, cs). cs = []) l)) = mset (map fst l)"
    for l :: "(nat \<times> change list) list"
    by (induction l) auto
  have "mset (map fst changed @ unchanged) = mset (map fst ?compared)"
    unfolding parts(3,4) by (rule both_kinds)
  also have "map fst ?compared = filter (\<lambda>i. i < ?n \<and> i < ?m) ?is" by (simp add: comp_def)
  finally have both: "mset (map fst changed @ unchanged) = mset (filter (\<lambda>i. i < ?n \<and> i < ?m) ?is)" .
  have split: "mset (filter (\<lambda>i. ?n \<le> i) is) + mset (filter (\<lambda>i. i < ?n \<and> ?m \<le> i) is) +
      mset (filter (\<lambda>i. i < ?n \<and> i < ?m) is) = mset is" for "is" :: "nat list"
    by (induction "is") auto
  have "mset (added @ removed @ map fst changed @ unchanged) = mset ?is"
    using split [of ?is] both unfolding parts(1,2) by (simp only: mset_append add.assoc)
  moreover have "set added = {?n..<?m}" "set removed = {?m..<?n}" unfolding parts(1,2) by auto
  moreover have "\<forall>(i, cs) \<in> set changed. cs = compare_slide_shapes (from_slides ! i) (to_slides ! i) \<and> cs \<noteq> []"
    unfolding parts(3) by auto
  moreover have "\<forall>i \<in> set unchanged. compare_slide_shapes (from_slides ! i) (to_slides ! i) = []"
    unfolding parts(4) by auto
  ultimately show ?thesis by blast
qed


theorem structural_diff_partitions_witness:
  "(\<exists>f t n m added removed changed unchanged. fst (diff_of_slides v v [[]] [[], []]) =
      Structural_diff f t n m added removed changed unchanged \<and> set added = {1})"
proof -
  obtain f t n m added removed changed unchanged summary where
    d: "diff_of_slides v v [[]] [[], []] = (Structural_diff f t n m added removed changed unchanged, summary)"
    by (simp add: diff_of_slides_def Let_def)
  from structural_diff_partitions [OF d] have "set added = {1}" by auto
  with d show ?thesis by auto
qed

lemma by_key_distinct:
  assumes "distinct (map k shapes)"
  shows "by_key k shapes = map (\<lambda>sh. (k sh, sh)) shapes"
proof -
  have "fold (\<lambda>sh. dict_put (k sh) sh) shapes acc = acc @ map (\<lambda>sh. (k sh, sh)) shapes"
    if "distinct (map fst acc @ map k shapes)" for acc
    using that assms
  proof (induction shapes arbitrary: acc)
    case (Cons sh shapes)
    then have "k sh \<notin> fst ` set acc" by auto
    then have "dict_put (k sh) sh acc = acc @ [(k sh, sh)]" by (simp add: dict_put_def)
    with Cons show ?case by simp
  qed simp
  from this [of "[]"] assms show ?thesis by (simp add: by_key_def)
qed

lemma by_key_lookup:
  assumes "distinct (map k shapes)"
  shows "map_of (by_key k shapes) x = Some sh \<longleftrightarrow> sh \<in> set shapes \<and> k sh = x"
proof -
  have "distinct (map fst (map (\<lambda>sh. (k sh, sh)) shapes))" using assms by (simp add: comp_def)
  then show ?thesis unfolding by_key_distinct [OF assms] by (auto simp: map_of_eq_Some_iff)
qed

lemma by_key_miss:
  assumes "distinct (map k shapes)"
  shows "map_of (by_key k shapes) x = None \<longleftrightarrow> (\<forall>sh \<in> set shapes. k sh \<noteq> x)"
  using by_key_lookup [OF assms, of x] by (metis not_None_eq)

text \<open>C39. When the names on each slide are distinct, and equal fingerprints mean equal names, a slide is reported unchanged
  exactly when it has the same shapes with the same texts.\<close>

theorem unchanged_slide_iff:
  assumes "distinct (map sh_name from_slide)" "distinct (map sh_name to_slide)"
    and "\<forall>a \<in> set (from_slide @ to_slide). \<forall>b \<in> set (from_slide @ to_slide).
      sh_fingerprint a = sh_fingerprint b \<longrightarrow> sh_name a = sh_name b"
  shows "compare_slide_shapes from_slide to_slide = [] \<longleftrightarrow> set from_slide = set to_slide"
proof -
  have fps: "distinct (map sh_fingerprint l)" if "distinct (map sh_name l)" "set l \<subseteq> set (from_slide @ to_slide)" for l
  proof -
    from that(1) have l: "distinct l" "inj_on sh_name (set l)" by (simp_all add: distinct_map)
    have "inj_on sh_fingerprint (set l)"
    proof (rule inj_onI)
      fix a b assume ab: "a \<in> set l" "b \<in> set l" "sh_fingerprint a = sh_fingerprint b"
      with assms(3) that(2) have "sh_name a = sh_name b" by blast
      with inj_onD [OF l(2)] ab(1,2) show "a = b" by blast
    qed
    with l(1) show ?thesis by (simp add: distinct_map)
  qed
  have f: "distinct (map sh_fingerprint from_slide)" "distinct (map sh_fingerprint to_slide)"
    using fps assms(1,2) by simp_all
  note look = by_key_lookup [OF f(1)] by_key_lookup [OF f(2)] by_key_lookup [OF assms(1)] by_key_lookup [OF assms(2)]
    by_key_miss [OF f(1)] by_key_miss [OF f(2)] by_key_miss [OF assms(1)] by_key_miss [OF assms(2)]
  have same: "a = b" if "a \<in> set from_slide" "b \<in> set to_slide" "sh_fingerprint a = sh_fingerprint b" "sh_text a = sh_text b"
    for a b
    using that assms(3) by (intro shape.equality) simp_all
  let ?to = "by_key sh_fingerprint to_slide" and ?from = "by_key sh_fingerprint from_slide"
  have none: "compare_slide_shapes from_slide to_slide = [] \<longleftrightarrow>
      (\<forall>a \<in> set from_slide. common_change ?to (sh_fingerprint a, a) = [] \<and>
         removed_change ?from ?to (by_key sh_name to_slide) (sh_fingerprint a, a) = []) \<and>
      (\<forall>b \<in> set to_slide. added_change ?from (by_key sh_name from_slide) (sh_fingerprint b, b) = [])"
    unfolding compare_slide_shapes_def Let_def using by_key_distinct [OF f(1)] by_key_distinct [OF f(2)] by auto
  show ?thesis
  proof
    assume "compare_slide_shapes from_slide to_slide = []"
    note silent = this [unfolded none]
    have sub: "a \<in> set to_slide" if a: "a \<in> set from_slide" for a
    proof (cases "map_of ?to (sh_fingerprint a)")
      case (Some b)
      with silent a have "sh_text a = sh_text b" by (auto simp: common_change_def split: if_splits)
      with Some same [OF a, of b] look(2) show ?thesis by auto
    next
      case None
      from silent a have r: "removed_change ?from ?to (by_key sh_name to_slide) (sh_fingerprint a, a) = []" by blast
      with None obtain b where b: "map_of (by_key sh_name to_slide) (sh_name a) = Some b"
        "map_of ?from (sh_fingerprint b) \<noteq> None"
        by (auto simp: removed_change_def split: option.splits if_splits)
      then obtain c where c: "c \<in> set from_slide" "sh_fingerprint c = sh_fingerprint b" using look(1) by auto
      from b(1) look(4) have "b \<in> set to_slide" "sh_name b = sh_name a" by auto
      moreover from this(1) c assms(3) have "sh_name c = sh_name b" by (metis UnI1 UnI2 set_append)
      ultimately have "sh_name c = sh_name a" by simp
      with unique_key_eq [OF assms(1) c(1) a] have "c = a" by simp
      with c(2) \<open>b \<in> set to_slide\<close> None look(6) show ?thesis by auto
    qed
    have "b \<in> set from_slide" if b: "b \<in> set to_slide" for b
    proof -
      from silent b have "map_of ?from (sh_fingerprint b) \<noteq> None \<or> map_of (by_key sh_name from_slide) (sh_name b) \<noteq> None"
        by (auto simp: added_change_def split: if_splits)
      then obtain a where a: "a \<in> set from_slide" "sh_name a = sh_name b" using look(1,3) assms(3) b by auto
      with unique_key_eq [OF assms(2) sub [OF a(1)] b] show ?thesis by simp
    qed
    with sub show "set from_slide = set to_slide" by blast
  next
    assume eq: "set from_slide = set to_slide"
    have "map_of ?to (sh_fingerprint a) = Some a" "map_of ?from (sh_fingerprint a) = Some a" if "a \<in> set from_slide" for a
      using that eq look(1,2) by auto
    then show "compare_slide_shapes from_slide to_slide = []"
      unfolding none using eq by (auto simp: common_change_def removed_change_def added_change_def)
  qed
qed

definition example_shape :: "string \<Rightarrow> string \<Rightarrow> string \<Rightarrow> shape" where
  "example_shape n fp t = \<lparr>sh_name = n, sh_fingerprint = fp, sh_text = t\<rparr>"

theorem unchanged_slide_iff_witness:
  "compare_slide_shapes [example_shape ''a'' ''1'' ''x''] [example_shape ''a'' ''1'' ''y''] \<noteq> []"
  using unchanged_slide_iff [of "[example_shape ''a'' ''1'' ''x'']" "[example_shape ''a'' ''1'' ''y'']"]
  by (simp add: example_shape_def)

section \<open>Observations\<close>

text \<open>Two shapes of one name: deleting one of them, or adding another, is not reported.\<close>

lemma deleted_namesake_unreported:
  "compare_slide_shapes [example_shape ''Text'' ''1'' ''x'', example_shape ''Text'' ''2'' ''y''] [example_shape ''Text'' ''1'' ''x''] = []"
  by code_simp

lemma added_namesake_unreported:
  "compare_slide_shapes [example_shape ''Text'' ''1'' ''x''] [example_shape ''Text'' ''1'' ''x'', example_shape ''Text'' ''2'' ''y''] = []"
  by code_simp

text \<open>An added line that starts with two plus signs is not counted.\<close>

lemma plus_line_not_counted: "added_lines [''+'' @ ''++i;''] = 0"
  by code_simp

text \<open>A version of an unknown artifact is refused by the foreign key, not by a check.\<close>

lemma unknown_artifact_integrity_error:
  assumes "fs_get (ae_disk env) (version_path env p) \<noteq> None" "k \<notin> vr_id ` set (st_versions s)" "i \<notin> af_id ` set (st_artifacts s)"
  shows "add_version env i p by na par md k now s = Inl (IntegrityError ''FOREIGN KEY artifact_versions.artifact_id'')"
  using assms by (auto simp: add_version_def Let_def)

end
