(* ===== verification/Spec2Isabelle.thy ===== *)
theory Spec2Isabelle
  imports Swarm_Task_Queue Resource_Lock Shared_Memory Message_Bus Job_Queue Error_Strategy
    Gpu_Manager Worker_Runs Executor_Logic Reviewer Scheduler Token_Budget Coordinator Model_Selector
    Access_Control Audit_Log Recycle_Bin Artifacts
begin

text \<open>
  A verification development for the job and swarm back end of LocalMind (\<^verbatim>\<open>src/backend\<close>).

  \<^bold>\<open>The program.\<close> Jobs are planned into nodes, nodes are run with a language model and tools, and the
  result is reviewed. The state lives in one SQLite file that several Python classes share. Around the
  pipeline stand a delegation engine that spawns trees of child jobs, stores that agents of a tree
  share (locks, memory, messages), a manager for the memory of the GPU, a durable log of executions,
  and a policy engine that is asked before every tool call.

  \<^bold>\<open>Theories.\<close>
  \<^item> \<open>Prelude\<close>: identifiers, exceptions as values, JSON, SQL statements on lists of rows, strings, runs of
    commands and the locale \<open>store_machine\<close> that lifts an invariant to them.
  \<^item> \<open>Py_Heapq\<close>, \<open>Std_Text\<close>: what the code uses of Python's \<^verbatim>\<open>heapq\<close>, \<^verbatim>\<open>fnmatch\<close>, \<^verbatim>\<open>urllib.parse\<close>.
  \<^item> \<open>Schema\<close> (\<^verbatim>\<open>core/schema.py\<close>): the shared tables and the constraints SQLite enforces.
  \<^item> \<open>Swarm_Task_Queue\<close> (\<^verbatim>\<open>swarm/task_queue.py\<close>), \<open>Resource_Lock\<close> (\<^verbatim>\<open>swarm/resource_lock.py\<close>),
    \<open>Shared_Memory\<close> (\<^verbatim>\<open>swarm/shared_memory.py\<close>), \<open>Message_Bus\<close> (\<^verbatim>\<open>swarm/messaging.py\<close>),
    \<open>Coordinator\<close> (\<^verbatim>\<open>swarm/coordinator.py\<close>): the workers on the queue as a step relation.
  \<^item> \<open>Delegation_Tree\<close>, \<open>Delegation\<close> (\<^verbatim>\<open>swarm/delegation.py\<close>): the relation as a graph, climbing to the
    root, recursion over a subtree; then the engine and its limits.
  \<^item> \<open>Job_Models\<close> (\<^verbatim>\<open>jobs/models.py\<close>), \<open>Job_Queue\<close> (\<^verbatim>\<open>jobs/queue.py\<close>): rows, objects, and every method
    of the queue.
  \<^item> \<open>Execution\<close> (\<^verbatim>\<open>core/execution.py\<close>), \<open>Error_Strategy\<close> (\<^verbatim>\<open>core/error_strategy.py\<close>),
    \<open>Gpu_Manager\<close> (\<^verbatim>\<open>core/gpu_manager.py\<close>), \<open>Scheduler\<close> (\<^verbatim>\<open>core/scheduler.py\<close>),
    \<open>Token_Budget\<close> (\<^verbatim>\<open>core/token_budget.py\<close>), \<open>Policy\<close> (\<^verbatim>\<open>core/policy.py\<close>).
  \<^item> \<open>Plan_Cycles\<close>, \<open>Planner\<close> (\<^verbatim>\<open>jobs/planner.py\<close>): the depth-first search for cycles; the planner, with the
    specification \<open>valid_plan\<close> that its validation is equivalent to.
  \<^item> \<open>Py_Regex\<close>, \<open>Paths\<close> (\<^verbatim>\<open>security/paths.py\<close>), \<open>Prompt_Guard\<close> (\<^verbatim>\<open>security/prompt_guard.py\<close>),
    \<open>Tool_Dispatcher\<close> (\<^verbatim>\<open>logic/tool_dispatcher.py\<close>): a matcher for the regular expressions of the code, equivalent
    to a declarative relation; the path jail, file names and uploads; the layers of the prompt guard;
    tool calls found in the text of a model or inferred from a request.
  \<^item> \<open>Coroutine\<close>, \<open>Executor\<close>, \<open>Executor_Logic\<close> (\<^verbatim>\<open>jobs/executor.py\<close>): actions with exceptions, and the triples and
    kept relations about them; the agent loop of a node with its checks of tool calls; its limits.
  \<^item> \<open>Model_Selector\<close> (\<^verbatim>\<open>inference/model_selector.py\<close>, \<^verbatim>\<open>inference/lora_manager.py\<close>): tiers, adapters and sample counts.
  \<^item> \<open>Access_Control\<close> (\<^verbatim>\<open>security/auth.py\<close>, \<^verbatim>\<open>security/rbac.py\<close>, the middleware of \<^verbatim>\<open>server.py\<close>, the key routes), \<open>Audit_Log\<close>
    (\<^verbatim>\<open>core/audit.py\<close>): API keys, rate limit and roles on the way of a request; the audit log and its alerts.
  \<^item> \<open>Recycle_Bin\<close> (\<^verbatim>\<open>security/recycle_bin.py\<close>), \<open>Artifacts\<close> (\<^verbatim>\<open>core/artifacts.py\<close>): the bin as a step relation on a disk;
    artifact versions, previews and diffs.
  \<^item> \<open>Reviewer\<close> (\<^verbatim>\<open>jobs/reviewer.py\<close>): the three tiers of the review gate.
  \<^item> \<open>Plan_Execution\<close>, \<open>Worker\<close>, \<open>Worker_Logic\<close>, \<open>Worker_Runs\<close> (\<^verbatim>\<open>jobs/worker.py\<close>): the graph of created nodes;
    the coroutines of the worker as actions on a world; what holds of every outcome, by relations that
    all actions keep and by triples; concrete runs, and the way from a valid plan to completed nodes.
  This theory holds the properties that span components.

  \<^bold>\<open>Correspondence.\<close> A table is the list of its rows, a method a function from the arguments, the fresh
  identifiers and clock readings it draws, and the old tables to its result and the new tables. One
  method is one transaction; where a method commits in several, the model returns the tables also when
  it raises. A raise is \<open>Inl\<close> with the exception. Statuses are the strings of the columns. A column of JSON
  holds the value or a text that does not parse. Prices and floats are reals. A coroutine of the worker
  is a function on a world that holds the database, the worker and a count of the readings of the
  outside; at every await the environment may change the database and stop the worker.

  \<^bold>\<open>Bounds and fuel.\<close> Python's recursion limit is a fuel argument whose exhaustion is
  \<open>RecursionError\<close>; lemmas show how much suffices (the depth limit for a tree, one more than the number
  of delegations for any forest). The 50 steps of the message bus and the
  polling rounds of a wait are those of the code. Limits read from the environment have their defaults.

  \<^bold>\<open>Not modelled.\<close> HTTP routes, language model and embedding calls, tools, file contents, cryptography,
  symbolic links, characters beyond Latin-1 in the filters, the user interface, DDL and migrations; texts of log messages and notifications.
\<close>

section \<open>Cancelling a tree, across the queue, the cancellation manager and the delegation engine\<close>

lemma fold_complete_cancellation:
  "ex_db (fold (\<lambda>i. complete_cancellation i now tag ok) ids s) =
     (ex_db s)\<lparr>db_jobs := map (\<lambda>r. if jr_id r \<in> set ids
        then r\<lparr>jr_status := ''cancelled'', jr_updated_at := Some now\<rparr> else r) (db_jobs (ex_db s))\<rparr>"
proof (induction ids arbitrary: s)
  case Nil
  then show ?case by simp
next
  case (Cons i ids)
  have "ex_db (complete_cancellation i now tag ok s) =
      (ex_db s)\<lparr>db_jobs := sql_update (\<lambda>r. jr_id r = i)
        (\<lambda>r. r\<lparr>jr_status := ''cancelled'', jr_updated_at := Some now\<rparr>) (db_jobs (ex_db s))\<rparr>"
    by (simp add: complete_cancellation_def recycle_job_dir_def)
  with Cons show ?case by (auto simp: sql_update_def)
qed

text \<open>C13. Cancelling a delegation tree works across the components: \<open>cancel_job\<close> with cascade ends
  without an error, the cancellation manager then sees every job of the tree as cancelling, and once
  each of them has been finalised the delegation engine finds the tree complete.\<close>

theorem cancelled_tree_completes:
  assumes "deleg_inv d" "db_wf d" "MAX_DELEGATION_DEPTH \<le> f"
    and "cancel_job f now j True d = (err, ex_db s)"
    and "(edges (db_delegation d))\<^sup>* `` {j} \<subseteq> set ids"
  shows "err = None \<and>
    (\<forall>r \<in> set (db_jobs d). jr_id r \<in> (edges (db_delegation d))\<^sup>* `` {j} \<longrightarrow> is_cancelling s (jr_id r)) \<and>
    is_tree_complete f (ex_db (fold (\<lambda>i. complete_cancellation i later tag ok) ids s)) j = Inr True"
proof (intro conjI ballI impI)
  let ?D = "(edges (db_delegation d))\<^sup>* `` {j}"
  from subtree_within_limits [OF assms(1,3)] obtain xs where
    xs: "subtree_ids f (db_delegation d) j = Some xs" by blast
  have set_xs: "set xs = ?D" by (rule subtree_ids_descendants [OF xs])
  from cancel_job_cascade_effect [OF xs] assms(4) have "err = None" and
    s: "ex_db s = d\<lparr>db_jobs := map (\<lambda>r. if jr_id r \<in> ?D
        then r\<lparr>jr_status := ''cancelling'', jr_error := None, jr_result_summary := None,
                jr_updated_at := Some now\<rparr> else r) (db_jobs d)\<rparr>"
    by (auto simp: fold_set_cancelling set_xs)
  then show "err = None" by simp
  have dist: "distinct (map jr_id (db_jobs d))" using assms(2) by (simp add: db_wf_def)
  have ids_s: "map jr_id (db_jobs (ex_db s)) = map jr_id (db_jobs d)" unfolding s by simp
  show "is_cancelling s (jr_id r)" if r: "r \<in> set (db_jobs d)" "jr_id r \<in> ?D" for r
  proof -
    let ?r = "r\<lparr>jr_status := ''cancelling'', jr_error := None, jr_result_summary := None,
                jr_updated_at := Some now\<rparr>"
    have "?r \<in> set (db_jobs (ex_db s))" unfolding s using r by (auto simp: image_iff intro!: bexI [of _ r])
    moreover have "distinct (map jr_id (db_jobs (ex_db s)))" using dist ids_s by simp
    ultimately have "fetchone (filter (\<lambda>q. jr_id q = jr_id ?r) (db_jobs (ex_db s))) = Some ?r"
      by (intro fetchone_key)
    then show ?thesis by (simp add: is_cancelling_def)
  qed
  let ?e = "ex_db (fold (\<lambda>i. complete_cancellation i later tag ok) ids s)"
  have rows: "db_delegation ?e = db_delegation d" unfolding fold_complete_cancellation by (simp add: s)
  have "map jr_id (db_jobs ?e) = map jr_id (db_jobs (ex_db s))" unfolding fold_complete_cancellation by simp
  with ids_s have keys: "map jr_id (db_jobs ?e) = map jr_id (db_jobs d)" by simp
  have terminal: "jr_status r \<in> terminal_statuses" if "r \<in> set (db_jobs ?e)" "jr_id r \<in> set xs" for r
    using that set_xs assms(5) unfolding fold_complete_cancellation
    by (auto simp: terminal_statuses_def split: if_splits)
  have "jr_id ` set (db_jobs ?e) = jr_id ` set (db_jobs d)" using keys by (metis list.set_map)
  then have "check_complete f ?e j =
      Inr (\<forall>r \<in> set (db_jobs ?e). jr_id r \<in> set xs \<longrightarrow> jr_status r \<in> terminal_statuses)"
    using assms(1) xs dist rows keys by (intro check_complete_value) (simp_all add: deleg_inv_def)
  with terminal show "is_tree_complete f ?e j = Inr True" by (simp add: is_tree_complete_def)
qed


definition cancelled_example :: exec_state where
  "cancelled_example = new_exec_state (snd (cancel_job 5 9 ''a'' True example_db))"

theorem cancelled_tree_completes_witness:
  "is_tree_complete 5 (ex_db (fold (\<lambda>i. complete_cancellation i 10 ''x'' True) [''a'', ''b''] cancelled_example)) ''a'' =
     Inr True"
proof -
  have "db_wf example_db" "MAX_DELEGATION_DEPTH \<le> 5"
    by (simp_all add: db_wf_def example_db_def empty_db_def plain_job_def spawned_job_def MAX_DELEGATION_DEPTH_def)
  moreover have "cancel_job 5 9 ''a'' True example_db =
      (fst (cancel_job 5 9 ''a'' True example_db), ex_db cancelled_example)"
    by (simp add: cancelled_example_def new_exec_state_def)
  moreover have "subtree_ids 5 (db_delegation example_db) ''a'' = Some [''a'', ''b'']" by code_simp
  from subtree_ids_descendants [OF this]
  have "(edges (db_delegation example_db))\<^sup>* `` {''a''} \<subseteq> set [''a'', ''b'']" by simp
  ultimately show ?thesis using cancelled_tree_completes [OF example_db_inv] by blast
qed

end
